(* ===== verification/Prelude.thy ===== *)
theory Prelude
  imports
    "HOL-Library.Word"
    "HOL-Library.Product_Lexorder"
    "HOL-Library.Multiset"
begin

section \<open>Prelude: machine integers, results and SQL tables\<close>

text \<open>
  What every component of the model shares.

  \<^item> Machine integers.  A Rust \<open>u32\<close>/\<open>u64\<close> is a \<open>32 word\<close>/\<open>64 word\<close>; arithmetic on it
    wraps, which is what the release profile of the crate does.  SQLite INTEGER columns
    hold signed 64-bit values and are modelled as \<open>int\<close>; \<open>as_i64\<close> and \<open>as_u64\<close> are the
    casts \<open>as i64\<close> and \<open>as u64\<close> the code writes at that boundary.
  \<^item> Results.  A fallible Rust function returns \<open>Inl error\<close> or \<open>Inr value\<close>.
  \<^item> SQL.  A table is the list of its rows; SELECT, UPDATE, DELETE, ORDER BY and LIMIT 1 are
    the list functions below, with the laws the components use about them.
\<close>

type_synonym u32 = "32 word"
type_synonym u64 = "64 word"
type_synonym str = string

named_theorems sql_simps "rewrite rules for SQL statements on tables"
named_theorems str_simps "rewrite rules for Rust string operations"

subsection \<open>Integer casts and saturating arithmetic\<close>

definition as_i64 :: "u64 \<Rightarrow> int" where
  "as_i64 w = sint w"

definition as_u64 :: "int \<Rightarrow> u64" where
  "as_u64 i = word_of_int i"

lemma as_u64_as_i64 [simp]: "as_u64 (as_i64 w) = w"
  by (simp add: as_u64_def as_i64_def)

lemma as_i64_inject [simp]: "as_i64 a = as_i64 b \<longleftrightarrow> a = b"
  by (metis as_u64_as_i64)

definition in_i64 :: "int \<Rightarrow> bool" where
  "in_i64 i \<longleftrightarrow> - (2 ^ 63) \<le> i \<and> i < 2 ^ 63"

lemma in_i64_as_i64 [simp]: "in_i64 (as_i64 w)"
  using sint_range_size [of w] by (simp add: in_i64_def as_i64_def word_size)

lemma as_i64_as_u64 [simp]: "in_i64 i \<Longrightarrow> as_i64 (as_u64 i) = i"
  by (simp add: in_i64_def as_i64_def as_u64_def signed_of_int signed_take_bit_int_eq_self)

definition saturating_add_u64 :: "u64 \<Rightarrow> u64 \<Rightarrow> u64" where
  "saturating_add_u64 a b = (if unat a + unat b < 2 ^ 64 then a + b else - 1)"

definition saturating_sub_u64 :: "u64 \<Rightarrow> u64 \<Rightarrow> u64" where
  "saturating_sub_u64 a b = (if b \<le> a then a - b else 0)"

lemma unat_u32_less: "unat (n :: u32) < 2 ^ 32"
proof -
  have "(unsigned n :: nat) < 2 ^ LENGTH(32)" by (rule unsigned_less)
  then show ?thesis by simp
qed

lemma unat_u64_less: "unat (n :: u64) < 2 ^ 64"
proof -
  have "(unsigned n :: nat) < 2 ^ LENGTH(64)" by (rule unsigned_less)
  then show ?thesis by simp
qed

lemma unat_drop_bit_div: "unat (drop_bit n (w :: 'a::len word)) = unat w div 2 ^ n"
  by (subst unat_drop_bit_eq) (rule drop_bit_eq_div)

lemma unat_minus_one_u64: "unat (- 1 :: u64) = 2 ^ 64 - 1"
  by (simp add: unsigned_minus_1_eq_mask mask_eq_exp_minus_1)

lemma unat_saturating_add_u64:
  "unat (saturating_add_u64 a b) = min (unat a + unat b) (2 ^ 64 - 1)"
proof (cases "unat a + unat b < 2 ^ 64")
  case True
  then have "unat (a + b) = unat a + unat b"
    by (subst unat_add_lem [THEN iffD1]) simp_all
  with True show ?thesis by (simp add: saturating_add_u64_def)
next
  case False
  then show ?thesis by (simp add: saturating_add_u64_def unat_minus_one_u64)
qed

lemma unat_saturating_sub_u64:
  "unat (saturating_sub_u64 a b) = unat a - unat b"
  by (auto simp: saturating_sub_u64_def unat_sub word_le_nat_alt)

subsection \<open>Results\<close>

fun bind_res :: "'e + 'a \<Rightarrow> ('a \<Rightarrow> 'e + 'b) \<Rightarrow> 'e + 'b" where
  "bind_res (Inl e) f = Inl e"
| "bind_res (Inr a) f = f a"

lemma bind_res_eq_Inr:
  "bind_res m f = Inr b \<longleftrightarrow> (\<exists>a. m = Inr a \<and> f a = Inr b)"
  by (cases m) auto

subsection \<open>Tables\<close>

definition sql_update :: "('r \<Rightarrow> bool) \<Rightarrow> ('r \<Rightarrow> 'r) \<Rightarrow> 'r list \<Rightarrow> 'r list" where
  "sql_update p f t = map (\<lambda>r. if p r then f r else r) t"

definition sql_delete :: "('r \<Rightarrow> bool) \<Rightarrow> 'r list \<Rightarrow> 'r list" where
  "sql_delete p t = filter (\<lambda>r. \<not> p r) t"

text \<open>\<open>ORDER BY k ASC LIMIT 1\<close> and \<open>ORDER BY k DESC LIMIT 1\<close> on the selected rows.\<close>

definition sql_first_asc :: "('r \<Rightarrow> 'k::linorder) \<Rightarrow> 'r list \<Rightarrow> 'r option" where
  "sql_first_asc k t = (case sort_key k t of [] \<Rightarrow> None | r # _ \<Rightarrow> Some r)"

definition sql_first_desc :: "('r \<Rightarrow> 'k::linorder) \<Rightarrow> 'r list \<Rightarrow> 'r option" where
  "sql_first_desc k t = (case rev (sort_key k t) of [] \<Rightarrow> None | r # _ \<Rightarrow> Some r)"

text \<open>\<open>INSERT OR REPLACE\<close> and \<open>INSERT OR IGNORE\<close> on a table whose primary key is \<open>k\<close>.\<close>

definition sql_replace :: "('r \<Rightarrow> 'k) \<Rightarrow> 'r \<Rightarrow> 'r list \<Rightarrow> 'r list" where
  "sql_replace k r t = sql_delete (\<lambda>x. k x = k r) t @ [r]"

definition sql_ignore :: "('r \<Rightarrow> 'k) \<Rightarrow> 'r \<Rightarrow> 'r list \<Rightarrow> 'r list" where
  "sql_ignore k r t = (if \<exists>x \<in> set t. k x = k r then t else t @ [r])"

text \<open>
  The rowid SQLite gives the next row of a table without AUTOINCREMENT: one more than the
  largest rowid in use, and 1 in an empty table.
\<close>

definition next_rowid :: "('r \<Rightarrow> int) \<Rightarrow> 'r list \<Rightarrow> int" where
  "next_rowid k t = (if t = [] then 1 else 1 + Max (k ` set t))"

lemma next_rowid_gt: "r \<in> set t \<Longrightarrow> k r < next_rowid k t"
proof -
  assume r: "r \<in> set t"
  then have "k r \<le> Max (k ` set t)" by simp
  moreover have "t \<noteq> []" using r by auto
  ultimately show ?thesis by (simp add: next_rowid_def)
qed

lemma set_sql_delete [sql_simps]: "set (sql_delete p t) = {r \<in> set t. \<not> p r}"
  by (simp add: sql_delete_def)

lemma set_sql_update [sql_simps]:
  "set (sql_update p f t) = (\<lambda>r. if p r then f r else r) ` set t"
  by (simp add: sql_update_def)

lemma sql_update_append [sql_simps]:
  "sql_update p f (xs @ ys) = sql_update p f xs @ sql_update p f ys"
  by (simp add: sql_update_def)

lemma sql_update_Nil [sql_simps]: "sql_update p f [] = []"
  by (simp add: sql_update_def)

lemma sql_update_Cons [sql_simps]:
  "sql_update p f (x # xs) = (if p x then f x else x) # sql_update p f xs"
  by (simp add: sql_update_def)

lemma sql_update_none: "(\<And>x. x \<in> set t \<Longrightarrow> \<not> p x) \<Longrightarrow> sql_update p f t = t"
  by (simp add: sql_update_def map_idI)

lemma map_sql_update:
  "(\<And>r. p r \<Longrightarrow> g (f r) = g r) \<Longrightarrow> map g (sql_update p f t) = map g t"
  by (simp add: sql_update_def)

lemma set_sql_replace [sql_simps]:
  "set (sql_replace k r t) = insert r {x \<in> set t. k x \<noteq> k r}"
  by (auto simp: sql_replace_def set_sql_delete)

lemma set_sql_ignore_subset: "set (sql_ignore k r t) \<subseteq> insert r (set t)"
  by (auto simp: sql_ignore_def)

lemma distinct_sql_replace: "distinct (map k t) \<Longrightarrow> distinct (map k (sql_replace k r t))"
  by (auto simp: sql_replace_def sql_delete_def distinct_map_filter)

lemma distinct_sql_ignore: "distinct (map k t) \<Longrightarrow> distinct (map k (sql_ignore k r t))"
  by (auto simp: sql_ignore_def)

lemma distinct_sql_delete: "distinct (map k t) \<Longrightarrow> distinct (map k (sql_delete p t))"
  by (simp add: sql_delete_def distinct_map_filter)

subsection \<open>Sorting by a key\<close>

lemma sort_key_map:
  assumes "\<And>x. x \<in> set xs \<Longrightarrow> f (g x) = f x"
  shows "sort_key f (map g xs) = map g (sort_key f xs)"
proof -
  have ins: "insort_key f (g x) (map g ys) = map g (insort_key f x ys)"
    if "f (g x) = f x" "\<And>y. y \<in> set ys \<Longrightarrow> f (g y) = f y" for x ys
    using that by (induction ys) auto
  show ?thesis
    using assms
  proof (induction xs)
    case (Cons x xs)
    then have "insort_key f (g x) (map g (sort_key f xs)) = map g (insort_key f x (sort_key f xs))"
      by (intro ins) auto
    with Cons show ?case by simp
  qed simp
qed

lemma sort_key_eq_Nil: "sort_key f xs = [] \<longleftrightarrow> xs = []"
  by (metis set_sort set_empty)

lemma sort_key_split:
  assumes d: "distinct (map f xs)" and r: "r \<in> set xs"
  shows "sort_key f xs =
    sort_key f (filter (\<lambda>x. f x < f r) xs) @ r # sort_key f (filter (\<lambda>x. f r < f x) xs)"
    (is "_ = ?l @ r # ?h")
proof (rule sort_key_inj_key_eq)
  have "filter (\<lambda>x. f x = f r) xs = [r]"
    using d r by (induction xs) (auto simp: filter_empty_conv image_iff)
  then have eq: "mset (filter (\<lambda>x. f x = f r) xs) = {#r#}" by simp
  have parts: "mset xs = mset (filter (\<lambda>x. f x < f r) xs) + mset (filter (\<lambda>x. f x = f r) xs)
      + mset (filter (\<lambda>x. f r < f x) xs)"
  proof (induction xs)
    case (Cons a xs)
    then show ?case by (cases "f a" "f r" rule: linorder_cases) (auto dest: less_imp_neq)
  qed simp
  have "mset (?l @ r # ?h) = mset (filter (\<lambda>x. f x < f r) xs) + {#r#}
      + mset (filter (\<lambda>x. f r < f x) xs)"
    by simp
  with parts eq show "mset xs = mset (?l @ r # ?h)" by (simp only:)
  show "inj_on f (set xs)" using d by (simp add: distinct_map)
  show "sorted (map f (?l @ r # ?h))"
    by (auto simp: sorted_append)
qed

lemma sort_key_split_absent:
  assumes d: "distinct (map f xs)" and c: "c \<notin> f ` set xs"
  shows "sort_key f xs =
    sort_key f (filter (\<lambda>x. f x < c) xs) @ sort_key f (filter (\<lambda>x. c < f x) xs)"
    (is "_ = ?l @ ?h")
proof (rule sort_key_inj_key_eq)
  have parts: "mset xs = mset (filter (\<lambda>x. f x < c) xs) + mset (filter (\<lambda>x. c < f x) xs)"
    using c
  proof (induction xs)
    case (Cons a xs)
    then show ?case by (cases "f a" "c" rule: linorder_cases) (auto dest: less_imp_neq)
  qed simp
  have "mset (?l @ ?h) = mset (filter (\<lambda>x. f x < c) xs) + mset (filter (\<lambda>x. c < f x) xs)"
    by simp
  with parts show "mset xs = mset (?l @ ?h)" by (simp only:)
  show "inj_on f (set xs)" using d by (simp add: distinct_map)
  show "sorted (map f (?l @ ?h))"
    by (auto simp: sorted_append)
qed

lemma sql_first_desc_last:
  "sql_first_desc f t = (if t = [] then None else Some (last (sort_key f t)))"
  by (cases "sort_key f t" rule: rev_cases)
    (auto simp: sql_first_desc_def split: list.splits dest: arg_cong [of _ _ set])

lemma sql_first_asc_hd:
  "sql_first_asc f t = (if t = [] then None else Some (hd (sort_key f t)))"
  by (cases "sort_key f t")
    (auto simp: sql_first_asc_def dest: arg_cong [of _ _ set])

subsection \<open>Codecs\<close>

text \<open>
  The interface several components share: values written as text, numbers or keys and read
  back.  \<open>ok\<close> is the set of values the component writes.
\<close>

locale codec =
  fixes enc :: "'a \<Rightarrow> 'b" and dec :: "'b \<Rightarrow> 'a option" and ok :: "'a \<Rightarrow> bool"
  assumes dec_enc: "ok x \<Longrightarrow> dec (enc x) = Some x"
begin

lemma enc_inject: "ok x \<Longrightarrow> ok y \<Longrightarrow> enc x = enc y \<longleftrightarrow> x = y"
  using dec_enc by (metis option.inject)

lemma inj_on_enc: "inj_on enc (Collect ok)"
  by (rule inj_onI) (simp add: enc_inject)

lemma distinct_enc: "list_all ok xs \<Longrightarrow> distinct xs \<Longrightarrow> distinct (map enc xs)"
  by (auto simp: distinct_map list_all_iff inj_on_def enc_inject)

lemma dec_image: "ok x \<Longrightarrow> x \<in> set xs \<Longrightarrow> \<exists>y \<in> enc ` set xs. dec y = Some x"
  using dec_enc by blast

end

subsection \<open>Keyed stores\<close>

text \<open>
  The interface between the tables and the code that writes batches into them: a row is
  written under its key and the latest row of a key is found again.  \<open>inv\<close> is what the
  table keeps, \<open>lookup\<close> what a query by key returns.
\<close>

locale keyed_store =
  fixes inv :: "'t \<Rightarrow> bool" and lookup :: "'t \<Rightarrow> 'k \<Rightarrow> 'v option"
    and upsert :: "'x \<Rightarrow> 't \<Rightarrow> 't" and key :: "'x \<Rightarrow> 'k" and val :: "'x \<Rightarrow> 'v"
  assumes inv_upsert: "inv t \<Longrightarrow> inv (upsert x t)"
    and lookup_upsert: "inv t \<Longrightarrow> lookup (upsert x t) = (lookup t)(key x \<mapsto> val x)"
begin

lemma inv_batch: "inv t \<Longrightarrow> inv (foldl (\<lambda>t x. upsert x t) t xs)"
  by (induction xs arbitrary: t) (simp_all add: inv_upsert)

lemma lookup_batch:
  "inv t \<Longrightarrow> lookup (foldl (\<lambda>t x. upsert x t) t xs) k
     = (case find (\<lambda>x. key x = k) (rev xs) of Some x \<Rightarrow> Some (val x) | None \<Rightarrow> lookup t k)"
proof (induction xs rule: rev_induct)
  case (snoc x xs)
  then show ?case using lookup_upsert [OF inv_batch, of t x xs] by auto
qed simp

lemma lookup_twice: "inv t \<Longrightarrow> lookup (upsert x (upsert x t)) = lookup (upsert x t)"
  by (simp add: lookup_upsert inv_upsert)

lemma lookup_commute:
  "inv t \<Longrightarrow> key x \<noteq> key y \<Longrightarrow> lookup (upsert x (upsert y t)) = lookup (upsert y (upsert x t))"
  by (simp add: lookup_upsert inv_upsert fun_upd_twist)

lemma batch_frame:
  assumes "inv t" and "\<forall>x \<in> set xs. key x \<noteq> k"
  shows "lookup (foldl (\<lambda>t x. upsert x t) t xs) k = lookup t k"
proof -
  have "find (\<lambda>x. key x = k) (rev xs) = None"
    using assms(2) by (simp add: find_None_iff)
  then show ?thesis by (simp add: lookup_batch [OF assms(1)])
qed

lemma batch_contains:
  assumes "inv t" and "distinct (map key xs)" and "x \<in> set xs"
  shows "lookup (foldl (\<lambda>t x. upsert x t) t xs) (key x) = Some (val x)"
proof -
  have "find (\<lambda>y. key y = key x) (rev xs) = Some x"
    using assms(2,3)
  proof (induction xs rule: rev_induct)
    case (snoc y ys)
    then show ?case by (cases "x = y") force+
  qed simp
  then show ?thesis by (simp add: lookup_batch [OF assms(1)])
qed

end

subsection \<open>The first hit of a list\<close>

text \<open>\<open>Iterator::find_map\<close>.\<close>

fun find_map :: "('a \<Rightarrow> 'b option) \<Rightarrow> 'a list \<Rightarrow> 'b option" where
  "find_map f [] = None"
| "find_map f (x # xs) = (case f x of Some y \<Rightarrow> Some y | None \<Rightarrow> find_map f xs)"

lemma find_map_Some: "find_map f xs = Some y \<Longrightarrow> \<exists>x \<in> set xs. f x = Some y"
  by (induction xs) (auto split: option.splits)

lemma find_map_None: "find_map f xs = None \<longleftrightarrow> (\<forall>x \<in> set xs. f x = None)"
  by (induction xs) (auto split: option.splits)

subsection \<open>Rows by key\<close>

definition row_of :: "('r \<Rightarrow> 'k) \<Rightarrow> 'r list \<Rightarrow> 'k \<Rightarrow> 'r option" where
  "row_of k t x = find (\<lambda>r. k r = x) t"

lemma row_of_Some: "row_of k t x = Some r \<Longrightarrow> r \<in> set t \<and> k r = x"
  by (auto simp: row_of_def find_Some_iff)

lemma row_of_unique: "distinct (map k t) \<Longrightarrow> r \<in> set t \<Longrightarrow> row_of k t (k r) = Some r"
  by (induction t) (auto simp: row_of_def image_iff)

lemma row_of_None: "row_of k t x = None \<longleftrightarrow> x \<notin> k ` set t"
  by (auto simp: row_of_def find_None_iff image_iff)

lemma row_of_append: "row_of k (s @ t) x = (case row_of k s x of Some r \<Rightarrow> Some r | None \<Rightarrow> row_of k t x)"
  by (induction s) (auto simp: row_of_def)

lemma row_of_delete: "row_of k (sql_delete (\<lambda>r. k r = x) t) y = (if y = x then None else row_of k t y)"
  by (induction t) (auto simp: row_of_def sql_delete_def)

lemma row_of_replace: "row_of k (sql_replace k r t) = (row_of k t)(k r \<mapsto> r)"
  by (rule ext) (simp add: sql_replace_def row_of_append row_of_delete row_of_def [of k "[r]"] split: option.splits)

lemma row_of_update:
  "(\<And>r. k (f r) = k r) \<Longrightarrow> row_of k (sql_update p f t) x
     = map_option (\<lambda>r. if p r then f r else r) (row_of k t x)"
  by (induction t) (auto simp: row_of_def sql_update_def)

lemma keyed_store_replace:
  "keyed_store (\<lambda>t. distinct (map k t)) (row_of k) (sql_replace k) k (\<lambda>r. r)"
  by unfold_locales (simp_all add: distinct_sql_replace row_of_replace)

end
