(* ===== verification/Rust_String.thy ===== *)
theory Rust_String
  imports Prelude
begin

section \<open>Rust strings\<close>

text \<open>
  A Rust \<open>String\<close>/\<open>&str\<close> is modelled by its UTF-8 bytes, a \<open>char list\<close>, so \<open>length\<close> is
  \<open>str::len\<close> and byte indices are list indices.  The ASCII predicates of \<open>char\<close> are the
  same on bytes: they are false on every byte of a multi-byte character.  Operations
  that look at Unicode characters (\<open>trim\<close>, \<open>split_whitespace\<close>) recognise the UTF-8
  encodings of the White\_Space characters; no such encoding starts with a
  continuation byte, so scanning bytes from the left finds exactly the characters.
  The definitions cover the standard-library operations the crate calls; they model
  no file of the repository themselves.
\<close>

abbreviation code :: "char \<Rightarrow> nat" where
  "code c \<equiv> of_char c"

subsection \<open>ASCII classes\<close>

definition is_digit :: "char \<Rightarrow> bool" where
  "is_digit c \<longleftrightarrow> 48 \<le> code c \<and> code c \<le> 57"

definition is_upper :: "char \<Rightarrow> bool" where
  "is_upper c \<longleftrightarrow> 65 \<le> code c \<and> code c \<le> 90"

definition is_lower :: "char \<Rightarrow> bool" where
  "is_lower c \<longleftrightarrow> 97 \<le> code c \<and> code c \<le> 122"

definition is_alpha :: "char \<Rightarrow> bool" where
  "is_alpha c \<longleftrightarrow> is_upper c \<or> is_lower c"

definition is_alnum :: "char \<Rightarrow> bool" where
  "is_alnum c \<longleftrightarrow> is_alpha c \<or> is_digit c"

definition is_punct :: "char \<Rightarrow> bool" where
  "is_punct c \<longleftrightarrow> (33 \<le> code c \<and> code c \<le> 47) \<or> (58 \<le> code c \<and> code c \<le> 64)
     \<or> (91 \<le> code c \<and> code c \<le> 96) \<or> (123 \<le> code c \<and> code c \<le> 126)"

definition lower_char :: "char \<Rightarrow> char" where
  "lower_char c = (if is_upper c then char_of (code c + 32) else c)"

definition to_ascii_lowercase :: "str \<Rightarrow> str" where
  "to_ascii_lowercase s = map lower_char s"

lemma code_lower_char: "code (lower_char c) = (if is_upper c then code c + 32 else code c)"
  by (auto simp: lower_char_def is_upper_def of_char_of)

lemma lower_char_idem [simp]: "lower_char (lower_char c) = lower_char c"
proof -
  have "\<not> is_upper (lower_char c)"
    unfolding is_upper_def code_lower_char by (auto simp: is_upper_def)
  then show ?thesis by (simp add: lower_char_def [of "lower_char c"])
qed

lemma to_ascii_lowercase_idem [simp]:
  "to_ascii_lowercase (to_ascii_lowercase s) = to_ascii_lowercase s"
  by (simp add: to_ascii_lowercase_def)

lemma to_ascii_lowercase_length [simp]: "length (to_ascii_lowercase s) = length s"
  by (simp add: to_ascii_lowercase_def)

lemma to_ascii_lowercase_Nil [simp]: "to_ascii_lowercase s = [] \<longleftrightarrow> s = []"
  by (simp add: to_ascii_lowercase_def)

definition eq_ignore_ascii_case :: "str \<Rightarrow> str \<Rightarrow> bool" where
  "eq_ignore_ascii_case a b \<longleftrightarrow> to_ascii_lowercase a = to_ascii_lowercase b"

subsection \<open>White space\<close>

text \<open>
  The number of bytes of the white-space character a string starts with, 0 if it does
  not start with one: U+0009-000D, U+0020, U+0085, U+00A0, U+1680, U+2000-200A, U+2028,
  U+2029, U+202F, U+205F, U+3000.
\<close>

definition ws1 :: "char \<Rightarrow> bool" where
  "ws1 a \<longleftrightarrow> (9 \<le> code a \<and> code a \<le> 13) \<or> code a = 32"

definition ws2 :: "char \<Rightarrow> char \<Rightarrow> bool" where
  "ws2 a b \<longleftrightarrow> code a = 194 \<and> (code b = 133 \<or> code b = 160)"

definition ws3 :: "char \<Rightarrow> char \<Rightarrow> char \<Rightarrow> bool" where
  "ws3 a b c \<longleftrightarrow>
     (code a = 225 \<and> code b = 154 \<and> code c = 128)
   \<or> (code a = 226 \<and> code b = 128
        \<and> ((128 \<le> code c \<and> code c \<le> 138) \<or> code c = 168 \<or> code c = 169 \<or> code c = 175))
   \<or> (code a = 226 \<and> code b = 129 \<and> code c = 159)
   \<or> (code a = 227 \<and> code b = 128 \<and> code c = 128)"

fun ws_len :: "str \<Rightarrow> nat" where
  "ws_len [] = 0"
| "ws_len [a] = (if ws1 a then 1 else 0)"
| "ws_len [a, b] = (if ws1 a then 1 else if ws2 a b then 2 else 0)"
| "ws_len (a # b # c # s) =
     (if ws1 a then 1 else if ws2 a b then 2 else if ws3 a b c then 3 else 0)"

lemma ws_len_le: "ws_len s \<le> length s"
  by (cases s rule: ws_len.cases) auto

function trim_start :: "str \<Rightarrow> str" where
  "trim_start s = (if ws_len s = 0 then s else trim_start (drop (ws_len s) s))"
  by pat_completeness auto
termination
proof (relation "measure length")
  fix s :: str
  assume "ws_len s \<noteq> 0"
  with ws_len_le [of s] show "(drop (ws_len s) s, s) \<in> measure length" by simp
qed simp

declare trim_start.simps [simp del]

function trim_end :: "str \<Rightarrow> str" where
  "trim_end s =
     (if s = [] then []
      else if ws_len s = 0 then hd s # trim_end (tl s)
      else (let r = trim_end (drop (ws_len s) s)
            in if r = [] then [] else take (ws_len s) s @ r))"
  by pat_completeness auto
termination
  by (relation "measure length") (auto simp: neq_Nil_conv)

declare trim_end.simps [simp del]

definition trim :: "str \<Rightarrow> str" where
  "trim s = trim_end (trim_start s)"

text \<open>\<open>split_whitespace\<close>: the maximal runs of non-white-space characters, in order.\<close>

function split_ws :: "str \<Rightarrow> str \<Rightarrow> str list" where
  "split_ws cur s =
     (if s = [] then (if cur = [] then [] else [rev cur])
      else if ws_len s = 0 then split_ws (hd s # cur) (tl s)
      else (if cur = [] then [] else [rev cur]) @ split_ws [] (drop (ws_len s) s))"
  by pat_completeness auto
termination
  by (relation "measure (\<lambda>(cur, s). length s)") (auto simp: neq_Nil_conv)

declare split_ws.simps [simp del]

definition split_whitespace :: "str \<Rightarrow> str list" where
  "split_whitespace s = split_ws [] s"

lemma trim_start_Nil [simp]: "trim_start [] = []"
  by (simp add: trim_start.simps)

lemma trim_end_Nil [simp]: "trim_end [] = []"
  by (simp add: trim_end.simps)

lemma trim_Nil [simp]: "trim [] = []"
  by (simp add: trim_def)

lemma ws_len_trim_start [simp]: "ws_len (trim_start s) = 0"
proof (induction s rule: trim_start.induct)
  case (1 s)
  then show ?case by (cases "ws_len s = 0") (simp_all add: trim_start.simps [of s])
qed

lemma trim_start_idem [simp]: "trim_start (trim_start s) = trim_start s"
  by (subst trim_start.simps) simp

subsection \<open>Prefixes, substrings, splitting and joining\<close>

definition starts_with :: "str \<Rightarrow> str \<Rightarrow> bool" where
  "starts_with s p \<longleftrightarrow> take (length p) s = p"

definition ends_with :: "str \<Rightarrow> str \<Rightarrow> bool" where
  "ends_with s p \<longleftrightarrow> starts_with (rev s) (rev p)"

definition strip_prefix :: "str \<Rightarrow> str \<Rightarrow> str option" where
  "strip_prefix s p = (if starts_with s p then Some (drop (length p) s) else None)"

fun contains :: "str \<Rightarrow> str \<Rightarrow> bool" where
  "contains [] p \<longleftrightarrow> p = []"
| "contains (c # s) p \<longleftrightarrow> starts_with (c # s) p \<or> contains s p"

lemma starts_with_append [simp]: "starts_with (p @ s) p"
  by (simp add: starts_with_def)

lemma starts_with_iff: "starts_with s p \<longleftrightarrow> (\<exists>r. s = p @ r)"
  by (metis append_take_drop_id starts_with_def starts_with_append)

lemma contains_iff: "contains s p \<longleftrightarrow> (\<exists>a b. s = a @ p @ b)"
proof (induction s)
  case Nil
  then show ?case by auto
next
  case (Cons c s)
  have "(\<exists>a b. c # s = a @ p @ b) \<longleftrightarrow> (\<exists>b. c # s = p @ b) \<or> (\<exists>a b. s = a @ p @ b)"
    by (metis (no_types, opaque_lifting) append_Nil append_eq_Cons_conv)
  with Cons show ?case by (simp add: starts_with_iff)
qed

fun find_char :: "char \<Rightarrow> str \<Rightarrow> nat option" where
  "find_char c [] = None"
| "find_char c (x # s) = (if x = c then Some 0 else map_option Suc (find_char c s))"

lemma find_char_bound: "find_char c s = Some i \<Longrightarrow> i < length s"
  by (induction s arbitrary: i) (auto split: if_splits)

definition join :: "str \<Rightarrow> str list \<Rightarrow> str" where
  "join sep ps = (case ps of [] \<Rightarrow> [] | p # qs \<Rightarrow> p @ concat (map (\<lambda>q. sep @ q) qs))"

lemma join_Nil [simp]: "join sep [] = []"
  by (simp add: join_def)

lemma join_single [simp]: "join sep [p] = p"
  by (simp add: join_def)

lemma join_Cons: "qs \<noteq> [] \<Longrightarrow> join sep (p # qs) = p @ sep @ join sep qs"
  by (cases qs) (simp_all add: join_def)

text \<open>\<open>split(sep)\<close> for a string separator: leftmost, non-overlapping matches.\<close>

fun split_str_go :: "str \<Rightarrow> str \<Rightarrow> str \<Rightarrow> str list" where
  "split_str_go sep cur [] = [rev cur]"
| "split_str_go sep cur (c # s) =
     (if starts_with (c # s) sep
      then rev cur # split_str_go sep [] (drop (length sep - 1) s)
      else split_str_go sep (c # cur) s)"

definition split_str :: "str \<Rightarrow> str \<Rightarrow> str list" where
  "split_str sep s = split_str_go sep [] s"

text \<open>\<open>split(pred)\<close> for a predicate on characters that is constant on non-ASCII bytes.\<close>

fun split_if_go :: "(char \<Rightarrow> bool) \<Rightarrow> str \<Rightarrow> str \<Rightarrow> str list" where
  "split_if_go p cur [] = [rev cur]"
| "split_if_go p cur (c # s) =
     (if p c then rev cur # split_if_go p [] s else split_if_go p (c # cur) s)"

definition split_if :: "(char \<Rightarrow> bool) \<Rightarrow> str \<Rightarrow> str list" where
  "split_if p s = split_if_go p [] s"

lemma split_str_nonempty [simp]: "split_str sep s \<noteq> []"
proof -
  have "split_str_go sep cur s \<noteq> []" for cur
    by (induction sep cur s rule: split_str_go.induct) auto
  then show ?thesis by (simp add: split_str_def)
qed

text \<open>
  Joining with a separator whose first character occurs in no piece and splitting again
  gives the pieces back.
\<close>

lemma split_str_go_piece:
  assumes "c \<notin> set p" and "sep = c # cs"
  shows "split_str_go sep cur (p @ s) = split_str_go sep (rev p @ cur) s"
  using assms by (induction p arbitrary: cur) (auto simp: starts_with_def)

lemma split_str_go_end:
  assumes "c \<notin> set p" and "sep = c # cs"
  shows "split_str_go sep cur p = [rev cur @ p]"
  using split_str_go_piece [OF assms, of cur "[]"] by simp

lemma split_str_go_sep:
  assumes "c \<notin> set p" and "sep = c # cs"
  shows "split_str_go sep cur (p @ sep @ s) = (rev cur @ p) # split_str_go sep [] s"
proof -
  have "starts_with (c # cs @ s) sep"
    using assms(2) starts_with_append [of sep s] by simp
  moreover have "split_str_go sep cur (p @ sep @ s) = split_str_go sep (rev p @ cur) (c # cs @ s)"
    using split_str_go_piece [OF assms, of cur "sep @ s"] assms(2) by simp
  ultimately show ?thesis using assms(2) by simp
qed

lemma split_str_join:
  assumes "\<forall>p \<in> set ps. c \<notin> set p" and "sep = c # cs" and "ps \<noteq> []"
  shows "split_str sep (join sep ps) = ps"
proof -
  have "split_str_go sep [] (join sep ps) = ps"
    using assms(1,3)
  proof (induction ps)
    case Nil
    then show ?case by simp
  next
    case (Cons p ps)
    then have c: "c \<notin> set p" by simp
    show ?case
    proof (cases "ps = []")
      case True
      then show ?thesis using split_str_go_end [OF c assms(2), of "[]"] by simp
    next
      case False
      then show ?thesis
        using Cons split_str_go_sep [OF c assms(2), of "[]"] by (simp add: join_Cons)
    qed
  qed
  then show ?thesis by (simp add: split_str_def)
qed

definition trim_matches :: "(char \<Rightarrow> bool) \<Rightarrow> str \<Rightarrow> str" where
  "trim_matches p s = rev (dropWhile p (rev (dropWhile p s)))"

definition trim_end_matches :: "(char \<Rightarrow> bool) \<Rightarrow> str \<Rightarrow> str" where
  "trim_end_matches p s = rev (dropWhile p (rev s))"

text \<open>\<open>str::lines\<close>: pieces ending in a line feed, one carriage return before it dropped.\<close>

definition strip_cr :: "str \<Rightarrow> str" where
  "strip_cr l = (if l \<noteq> [] \<and> code (last l) = 13 then butlast l else l)"

fun lines_go :: "str \<Rightarrow> str \<Rightarrow> str list" where
  "lines_go cur [] = (if cur = [] then [] else [rev cur])"
| "lines_go cur (c # s) =
     (if code c = 10 then strip_cr (rev cur) # lines_go [] s else lines_go (c # cur) s)"

definition lines :: "str \<Rightarrow> str list" where
  "lines s = lines_go [] s"

subsection \<open>Decimal numbers\<close>

definition digit_char :: "nat \<Rightarrow> char" where
  "digit_char d = char_of (48 + d)"

fun show_nat :: "nat \<Rightarrow> str" where
  "show_nat n = (if n < 10 then [digit_char n] else show_nat (n div 10) @ [digit_char (n mod 10)])"

declare show_nat.simps [simp del]

fun parse_digits :: "nat \<Rightarrow> str \<Rightarrow> nat option" where
  "parse_digits acc [] = Some acc"
| "parse_digits acc (c # s) =
     (if is_digit c then parse_digits (10 * acc + (code c - 48)) s else None)"

definition parse_dec :: "str \<Rightarrow> nat option" where
  "parse_dec s = (if s = [] then None else parse_digits 0 s)"

text \<open>
  \<open>parse::<u32>()\<close> and \<open>parse::<u64>()\<close> accept one leading plus sign; \<open>parse::<i32>()\<close> accepts
  a plus or a minus.  At least one digit is needed and overflow is an error.
\<close>

definition strip_plus :: "str \<Rightarrow> str" where
  "strip_plus s = (case s of [] \<Rightarrow> [] | c # r \<Rightarrow> if c = CHR ''+'' then r else s)"

definition parse_unsigned :: "nat \<Rightarrow> str \<Rightarrow> nat option" where
  "parse_unsigned w s =
     (case parse_dec (strip_plus s) of None \<Rightarrow> None
      | Some n \<Rightarrow> if n < 2 ^ w then Some n else None)"

definition parse_i32 :: "str \<Rightarrow> int option" where
  "parse_i32 s =
     (case s of [] \<Rightarrow> None
      | c # r \<Rightarrow>
          if c = CHR ''-''
          then (case parse_dec r of None \<Rightarrow> None
                | Some n \<Rightarrow> if n \<le> 2 ^ 31 then Some (- int n) else None)
          else map_option int (parse_unsigned 31 s))"

lemma code_digit_char: "d < 10 \<Longrightarrow> code (digit_char d) = 48 + d"
  by (simp add: digit_char_def of_char_of)

lemma is_digit_digit_char [simp]: "d < 10 \<Longrightarrow> is_digit (digit_char d)"
  by (simp add: is_digit_def code_digit_char)

lemma parse_digits_append:
  "parse_digits acc (s @ t) = Option.bind (parse_digits acc s) (\<lambda>a. parse_digits a t)"
  by (induction acc s rule: parse_digits.induct) auto

lemma parse_digits_show_nat: "parse_digits 0 (show_nat n) = Some n"
proof (induction n rule: show_nat.induct)
  case (1 n)
  show ?case
  proof (cases "n < 10")
    case True
    then show ?thesis by (subst show_nat.simps) (simp add: code_digit_char)
  next
    case False
    with 1 show ?thesis
      by (subst show_nat.simps) (simp add: parse_digits_append code_digit_char)
  qed
qed

lemma show_nat_digits: "c \<in> set (show_nat n) \<Longrightarrow> is_digit c"
proof (induction n rule: show_nat.induct)
  case (1 n)
  then show ?case
    by (cases "n < 10") (auto simp: show_nat.simps [of n])
qed

lemma show_nat_nonempty [simp]: "show_nat n \<noteq> []"
  by (subst show_nat.simps) simp

lemma not_digit_sym [simp]: "\<not> is_digit CHR ''+''" "\<not> is_digit CHR '':''" "\<not> is_digit CHR ''%''"
  "\<not> is_digit CHR ''-''"
  by (simp_all add: is_digit_def)

lemma strip_plus_show_nat [simp]: "strip_plus (show_nat n) = show_nat n"
proof (cases "show_nat n")
  case (Cons c r)
  then have "is_digit c" using show_nat_digits [of c n] by simp
  then have "c \<noteq> CHR ''+''" by auto
  with Cons show ?thesis by (simp add: strip_plus_def)
qed simp

lemma parse_unsigned_show_nat [str_simps]: "n < 2 ^ w \<Longrightarrow> parse_unsigned w (show_nat n) = Some n"
  by (simp add: parse_unsigned_def parse_dec_def parse_digits_show_nat)

lemma parse_unsigned_bound: "parse_unsigned w s = Some n \<Longrightarrow> n < 2 ^ w"
  by (auto simp: parse_unsigned_def split: option.splits if_splits)

lemma parse_i32_range: "parse_i32 s = Some y \<Longrightarrow> - (2 ^ 31) \<le> y \<and> y < 2 ^ 31"
  by (auto simp: parse_i32_def split: list.splits option.splits if_splits dest!: parse_unsigned_bound)

subsection \<open>Hexadecimal digits\<close>

definition to_digit16 :: "char \<Rightarrow> nat option" where
  "to_digit16 c = (if is_digit c then Some (code c - 48)
     else if 97 \<le> code c \<and> code c \<le> 102 then Some (code c - 87)
     else if 65 \<le> code c \<and> code c \<le> 70 then Some (code c - 55)
     else None)"

definition hex_digit :: "nat \<Rightarrow> char" where
  "hex_digit d = (if d < 10 then char_of (48 + d) else char_of (87 + d))"

text \<open>The format \<open>{byte:02x}\<close>.\<close>

definition hex_byte :: "char \<Rightarrow> str" where
  "hex_byte c = [hex_digit (code c div 16), hex_digit (code c mod 16)]"

lemma length_hex_byte [simp]: "length (hex_byte c) = 2"
  by (simp add: hex_byte_def)

lemma to_digit16_hex_digit: "d < 16 \<Longrightarrow> to_digit16 (hex_digit d) = Some d"
  by (auto simp: to_digit16_def hex_digit_def is_digit_def of_char_of)

lemma code_lt_256: "code c < 256"
  by (simp add: of_char_def horner_sum_of_bool_2_less [of "[_,_,_,_,_,_,_,_]", simplified])

lemma hex_byte_inject [simp]: "hex_byte a = hex_byte b \<longleftrightarrow> a = b"
proof
  assume h: "hex_byte a = hex_byte b"
  have lt: "code a div 16 < 16" "code b div 16 < 16"
    using less_mult_imp_div_less [of "code a" 16 16] less_mult_imp_div_less [of "code b" 16 16]
      code_lt_256 [of a] code_lt_256 [of b] by simp_all
  from h have "to_digit16 (hex_digit (code a div 16)) = to_digit16 (hex_digit (code b div 16))"
    and "to_digit16 (hex_digit (code a mod 16)) = to_digit16 (hex_digit (code b mod 16))"
    by (simp_all add: hex_byte_def)
  with lt have "code a div 16 = code b div 16" "code a mod 16 = code b mod 16"
    by (simp_all add: to_digit16_hex_digit)
  then have "code a = code b" by (metis mult_div_mod_eq)
  then show "a = b" by simp
qed simp

lemma concat_hex_inject:
  "concat (map hex_byte s) = concat (map hex_byte t) \<longleftrightarrow> s = t"
proof (induction s arbitrary: t)
  case Nil
  then show ?case by (cases t) (auto simp: hex_byte_def)
next
  case (Cons c s)
  show ?case
  proof (cases t)
    case Nil
    then show ?thesis by (simp add: hex_byte_def)
  next
    case (Cons d u)
    then show ?thesis using Cons.IH [of u] by (simp)
  qed
qed

end
