(* ===== verification/Names.thy ===== *)
theory Names
  imports Rust_String
begin

section \<open>Enumerations and their names\<close>

text \<open>
  The enumerations the crate stores or reads as text: \<open>src/graph.rs\<close> (\<open>EdgeType\<close>,
  \<open>Direction\<close>), \<open>src/features.rs\<close> (\<open>Feature\<close> and the disabled set), \<open>src/heuristics.rs\<close>
  (\<open>Profile\<close>), \<open>MemoryKind\<close> of \<open>src/storage/types.rs\<close> and the HTTP mapping of
  \<open>EngineError\<close> (\<open>src/error.rs\<close>, \<open>src/api/error.rs\<close>).  Each name table is a codec.
\<close>

subsection \<open>Edge types\<close>

datatype EdgeType =
    DerivedFrom | DerivedVariant | Supersedes | SupersededBy | Supports | Derives | Updates
  | Prefers | WorksAt | LivesIn | CausedBy | LeadsTo | Default

definition EdgeType_ALL :: "EdgeType list" where
  "EdgeType_ALL =
     [DerivedFrom, DerivedVariant, Supersedes, SupersededBy, Supports, Derives, Updates,
      Prefers, WorksAt, LivesIn, CausedBy, LeadsTo, Default]"

fun edge_as_str :: "EdgeType \<Rightarrow> str" where
  "edge_as_str DerivedFrom = ''derived_from''"
| "edge_as_str DerivedVariant = ''derived_variant''"
| "edge_as_str Supersedes = ''supersedes''"
| "edge_as_str SupersededBy = ''superseded_by''"
| "edge_as_str Supports = ''supports''"
| "edge_as_str Derives = ''derives''"
| "edge_as_str Updates = ''updates''"
| "edge_as_str Prefers = ''prefers''"
| "edge_as_str WorksAt = ''works_at''"
| "edge_as_str LivesIn = ''lives_in''"
| "edge_as_str CausedBy = ''caused_by''"
| "edge_as_str LeadsTo = ''leads_to''"
| "edge_as_str Default = ''default''"

definition edge_from_str :: "str \<Rightarrow> EdgeType" where
  "edge_from_str s =
     (let l = to_ascii_lowercase s in
      if l = ''derived_from'' then DerivedFrom
      else if l = ''derived_variant'' then DerivedVariant
      else if l = ''supersedes'' \<or> l = ''supersede'' then Supersedes
      else if l = ''superseded_by'' then SupersededBy
      else if l = ''supports'' then Supports
      else if l = ''derives'' then Derives
      else if l = ''updates'' then Updates
      else if l = ''prefers'' then Prefers
      else if l = ''works_at'' then WorksAt
      else if l = ''lives_in'' then LivesIn
      else if l = ''caused_by'' then CausedBy
      else if l = ''leads_to'' then LeadsTo
      else Default)"

text \<open>Edge weights, in hundredths (the code's \<open>f32\<close> literals 1.4, 0.3, 1.2, 0.7 and 1.0).\<close>

fun default_weight :: "EdgeType \<Rightarrow> nat" where
  "default_weight CausedBy = 140"
| "default_weight Supersedes = 30"
| "default_weight Prefers = 120"
| "default_weight DerivedFrom = 70"
| "default_weight _ = 100"

lemma to_ascii_lowercase_simps [str_simps]:
  "to_ascii_lowercase [] = []"
  "to_ascii_lowercase (c # s) = lower_char c # to_ascii_lowercase s"
  by (simp_all add: to_ascii_lowercase_def)

lemma lower_char_id: "\<not> is_upper c \<Longrightarrow> lower_char c = c"
  by (simp add: lower_char_def)

lemma to_ascii_lowercase_id: "\<forall>c \<in> set s. \<not> is_upper c \<Longrightarrow> to_ascii_lowercase s = s"
  by (simp add: to_ascii_lowercase_def lower_char_id map_idI)

lemma edge_as_str_lower [simp]: "to_ascii_lowercase (edge_as_str e) = edge_as_str e"
  by (rule to_ascii_lowercase_id) (cases e; simp add: is_upper_def)

lemma edge_from_as_str [simp]: "edge_from_str (edge_as_str e) = e"
  unfolding edge_from_str_def edge_as_str_lower by (cases e) simp_all

lemma EdgeType_ALL_set: "set EdgeType_ALL = UNIV" and EdgeType_ALL_distinct: "distinct EdgeType_ALL"
proof -
  have "e \<in> set EdgeType_ALL" for e by (cases e) (simp_all add: EdgeType_ALL_def)
  then show "set EdgeType_ALL = UNIV" by auto
  show "distinct EdgeType_ALL" by (simp add: EdgeType_ALL_def)
qed

interpretation edge: codec edge_as_str "\<lambda>s. Some (edge_from_str s)" "\<lambda>_. True"
  by unfold_locales simp

lemma edge_from_str_lower: "edge_from_str (to_ascii_lowercase s) = edge_from_str s"
  by (simp add: edge_from_str_def)

subsection \<open>Traversal directions\<close>

datatype Direction = In | Out | Both

definition direction_parse :: "str option \<Rightarrow> Direction" where
  "direction_parse v =
     (case map_option (\<lambda>s. to_ascii_lowercase (trim s)) v of
        None \<Rightarrow> Out
      | Some l \<Rightarrow>
          if l = ''in'' \<or> l = ''inbound'' then In else if l = ''both'' then Both else Out)"

fun direction_as_str :: "Direction \<Rightarrow> str" where
  "direction_as_str In = ''Inbound''"
| "direction_as_str Out = ''Outbound''"
| "direction_as_str Both = ''Both''"

lemma direction_parse_as_str: "direction_parse (Some (direction_as_str d)) = d"
  by (cases d; hypsubst; code_simp)

interpretation direction: codec direction_as_str "\<lambda>s. Some (direction_parse (Some s))" "\<lambda>_. True"
  by unfold_locales (simp add: direction_parse_as_str)

subsection \<open>Memory kinds\<close>

datatype MemoryKind =
    Conversational | Decision | Lesson | Preference | SessionSummary | Fact | SyntheticQuery

definition MemoryKind_ALL :: "MemoryKind list" where
  "MemoryKind_ALL =
     [Conversational, Decision, Lesson, Preference, SessionSummary, Fact, SyntheticQuery]"

fun kind_as_str :: "MemoryKind \<Rightarrow> str" where
  "kind_as_str Conversational = ''conversational''"
| "kind_as_str Decision = ''decision''"
| "kind_as_str Lesson = ''lesson''"
| "kind_as_str Preference = ''preference''"
| "kind_as_str SessionSummary = ''session_summary''"
| "kind_as_str Fact = ''fact''"
| "kind_as_str SyntheticQuery = ''synthetic_query''"

definition kind_parse :: "str \<Rightarrow> MemoryKind" where
  "kind_parse s =
     (let n = to_ascii_lowercase (trim s) in
      if n = ''decision'' then Decision
      else if n = ''lesson'' then Lesson
      else if n = ''preference'' then Preference
      else if n = ''session_summary'' \<or> n = ''session-summary'' \<or> n = ''sessionsummary''
        then SessionSummary
      else if n = ''fact'' then Fact
      else if n = ''synthetic_query'' \<or> n = ''synthetic-query'' \<or> n = ''syntheticquery''
        then SyntheticQuery
      else Conversational)"

definition is_decay_exempt :: "MemoryKind \<Rightarrow> bool" where
  "is_decay_exempt k \<longleftrightarrow> k = Preference \<or> k = Decision"

lemma kind_parse_as_str: "kind_parse (kind_as_str k) = k"
  by (cases k; hypsubst; code_simp)

interpretation kind: codec kind_as_str "\<lambda>s. Some (kind_parse s)" "\<lambda>_. True"
  by unfold_locales (simp add: kind_parse_as_str)

subsection \<open>Heuristic profiles\<close>

datatype Profile = Generic | LegacyTuned

fun profile_name :: "Profile \<Rightarrow> str" where
  "profile_name Generic = ''generic''"
| "profile_name LegacyTuned = ''legacy-tuned''"

text \<open>The error carries the rejected name.\<close>

definition profile_parse :: "str \<Rightarrow> str + Profile" where
  "profile_parse spec =
     (let l = to_ascii_lowercase (trim spec) in
      if l = [] \<or> l = ''generic'' then Inr Generic
      else if l = ''legacy-tuned'' \<or> l = ''legacy_tuned'' \<or> l = ''legacy'' then Inr LegacyTuned
      else Inl l)"

definition benchmark_tuned_rules :: "Profile \<Rightarrow> bool" where
  "benchmark_tuned_rules p \<longleftrightarrow> p = LegacyTuned"

definition res_opt :: "'e + 'a \<Rightarrow> 'a option" where
  "res_opt r = (case r of Inl _ \<Rightarrow> None | Inr a \<Rightarrow> Some a)"

lemma profile_parse_name: "profile_parse (profile_name p) = Inr p"
  by (cases p; hypsubst; code_simp)

interpretation profile: codec profile_name "\<lambda>s. res_opt (profile_parse s)" "\<lambda>_. True"
  by unfold_locales (simp add: profile_parse_name res_opt_def)

subsection \<open>Engine errors and HTTP statuses\<close>

datatype EngineError =
    Storage str | Vector str | Embedding str | NotFound str | BadRequest str
  | Unauthorized | RateLimited | Other str

definition from_http_status :: "nat \<Rightarrow> EngineError" where
  "from_http_status status =
     (if status = 400 then BadRequest ''bad request''
      else if status = 401 then Unauthorized
      else if status = 404 then NotFound ''resource not found''
      else if status = 429 then RateLimited
      else Other (''request failed with status '' @ show_nat status))"

fun into_response_status :: "EngineError \<Rightarrow> nat" where
  "into_response_status (NotFound _) = 404"
| "into_response_status (BadRequest _) = 400"
| "into_response_status Unauthorized = 401"
| "into_response_status RateLimited = 429"
| "into_response_status (Storage _) = 500"
| "into_response_status (Vector _) = 500"
| "into_response_status (Embedding _) = 500"
| "into_response_status (Other _) = 500"

lemma status_round_trip:
  "into_response_status (from_http_status (into_response_status e)) = into_response_status e"
  by (cases e) (simp_all add: from_http_status_def)

end
