(* ===== verification/Features.thy ===== *)
theory Features
  imports Names
begin

section \<open>Feature switches\<close>

text \<open>
  Models \<open>src/features.rs\<close>: the switches of \<open>TELLODB_DISABLE\<close>, a set of features kept as the
  bits of a \<open>u32\<close>.  The bit operations are those of the word; the lemmas relate the parsed
  mask to the entries of the specification string.
\<close>

unbundle bit_operations_syntax

datatype Feature =
    Chunks | Gist | Keywords | FactCompanions | AtomicCards | EventCompanions | RelationCompanions
  | MemoryCards | SessionRouter | Preferences | RetrospectiveLinks | DerivedLinks | GraphEdges
  | Facts | SemanticDedup | Consolidation | Metrics | PredicateCanon

definition Feature_ALL :: "Feature list" where
  "Feature_ALL =
     [Chunks, Gist, Keywords, FactCompanions, AtomicCards, EventCompanions, RelationCompanions,
      MemoryCards, SessionRouter, Preferences, RetrospectiveLinks, DerivedLinks, GraphEdges,
      Facts, SemanticDedup, Consolidation, Metrics, PredicateCanon]"

fun feature_name :: "Feature \<Rightarrow> str" where
  "feature_name Chunks = ''chunks''"
| "feature_name Gist = ''gist''"
| "feature_name Keywords = ''keywords''"
| "feature_name FactCompanions = ''fact_companions''"
| "feature_name AtomicCards = ''atomic_cards''"
| "feature_name EventCompanions = ''event_companions''"
| "feature_name RelationCompanions = ''relation_companions''"
| "feature_name MemoryCards = ''memory_cards''"
| "feature_name SessionRouter = ''session_router''"
| "feature_name Preferences = ''preferences''"
| "feature_name RetrospectiveLinks = ''retrospective_links''"
| "feature_name DerivedLinks = ''derived_links''"
| "feature_name GraphEdges = ''graph_edges''"
| "feature_name Facts = ''facts''"
| "feature_name SemanticDedup = ''semantic_dedup''"
| "feature_name Consolidation = ''consolidation''"
| "feature_name Metrics = ''metrics''"
| "feature_name PredicateCanon = ''predicate_canon''"

text \<open>The discriminant of the enumeration, \<open>self as u32\<close>; it also orders the features.\<close>

fun feature_index :: "Feature \<Rightarrow> nat" where
  "feature_index Chunks = 0"
| "feature_index Gist = 1"
| "feature_index Keywords = 2"
| "feature_index FactCompanions = 3"
| "feature_index AtomicCards = 4"
| "feature_index EventCompanions = 5"
| "feature_index RelationCompanions = 6"
| "feature_index MemoryCards = 7"
| "feature_index SessionRouter = 8"
| "feature_index Preferences = 9"
| "feature_index RetrospectiveLinks = 10"
| "feature_index DerivedLinks = 11"
| "feature_index GraphEdges = 12"
| "feature_index Facts = 13"
| "feature_index SemanticDedup = 14"
| "feature_index Consolidation = 15"
| "feature_index Metrics = 16"
| "feature_index PredicateCanon = 17"

definition feature_bit :: "Feature \<Rightarrow> u32" where
  "feature_bit f = push_bit (feature_index f) 1"

definition for_companion_tag :: "str \<Rightarrow> Feature option" where
  "for_companion_tag tag =
     (let stem = trim_end_matches is_digit tag in
      if stem = ''gist'' then Some Gist
      else if stem = ''kw'' then Some Keywords
      else if stem = ''fact'' then Some FactCompanions
      else if stem = ''card'' then Some AtomicCards
      else if stem = ''event'' then Some EventCompanions
      else if stem = ''rel'' then Some RelationCompanions
      else None)"

record Features =
  disabled :: u32

definition enabled :: "Features \<Rightarrow> Feature \<Rightarrow> bool" where
  "enabled fs f \<longleftrightarrow> disabled fs AND feature_bit f = 0"

definition disabled_names :: "Features \<Rightarrow> str list" where
  "disabled_names fs = map feature_name (filter (\<lambda>f. \<not> enabled fs f) Feature_ALL)"

definition spec_entries :: "str \<Rightarrow> str list" where
  "spec_entries spec =
     map to_ascii_lowercase (filter (\<lambda>n. n \<noteq> []) (map trim (split_if (\<lambda>c. c = CHR '','') spec)))"

fun parse_entries :: "u32 \<Rightarrow> str list \<Rightarrow> str + u32" where
  "parse_entries d [] = Inr d"
| "parse_entries d (n # ns) =
     (if n = ''none'' then parse_entries d ns
      else (case find (\<lambda>f. feature_name f = n) Feature_ALL of
              None \<Rightarrow> Inl n
            | Some f \<Rightarrow> parse_entries (d OR feature_bit f) ns))"

definition features_parse :: "str \<Rightarrow> str + Features" where
  "features_parse spec = map_sum id (\<lambda>d. \<lparr>disabled = d\<rparr>) (parse_entries 0 (spec_entries spec))"

subsection \<open>Features are ordered by their discriminant\<close>

lemma feature_index_inject [simp]: "feature_index f = feature_index g \<longleftrightarrow> f = g"
  by (cases f; cases g; simp)

lemma feature_index_less: "feature_index f < 18"
  by (cases f) simp_all

instantiation Feature :: linorder
begin

definition less_eq_Feature :: "Feature \<Rightarrow> Feature \<Rightarrow> bool" where
  "less_eq_Feature f g \<longleftrightarrow> feature_index f \<le> feature_index g"

definition less_Feature :: "Feature \<Rightarrow> Feature \<Rightarrow> bool" where
  "less_Feature f g \<longleftrightarrow> feature_index f < feature_index g"

instance
  by standard (auto simp: less_eq_Feature_def less_Feature_def)

end

lemma Feature_ALL_set [simp]: "set Feature_ALL = UNIV"
proof -
  have "f \<in> set Feature_ALL" for f by (cases f) (simp_all add: Feature_ALL_def)
  then show ?thesis by auto
qed

lemma Feature_ALL_sorted: "sorted_wrt (<) Feature_ALL"
  by (simp add: Feature_ALL_def less_Feature_def)

lemma Feature_ALL_distinct: "distinct Feature_ALL"
  using Feature_ALL_sorted by (simp add: strict_sorted_iff)

subsection \<open>The codec of names\<close>

lemma feature_name_inject [simp]: "feature_name f = feature_name g \<longleftrightarrow> f = g"
  by (cases f; cases g; simp)

lemma find_feature_name: "find (\<lambda>f. feature_name f = n) Feature_ALL = Some f \<longleftrightarrow> feature_name f = n"
proof
  assume h: "feature_name f = n"
  then obtain g where g: "find (\<lambda>f. feature_name f = n) Feature_ALL = Some g"
    by (cases "find (\<lambda>f. feature_name f = n) Feature_ALL") (auto simp: find_None_iff)
  then have "feature_name g = n" by (auto simp: find_Some_iff)
  with g h show "find (\<lambda>f. feature_name f = n) Feature_ALL = Some f"
    using feature_name_inject [of f g] by simp
qed (auto simp: find_Some_iff)

interpretation feature: codec feature_name "\<lambda>n. find (\<lambda>f. feature_name f = n) Feature_ALL" "\<lambda>_. True"
  by unfold_locales (simp only: find_feature_name)

lemma bit_feature_bit [simp]: "bit (feature_bit f) n \<longleftrightarrow> n = feature_index f"
  using feature_index_less [of f] by (auto simp: feature_bit_def bit_simps)

lemma enabled_iff: "enabled fs f \<longleftrightarrow> \<not> bit (disabled fs) (feature_index f)"
  by (simp add: enabled_def feature_bit_def push_bit_eq_mult and_exp_eq_0_iff_not_bit)

lemma parse_entries_bits:
  "parse_entries d ns = Inr d' \<Longrightarrow>
     bit d' n \<longleftrightarrow> bit d n \<or> (\<exists>f. feature_name f \<in> set ns \<and> n = feature_index f)"
proof (induction d ns rule: parse_entries.induct)
  case (2 d m ns)
  have none: "feature_name f \<noteq> ''none''" for f by (cases f) simp_all
  show ?case
  proof (cases "m = ''none''")
    case True
    with 2 none show ?thesis by auto
  next
    case False
    with "2.prems" obtain f where f: "find (\<lambda>f. feature_name f = m) Feature_ALL = Some f"
      and p: "parse_entries (d OR feature_bit f) ns = Inr d'"
      by (auto split: option.splits)
    from f have m: "feature_name f = m" by (simp only: find_feature_name)
    have "bit d' n \<longleftrightarrow> bit (d OR feature_bit f) n \<or> (\<exists>g. feature_name g \<in> set ns \<and> n = feature_index g)"
      by (rule "2.IH"(2) [OF False f p])
    then show ?thesis using m by (auto simp: bit_or_iff)
  qed
qed simp

lemma parse_entries_total:
  "(\<exists>d'. parse_entries d ns = Inr d') \<longleftrightarrow> (\<forall>n \<in> set ns. n = ''none'' \<or> n \<in> range feature_name)"
proof (induction d ns rule: parse_entries.induct)
  case (2 d m ns)
  show ?case
  proof (cases "m = ''none''")
    case True
    with "2.IH"(1) show ?thesis by simp
  next
    case False
    show ?thesis
    proof (cases "find (\<lambda>f. feature_name f = m) Feature_ALL")
      case None
      then have "m \<notin> range feature_name" by (auto simp: find_None_iff)
      with None False show ?thesis by simp
    next
      case (Some f)
      then have "m = feature_name f" using find_feature_name [of m f] by simp
      with "2.IH"(2) [OF False Some] False Some show ?thesis by simp
    qed
  qed
qed simp

lemma enabled_parse:
  "features_parse spec = Inr fs \<Longrightarrow> enabled fs f \<longleftrightarrow> feature_name f \<notin> set (spec_entries spec)"
  by (cases "parse_entries 0 (spec_entries spec)")
    (auto simp: features_parse_def enabled_iff dest!: parse_entries_bits)

lemma split_if_go_piece:
  assumes "\<forall>c \<in> set p. \<not> q c"
  shows "split_if_go q cur (p @ s) = split_if_go q (rev p @ cur) s"
  using assms by (induction p arbitrary: cur) auto

lemma split_if_join:
  assumes "q c" and "ps \<noteq> []" and "\<forall>p \<in> set ps. \<forall>x \<in> set p. \<not> q x"
  shows "split_if q (join [c] ps) = ps"
proof -
  have "split_if_go q [] (join [c] ps) = ps"
    using assms(2,3)
  proof (induction ps)
    case (Cons p ps)
    then have p: "\<forall>x \<in> set p. \<not> q x" by simp
    show ?case
    proof (cases "ps = []")
      case True
      then show ?thesis using split_if_go_piece [OF p, of "[]" "[]"] by simp
    next
      case False
      then show ?thesis
        using Cons split_if_go_piece [OF p, of "[]" "c # join [c] ps"] assms(1) by (simp add: join_Cons)
    qed
  qed simp
  then show ?thesis by (simp add: split_if_def)
qed

lemma feature_name_plain:
  "trim (feature_name f) = feature_name f" "to_ascii_lowercase (feature_name f) = feature_name f"
  "feature_name f \<noteq> []" "CHR '','' \<notin> set (feature_name f)"
proof -
  show "trim (feature_name f) = feature_name f"
    by (cases f; hypsubst; code_simp)
  show "to_ascii_lowercase (feature_name f) = feature_name f"
    by (cases f; hypsubst; code_simp)
  show "feature_name f \<noteq> []" "CHR '','' \<notin> set (feature_name f)"
    by (cases f; simp)+
qed

lemma spec_entries_names: "spec_entries (join '','' (map feature_name fs)) = map feature_name fs"
proof (cases "fs = []")
  case True
  then show ?thesis by (simp add: spec_entries_def split_if_def)
next
  case False
  then have "split_if (\<lambda>c. c = CHR '','') (join '','' (map feature_name fs)) = map feature_name fs"
    using feature_name_plain(4) by (intro split_if_join) auto
  then have "spec_entries (join '','' (map feature_name fs))
      = map to_ascii_lowercase (filter (\<lambda>n. n \<noteq> []) (map trim (map feature_name fs)))"
    by (simp only: spec_entries_def)
  also have "\<dots> = map feature_name fs"
    by (simp add: feature_name_plain comp_def filter_map)
  finally show ?thesis .
qed

text \<open>The masks the parser builds: no bit beyond the features.\<close>

definition feature_mask :: "Features \<Rightarrow> bool" where
  "feature_mask fs \<longleftrightarrow> take_bit 18 (disabled fs) = disabled fs"

lemma feature_mask_bit: "feature_mask fs \<Longrightarrow> bit (disabled fs) n \<Longrightarrow> n < 18"
  by (auto simp: feature_mask_def bit_take_bit_iff dest: arg_cong [of _ _ "\<lambda>w. bit w n"])

lemma feature_index_onto: "n < 18 \<Longrightarrow> \<exists>f. n = feature_index f"
proof -
  assume "n < 18"
  then have "n = feature_index (Feature_ALL ! n)"
    by (auto simp: Feature_ALL_def numeral_eq_Suc less_Suc_eq)
  then show ?thesis ..
qed

lemma disabled_names_round_trip:
  assumes "feature_mask fs"
  shows "features_parse (join '','' (disabled_names fs)) = Inr fs"
proof -
  let ?off = "filter (\<lambda>f. \<not> enabled fs f) Feature_ALL"
  have e: "spec_entries (join '','' (disabled_names fs)) = map feature_name ?off"
    unfolding disabled_names_def by (rule spec_entries_names)
  obtain d where d: "parse_entries 0 (map feature_name ?off) = Inr d"
    using parse_entries_total [of 0 "map feature_name ?off"] by auto
  have "d = disabled fs"
  proof (rule bit_word_eqI)
    fix n :: nat
    have "bit d n \<longleftrightarrow> (\<exists>f. \<not> enabled fs f \<and> n = feature_index f)"
      using parse_entries_bits [OF d, of n] by auto
    also have "\<dots> \<longleftrightarrow> bit (disabled fs) n"
      using feature_mask_bit [OF assms, of n] feature_index_onto [of n] by (auto simp: enabled_iff)
    finally show "bit d n = bit (disabled fs) n" .
  qed
  with d e show ?thesis by (simp add: features_parse_def)
qed

interpretation features: codec "\<lambda>fs. join '','' (disabled_names fs)" "\<lambda>s. res_opt (features_parse s)" feature_mask
  by unfold_locales (simp add: disabled_names_round_trip res_opt_def)

subsection \<open>The properties\<close>

text \<open>
  Parsing a switch list accepts exactly the lists whose entries, trimmed and in lower
  case, are feature names or \<open>none\<close>; a feature is then enabled exactly when its name is not
  an entry.
\<close>

theorem features_parse_correct:
  "(case features_parse spec of
      Inl n \<Rightarrow> n \<in> set (spec_entries spec) \<and> n \<noteq> ''none'' \<and> n \<notin> range feature_name
    | Inr fs \<Rightarrow> set (spec_entries spec) \<subseteq> insert ''none'' (range feature_name)
        \<and> (\<forall>f. enabled fs f \<longleftrightarrow> feature_name f \<notin> set (spec_entries spec)))"
proof -
  have bad: "n \<in> set ns \<and> n \<noteq> ''none'' \<and> n \<notin> range feature_name"
    if "parse_entries d ns = Inl n" for d ns n
    using that
  proof (induction d ns rule: parse_entries.induct)
    case (2 d m ns)
    then show ?case
      by (auto split: if_splits option.splits simp: find_None_iff)
  qed simp
  have good: "set ns \<subseteq> insert ''none'' (range feature_name)" if "parse_entries d ns = Inr d'" for d d' ns
    using that parse_entries_total [of d ns] by auto
  show ?thesis
  proof (cases "parse_entries 0 (spec_entries spec)")
    case (Inl n)
    with bad [OF Inl] show ?thesis by (simp add: features_parse_def)
  next
    case (Inr d)
    then have "features_parse spec = Inr \<lparr>disabled = d\<rparr>" by (simp add: features_parse_def)
    with enabled_parse [OF this] good [OF Inr] show ?thesis by simp
  qed
qed

text \<open>
  C32. A set of switches survives being written as the list of its disabled names and parsed
  again, for every mask the parser can build.
\<close>

theorem features_round_trip:
  assumes "feature_mask fs"
  shows "features_parse (join '','' (disabled_names fs)) = Inr fs"
  by (rule disabled_names_round_trip [OF assms])

lemma features_round_trip_witness:
  "features_parse (join '','' (disabled_names \<lparr>disabled = 0x2002\<rparr>)) = Inr \<lparr>disabled = 0x2002\<rparr>"
  by (rule features_round_trip) (simp add: feature_mask_def)

end
