(* ===== verification/Fact_Store.thy ===== *)
theory Fact_Store
  imports Rust_String
begin

section \<open>Fact versions: registration\<close>

text \<open>
  Models \<open>src/storage/repo/facts.rs\<close>: the tables \<open>fact_versions\<close> and \<open>fact_evidence\<close>
  (created in \<open>src/storage/repo/schema.rs\<close>) and every statement the module runs on them.
  A fact is identified by a key and an entity; its versions, ordered by event time,
  record time and rowid, form a chain whose last version is current.  This theory holds
  the operations; \<open>Fact_Chain\<close> proves what they keep.
\<close>

subsection \<open>Tables\<close>

record fact_version =
  fv_rowid :: int
  fv_key :: str
  fv_mid :: str
  fv_entity :: str
  fv_subject :: "str option"
  fv_predicate :: "str option"
  fv_object :: "str option"
  fv_status :: str
  fv_ts :: int
  fv_superseded_by :: "str option"
  fv_supersedes :: "str option"
  fv_valid_from :: "int option"
  fv_valid_to :: "int option"
  fv_recorded :: int

record fact_evidence =
  fe_key :: str
  fe_entity :: str
  fe_version :: str
  fe_mid :: str
  fe_ts :: int

record fact_tables =
  versions :: "fact_version list"
  evidence :: "fact_evidence list"

datatype db_error =
    QueryReturnedNoRows
  | NoVersionsAtAll str str
  | InvalidRequest str

datatype fact_version_status =
    Current "(u64 \<times> str) option"
  | Stale "u64 \<times> str"
  | Confirmed "u64 \<times> str"

text \<open>One registration: key, event time, memory id, subject, predicate, object.\<close>

record registration =
  rg_key :: str
  rg_ts :: u64
  rg_mid :: str
  rg_subject :: str
  rg_predicate :: str
  rg_object :: str

text \<open>The row a neighbour query returns: memory id, event time, record time, rowid, object.\<close>

type_synonym fact_position = "str \<times> u64 \<times> u64 \<times> int \<times> str"

definition coalesce :: "'a option \<Rightarrow> 'a \<Rightarrow> 'a" where
  "coalesce x d = (case x of None \<Rightarrow> d | Some y \<Rightarrow> y)"

definition fact_position :: "fact_version \<Rightarrow> fact_position" where
  "fact_position v =
     (fv_mid v, as_u64 (fv_ts v), as_u64 (fv_recorded v), fv_rowid v, coalesce (fv_object v) [])"

text \<open>The ordering of a chain: \<open>timestamp_ms, recorded_at_ms, rowid\<close>, lexicographic.\<close>

definition fv_pos :: "fact_version \<Rightarrow> int \<times> int \<times> int" where
  "fv_pos v = (fv_ts v, fv_recorded v, fv_rowid v)"

definition in_chain :: "str \<Rightarrow> str \<Rightarrow> fact_version \<Rightarrow> bool" where
  "in_chain k e v \<longleftrightarrow> fv_key v = k \<and> fv_entity v = e"

subsection \<open>Whether two objects state the same value\<close>

definition normalize_object :: "str \<Rightarrow> str" where
  "normalize_object t =
     to_ascii_lowercase (trim_matches is_punct (join '' '' (split_whitespace t)))"

definition same_fact_object :: "str \<Rightarrow> str \<Rightarrow> bool" where
  "same_fact_object a b \<longleftrightarrow> a \<noteq> [] \<and> normalize_object a = normalize_object b"

subsection \<open>Queries\<close>

text \<open>
  \<open>fact_neighbour\<close> takes the condition and the direction as SQL text; the two calls of the
  code are the instances below.
\<close>

definition fact_neighbour ::
  "fact_version list \<Rightarrow> str \<Rightarrow> str \<Rightarrow> (fact_version \<Rightarrow> bool) \<Rightarrow> bool \<Rightarrow> fact_position option" where
  "fact_neighbour t k e cond descending =
     map_option fact_position
       ((if descending then sql_first_desc else sql_first_asc) fv_pos
          (filter (\<lambda>v. in_chain k e v \<and> cond v) t))"

definition covering_version :: "fact_version list \<Rightarrow> str \<Rightarrow> str \<Rightarrow> u64 \<Rightarrow> fact_position option" where
  "covering_version t k e ts =
     (case fact_neighbour t k e (\<lambda>v. fv_ts v \<le> as_i64 ts) True of
        Some p \<Rightarrow> Some p
      | None \<Rightarrow> fact_neighbour t k e (\<lambda>v. True) False)"

definition fact_version_of :: "fact_version list \<Rightarrow> str \<Rightarrow> str \<Rightarrow> db_error + fact_position" where
  "fact_version_of t k mid =
     (case filter (\<lambda>v. fv_key v = k \<and> fv_mid v = mid) t of
        [] \<Rightarrow> Inl QueryReturnedNoRows
      | v # _ \<Rightarrow> Inr (fact_position v))"

definition current_fact_version :: "fact_version list \<Rightarrow> str \<Rightarrow> str \<Rightarrow> (str \<times> u64) option" where
  "current_fact_version t k e =
     map_option (\<lambda>v. (fv_mid v, as_u64 (fv_ts v)))
       (sql_first_desc fv_pos (filter (\<lambda>v. in_chain k e v \<and> fv_status v = ''current'') t))"

definition ordered_fact_neighbour ::
  "fact_version list \<Rightarrow> str \<Rightarrow> str \<Rightarrow> u64 \<Rightarrow> u64 \<Rightarrow> int \<Rightarrow> bool \<Rightarrow> fact_position option" where
  "ordered_fact_neighbour t k e ts rec rid predecessor =
     (if predecessor
      then map_option fact_position (sql_first_desc fv_pos
        (filter (\<lambda>v. in_chain k e v \<and>
            (fv_ts v < as_i64 ts
             \<or> (fv_ts v = as_i64 ts \<and> fv_recorded v < as_i64 rec)
             \<or> (fv_ts v = as_i64 ts \<and> fv_recorded v = as_i64 rec \<and> fv_rowid v < rid))) t))
      else map_option fact_position (sql_first_asc fv_pos
        (filter (\<lambda>v. in_chain k e v \<and>
            (fv_ts v > as_i64 ts
             \<or> (fv_ts v = as_i64 ts \<and> fv_recorded v > as_i64 rec)
             \<or> (fv_ts v = as_i64 ts \<and> fv_recorded v = as_i64 rec \<and> fv_rowid v > rid))) t)))"

subsection \<open>Registering one fact\<close>

definition fv_pk :: "fact_version \<Rightarrow> str \<times> str" where
  "fv_pk v = (fv_key v, fv_mid v)"

definition fe_pk :: "fact_evidence \<Rightarrow> str \<times> str \<times> str \<times> str" where
  "fe_pk x = (fe_key x, fe_entity x, fe_version x, fe_mid x)"

definition insert_evidence ::
  "fact_evidence list \<Rightarrow> str \<Rightarrow> str \<Rightarrow> str \<Rightarrow> str \<Rightarrow> u64 \<Rightarrow> fact_evidence list" where
  "insert_evidence ev k e version mid ts =
     sql_ignore fe_pk
       \<lparr>fe_key = k, fe_entity = e, fe_version = version, fe_mid = mid, fe_ts = as_i64 ts\<rparr> ev"

definition new_fact_version :: "fact_version list \<Rightarrow> str \<Rightarrow> u64 \<Rightarrow> registration \<Rightarrow> fact_version" where
  "new_fact_version t e recorded r =
     \<lparr>fv_rowid = next_rowid fv_rowid t, fv_key = rg_key r, fv_mid = rg_mid r, fv_entity = e,
      fv_subject = Some (rg_subject r), fv_predicate = Some (rg_predicate r),
      fv_object = Some (rg_object r), fv_status = ''current'', fv_ts = as_i64 (rg_ts r),
      fv_superseded_by = None, fv_supersedes = None, fv_valid_from = Some (as_i64 (rg_ts r)),
      fv_valid_to = None, fv_recorded = as_i64 recorded\<rparr>"

text \<open>\<open>INSERT ... ON CONFLICT(fact_key, memory_id) DO NOTHING\<close>.\<close>

definition insert_fact_version :: "fact_version list \<Rightarrow> str \<Rightarrow> u64 \<Rightarrow> registration \<Rightarrow> fact_version list" where
  "insert_fact_version t e recorded r = sql_ignore fv_pk (new_fact_version t e recorded r) t"

text \<open>The three UPDATE statements that splice the version between its neighbours.\<close>

definition splice_version ::
  "fact_version list \<Rightarrow> str \<Rightarrow> str \<Rightarrow> u64 \<Rightarrow> fact_position option \<Rightarrow> fact_position option
     \<Rightarrow> fact_version list" where
  "splice_version t k mid ts pred succ =
     (let t1 = sql_update (\<lambda>v. fv_key v = k \<and> fv_mid v = mid)
            (\<lambda>v. v\<lparr>fv_status := (if succ = None then ''current'' else ''stale''),
                   fv_valid_from := Some (as_i64 ts),
                   fv_valid_to := map_option (\<lambda>(_, s, _). as_i64 s) succ,
                   fv_superseded_by := map_option fst succ,
                   fv_supersedes := map_option fst pred\<rparr>) t;
          t2 = (case pred of None \<Rightarrow> t1
            | Some (p, _) \<Rightarrow>
                sql_update (\<lambda>v. fv_key v = k \<and> fv_mid v = p)
                  (\<lambda>v. v\<lparr>fv_status := ''stale'', fv_valid_to := Some (as_i64 ts),
                         fv_superseded_by := Some mid\<rparr>) t1)
      in (case succ of None \<Rightarrow> t2
            | Some (s, _) \<Rightarrow>
                sql_update (\<lambda>v. fv_key v = k \<and> fv_mid v = s)
                  (\<lambda>v. v\<lparr>fv_supersedes := Some mid\<rparr>) t2))"

text \<open>
  The loop body of \<open>register_fact_versions_tx\<close>.  It returns the tables, the status pushed
  and whether the status is deferred (its \<open>current\<close> pointer is resolved after the loop).
\<close>

definition register_fact ::
  "str \<Rightarrow> u64 \<Rightarrow> fact_tables \<Rightarrow> registration
     \<Rightarrow> db_error + (fact_tables \<times> fact_version_status \<times> bool)" where
  "register_fact e recorded db r =
     (let k = rg_key r; ts = rg_ts r; mid = rg_mid r; t = versions db;
          confirmed = (case covering_version t k e ts of
              None \<Rightarrow> None
            | Some (vid, vts, _, _, vobj) \<Rightarrow>
                if vid \<noteq> mid \<and> same_fact_object vobj (rg_object r) then Some (vid, vts) else None)
      in case confirmed of
          Some (vid, vts) \<Rightarrow>
            Inr (db\<lparr>evidence := insert_evidence (evidence db) k e vid mid ts\<rparr>,
                 Confirmed (vts, vid), False)
        | None \<Rightarrow>
            (let previous_latest = current_fact_version t k e;
                 t1 = insert_fact_version t e recorded r;
                 ev1 = insert_evidence (evidence db) k e mid mid ts
             in case fact_version_of t1 k mid of
                 Inl err \<Rightarrow> Inl err
               | Inr (_, _, stored_recorded_at, rid, _) \<Rightarrow>
                   (let pred = ordered_fact_neighbour t1 k e ts stored_recorded_at rid True;
                        succ = ordered_fact_neighbour t1 k e ts stored_recorded_at rid False;
                        db1 = db\<lparr>versions := splice_version t1 k mid ts pred succ, evidence := ev1\<rparr>
                    in if succ = None
                       then Inr (db1, Current (case previous_latest of
                                None \<Rightarrow> None
                              | Some (pid, pts) \<Rightarrow> if pid \<noteq> mid then Some (pts, pid) else None), False)
                       else Inr (db1, Stale (0, []), True))))"

fun register_loop ::
  "str \<Rightarrow> u64 \<Rightarrow> registration list \<Rightarrow> fact_tables \<Rightarrow> fact_version_status list
     \<Rightarrow> (nat \<times> str) list
     \<Rightarrow> db_error + (fact_tables \<times> fact_version_status list \<times> (nat \<times> str) list)" where
  "register_loop e recorded [] db sts def = Inr (db, sts, def)"
| "register_loop e recorded (r # rs) db sts def =
     (case register_fact e recorded db r of
        Inl err \<Rightarrow> Inl err
      | Inr (db', st, deferred) \<Rightarrow>
          register_loop e recorded rs db' (sts @ [st])
            (if deferred then def @ [(length sts, rg_key r)] else def))"

subsection \<open>Resolving the deferred statuses\<close>

definition promote_newest_to_current :: "fact_version list \<Rightarrow> str \<Rightarrow> str \<Rightarrow> fact_version list" where
  "promote_newest_to_current t k e =
     (case sql_first_desc fv_pos (filter (in_chain k e) t) of
        None \<Rightarrow> t
      | Some n \<Rightarrow>
          sql_update (\<lambda>v. in_chain k e v \<and> fv_mid v = fv_mid n)
            (\<lambda>v. v\<lparr>fv_status := ''current'', fv_valid_to := None, fv_superseded_by := None\<rparr>) t)"

fun resolve_deferred ::
  "str \<Rightarrow> (nat \<times> str) list \<Rightarrow> fact_tables \<Rightarrow> fact_version_status list
     \<Rightarrow> db_error + (fact_tables \<times> fact_version_status list)" where
  "resolve_deferred e [] db sts = Inr (db, sts)"
| "resolve_deferred e ((i, k) # ds) db sts =
     (case current_fact_version (versions db) k e of
        Some (cid, cts) \<Rightarrow> resolve_deferred e ds db (sts[i := Stale (cts, cid)])
      | None \<Rightarrow>
          (let db' = db\<lparr>versions := promote_newest_to_current (versions db) k e\<rparr>
           in case current_fact_version (versions db') k e of
                None \<Rightarrow> Inl (NoVersionsAtAll k e)
              | Some (cid, cts) \<Rightarrow> resolve_deferred e ds db' (sts[i := Stale (cts, cid)])))"

definition register_fact_versions_tx ::
  "str \<Rightarrow> registration list \<Rightarrow> u64 \<Rightarrow> fact_tables
     \<Rightarrow> db_error + (fact_tables \<times> fact_version_status list)" where
  "register_fact_versions_tx e rs recorded db =
     (case register_loop e recorded rs db [] [] of
        Inl err \<Rightarrow> Inl err
      | Inr (db', sts, def) \<Rightarrow> resolve_deferred e def db' sts)"

subsection \<open>Reading a fact\<close>

text \<open>
  \<open>ORDER BY timestamp_ms DESC LIMIT 1\<close> over the current rows; rows of equal time are taken
  in the full chain order, which matters only where a fact has several current rows.
\<close>

definition get_current_fact_value :: "fact_version list \<Rightarrow> str \<Rightarrow> str \<Rightarrow> str option" where
  "get_current_fact_value t e k =
     (case sql_first_desc fv_pos (filter (\<lambda>v. in_chain k e v \<and> fv_status v = ''current'') t) of
        None \<Rightarrow> None
      | Some v \<Rightarrow> fv_object v)"

definition invalidated_set :: "fact_version list \<Rightarrow> str list \<Rightarrow> str set" where
  "invalidated_set t ids = fv_mid ` {v \<in> set t. fv_status v = ''stale'' \<and> fv_mid v \<in> set ids}"

definition valid_at :: "int \<Rightarrow> fact_version \<Rightarrow> bool" where
  "valid_at p v \<longleftrightarrow>
     \<not> ((case fv_valid_to v of None \<Rightarrow> False | Some u \<Rightarrow> u \<le> p) \<or> coalesce (fv_valid_from v) 0 > p)"

definition invalidated_set_at_time :: "fact_version list \<Rightarrow> u64 \<Rightarrow> str list \<Rightarrow> str set" where
  "invalidated_set_at_time t pit ids =
     fv_mid ` {v \<in> set t. \<not> valid_at (as_i64 pit) v \<and> fv_mid v \<in> set ids}"

end
