(* ===== verification/Memory_Id.thy ===== *)
theory Memory_Id
  imports Names
begin

section \<open>Memory identifiers\<close>

text \<open>
  Models \<open>src/core/memory_id.rs\<close>: an identifier is \<open>entity::session::turn\<close> followed by
  derivation tags, components escaped so that the separator cannot occur in them, or an
  opaque string of fewer than three parts.  The lemmas show that rendering can be read back
  and that the identifier of a derived record extends its parent's by the separator.
\<close>

definition SEPARATOR :: str where
  "SEPARATOR = ''::''"

datatype Tag =
    Chunk u32
  | Companion str
  | Card str
  | SyntheticQueryTag
  | Named str

definition from_component :: "str \<Rightarrow> Tag" where
  "from_component c =
     (if c = ''sq'' then SyntheticQueryTag
      else (case Option.bind (strip_prefix c ''c'') (parse_unsigned 32) of
              Some n \<Rightarrow> Chunk (of_nat n)
            | None \<Rightarrow>
                if starts_with c ''card'' then Card c
                else if c = ''gist'' \<or> c = ''kw'' \<or> c = ''event'' \<or> starts_with c ''rel''
                     \<or> starts_with c ''fact''
                  then Companion c
                else Named c))"

fun component :: "Tag \<Rightarrow> str" where
  "component (Chunk n) = ''c'' @ show_nat (unat n)"
| "component (Companion v) = v"
| "component (Card v) = v"
| "component (Named v) = v"
| "component SyntheticQueryTag = ''sq''"

datatype MemoryIdError = Empty | InvalidEscape | InvalidTurn

record MemoryId =
  mi_entity :: str
  mi_session :: str
  mi_turn :: u32
  mi_tags :: "Tag list"
  mi_rendered :: str
  mi_structured :: bool

fun escape_component :: "str \<Rightarrow> str" where
  "escape_component [] = []"
| "escape_component (c # s) =
     (if c = CHR ''%'' then ''%25'' else if c = CHR '':'' then ''%3A'' else [c]) @ escape_component s"

fun decode_component :: "str \<Rightarrow> MemoryIdError + str" where
  "decode_component [] = Inr []"
| "decode_component (c # s) =
     (if c \<noteq> CHR ''%'' then map_sum id ((#) c) (decode_component s)
      else (case s of
              h # l # r \<Rightarrow>
                (case (to_digit16 h, to_digit16 l) of
                   (Some x, Some y) \<Rightarrow>
                     if 16 * x + y = 37 then map_sum id ((#) CHR ''%'') (decode_component r)
                     else if 16 * x + y = 58 then map_sum id ((#) CHR '':'') (decode_component r)
                     else Inl InvalidEscape
                 | _ \<Rightarrow> Inl InvalidEscape)
            | _ \<Rightarrow> Inl InvalidEscape))"

definition render_structured :: "str \<Rightarrow> str \<Rightarrow> u32 \<Rightarrow> Tag list \<Rightarrow> str" where
  "render_structured e s t tags =
     escape_component e @ SEPARATOR @ escape_component s @ SEPARATOR @ show_nat (unat t)
       @ concat (map (\<lambda>tag. SEPARATOR @ escape_component (component tag)) tags)"

definition memory_id_new :: "str \<Rightarrow> str \<Rightarrow> u32 \<Rightarrow> MemoryId" where
  "memory_id_new e s t =
     \<lparr>mi_entity = e, mi_session = s, mi_turn = t, mi_tags = [],
      mi_rendered = render_structured e s t [], mi_structured = True\<rparr>"

definition derived :: "MemoryId \<Rightarrow> Tag \<Rightarrow> MemoryId" where
  "derived m tag =
     (if \<not> mi_structured m
      then m\<lparr>mi_tags := [tag], mi_rendered := mi_rendered m @ SEPARATOR @ escape_component (component tag)\<rparr>
      else (let tags = mi_tags m @ [tag]
            in m\<lparr>mi_tags := tags,
                 mi_rendered := mi_rendered m @ SEPARATOR @ escape_component (component (last tags))\<rparr>))"

definition opaque :: "str \<Rightarrow> MemoryId" where
  "opaque v =
     \<lparr>mi_entity = v, mi_session = [], mi_turn = 0, mi_tags = [], mi_rendered = v,
      mi_structured = False\<rparr>"

fun decode_tags :: "str list \<Rightarrow> MemoryIdError + Tag list" where
  "decode_tags [] = Inr []"
| "decode_tags (p # ps) =
     bind_res (decode_component p) (\<lambda>c. map_sum id ((#) (from_component c)) (decode_tags ps))"

definition memory_id_parse :: "str \<Rightarrow> MemoryIdError + MemoryId" where
  "memory_id_parse v =
     (if v = [] then Inl Empty
      else (case split_str SEPARATOR v of
              e # s # t # rest \<Rightarrow>
                bind_res (decode_component e) (\<lambda>entity.
                bind_res (decode_component s) (\<lambda>session.
                (case parse_unsigned 32 t of
                   None \<Rightarrow> Inl InvalidTurn
                 | Some n \<Rightarrow>
                     bind_res (decode_tags rest) (\<lambda>tags.
                       Inr \<lparr>mi_entity = entity, mi_session = session, mi_turn = of_nat n,
                            mi_tags = tags, mi_rendered = v, mi_structured = True\<rparr>))))
            | _ \<Rightarrow>
                map_sum id (\<lambda>entity. \<lparr>mi_entity = entity, mi_session = [], mi_turn = 0, mi_tags = [],
                     mi_rendered = v, mi_structured = False\<rparr>) (decode_component v)))"

definition derived_from :: "str \<Rightarrow> str \<Rightarrow> str" where
  "derived_from parent tag =
     (let m = (case memory_id_parse parent of Inl _ \<Rightarrow> opaque parent | Inr m \<Rightarrow> m)
      in mi_rendered (derived m (from_component tag)))"

subsection \<open>Escaping\<close>

lemma to_digit16_escape [simp]:
  "to_digit16 CHR ''2'' = Some 2" "to_digit16 CHR ''5'' = Some 5" "to_digit16 CHR ''3'' = Some 3"
  "to_digit16 CHR ''A'' = Some 10"
  by (simp_all add: to_digit16_def is_digit_def)

lemma decode_escape [simp]: "decode_component (escape_component s) = Inr s"
  by (induction s) simp_all

lemma escape_no_colon: "CHR '':'' \<notin> set (escape_component s)"
  by (induction s) auto

interpretation escape: codec escape_component "\<lambda>s. res_opt (decode_component s)" "\<lambda>_. True"
  by unfold_locales (simp add: res_opt_def)

lemma escape_append: "escape_component (a @ b) = escape_component a @ escape_component b"
  by (induction a) simp_all

lemma escape_Nil [simp]: "escape_component s = [] \<longleftrightarrow> s = []"
  by (cases s) auto

subsection \<open>Tags\<close>

definition canonical_tag :: "Tag \<Rightarrow> bool" where
  "canonical_tag t \<longleftrightarrow> from_component (component t) = t"

lemma canonical_chunk: "canonical_tag (Chunk n)"
proof -
  have "strip_prefix (''c'' @ show_nat (unat n)) ''c'' = Some (show_nat (unat n))"
    by (simp add: strip_prefix_def starts_with_def)
  moreover have "parse_unsigned 32 (show_nat (unat n)) = Some (unat n)"
    by (rule parse_unsigned_show_nat) (rule unat_u32_less)
  moreover have "''c'' @ show_nat (unat n) \<noteq> ''sq''" by simp
  ultimately show ?thesis
    by (simp add: canonical_tag_def from_component_def)
qed

lemma canonical_synthetic: "canonical_tag SyntheticQueryTag"
  by (simp add: canonical_tag_def from_component_def)

text \<open>Reading a component and writing it gives a tag that reads back as itself.\<close>

lemma canonical_from_component: "canonical_tag (from_component c)"
proof (cases "from_component c")
  case (Chunk n)
  then show ?thesis by (simp only: canonical_chunk)
next
  case SyntheticQueryTag
  then show ?thesis by (simp only: canonical_synthetic)
qed (auto simp: canonical_tag_def from_component_def split: if_splits option.splits)

interpretation tag: codec component "\<lambda>c. Some (from_component c)" canonical_tag
  by unfold_locales (simp add: canonical_tag_def)

subsection \<open>Reading a rendered identifier\<close>

definition id_parts :: "str \<Rightarrow> str \<Rightarrow> u32 \<Rightarrow> Tag list \<Rightarrow> str list" where
  "id_parts e s t tags =
     escape_component e # escape_component s # show_nat (unat t)
       # map (\<lambda>tag. escape_component (component tag)) tags"

lemma render_join: "render_structured e s t tags = join SEPARATOR (id_parts e s t tags)"
  by (simp add: render_structured_def id_parts_def join_def comp_def)

lemma show_nat_no_colon: "CHR '':'' \<notin> set (show_nat n)"
  using show_nat_digits [of "CHR '':''" n] by auto

lemma split_render: "split_str SEPARATOR (render_structured e s t tags) = id_parts e s t tags"
  unfolding render_join
  by (rule split_str_join [where c = "CHR '':''" and cs = "'':''"])
    (auto simp: id_parts_def escape_no_colon show_nat_no_colon SEPARATOR_def)

lemma decode_tags_escape:
  "list_all canonical_tag tags \<Longrightarrow>
     decode_tags (map (\<lambda>tag. escape_component (component tag)) tags) = Inr tags"
  by (induction tags) (auto simp: canonical_tag_def)

lemma render_nonempty [simp]: "render_structured e s t tags \<noteq> []"
  by (simp add: render_structured_def SEPARATOR_def)

lemma parse_render:
  assumes "list_all canonical_tag tags"
  shows "memory_id_parse (render_structured e s t tags)
       = Inr \<lparr>mi_entity = e, mi_session = s, mi_turn = t, mi_tags = tags,
              mi_rendered = render_structured e s t tags, mi_structured = True\<rparr>"
proof -
  have "parse_unsigned 32 (show_nat (unat t)) = Some (unat t)"
    by (rule parse_unsigned_show_nat) (rule unat_u32_less)
  then show ?thesis
    using decode_tags_escape [OF assms] by (simp add: memory_id_parse_def split_render id_parts_def)
qed

text \<open>Identifiers built by \<open>new\<close> and \<open>derived\<close>.\<close>

definition rendered_id :: "MemoryId \<Rightarrow> bool" where
  "rendered_id m \<longleftrightarrow> mi_structured m \<and> list_all canonical_tag (mi_tags m)
     \<and> mi_rendered m = render_structured (mi_entity m) (mi_session m) (mi_turn m) (mi_tags m)"

lemma rendered_new: "rendered_id (memory_id_new e s t)"
  by (simp add: rendered_id_def memory_id_new_def)

lemma rendered_derived: "rendered_id m \<Longrightarrow> canonical_tag tag \<Longrightarrow> rendered_id (derived m tag)"
  by (simp add: rendered_id_def derived_def render_structured_def)

lemma parse_rendered: "rendered_id m \<Longrightarrow> memory_id_parse (mi_rendered m) = Inr m"
  by (cases m) (simp add: rendered_id_def parse_render)

interpretation memory_id: codec mi_rendered "\<lambda>v. res_opt (memory_id_parse v)" rendered_id
  by unfold_locales (simp add: parse_rendered res_opt_def)

subsection \<open>Derived records extend their parent\<close>

lemma derived_rendered:
  "mi_rendered (derived m tag) = mi_rendered m @ SEPARATOR @ escape_component (component tag)"
  by (simp add: derived_def)

lemma parse_keeps_spelling: "memory_id_parse v = Inr m \<Longrightarrow> mi_rendered m = v"
  by (auto simp: memory_id_parse_def bind_res_eq_Inr map_sum_def split: if_splits list.splits option.splits sum.splits)

lemma derived_from_eq:
  "derived_from parent tag = parent @ SEPARATOR @ escape_component (component (from_component tag))"
  by (auto simp: derived_from_def derived_rendered opaque_def dest: parse_keeps_spelling split: sum.splits)

definition family_prefix :: "str \<Rightarrow> str" where
  "family_prefix m = m @ SEPARATOR"

definition in_family :: "str \<Rightarrow> str \<Rightarrow> bool" where
  "in_family m x \<longleftrightarrow> x = m \<or> starts_with x (family_prefix m)"

lemma in_family_derived: "in_family m (derived_from m tag)"
  by (simp add: in_family_def family_prefix_def derived_from_eq starts_with_iff)

lemma in_family_self [simp]: "in_family m m"
  by (simp add: in_family_def)

lemma in_family_trans: "in_family a b \<Longrightarrow> in_family b c \<Longrightarrow> in_family a c"
  by (auto simp: in_family_def family_prefix_def starts_with_iff)

lemma count_colon_id: "count_list (mi_rendered (memory_id_new e s t)) CHR '':'' = 4"
proof -
  have z: "count_list (escape_component x) CHR '':'' = 0" "count_list (show_nat n) CHR '':'' = 0" for x n
    using escape_no_colon show_nat_no_colon by (simp_all add: count_list_0_iff)
  show ?thesis
    by (simp add: memory_id_new_def render_structured_def SEPARATOR_def z)
qed

lemma new_ids_disjoint:
  "in_family (mi_rendered (memory_id_new e s t)) (mi_rendered (memory_id_new e' s' t'))
     \<longleftrightarrow> e = e' \<and> s = s' \<and> t = t'"
proof
  let ?a = "mi_rendered (memory_id_new e s t)" and ?b = "mi_rendered (memory_id_new e' s' t')"
  assume "in_family ?a ?b"
  moreover have "\<not> starts_with ?b (family_prefix ?a)"
  proof
    assume "starts_with ?b (family_prefix ?a)"
    then obtain r where "?b = (?a @ ''::'') @ r"
      by (auto simp: starts_with_iff family_prefix_def SEPARATOR_def)
    then have "count_list ?b CHR '':'' = count_list ((?a @ ''::'') @ r) CHR '':''" by simp
    then show False by (simp add: count_colon_id)
  qed
  ultimately have "?a = ?b" by (simp add: in_family_def)
  then have "memory_id_new e s t = memory_id_new e' s' t'"
    using memory_id.enc_inject [OF rendered_new rendered_new] by blast
  then show "e = e' \<and> s = s' \<and> t = t'" by (simp add: memory_id_new_def)
qed simp

subsection \<open>The properties\<close>

text \<open>
  C35. Every identifier the code builds, from any entity, session and turn and any derivation
  components, is read back as the same identifier; in particular different identifiers have
  different spellings.
\<close>

theorem memory_id_round_trip:
  "memory_id_parse (mi_rendered (foldl derived (memory_id_new e s t) (map from_component cs)))
     = Inr (foldl derived (memory_id_new e s t) (map from_component cs))"
proof -
  have "rendered_id (foldl derived m (map from_component cs))" if "rendered_id m" for m
    using that by (induction cs arbitrary: m) (simp_all add: rendered_derived canonical_from_component)
  then show ?thesis by (intro parse_rendered) (simp add: rendered_new)
qed

text \<open>
  C34. A derived identifier is its parent's spelling, the separator and an escaped component,
  whatever the parent; and the identifiers of two turns are in each other's family only if
  they are the same turn, so a family holds no other turn.
\<close>

theorem derived_families:
  "derived_from parent tag = parent @ SEPARATOR @ escape_component (component (from_component tag))
   \<and> (in_family (mi_rendered (memory_id_new e s t)) (mi_rendered (memory_id_new e' s' t'))
        \<longleftrightarrow> e = e' \<and> s = s' \<and> t = t')"
  by (intro conjI derived_from_eq new_ids_disjoint)

end
