(* ===== verification/Router.thy ===== *)
theory Router
  imports Rust_String
begin

section \<open>Session routers\<close>

text \<open>
  Models \<open>SessionRouterRecord\<close> and \<open>build_session_router_text\<close> of \<open>src/storage/types.rs\<close>
  and \<open>dedupe_append\<close> and \<open>merge_router_records\<close> of \<open>src/storage/tenant.rs\<close>: the per-session
  summary that every turn of a session is merged into.
\<close>

record SessionRouterRecord =
  sr_session_id :: str
  sr_entity_id :: str
  sr_session_date :: str
  sr_document_time_ms :: u64
  sr_speakers :: "str list"
  sr_persons :: "str list"
  sr_session_focus :: str
  sr_canonical_facts :: "str list"
  sr_events :: "str list"
  sr_objects :: "str list"
  sr_places :: "str list"
  sr_activities :: "str list"
  sr_preference_signals :: "str list"
  sr_salient_terms :: "str list"
  sr_source_memory_ids :: "str list"
  sr_router_text :: str
  sr_created_at_ms :: u64
  sr_updated_at_ms :: u64

definition text_part :: "str \<Rightarrow> str \<Rightarrow> str list \<Rightarrow> str list" where
  "text_part title sep xs = (if xs = [] then [] else [title @ join sep xs])"

definition build_session_router_text :: "SessionRouterRecord \<Rightarrow> str" where
  "build_session_router_text r =
     join [CHR 0x0A]
       ([''session '' @ sr_session_id r]
        @ (if sr_session_date r = [] then [] else [''date '' @ sr_session_date r])
        @ (if sr_session_focus r = [] then [] else [''focus '' @ sr_session_focus r])
        @ text_part ''speakers '' '' '' (sr_speakers r)
        @ text_part ''people '' '' '' (sr_persons r)
        @ text_part ''facts '' '' | '' (sr_canonical_facts r)
        @ text_part ''events '' '' | '' (sr_events r)
        @ text_part ''objects '' '' '' (sr_objects r)
        @ text_part ''places '' '' '' (sr_places r)
        @ text_part ''activities '' '' '' (sr_activities r)
        @ text_part ''preferences '' '' | '' (sr_preference_signals r)
        @ text_part ''keywords '' '' '' (sr_salient_terms r))"

text \<open>The loop of \<open>dedupe_append\<close>: the set of seen items and the result so far.\<close>

fun dedupe_loop :: "'a set \<Rightarrow> 'a list \<Rightarrow> 'a list \<Rightarrow> 'a list" where
  "dedupe_loop seen result [] = result"
| "dedupe_loop seen result (x # xs) =
     (if x \<in> seen then dedupe_loop seen result xs
      else dedupe_loop (insert x seen) (result @ [x]) xs)"

definition dedupe_append :: "'a list \<Rightarrow> 'a list \<Rightarrow> 'a list" where
  "dedupe_append base extra = dedupe_loop (set base) base extra"

definition merge_router_records ::
  "SessionRouterRecord \<Rightarrow> SessionRouterRecord \<Rightarrow> SessionRouterRecord" where
  "merge_router_records existing incoming =
     (let m1 = existing
            \<lparr>sr_canonical_facts := dedupe_append (sr_canonical_facts existing) (sr_canonical_facts incoming),
             sr_events := dedupe_append (sr_events existing) (sr_events incoming),
             sr_source_memory_ids := dedupe_append (sr_source_memory_ids existing) (sr_source_memory_ids incoming),
             sr_persons := dedupe_append (sr_persons existing) (sr_persons incoming),
             sr_speakers := dedupe_append (sr_speakers existing) (sr_speakers incoming),
             sr_salient_terms := dedupe_append (sr_salient_terms existing) (sr_salient_terms incoming),
             sr_objects := dedupe_append (sr_objects existing) (sr_objects incoming),
             sr_places := dedupe_append (sr_places existing) (sr_places incoming),
             sr_activities := dedupe_append (sr_activities existing) (sr_activities incoming),
             sr_preference_signals := dedupe_append (sr_preference_signals existing) (sr_preference_signals incoming)\<rparr>;
          m2 = m1\<lparr>sr_router_text := build_session_router_text m1\<rparr>;
          m3 = m2\<lparr>sr_updated_at_ms := max (sr_updated_at_ms m2) (sr_updated_at_ms incoming)\<rparr>;
          m4 = m3\<lparr>sr_session_focus := (if sr_session_focus incoming = [] then sr_session_focus m3
                                         else sr_session_focus incoming)\<rparr>
      in m4\<lparr>sr_session_date :=
              (if sr_session_date incoming = [] \<or> sr_session_date incoming = ''unknown''
               then sr_session_date m4 else sr_session_date incoming)\<rparr>)"

subsection \<open>Appending without duplicates\<close>

fun fresh_items :: "'a set \<Rightarrow> 'a list \<Rightarrow> 'a list" where
  "fresh_items seen [] = []"
| "fresh_items seen (x # xs) =
     (if x \<in> seen then fresh_items seen xs else x # fresh_items (insert x seen) xs)"

lemma dedupe_loop_eq: "dedupe_loop seen result xs = result @ fresh_items seen xs"
  by (induction seen result xs rule: dedupe_loop.induct) auto

lemma dedupe_append_eq: "dedupe_append base extra = base @ fresh_items (set base) extra"
  by (simp add: dedupe_append_def dedupe_loop_eq)

lemma set_fresh_items: "set (fresh_items seen xs) = set xs - seen"
  by (induction seen xs rule: fresh_items.induct) auto

lemma distinct_fresh_items: "distinct (fresh_items seen xs)"
  by (induction seen xs rule: fresh_items.induct) (auto simp: set_fresh_items)

lemma set_dedupe_append [simp]: "set (dedupe_append base extra) = set base \<union> set extra"
  by (auto simp: dedupe_append_eq set_fresh_items)

lemma distinct_dedupe_append: "distinct base \<Longrightarrow> distinct (dedupe_append base extra)"
  by (auto simp: dedupe_append_eq distinct_fresh_items set_fresh_items)

lemma fresh_items_seen: "set xs \<subseteq> seen \<Longrightarrow> fresh_items seen xs = []"
  by (induction seen xs rule: fresh_items.induct) auto

lemma fresh_items_append:
  "fresh_items seen (xs @ ys) = fresh_items seen xs @ fresh_items (seen \<union> set xs) ys"
  by (induction seen xs rule: fresh_items.induct) (auto simp: insert_absorb)

lemma fresh_items_fresh: "fresh_items seen (fresh_items s ys) = fresh_items (seen \<union> s) ys" if "s \<subseteq> seen"
  using that
proof (induction ys arbitrary: seen s)
  case (Cons y ys)
  have i: "fresh_items (insert y seen) (fresh_items (insert y s) ys) = fresh_items (insert y seen) ys"
    using Cons.IH [of "insert y s" "insert y seen"] Cons.prems by (auto simp: Un_absorb2 insert_mono)
  have j: "fresh_items seen (fresh_items s ys) = fresh_items seen ys"
    using Cons.IH [of s seen] Cons.prems by (simp add: Un_absorb2)
  show ?case
    using i j Cons.prems by (cases "y \<in> s"; cases "y \<in> seen") (auto simp: Un_absorb2 insert_absorb)
qed simp

lemma dedupe_append_idem [simp]: "dedupe_append (dedupe_append a b) b = dedupe_append a b"
  by (simp add: dedupe_append_eq fresh_items_seen set_fresh_items)

lemma dedupe_append_Nil [simp]: "dedupe_append a [] = a"
  by (simp add: dedupe_append_eq)

lemma dedupe_append_assoc:
  "dedupe_append (dedupe_append a b) c = dedupe_append a (dedupe_append b c)"
proof -
  have "fresh_items (set a \<union> set b) (fresh_items (set b) c) = fresh_items (set a \<union> set b) c"
    using fresh_items_fresh [of "set b" "set a \<union> set b" c] by (simp add: Un_absorb2)
  then show ?thesis
    by (simp add: dedupe_append_eq fresh_items_append set_fresh_items Un_Diff_cancel)
qed

subsection \<open>Merging\<close>

lemma merge_sel [simp]:
  "sr_session_id (merge_router_records a b) = sr_session_id a"
  "sr_entity_id (merge_router_records a b) = sr_entity_id a"
  "sr_source_memory_ids (merge_router_records a b)
     = dedupe_append (sr_source_memory_ids a) (sr_source_memory_ids b)"
  "sr_canonical_facts (merge_router_records a b) = dedupe_append (sr_canonical_facts a) (sr_canonical_facts b)"
  "sr_events (merge_router_records a b) = dedupe_append (sr_events a) (sr_events b)"
  "sr_persons (merge_router_records a b) = dedupe_append (sr_persons a) (sr_persons b)"
  "sr_speakers (merge_router_records a b) = dedupe_append (sr_speakers a) (sr_speakers b)"
  "sr_salient_terms (merge_router_records a b) = dedupe_append (sr_salient_terms a) (sr_salient_terms b)"
  "sr_objects (merge_router_records a b) = dedupe_append (sr_objects a) (sr_objects b)"
  "sr_places (merge_router_records a b) = dedupe_append (sr_places a) (sr_places b)"
  "sr_activities (merge_router_records a b) = dedupe_append (sr_activities a) (sr_activities b)"
  "sr_preference_signals (merge_router_records a b)
     = dedupe_append (sr_preference_signals a) (sr_preference_signals b)"
  "sr_document_time_ms (merge_router_records a b) = sr_document_time_ms a"
  "sr_created_at_ms (merge_router_records a b) = sr_created_at_ms a"
  "sr_updated_at_ms (merge_router_records a b) = max (sr_updated_at_ms a) (sr_updated_at_ms b)"
  "sr_session_focus (merge_router_records a b)
     = (if sr_session_focus b = [] then sr_session_focus a else sr_session_focus b)"
  "sr_session_date (merge_router_records a b)
     = (if sr_session_date b = [] \<or> sr_session_date b = ''unknown'' then sr_session_date a
        else sr_session_date b)"
  by (simp_all add: merge_router_records_def Let_def)

lemma fold_merge_sources:
  "set (sr_source_memory_ids (foldl merge_router_records r rs))
     = set (sr_source_memory_ids r) \<union> (\<Union>x \<in> set rs. set (sr_source_memory_ids x))"
  by (induction rs arbitrary: r) auto

subsection \<open>The properties\<close>

definition sample_router :: "str \<Rightarrow> str \<Rightarrow> SessionRouterRecord" where
  "sample_router mid focus =
     \<lparr>sr_session_id = ''s'', sr_entity_id = ''e'', sr_session_date = [], sr_document_time_ms = 0,
      sr_speakers = [], sr_persons = [], sr_session_focus = focus, sr_canonical_facts = [],
      sr_events = [], sr_objects = [], sr_places = [], sr_activities = [],
      sr_preference_signals = [], sr_salient_terms = [], sr_source_memory_ids = [mid],
      sr_router_text = [], sr_created_at_ms = 1, sr_updated_at_ms = 2\<rparr>"

text \<open>
  Merging is associative and absorbs what was merged before, whatever the text field
  holds: the record of a session does not depend on how its turns were grouped into batches,
  and merging a turn again changes nothing.
\<close>

theorem merge_router_records_assoc:
  "(merge_router_records (merge_router_records a b) c)\<lparr>sr_router_text := x\<rparr>
     = (merge_router_records a (merge_router_records b c))\<lparr>sr_router_text := x\<rparr>
   \<and> (merge_router_records (merge_router_records a b) b)\<lparr>sr_router_text := x\<rparr>
     = (merge_router_records a b)\<lparr>sr_router_text := x\<rparr>"
  by (intro conjI SessionRouterRecord.equality) (simp_all add: dedupe_append_assoc max.assoc)

text \<open>
  C34. The text kept with a merged record is built before its focus and date are updated: a
  session whose second turn brings the focus is stored with a text that does not mention it,
  while the same session rebuilt after a deletion does.
\<close>

theorem merged_text_lacks_focus:
  "let m = merge_router_records (sample_router ''m1'' []) (sample_router ''m2'' ''hiking'')
   in sr_session_focus m = ''hiking''
      \<and> sr_router_text m = ''session s''
      \<and> build_session_router_text m = ''session s'' @ [CHR 0x0A] @ ''focus hiking''"
  by code_simp

end
