(* ===== verification/Fts_Keys.thy ===== *)
theory Fts_Keys
  imports Rust_String
begin

section \<open>Keys of the full-text index and blob encodings\<close>

text \<open>
  Models the helpers of \<open>src/storage/tenant.rs\<close> that turn keys and vectors into what SQLite
  stores: the entity token, the quoting of a search term, the rowid of a document (an FNV-1a
  hash on a wrapping \<open>u64\<close>) and the little-endian blob of an embedding.  An \<open>f32\<close> is its
  32-bit pattern; nothing here computes with it.
\<close>

unbundle bit_operations_syntax

definition fts_entity_tok :: "str \<Rightarrow> str" where
  "fts_entity_tok entity = CHR ''e'' # concat (map hex_byte entity)"

fun double_quotes :: "str \<Rightarrow> str" where
  "double_quotes [] = []"
| "double_quotes (c # s) = (if c = CHR 0x22 then [c, c] else [c]) @ double_quotes s"

definition fts_quote :: "str \<Rightarrow> str" where
  "fts_quote term = [CHR 0x22] @ double_quotes term @ [CHR 0x22]"

fun fnv_loop :: "u64 \<Rightarrow> str \<Rightarrow> u64" where
  "fnv_loop hash [] = hash"
| "fnv_loop hash (b # bs) = fnv_loop ((hash XOR word_of_nat (code b)) * 0x0100000001b3) bs"

definition fts_rowid :: "str \<Rightarrow> int" where
  "fts_rowid key = as_i64 (drop_bit 1 (fnv_loop 0xcbf29ce484222325 key) OR 1)"

text \<open>\<open>to_le_bytes\<close> and \<open>from_le_bytes\<close> of the 32-bit pattern.\<close>

definition le_bytes :: "u32 \<Rightarrow> str" where
  "le_bytes x = map (\<lambda>i. char_of (unat (drop_bit (8 * i) x) mod 256)) [0, 1, 2, 3]"

definition vec_f32_to_bytes :: "u32 list \<Rightarrow> str" where
  "vec_f32_to_bytes v = concat (map le_bytes v)"

fun bytes_to_vec_f32 :: "str \<Rightarrow> u32 list" where
  "bytes_to_vec_f32 (a # b # c # d # s) =
     word_of_nat (code a + 256 * code b + 65536 * code c + 16777216 * code d) # bytes_to_vec_f32 s"
| "bytes_to_vec_f32 _ = []"

subsection \<open>Entity tokens\<close>

interpretation entity_tok: codec fts_entity_tok
  "\<lambda>t. if \<exists>e. t = fts_entity_tok e then Some (THE e. t = fts_entity_tok e) else None" "\<lambda>_. True"
  by unfold_locales (auto simp: fts_entity_tok_def concat_hex_inject)

lemma hex_digit_alnum: "d < 16 \<Longrightarrow> is_alnum (hex_digit d)"
  by (auto simp: is_alnum_def is_alpha_def is_lower_def is_digit_def hex_digit_def of_char_of)

lemma hex_byte_alnum: "c \<in> set (hex_byte b) \<Longrightarrow> is_alnum c"
  using less_mult_imp_div_less [of "code b" 16 16] code_lt_256 [of b]
  by (auto simp: hex_byte_def hex_digit_alnum)

subsection \<open>Quoting\<close>

text \<open>Reading a quoted string: two quotes stand for one, a single quote ends it.\<close>

fun read_quoted :: "str \<Rightarrow> (str \<times> str) option" where
  "read_quoted [] = None"
| "read_quoted (c # s) =
     (if c \<noteq> CHR 0x22 then map_option (\<lambda>(t, r). (c # t, r)) (read_quoted s)
      else (case s of
              d # r \<Rightarrow> if d = CHR 0x22 then map_option (\<lambda>(t, r'). (c # t, r')) (read_quoted r)
                      else Some ([], s)
            | [] \<Rightarrow> Some ([], [])))"

definition unquote :: "str \<Rightarrow> (str \<times> str) option" where
  "unquote s = (case s of [] \<Rightarrow> None | c # r \<Rightarrow> if c = CHR 0x22 then read_quoted r else None)"

lemma read_double_quotes:
  "rest = [] \<or> hd rest \<noteq> CHR 0x22 \<Longrightarrow>
     read_quoted (double_quotes s @ CHR 0x22 # rest) = Some (s, rest)"
  by (induction s) (auto split: list.splits)

lemma unquote_quote:
  "rest = [] \<or> hd rest \<noteq> CHR 0x22 \<Longrightarrow> unquote (fts_quote s @ rest) = Some (s, rest)"
  by (simp add: unquote_def fts_quote_def read_double_quotes)

interpretation quoted: codec fts_quote "\<lambda>s. map_option fst (unquote s)" "\<lambda>_. True"
  using unquote_quote [of "[]"] by unfold_locales simp

subsection \<open>Document rowids\<close>

lemma fts_rowid_word:
  "0 < uint (drop_bit 1 (w :: u64) OR 1)" "uint (drop_bit 1 (w :: u64) OR 1) < 2 ^ 63"
proof -
  have "odd (uint (drop_bit 1 w OR 1))"
    by (simp add: unsigned_or_eq even_or_iff)
  moreover have "0 \<le> uint (drop_bit 1 w OR 1)" by simp
  ultimately show "0 < uint (drop_bit 1 w OR 1)" by (metis dvd_0_right order_le_less)
  have "uint (drop_bit 1 w) < 2 ^ 63"
  proof -
    have "unat (drop_bit 1 w) < 2 ^ 63"
      using unat_u64_less [of w] unfolding unat_drop_bit_div by (simp add: less_mult_imp_div_less)
    then have "int (unat (drop_bit 1 w)) < int (2 ^ 63)" by (simp only: of_nat_less_iff)
    then show ?thesis by simp
  qed
  then have "take_bit 63 (uint (drop_bit 1 w)) = uint (drop_bit 1 w)"
    by (simp add: take_bit_int_eq_self_iff)
  then have "take_bit 63 (uint (drop_bit 1 w OR 1)) = uint (drop_bit 1 w OR 1)"
    by (simp add: unsigned_or_eq take_bit_or take_bit_int_eq_self)
  then show "uint (drop_bit 1 w OR 1) < 2 ^ 63"
    by (simp add: take_bit_int_eq_self_iff)
qed

lemma as_i64_small: "uint w < 2 ^ 63 \<Longrightarrow> as_i64 w = uint w"
proof -
  assume "uint w < 2 ^ 63"
  moreover have "- (2 ^ 63) \<le> uint w" by (rule order_trans [of _ 0]) simp_all
  ultimately have "signed_take_bit 63 (uint w) = uint w"
    by (intro signed_take_bit_int_eq_self)
  then show ?thesis by (simp add: as_i64_def sint_uint)
qed

lemma fts_rowid_range: "0 < fts_rowid k \<and> fts_rowid k < 2 ^ 63"
  using fts_rowid_word [of "fnv_loop 0xcbf29ce484222325 k"] by (simp add: fts_rowid_def as_i64_small)

subsection \<open>Embedding blobs\<close>

lemma le_bytes_read:
  "word_of_nat (unat x mod 256 + 256 * (unat (drop_bit 8 x) mod 256)
      + 65536 * (unat (drop_bit 16 x) mod 256) + 16777216 * (unat (drop_bit 24 x) mod 256)) = (x :: u32)"
proof -
  have bytes: "n mod 256 + 256 * (n div 256 mod 256) + 65536 * (n div 65536 mod 256)
      + 16777216 * (n div 16777216 mod 256) = n mod 4294967296" for n :: nat
    using mod_mult2_eq [of n 256 16777216] mod_mult2_eq [of "n div 256" 256 65536]
      mod_mult2_eq [of "n div 65536" 256 256]
    by (simp add: div_mult2_eq [symmetric])
  have "unat x mod 4294967296 = unat x" using unat_u32_less [of x] by simp
  with bytes [of "unat x"] have "unat x mod 256 + 256 * (unat (drop_bit 8 x) mod 256)
      + 65536 * (unat (drop_bit 16 x) mod 256) + 16777216 * (unat (drop_bit 24 x) mod 256) = unat x"
    unfolding unat_drop_bit_div by simp
  then show ?thesis by (simp only: word_of_nat_eq_iff of_nat_unat) simp
qed

lemma bytes_le_bytes: "bytes_to_vec_f32 (le_bytes x @ s) = x # bytes_to_vec_f32 s"
  using le_bytes_read [of x] by (simp add: le_bytes_def of_char_of)

lemma bytes_to_vec_inverse: "bytes_to_vec_f32 (vec_f32_to_bytes v) = v"
  by (induction v) (simp_all add: vec_f32_to_bytes_def bytes_le_bytes)

interpretation blob: codec vec_f32_to_bytes "\<lambda>s. Some (bytes_to_vec_f32 s)" "\<lambda>_. True"
  by unfold_locales (simp add: bytes_to_vec_inverse)

subsection \<open>The properties\<close>

text \<open>
  C37. The token that restricts a search to one entity is a single alphanumeric word, and
  different entities have different tokens; a quoted search term is read back as one string
  whatever quotes it contains; and a document's rowid is positive and fits SQLite's rowids.
\<close>

theorem fts_keys_sound:
  "(fts_entity_tok a = fts_entity_tok b \<longleftrightarrow> a = b)
   \<and> filter is_alnum (fts_entity_tok a) = fts_entity_tok a
   \<and> unquote (fts_quote term @ '' OR '' @ rest) = Some (term, '' OR '' @ rest)
   \<and> 0 < fts_rowid k \<and> fts_rowid k < 2 ^ 63"
proof -
  have "\<forall>c \<in> set (fts_entity_tok a). is_alnum c"
    by (auto simp: fts_entity_tok_def hex_byte_alnum) (simp add: is_alnum_def is_alpha_def is_lower_def)
  then show ?thesis
    using fts_rowid_range unquote_quote [of "'' OR '' @ rest" "term"]
    by (simp add: entity_tok.enc_inject filter_id_conv)
qed

text \<open>An embedding stored as a blob is read back with the same bits.\<close>

theorem embedding_blob_round_trip: "bytes_to_vec_f32 (vec_f32_to_bytes v) = v"
  by (rule bytes_to_vec_inverse)

end
