(* ===== verification/Store.thy ===== *)
theory Store
  imports Fact_Store Names Memory_Id Router Fts_Keys
begin

section \<open>The tenant database\<close>

text \<open>
  The tables of a tenant's SQLite database (\<open>src/storage/repo/schema.rs\<close>) that ingest and
  deletion write, one record per row and one list per table.  \<open>REAL\<close> columns hold the bit
  pattern of the float that was bound to them, except edge weights, which only ever hold a
  default weight and are kept in hundredths.  \<open>memories\<close> is declared AUTOINCREMENT: its
  largest rowid ever used is part of the state.
\<close>

record memory_row =
  m_rowid :: int
  m_memory_id :: str
  m_entity_id :: str
  m_content :: str
  m_kind :: str
  m_content_hash :: str
  m_created_at_ms :: int
  m_recorded_at_ms :: int
  m_expires_at_ms :: "int option"
  m_session_id :: str
  m_turn_index :: u32
  m_role :: str
  m_parent_memory_id :: "str option"
  m_indexed :: int

record vector_row =
  v_vector_id :: int
  v_memory_id :: str
  v_entity_id :: str
  v_timestamp_ms :: int
  v_embedding :: str

record card_row =
  c_card_id :: str
  c_entity_id :: str
  c_user_id :: str
  c_source_memory_id :: str
  c_source_session_id :: str
  c_source_turn_index :: int
  c_document_time :: u64
  c_conversation_time :: u64
  c_event_time :: "u64 option"
  c_subject :: str
  c_predicate :: str
  c_object :: str
  c_memory_text :: str
  c_card_type :: str
  c_confidence :: u32
  c_is_latest :: bool
  c_is_static :: bool
  c_is_inference :: bool
  c_expires_at :: "u64 option"
  c_root_card_id :: "str option"
  c_parent_card_id :: "str option"
  c_lifecycle :: str
  c_created_at_ms :: u64
  c_updated_at_ms :: int

record edge_row =
  e_edge_id :: str
  e_source :: str
  e_target :: str
  e_edge_type :: str
  e_label :: str
  e_weight :: nat
  e_status :: str
  e_ref_source :: "str option"
  e_ref_target :: "str option"
  e_timestamp_ms :: int
  e_memory_id :: "str option"

record metric_row =
  x_memory_id :: str
  x_ordinal :: int
  x_entity_id :: str
  x_timestamp_ms :: int
  x_label :: str
  x_value :: u64
  x_unit :: str
  x_source_text :: str

record fts_row =
  f_rowid :: int
  f_memory_id :: str
  f_entity_id :: str
  f_entity_tok :: str
  f_content :: str

record router_row =
  r_session_id :: str
  r_entity_id :: str
  r_record_json :: str
  r_router_text :: str
  r_created_at_ms :: u64
  r_updated_at_ms :: u64

record router_source_row =
  s_session_id :: str
  s_entity_id :: str
  s_memory_id :: str
  s_record_json :: str

record fts_router_row =
  g_rowid :: int
  g_session_id :: str
  g_entity_id :: str
  g_router_text :: str

record consolidation_row =
  q_memory_id :: str
  q_entity_id :: str
  q_timestamp_ms :: int
  q_textual_content :: str

record tombstone_row =
  t_tombstone_id :: str
  t_target_memory_id :: str
  t_reason :: str
  t_timestamp_ms :: int
  t_tombstone_json :: str

text \<open>
  \<open>(entity_id, memory_id, payload)\<close> for preferences, negative centroids and disambiguation
  vectors; \<open>(source, target, link_type)\<close> for links; \<open>(entity_id, profile_json, updated)\<close>
  for core profiles.
\<close>

record canon_row =
  n_entity_id :: str
  n_predicate :: str
  n_canonical :: str
  n_embedding :: "str option"

record store =
  memories :: "memory_row list"
  memories_seq :: int
  vector_lookup :: "vector_row list"
  memory_cards :: "card_row list"
  edges :: "edge_row list"
  fts_memories :: "fts_row list"
  session_router :: "router_row list"
  session_router_sources :: "router_source_row list"
  fts_session_router :: "fts_router_row list"
  preferences :: "(str \<times> str \<times> u32) list"
  memory_links :: "(str \<times> str \<times> str) list"
  facts :: fact_tables
  metrics :: "metric_row list"
  core_profiles :: "(str \<times> str \<times> int) list"
  consolidation_queue :: "consolidation_row list"
  deletion_tombstones :: "tombstone_row list"
  negative_centroids :: "(str \<times> str \<times> str) list"
  disambiguation_vectors :: "(str \<times> str \<times> str) list"
  predicate_canon :: "canon_row list"

subsection \<open>Primary keys\<close>

definition router_pk :: "router_row \<Rightarrow> str \<times> str" where
  "router_pk r = (r_session_id r, r_entity_id r)"

definition source_pk :: "router_source_row \<Rightarrow> str \<times> str \<times> str" where
  "source_pk s = (s_session_id s, s_entity_id s, s_memory_id s)"

definition canon_pk :: "canon_row \<Rightarrow> str \<times> str" where
  "canon_pk n = (n_entity_id n, n_predicate n)"

definition pref_pk :: "str \<times> str \<times> 'a \<Rightarrow> str \<times> str" where
  "pref_pk = (\<lambda>(e, m, _). (e, m))"

subsection \<open>Edges\<close>

definition edge_id :: "str \<Rightarrow> str \<Rightarrow> str \<Rightarrow> str" where
  "edge_id mid subject predicate = ''edge::'' @ mid @ ''::'' @ subject @ ''::'' @ predicate"

definition edge_label :: "str \<Rightarrow> str \<Rightarrow> str \<Rightarrow> str" where
  "edge_label subject predicate obj = subject @ '' '' @ predicate @ '' '' @ obj"

subsection \<open>Router documents\<close>

definition router_fts_rowid :: "str \<Rightarrow> str \<Rightarrow> int" where
  "router_fts_rowid entity session = fts_rowid (''router::'' @ entity @ ''::'' @ session)"

definition router_id :: "str \<Rightarrow> str \<Rightarrow> str" where
  "router_id entity session = mi_rendered (derived (memory_id_new entity session 0) (Named ''router''))"

definition upsert_router :: "router_row \<Rightarrow> router_row list \<Rightarrow> router_row list" where
  "upsert_router r t =
     (if \<exists>x \<in> set t. router_pk x = router_pk r
      then sql_update (\<lambda>x. router_pk x = router_pk r)
             (\<lambda>x. x\<lparr>r_record_json := r_record_json r, r_router_text := r_router_text r,
                    r_updated_at_ms := r_updated_at_ms r\<rparr>) t
      else t @ [r])"

definition fts_document :: "str \<Rightarrow> str \<Rightarrow> str \<Rightarrow> fts_row" where
  "fts_document mid entity content =
     \<lparr>f_rowid = fts_rowid mid, f_memory_id = mid, f_entity_id = entity,
      f_entity_tok = fts_entity_tok entity, f_content = content\<rparr>"

definition router_document :: "str \<Rightarrow> str \<Rightarrow> str \<Rightarrow> fts_router_row" where
  "router_document session entity txt =
     \<lparr>g_rowid = router_fts_rowid entity session, g_session_id = session, g_entity_id = entity,
      g_router_text = txt\<rparr>"

lemma router_id_new: "router_id e s = mi_rendered (memory_id_new e s 0) @ ''::router''"
  by (simp add: router_id_def derived_def memory_id_new_def SEPARATOR_def)

subsection \<open>Full-text documents\<close>

text \<open>\<open>ensure_fts_rowid_available\<close> and the inserts of \<open>src/storage/repo/fts.rs\<close>.\<close>

definition fts_rowid_available :: "fts_row list \<Rightarrow> int \<Rightarrow> str \<Rightarrow> bool" where
  "fts_rowid_available t rowid mid \<longleftrightarrow>
     (case filter (\<lambda>f. f_rowid f = rowid) t of [] \<Rightarrow> True | f # _ \<Rightarrow> f_memory_id f = mid)"

definition fts_index_text :: "fts_row list \<Rightarrow> str \<Rightarrow> str \<Rightarrow> str \<Rightarrow> str + fts_row list" where
  "fts_index_text t mid content entity =
     (if fts_rowid_available t (fts_rowid mid) mid
      then Inr (sql_replace f_rowid (fts_document mid entity content) t)
      else Inl (''FTS rowid collision for memory '' @ mid))"

fun fts_index_batch :: "fts_row list \<Rightarrow> (str \<times> str \<times> str) list \<Rightarrow> str + fts_row list" where
  "fts_index_batch t [] = Inr t"
| "fts_index_batch t ((mid, entity, content) # xs) =
     bind_res (fts_index_text t mid content entity) (\<lambda>t'. fts_index_batch t' xs)"

definition fts_remove_document :: "fts_row list \<Rightarrow> str \<Rightarrow> fts_row list" where
  "fts_remove_document t mid = sql_delete (\<lambda>f. f_rowid f = fts_rowid mid) t"

subsection \<open>A new tenant\<close>

definition empty_store :: store where
  "empty_store =
     \<lparr>memories = [], memories_seq = 0, vector_lookup = [], memory_cards = [], edges = [],
      fts_memories = [], session_router = [], session_router_sources = [], fts_session_router = [],
      preferences = [], memory_links = [], facts = \<lparr>versions = [], evidence = []\<rparr>, metrics = [],
      core_profiles = [], consolidation_queue = [], deletion_tombstones = [],
      negative_centroids = [], disambiguation_vectors = [], predicate_canon = []\<rparr>"

end
