(* ===== verification/Ingest.thy ===== *)
theory Ingest
  imports Store "HOL-Library.Char_ord" "HOL-Library.List_Lexorder"
begin

section \<open>The ingest transaction\<close>

text \<open>
  Models \<open>src/storage/repo/ingest.rs\<close>: the batches of an ingest request and the functions
  that write them, in the order \<open>commit_ingest\<close> calls them.  A transaction either returns the
  new database or an error, in which case SQLite rolls back and the old one stays.  The
  clock, the JSON of router records and of card lifecycles are parameters; batches grouped in
  a \<open>HashMap\<close> are lists, whose order stands for the map's iteration order.
\<close>

record AgentObservation =
  o_entity_id :: str
  o_textual_content :: str
  o_embedding :: "u32 list"
  o_kind :: MemoryKind
  o_content_hash :: str
  o_created_at_ms :: u64
  o_recorded_at_ms :: u64
  o_expires_at_ms :: "u64 option"
  o_session_id :: str
  o_turn_index :: u32
  o_role :: str
  o_parent_memory_id :: "str option"

record IngestFactRegistration =
  if_entity_id :: str
  if_fact_key :: str
  if_timestamp :: u64
  if_memory_id :: str
  if_subject :: str
  if_predicate :: str
  if_object :: str

record IngestGraphEdge =
  ig_memory_id :: str
  ig_subject :: str
  ig_predicate :: str
  ig_object :: str
  ig_status :: str
  ig_ref_info :: "(str \<times> str) option"
  ig_timestamp :: u64

record IngestMetric =
  im_entity_id :: str
  im_memory_id :: str
  im_timestamp :: u64
  im_label :: str
  im_value :: u64
  im_unit :: str
  im_source_text :: str

record IngestConsolidationTask =
  it_entity_id :: str
  it_memory_id :: str
  it_timestamp :: u64
  it_textual_content :: str

subsection \<open>Observations\<close>

definition observation_row :: "int \<Rightarrow> int \<Rightarrow> u64 \<Rightarrow> str \<Rightarrow> AgentObservation \<Rightarrow> memory_row" where
  "observation_row rowid recorded ts mid obs =
     \<lparr>m_rowid = rowid, m_memory_id = mid, m_entity_id = o_entity_id obs,
      m_content = o_textual_content obs, m_kind = kind_as_str (o_kind obs),
      m_content_hash = o_content_hash obs, m_created_at_ms = as_i64 ts,
      m_recorded_at_ms = recorded, m_expires_at_ms = map_option as_i64 (o_expires_at_ms obs),
      m_session_id = o_session_id obs, m_turn_index = o_turn_index obs, m_role = o_role obs,
      m_parent_memory_id = o_parent_memory_id obs, m_indexed = 0\<rparr>"

definition vector_of :: "int \<Rightarrow> u64 \<Rightarrow> str \<Rightarrow> AgentObservation \<Rightarrow> vector_row" where
  "vector_of rowid ts mid obs =
     \<lparr>v_vector_id = rowid, v_memory_id = mid, v_entity_id = o_entity_id obs,
      v_timestamp_ms = as_i64 ts, v_embedding = vec_f32_to_bytes (o_embedding obs)\<rparr>"

definition insert_observation :: "int \<Rightarrow> store \<Rightarrow> u64 \<times> str \<times> AgentObservation \<Rightarrow> store \<times> int" where
  "insert_observation recorded db item =
     (case item of (ts, mid, obs) \<Rightarrow>
       (let (ms, seq, rowid) =
              (case filter (\<lambda>m. m_memory_id m = mid) (memories db) of
                 m # _ \<Rightarrow>
                   (sql_update (\<lambda>x. m_rowid x = m_rowid m)
                      (\<lambda>x. x\<lparr>m_entity_id := o_entity_id obs,
                             m_content := o_textual_content obs,
                             m_kind := kind_as_str (o_kind obs),
                             m_content_hash := o_content_hash obs,
                             m_created_at_ms := as_i64 ts,
                             m_recorded_at_ms := recorded,
                             m_expires_at_ms := map_option as_i64 (o_expires_at_ms obs),
                             m_session_id := o_session_id obs,
                             m_turn_index := o_turn_index obs,
                             m_role := o_role obs,
                             m_parent_memory_id := o_parent_memory_id obs,
                             m_indexed := 0\<rparr>) (memories db), memories_seq db, m_rowid m)
               | [] \<Rightarrow>
                   (memories db @ [observation_row (memories_seq db + 1) recorded ts mid obs],
                    memories_seq db + 1, memories_seq db + 1))
        in (db\<lparr>memories := ms, memories_seq := seq,
               vector_lookup :=
                 (if o_embedding obs = []
                  then sql_delete (\<lambda>v. v_vector_id v = rowid) (vector_lookup db)
                  else sql_replace v_vector_id (vector_of rowid ts mid obs) (vector_lookup db))\<rparr>,
            rowid)))"

fun insert_observations_tx ::
  "int \<Rightarrow> store \<Rightarrow> (u64 \<times> str \<times> AgentObservation) list \<Rightarrow> store \<times> int list" where
  "insert_observations_tx recorded db [] = (db, [])"
| "insert_observations_tx recorded db (x # xs) =
     (let (db1, rowid) = insert_observation recorded db x;
          (db2, rowids) = insert_observations_tx recorded db1 xs
      in (db2, rowid # rowids))"

subsection \<open>Cards, preferences, links, metrics, consolidation tasks\<close>

definition insert_cards_tx :: "store \<Rightarrow> card_row list \<Rightarrow> store" where
  "insert_cards_tx db cards =
     db\<lparr>memory_cards := foldl (\<lambda>t c. sql_replace c_card_id c t) (memory_cards db) cards\<rparr>"

definition insert_preferences_tx :: "store \<Rightarrow> (str \<times> (str \<times> u32) list) list \<Rightarrow> store" where
  "insert_preferences_tx db prefs =
     db\<lparr>preferences :=
        foldl (\<lambda>t (entity, items). foldl (\<lambda>t (mid, strength). sql_replace pref_pk (entity, mid, strength) t) t items)
          (preferences db) prefs\<rparr>"

definition insert_memory_links_tx :: "store \<Rightarrow> (str \<times> str \<times> str) list \<Rightarrow> store" where
  "insert_memory_links_tx db links =
     db\<lparr>memory_links := foldl (\<lambda>t l. sql_ignore id l t) (memory_links db) links\<rparr>"

text \<open>A metric whose key is taken makes the INSERT fail: the primary key is (memory_id, ordinal).\<close>

definition metric_pk :: "metric_row \<Rightarrow> str \<times> int" where
  "metric_pk x = (x_memory_id x, x_ordinal x)"

fun insert_metrics_loop ::
  "metric_row list \<Rightarrow> (str \<Rightarrow> int) \<Rightarrow> IngestMetric list \<Rightarrow> db_error + metric_row list" where
  "insert_metrics_loop t ordinals [] = Inr t"
| "insert_metrics_loop t ordinals (m # ms) =
     (let row = \<lparr>x_memory_id = im_memory_id m, x_ordinal = ordinals (im_memory_id m),
                 x_entity_id = im_entity_id m, x_timestamp_ms = as_i64 (im_timestamp m),
                 x_label = im_label m, x_value = im_value m, x_unit = im_unit m,
                 x_source_text = im_source_text m\<rparr>
      in if \<exists>x \<in> set t. metric_pk x = metric_pk row
         then Inl (InvalidRequest ''UNIQUE constraint failed'')
         else insert_metrics_loop (t @ [row])
                (ordinals(im_memory_id m := ordinals (im_memory_id m) + 1)) ms)"

definition insert_metrics_tx :: "store \<Rightarrow> str list \<Rightarrow> IngestMetric list \<Rightarrow> db_error + store" where
  "insert_metrics_tx db mids ms =
     map_sum id (\<lambda>t. db\<lparr>metrics := t\<rparr>)
       (insert_metrics_loop
          (foldl (\<lambda>t mid. sql_delete (\<lambda>x. x_memory_id x = mid) t) (metrics db) mids) (\<lambda>_. 0) ms)"

definition insert_consolidation_tasks_tx :: "store \<Rightarrow> IngestConsolidationTask list \<Rightarrow> store" where
  "insert_consolidation_tasks_tx db tasks =
     db\<lparr>consolidation_queue :=
        foldl (\<lambda>t x. sql_replace q_memory_id
                 \<lparr>q_memory_id = it_memory_id x, q_entity_id = it_entity_id x,
                  q_timestamp_ms = as_i64 (it_timestamp x),
                  q_textual_content = it_textual_content x\<rparr> t)
          (consolidation_queue db) tasks\<rparr>"

subsection \<open>Neighbour embeddings\<close>

fun update_neighbour_embeddings_tx ::
  "store \<Rightarrow> (str \<times> u32 list) list \<Rightarrow> store \<times> (str \<times> u64 \<times> str \<times> u32 list) list" where
  "update_neighbour_embeddings_tx db [] = (db, [])"
| "update_neighbour_embeddings_tx db ((mid, emb) # us) =
     (case filter (\<lambda>v. v_memory_id v = mid) (vector_lookup db) of
        [] \<Rightarrow> update_neighbour_embeddings_tx db us
      | v # _ \<Rightarrow>
          (let db1 = db\<lparr>memories := sql_update (\<lambda>m. m_memory_id m = mid) (\<lambda>m. m\<lparr>m_indexed := 0\<rparr>) (memories db),
                        vector_lookup := sql_update (\<lambda>x. v_vector_id x = v_vector_id v)
                          (\<lambda>x. x\<lparr>v_embedding := vec_f32_to_bytes emb\<rparr>) (vector_lookup db)\<rparr>;
               (db2, applied) = update_neighbour_embeddings_tx db1 us
           in (db2, (mid, as_u64 (v_vector_id v), v_entity_id v, emb) # applied)))"

definition mark_indexed :: "store \<Rightarrow> str list \<Rightarrow> store" where
  "mark_indexed db mids =
     db\<lparr>memories := foldl (\<lambda>t mid. sql_update (\<lambda>m. m_memory_id m = mid) (\<lambda>m. m\<lparr>m_indexed := 1\<rparr>) t)
          (memories db) mids\<rparr>"

subsection \<open>Session routers\<close>

text \<open>
  The first loop of \<open>merge_router_records_tx\<close>: every record is kept as the source fragment of
  each of its memories and merged into what its session has so far.  It reads the table
  \<open>session_router\<close> as it was before the transaction.
\<close>

record router_merge =
  rm_sources :: "router_source_row list"
  rm_records :: "SessionRouterRecord list"
  rm_latest :: "str \<times> str \<Rightarrow> nat option"
  rm_keys :: "(str \<times> str) list"

definition source_rows :: "(SessionRouterRecord \<Rightarrow> str) \<Rightarrow> SessionRouterRecord \<Rightarrow> router_source_row list" where
  "source_rows to_json r =
     map (\<lambda>mid. \<lparr>s_session_id = sr_session_id r, s_entity_id = sr_entity_id r, s_memory_id = mid,
                 s_record_json = to_json r\<rparr>) (sr_source_memory_ids r)"

definition router_merge_step ::
  "(SessionRouterRecord \<Rightarrow> str) \<Rightarrow> (str \<Rightarrow> SessionRouterRecord option) \<Rightarrow> router_row list
     \<Rightarrow> router_merge \<Rightarrow> SessionRouterRecord \<Rightarrow> router_merge" where
  "router_merge_step to_json from_json table st r =
     (let key = (sr_session_id r, sr_entity_id r);
          sources = foldl (\<lambda>t s. sql_replace source_pk s t) (rm_sources st) (source_rows to_json r);
          (merged, keys) =
            (case rm_latest st key of
               Some i \<Rightarrow> (merge_router_records (rm_records st ! i) r, rm_keys st)
             | None \<Rightarrow>
                 (case filter (\<lambda>x. router_pk x = key) table of
                    [] \<Rightarrow> r
                  | x # _ \<Rightarrow>
                      (case from_json (r_record_json x) of
                         None \<Rightarrow> r
                       | Some previous \<Rightarrow> merge_router_records previous r),
                  rm_keys st @ [key]))
      in \<lparr>rm_sources = sources, rm_records = rm_records st @ [merged],
          rm_latest = (rm_latest st)(key \<mapsto> length (rm_records st)), rm_keys = keys\<rparr>)"

text \<open>The second loop: only the final record of each session is written.\<close>

definition persist_router ::
  "(SessionRouterRecord \<Rightarrow> str) \<Rightarrow> u64 \<Rightarrow> store \<Rightarrow> SessionRouterRecord \<Rightarrow> store" where
  "persist_router to_json now db m =
     db\<lparr>fts_memories :=
          (if sr_router_text m = [] then fts_memories db
           else sql_replace f_rowid
                  (fts_document (router_id (sr_entity_id m) (sr_session_id m)) (sr_entity_id m)
                     (sr_router_text m)) (fts_memories db)),
        session_router := upsert_router
          \<lparr>r_session_id = sr_session_id m, r_entity_id = sr_entity_id m,
           r_record_json = to_json m, r_router_text = sr_router_text m,
           r_created_at_ms = min (sr_created_at_ms m) now, r_updated_at_ms = now\<rparr>
          (session_router db),
        fts_session_router := sql_replace g_rowid
          (router_document (sr_session_id m) (sr_entity_id m) (sr_router_text m))
          (fts_session_router db)\<rparr>"

definition merge_router_records_tx ::
  "(SessionRouterRecord \<Rightarrow> str) \<Rightarrow> (str \<Rightarrow> SessionRouterRecord option) \<Rightarrow> u64 \<Rightarrow> store
     \<Rightarrow> SessionRouterRecord list \<Rightarrow> store \<times> SessionRouterRecord list" where
  "merge_router_records_tx to_json from_json now db updates =
     (let st = foldl (router_merge_step to_json from_json (session_router db))
            \<lparr>rm_sources = session_router_sources db, rm_records = [], rm_latest = (\<lambda>_. None), rm_keys = []\<rparr>
            updates;
          db1 = db\<lparr>session_router_sources := rm_sources st\<rparr>
      in (foldl (\<lambda>d key. persist_router to_json now d (rm_records st ! the (rm_latest st key))) db1 (rm_keys st),
          rm_records st))"

subsection \<open>Canonical predicates\<close>

text \<open>
  \<open>canonicalize_predicates_tx\<close> of \<open>src/storage/repo/facts.rs\<close>.  The cosine similarity is
  floating-point arithmetic and a parameter; \<open>None\<close> stands for a NaN, for which every
  comparison is false.
\<close>

definition canon_best ::
  "(u32 list \<Rightarrow> u32 list \<Rightarrow> 'f::linorder option) \<Rightarrow> 'f \<Rightarrow> u32 list \<Rightarrow> (str \<times> 'f) option
     \<Rightarrow> canon_row \<Rightarrow> (str \<times> 'f) option" where
  "canon_best sim tau emb best n =
     (let other = bytes_to_vec_f32 (coalesce (n_embedding n) []) in
      if length other \<noteq> length emb then best
      else (case sim emb other of
              None \<Rightarrow> best
            | Some s \<Rightarrow>
                if tau \<le> s \<and> (case best of None \<Rightarrow> True | Some (_, b) \<Rightarrow> b < s)
                then Some (n_canonical n, s) else best))"

definition canonicalize_predicate ::
  "(u32 list \<Rightarrow> u32 list \<Rightarrow> 'f::linorder option) \<Rightarrow> 'f \<Rightarrow> str \<Rightarrow> canon_row list
     \<Rightarrow> str \<times> u32 list \<Rightarrow> canon_row list \<times> (str \<times> str)" where
  "canonicalize_predicate sim tau entity t item =
     (case item of (p, emb) \<Rightarrow>
       (case filter (\<lambda>n. canon_pk n = (entity, p)) t of
          n # _ \<Rightarrow> (t, (p, n_canonical n))
        | [] \<Rightarrow>
            (let c = (case foldl (canon_best sim tau emb) None
                        (filter (\<lambda>n. n_entity_id n = entity \<and> n_predicate n = n_canonical n
                                     \<and> n_embedding n \<noteq> None) t) of
                        Some (c, _) \<Rightarrow> c | None \<Rightarrow> p)
             in (sql_replace canon_pk
                   \<lparr>n_entity_id = entity, n_predicate = p, n_canonical = c,
                    n_embedding = (if c = p then Some (vec_f32_to_bytes emb) else None)\<rparr> t, (p, c)))))"

fun canonicalize_predicates_tx ::
  "(u32 list \<Rightarrow> u32 list \<Rightarrow> 'f::linorder option) \<Rightarrow> 'f \<Rightarrow> str \<Rightarrow> canon_row list
     \<Rightarrow> (str \<times> u32 list) list \<Rightarrow> canon_row list \<times> (str \<times> str) list" where
  "canonicalize_predicates_tx sim tau entity t [] = (t, [])"
| "canonicalize_predicates_tx sim tau entity t (x # xs) =
     (let (t1, a) = canonicalize_predicate sim tau entity t x;
          (t2, as) = canonicalize_predicates_tx sim tau entity t1 xs
      in (t2, a # as))"

subsection \<open>Edges and facts\<close>

definition graph_edge_row :: "IngestGraphEdge \<Rightarrow> edge_row" where
  "graph_edge_row g =
     \<lparr>e_edge_id = edge_id (ig_memory_id g) (ig_subject g) (ig_predicate g),
      e_source = ig_subject g, e_target = ig_object g, e_edge_type = ig_predicate g,
      e_label = edge_label (ig_subject g) (ig_predicate g) (ig_object g),
      e_weight = default_weight (edge_from_str (ig_predicate g)),
      e_status = ig_status g, e_ref_source = map_option fst (ig_ref_info g),
      e_ref_target = map_option snd (ig_ref_info g), e_timestamp_ms = as_i64 (ig_timestamp g),
      e_memory_id = Some (ig_memory_id g)\<rparr>"

definition insert_graph_entries_tx :: "store \<Rightarrow> IngestGraphEdge list \<Rightarrow> store" where
  "insert_graph_entries_tx db entries =
     db\<lparr>edges := foldl (\<lambda>t g. if trim (ig_subject g) = [] \<or> trim (ig_object g) = [] then t
                              else sql_replace e_edge_id (graph_edge_row g) t) (edges db) entries\<rparr>"

definition card_edge_row :: "str \<Rightarrow> str \<Rightarrow> str \<Rightarrow> str \<Rightarrow> u64 \<Rightarrow> edge_row" where
  "card_edge_row mid subject predicate obj ts =
     \<lparr>e_edge_id = edge_id mid subject predicate, e_source = subject, e_target = obj,
      e_edge_type = predicate, e_label = edge_label subject predicate obj, e_weight = 100,
      e_status = ''current'', e_ref_source = None, e_ref_target = None,
      e_timestamp_ms = as_i64 ts, e_memory_id = Some mid\<rparr>"

definition insert_card_edges_tx :: "store \<Rightarrow> card_row list \<Rightarrow> IngestFactRegistration list \<Rightarrow> store" where
  "insert_card_edges_tx db cards fs =
     db\<lparr>edges := foldl (\<lambda>t (mid, s, p, obj, ts). if s = [] \<or> p = [] \<or> obj = [] then t
                  else sql_ignore e_edge_id (card_edge_row mid s p obj ts) t) (edges db)
        (map (\<lambda>c. (c_source_memory_id c, c_subject c, c_predicate c, c_object c, c_created_at_ms c)) cards
         @ map (\<lambda>f. (if_memory_id f, if_subject f, if_predicate f, if_object f, if_timestamp f)) fs)\<rparr>"

definition fact_edge :: "IngestFactRegistration \<Rightarrow> str \<Rightarrow> str \<Rightarrow> (str \<times> str) option \<Rightarrow> IngestGraphEdge" where
  "fact_edge f mid status ref =
     \<lparr>ig_memory_id = mid, ig_subject = if_subject f, ig_predicate = if_predicate f,
      ig_object = if_object f, ig_status = status, ig_ref_info = ref, ig_timestamp = if_timestamp f\<rparr>"

text \<open>What one status adds: updates of \<open>is_latest\<close> flags and graph edges.\<close>

fun status_effects ::
  "fact_version_status \<Rightarrow> IngestFactRegistration \<Rightarrow> (str \<times> bool \<times> u64) list \<times> IngestGraphEdge list" where
  "status_effects (Current (Some (_, old))) f =
     ([(old, False, if_timestamp f), (if_memory_id f, True, if_timestamp f)],
      [fact_edge f (if_memory_id f) ''current'' (Some (edge_as_str Supersedes, old)),
       fact_edge f old ''stale'' (Some (edge_as_str SupersededBy, if_memory_id f))])"
| "status_effects (Stale (_, cur)) f =
     ([(if_memory_id f, False, if_timestamp f)],
      [fact_edge f (if_memory_id f) ''stale'' (Some (edge_as_str SupersededBy, cur))])"
| "status_effects (Current None) f =
     ([(if_memory_id f, True, if_timestamp f)], [fact_edge f (if_memory_id f) ''current'' None])"
| "status_effects (Confirmed _) f = ([], [])"

definition fact_input :: "IngestFactRegistration \<Rightarrow> registration" where
  "fact_input f =
     \<lparr>rg_key = if_fact_key f, rg_ts = if_timestamp f, rg_mid = if_memory_id f,
      rg_subject = if_subject f, rg_predicate = if_predicate f, rg_object = if_object f\<rparr>"

fun register_groups ::
  "u64 \<Rightarrow> IngestFactRegistration list \<Rightarrow> str list \<Rightarrow> fact_tables
     \<Rightarrow> db_error + (fact_tables \<times> (str \<times> bool \<times> u64) list \<times> IngestGraphEdge list)" where
  "register_groups now fs [] db = Inr (db, [], [])"
| "register_groups now fs (e # es) db =
     (let group = filter (\<lambda>f. if_entity_id f = e) fs in
      bind_res (register_fact_versions_tx e (map fact_input group) now db) (\<lambda>(db1, sts).
      bind_res (register_groups now fs es db1) (\<lambda>(db2, latest, entries).
        (let eff = map2 status_effects sts group
         in Inr (db2, concat (map fst eff) @ latest, concat (map snd eff) @ entries)))))"

text \<open>\<open>hash_order\<close> is the order in which the map of groups is iterated.\<close>

definition register_facts_tx ::
  "(str list \<Rightarrow> str list) \<Rightarrow> u64 \<Rightarrow> store \<Rightarrow> IngestFactRegistration list
     \<Rightarrow> db_error + (store \<times> (str \<times> bool \<times> u64) list)" where
  "register_facts_tx hash_order now db fs =
     (if fs = [] then Inr (db, [])
      else bind_res (register_groups now fs (hash_order (remdups (map if_entity_id fs))) (facts db))
             (\<lambda>(fdb, latest, entries). Inr (insert_graph_entries_tx (db\<lparr>facts := fdb\<rparr>) entries, latest)))"

definition update_card_latest_tx :: "store \<Rightarrow> (str \<times> bool \<times> u64) list \<Rightarrow> store" where
  "update_card_latest_tx db us =
     db\<lparr>memory_cards := foldl (\<lambda>t (cid, latest, ts). sql_update (\<lambda>c. c_card_id c = cid)
          (\<lambda>c. c\<lparr>c_is_latest := latest, c_updated_at_ms := as_i64 ts\<rparr>) t) (memory_cards db) us\<rparr>"

subsection \<open>The whole transaction\<close>

record 'f IngestBatches =
  b_observations :: "(u64 \<times> str \<times> AgentObservation) list"
  b_fts_batch :: "(str \<times> str \<times> str) list"
  b_memory_card_batch :: "card_row list"
  b_memory_card_latest_updates :: "(str \<times> bool \<times> u64) list"
  b_session_router_updates :: "SessionRouterRecord list"
  b_preference_batch :: "(str \<times> (str \<times> u32) list) list"
  b_memory_links_batch :: "(str \<times> str \<times> str) list"
  b_predicate_canon_batch :: "(str \<times> (str \<times> u32 list) list) list"
  b_predicate_canon_tau :: 'f
  b_fact_batch :: "IngestFactRegistration list"
  b_metric_batch :: "IngestMetric list"
  b_metric_memory_ids :: "str list"
  b_neighbour_embedding_updates :: "(str \<times> u32 list) list"
  b_consolidation_tasks :: "IngestConsolidationTask list"

text \<open>\<open>vector_batch\<close> lists (entity, vector id, embedding); the code groups it by entity.\<close>

record CommitOutcome =
  co_vector_ids :: "u64 list"
  co_fts_batch :: "(str \<times> str \<times> str) list"
  co_vector_batch :: "(str \<times> u64 \<times> u32 list) list"
  co_indexed_memory_ids :: "str list"

fun canonicalize_batches ::
  "(u32 list \<Rightarrow> u32 list \<Rightarrow> 'f::linorder option) \<Rightarrow> 'f \<Rightarrow> canon_row list
     \<Rightarrow> (str \<times> (str \<times> u32 list) list) list \<Rightarrow> canon_row list \<times> ((str \<times> str) \<times> str) list" where
  "canonicalize_batches sim tau t [] = (t, [])"
| "canonicalize_batches sim tau t ((entity, preds) # bs) =
     (let (t1, as) = canonicalize_predicates_tx sim tau entity t preds;
          (t2, rest) = canonicalize_batches sim tau t1 bs
      in (t2, map (\<lambda>(p, c). ((entity, p), c)) as @ rest))"

definition replace_char :: "char \<Rightarrow> char \<Rightarrow> str \<Rightarrow> str" where
  "replace_char a b s = map (\<lambda>c. if c = a then b else c) s"

definition canonical_fact :: "(str \<times> str \<Rightarrow> str option) \<Rightarrow> IngestFactRegistration \<Rightarrow> IngestFactRegistration" where
  "canonical_fact canon f =
     (case canon (if_entity_id f, if_fact_key f) of
        None \<Rightarrow> f
      | Some c \<Rightarrow>
          if c = if_fact_key f then f
          else f\<lparr>if_fact_key := c, if_predicate := replace_char CHR ''_'' CHR '' '' (if_fact_key f)\<rparr>)"

definition observation_vectors ::
  "(u64 \<times> str \<times> AgentObservation) list \<Rightarrow> u64 list \<Rightarrow> (str \<times> u64 \<times> u32 list) list" where
  "observation_vectors obs ids =
     concat (map2 (\<lambda>(_, _, ob) i. if o_embedding ob = [] then [] else [(o_entity_id ob, i, o_embedding ob)])
       obs ids)"

definition commit_ingest ::
  "(SessionRouterRecord \<Rightarrow> str) \<Rightarrow> (str \<Rightarrow> SessionRouterRecord option) \<Rightarrow> (str list \<Rightarrow> str list)
     \<Rightarrow> (u32 list \<Rightarrow> u32 list \<Rightarrow> 'f::linorder option) \<Rightarrow> u64 \<Rightarrow> store \<Rightarrow> 'f IngestBatches
     \<Rightarrow> db_error + (store \<times> CommitOutcome)" where
  "commit_ingest to_json from_json hash_order sim now db b =
     (let (db1, rowids) = insert_observations_tx (as_i64 now) db (b_observations b);
          vector_ids = map as_u64 rowids;
          db2 = insert_cards_tx db1 (b_memory_card_batch b);
          db3 = fst (merge_router_records_tx to_json from_json now db2 (b_session_router_updates b));
          db4 = insert_preferences_tx db3 (b_preference_batch b);
          db5 = insert_memory_links_tx db4 (b_memory_links_batch b)
      in bind_res (insert_metrics_tx db5 (b_metric_memory_ids b) (b_metric_batch b)) (\<lambda>db6.
         (let db7 = insert_consolidation_tasks_tx db6 (b_consolidation_tasks b);
              (db8, neighbours) = update_neighbour_embeddings_tx db7 (b_neighbour_embedding_updates b);
              (canon, assigned) = canonicalize_batches sim (b_predicate_canon_tau b)
                 (predicate_canon db8) (b_predicate_canon_batch b);
              fs = map (canonical_fact (map_of (rev assigned))) (b_fact_batch b)
          in bind_res (register_facts_tx hash_order now (db8\<lparr>predicate_canon := canon\<rparr>) fs) (\<lambda>(db9, latest).
             (let db10 = update_card_latest_tx db9 (b_memory_card_latest_updates b @ latest);
                  db11 = insert_card_edges_tx db10 (b_memory_card_batch b) fs
              in Inr (db11,
                   \<lparr>co_vector_ids = vector_ids, co_fts_batch = b_fts_batch b,
                    co_vector_batch = observation_vectors (b_observations b) vector_ids
                       @ map (\<lambda>(_, v, e, emb). (e, v, emb)) neighbours,
                    co_indexed_memory_ids = remdups_adj (sort
                      (map (\<lambda>(_, m, _). m) (b_observations b) @ map fst neighbours))\<rparr>))))))"

text \<open>SQLite rolls back a failed transaction.\<close>

definition run_transaction :: "store \<Rightarrow> 'e + (store \<times> 'a) \<Rightarrow> store" where
  "run_transaction db r = (case r of Inl _ \<Rightarrow> db | Inr (db', _) \<Rightarrow> db')"

end
