(* ===== verification/Fact_Chain.thy ===== *)
theory Fact_Chain
  imports Fact_Store
begin

section \<open>Fact versions: the chain invariant\<close>

text \<open>
  The specification of a chain is \<open>relink\<close>: given the versions in order, it writes the
  status, the validity interval and the two pointers every version must have.  A chain is
  well linked when relinking changes nothing.  The lemmas lift this from lists to tables:
  the three UPDATE statements of a registration act on the chain as list functions, and
  the neighbour queries return the elements around the inserted version.
\<close>

subsection \<open>The specification of a linked chain\<close>

definition link ::
  "str option \<Rightarrow> fact_version \<Rightarrow> (str \<times> int) option \<Rightarrow> fact_version" where
  "link p v n = v\<lparr>fv_status := (if n = None then ''current'' else ''stale''),
     fv_valid_from := Some (fv_ts v), fv_valid_to := map_option snd n,
     fv_superseded_by := map_option fst n, fv_supersedes := p\<rparr>"

definition head_ref :: "fact_version list \<Rightarrow> (str \<times> int) option \<Rightarrow> (str \<times> int) option" where
  "head_ref vs n = (case vs of [] \<Rightarrow> n | w # _ \<Rightarrow> Some (fv_mid w, fv_ts w))"

definition last_ref :: "fact_version list \<Rightarrow> str option \<Rightarrow> str option" where
  "last_ref vs p = (if vs = [] then p else Some (fv_mid (last vs)))"

fun relink :: "str option \<Rightarrow> fact_version list \<Rightarrow> (str \<times> int) option \<Rightarrow> fact_version list" where
  "relink p [] n = []"
| "relink p (v # vs) n = link p v (head_ref vs n) # relink (Some (fv_mid v)) vs n"

lemma link_sel [simp]:
  "fv_rowid (link p v n) = fv_rowid v" "fv_key (link p v n) = fv_key v"
  "fv_mid (link p v n) = fv_mid v" "fv_entity (link p v n) = fv_entity v"
  "fv_object (link p v n) = fv_object v" "fv_ts (link p v n) = fv_ts v"
  "fv_recorded (link p v n) = fv_recorded v"
  "fv_status (link p v n) = (if n = None then ''current'' else ''stale'')"
  "fv_superseded_by (link p v n) = map_option fst n"
  "fv_supersedes (link p v n) = p" "fv_valid_from (link p v n) = Some (fv_ts v)"
  "fv_valid_to (link p v n) = map_option snd n"
  by (simp_all add: link_def)

lemma head_ref_simps [simp]: "head_ref [] n = n" "head_ref (v # vs) n = Some (fv_mid v, fv_ts v)"
  by (simp_all add: head_ref_def)

lemma last_ref_simps [simp]:
  "last_ref [] p = p" "last_ref (vs @ [v]) p = Some (fv_mid v)"
  by (simp_all add: last_ref_def)

lemma head_ref_append [simp]: "head_ref (xs @ ys) n = head_ref xs (head_ref ys n)"
  by (cases xs) simp_all

lemma last_ref_Cons [simp]: "last_ref (v # vs) p = last_ref vs (Some (fv_mid v))"
  by (simp add: last_ref_def)

lemma relink_append:
  "relink p (xs @ ys) n = relink p xs (head_ref ys n) @ relink (last_ref xs p) ys n"
  by (induction xs arbitrary: p) auto

lemma relink_eq_Nil [simp]: "relink p vs n = [] \<longleftrightarrow> vs = []"
  by (cases vs) auto

lemma map_relink:
  assumes "\<And>p v n. f (link p v n) = f v"
  shows "map f (relink p vs n) = map f vs"
  by (induction p vs n rule: relink.induct) (auto simp: assms)

lemma head_ref_relink [simp]: "head_ref (relink p vs n) m = head_ref vs m"
  by (cases vs) auto

lemma link_link [simp]: "link p (link q v m) n = link p v n"
  by (simp add: link_def)

lemma relink_idem: "relink p (relink q vs m) n = relink p vs n"
  by (induction q vs m arbitrary: p rule: relink.induct) auto

text \<open>
  Splicing.  Around a version \<open>r\<close> stand two linked parts; the updates of the code, read as
  a function on rows, turn the whole into a linked chain.
\<close>

definition splice_row ::
  "str \<Rightarrow> int \<Rightarrow> str option \<Rightarrow> (str \<times> int) option \<Rightarrow> fact_version \<Rightarrow> fact_version" where
  "splice_row mid ts pred succ v =
     (if fv_mid v = mid then link pred v succ
      else if Some (fv_mid v) = pred
        then v\<lparr>fv_status := ''stale'', fv_valid_to := Some ts, fv_superseded_by := Some mid\<rparr>
      else if Some (fv_mid v) = map_option fst succ then v\<lparr>fv_supersedes := Some mid\<rparr>
      else v)"

lemma link_next:
  "link p u n = u \<Longrightarrow>
   link p u (Some (mid, ts)) = u\<lparr>fv_status := ''stale'', fv_valid_to := Some ts,
     fv_superseded_by := Some mid\<rparr>"
  by (cases u) (simp add: link_def)

lemma link_prev: "link p u n = u \<Longrightarrow> link (Some mid) u n = u\<lparr>fv_supersedes := Some mid\<rparr>"
  by (cases u) (simp add: link_def)

lemma splice_row_other:
  assumes "fv_mid v \<noteq> mid" and "pred \<noteq> Some (fv_mid v)" and "map_option fst succ \<noteq> Some (fv_mid v)"
  shows "splice_row mid ts pred succ v = v"
proof -
  from assms have "Some (fv_mid v) \<noteq> pred" "Some (fv_mid v) \<noteq> map_option fst succ" by metis+
  then show ?thesis by (simp only: splice_row_def assms(1) if_False)
qed

lemma splice_left:
  assumes link: "relink None xs n = xs" and r: "\<forall>x \<in> set xs. fv_mid x \<noteq> fv_mid r"
    and d: "distinct (map fv_mid xs)" and succ: "\<forall>x \<in> set xs. map_option fst succ \<noteq> Some (fv_mid x)"
  shows "map (splice_row (fv_mid r) ts (last_ref xs None) succ) xs = relink None xs (Some (fv_mid r, ts))"
proof (cases xs rule: rev_cases)
  case (snoc us u)
  from link snoc have us: "relink None us (Some (fv_mid u, fv_ts u)) = us"
    and u: "link (last_ref us None) u n = u"
    by (simp_all add: relink_append)
  have ne: "\<forall>x \<in> set us. fv_mid u \<noteq> fv_mid x"
    using d snoc by (auto simp: image_iff)
  have "map (splice_row (fv_mid r) ts (Some (fv_mid u)) succ) us = us"
  proof (rule map_idI)
    fix x assume "x \<in> set us"
    with ne r succ snoc show "splice_row (fv_mid r) ts (Some (fv_mid u)) succ x = x"
      by (intro splice_row_other) simp_all
  qed
  then show ?thesis
    using r succ snoc us link_next [OF u] by (simp add: relink_append splice_row_def)
qed simp

lemma splice_right:
  assumes link: "relink p ys None = ys" and r: "\<forall>x \<in> set ys. fv_mid x \<noteq> fv_mid r"
    and d: "distinct (map fv_mid ys)" and pred: "\<forall>x \<in> set ys. pred \<noteq> Some (fv_mid x)"
  shows "map (splice_row (fv_mid r) ts pred (head_ref ys None)) ys = relink (Some (fv_mid r)) ys None"
proof (cases ys)
  case (Cons y zs)
  from link Cons have zs: "relink (Some (fv_mid y)) zs None = zs"
    and y: "link p y (head_ref zs None) = y"
    by simp_all
  have ne: "\<forall>x \<in> set zs. fv_mid y \<noteq> fv_mid x"
    using d Cons by (auto simp: image_iff)
  have "map (splice_row (fv_mid r) ts pred (Some (fv_mid y, fv_ts y))) zs = zs"
  proof (rule map_idI)
    fix x assume "x \<in> set zs"
    with ne r pred Cons show "splice_row (fv_mid r) ts pred (Some (fv_mid y, fv_ts y)) x = x"
      by (intro splice_row_other) simp_all
  qed
  moreover have "splice_row (fv_mid r) ts pred (Some (fv_mid y, fv_ts y)) y
      = y\<lparr>fv_supersedes := Some (fv_mid r)\<rparr>"
    using r pred Cons by (auto simp: splice_row_def)
  ultimately show ?thesis
    using Cons zs link_prev [OF y] by simp
qed simp

lemma splice_chain:
  assumes "relink None xs n = xs" and "relink p ys None = ys"
    and d: "distinct (map fv_mid (xs @ r # ys))" and ts: "ts = fv_ts r"
  shows "map (splice_row (fv_mid r) ts (last_ref xs None) (head_ref ys None)) (xs @ r # ys)
       = relink None (xs @ r # ys) None"
proof -
  have ne: "\<forall>x \<in> set xs. \<forall>y \<in> set ys. fv_mid x \<noteq> fv_mid y"
    and r: "\<forall>x \<in> set xs. fv_mid x \<noteq> fv_mid r" "\<forall>y \<in> set ys. fv_mid y \<noteq> fv_mid r"
    using d by (auto simp: image_iff)
  have "\<forall>x \<in> set xs. map_option fst (head_ref ys None) \<noteq> Some (fv_mid x)"
    using ne by (cases ys) auto
  then have l: "map (splice_row (fv_mid r) ts (last_ref xs None) (head_ref ys None)) xs
      = relink None xs (Some (fv_mid r, ts))"
    using d r by (intro splice_left [OF assms(1)]) auto
  have "\<forall>y \<in> set ys. last_ref xs None \<noteq> Some (fv_mid y)"
    using ne by (cases xs rule: rev_cases) auto
  then have "map (splice_row (fv_mid r) ts (last_ref xs None) (head_ref ys None)) ys
      = relink (Some (fv_mid r)) ys None"
    using d r by (intro splice_right [OF assms(2)]) auto
  with l show ?thesis by (simp add: relink_append splice_row_def ts)
qed

subsection \<open>Chains of a table\<close>

definition chain :: "fact_version list \<Rightarrow> str \<Rightarrow> str \<Rightarrow> fact_version list" where
  "chain t k e = sort_key fv_pos (filter (in_chain k e) t)"

definition fv_wf :: "fact_version list \<Rightarrow> bool" where
  "fv_wf t \<longleftrightarrow> distinct (map fv_rowid t) \<and> distinct (map fv_pk t)
     \<and> (\<forall>v \<in> set t. in_i64 (fv_ts v) \<and> in_i64 (fv_recorded v))"

definition linked :: "fact_version list \<Rightarrow> str \<Rightarrow> str \<Rightarrow> bool" where
  "linked t k e \<longleftrightarrow> relink None (chain t k e) None = chain t k e"

text \<open>The invariant of the table: well-formed rows and every chain linked.\<close>

definition fv_ok :: "fact_version list \<Rightarrow> bool" where
  "fv_ok t \<longleftrightarrow> fv_wf t \<and> (\<forall>v \<in> set t. linked t (fv_key v) (fv_entity v))"

lemma set_chain [simp]: "set (chain t k e) = {v \<in> set t. in_chain k e v}"
  by (simp add: chain_def)

lemma linked_absent: "\<forall>v \<in> set t. \<not> in_chain k e v \<Longrightarrow> linked t k e"
  by (simp add: linked_def chain_def filter_False)

lemma fv_ok_iff: "fv_ok t \<longleftrightarrow> fv_wf t \<and> (\<forall>k e. linked t k e)"
proof -
  have "linked t k e" if h: "\<forall>v \<in> set t. linked t (fv_key v) (fv_entity v)" for k e
  proof (cases "\<exists>v \<in> set t. in_chain k e v")
    case True
    with h show ?thesis by (auto simp: in_chain_def)
  qed (simp add: linked_absent)
  then show ?thesis by (auto simp: fv_ok_def)
qed

lemma fv_wf_pos:
  assumes "fv_wf t"
  shows "distinct (map fv_pos t)"
proof -
  have "fv_rowid = (\<lambda>(_, _, r). r) \<circ> fv_pos"
    by (simp add: fv_pos_def fun_eq_iff)
  then have "map fv_rowid t = map (\<lambda>(_, _, r). r) (map fv_pos t)"
    by simp
  moreover have "distinct (map fv_rowid t)" using assms by (simp add: fv_wf_def)
  ultimately have "distinct (map (\<lambda>(_, _, r). r) (map fv_pos t))" by (simp only:)
  then show ?thesis by (simp only: distinct_map [of "\<lambda>(_, _, r). r"])
qed

lemma fv_wf_filter: "fv_wf t \<Longrightarrow> fv_wf (filter P t)"
  by (auto simp: fv_wf_def distinct_map_filter)

lemma fv_wf_pkD:
  "fv_wf t \<Longrightarrow> v \<in> set t \<Longrightarrow> w \<in> set t \<Longrightarrow> fv_key v = fv_key w \<Longrightarrow> fv_mid v = fv_mid w \<Longrightarrow> v = w"
  by (rule inj_onD [of fv_pk "set t"]) (simp_all add: fv_wf_def distinct_map fv_pk_def)

lemma distinct_mid_chain: "fv_wf t \<Longrightarrow> distinct (map fv_mid (chain t k e))"
proof -
  assume wf: "fv_wf t"
  have "inj_on fv_mid (set (chain t k e))"
    by (rule inj_onI) (auto simp: in_chain_def intro: fv_wf_pkD [OF wf])
  moreover have "distinct (chain t k e)"
    using wf by (auto simp: chain_def fv_wf_def distinct_map)
  ultimately show ?thesis by (simp add: distinct_map)
qed

lemma chain_map:
  assumes "\<And>v. v \<in> set t \<Longrightarrow> in_chain k e v \<Longrightarrow> fv_pos (g v) = fv_pos v"
    and "\<And>v. v \<in> set t \<Longrightarrow> in_chain k e (g v) \<longleftrightarrow> in_chain k e v"
  shows "chain (map g t) k e = map g (chain t k e)"
proof -
  have "filter (in_chain k e) (map g t) = map g (filter (in_chain k e) t)"
    using assms(2) by (induction t) auto
  moreover have "sort_key fv_pos (map g (filter (in_chain k e) t))
      = map g (sort_key fv_pos (filter (in_chain k e) t))"
    by (rule sort_key_map) (use assms(1) in auto)
  ultimately show ?thesis by (simp only: chain_def)
qed

text \<open>The three updates of \<open>splice_version\<close> as one function on rows.\<close>

definition splice_in_key ::
  "str \<Rightarrow> str \<Rightarrow> int \<Rightarrow> str option \<Rightarrow> (str \<times> int) option \<Rightarrow> fact_version \<Rightarrow> fact_version" where
  "splice_in_key k mid ts p n v = (if fv_key v = k then splice_row mid ts p n v else v)"

definition pos_ref :: "fact_position option \<Rightarrow> (str \<times> int) option" where
  "pos_ref x = map_option (\<lambda>(i, s, _). (i, as_i64 s)) x"

lemma splice_row_sel [simp]:
  "fv_rowid (splice_row mid ts p n v) = fv_rowid v" "fv_key (splice_row mid ts p n v) = fv_key v"
  "fv_mid (splice_row mid ts p n v) = fv_mid v" "fv_entity (splice_row mid ts p n v) = fv_entity v"
  "fv_object (splice_row mid ts p n v) = fv_object v" "fv_ts (splice_row mid ts p n v) = fv_ts v"
  "fv_recorded (splice_row mid ts p n v) = fv_recorded v"
  by (simp_all add: splice_row_def)

lemma splice_in_key_sel [simp]:
  "fv_rowid (splice_in_key k mid ts p n v) = fv_rowid v"
  "fv_key (splice_in_key k mid ts p n v) = fv_key v"
  "fv_mid (splice_in_key k mid ts p n v) = fv_mid v"
  "fv_entity (splice_in_key k mid ts p n v) = fv_entity v"
  "fv_object (splice_in_key k mid ts p n v) = fv_object v"
  "fv_ts (splice_in_key k mid ts p n v) = fv_ts v"
  "fv_recorded (splice_in_key k mid ts p n v) = fv_recorded v"
  by (simp_all add: splice_in_key_def)

lemma splice_version_map:
  assumes ts: "\<And>v. v \<in> set t \<Longrightarrow> fv_key v = k \<Longrightarrow> fv_mid v = mid \<Longrightarrow> fv_ts v = as_i64 ts"
    and ne: "map_option fst pred \<noteq> Some mid" "map_option fst succ \<noteq> Some mid"
    and ps: "pred \<noteq> None \<Longrightarrow> map_option fst pred \<noteq> map_option fst succ"
  shows "splice_version t k mid ts pred succ
       = map (splice_in_key k mid (as_i64 ts) (map_option fst pred) (pos_ref succ)) t"
proof -
  have comp: "sql_update q g (map h t) = map (\<lambda>v. if q (h v) then g (h v) else h v) t" for q g and h :: "fact_version \<Rightarrow> fact_version"
    by (simp add: sql_update_def)
  have upd: "sql_update q g t = map (\<lambda>v. if q v then g v else v) t" for q g
    by (simp add: sql_update_def)
  show ?thesis
  proof (cases pred; cases succ)
    assume "pred = None" "succ = None"
    then show ?thesis using ts
      by (simp add: splice_version_def upd splice_in_key_def splice_row_def link_def pos_ref_def)
  next
    fix p assume "pred = Some p" "succ = None"
    then show ?thesis using ts ne
      by (cases p) (simp add: splice_version_def upd comp splice_in_key_def splice_row_def link_def pos_ref_def)
  next
    fix s assume "pred = None" "succ = Some s"
    then show ?thesis using ts ne
      by (cases s) (simp add: splice_version_def upd comp splice_in_key_def splice_row_def link_def pos_ref_def)
  next
    fix p s assume "pred = Some p" "succ = Some s"
    then show ?thesis using ts ne ps
      by (cases p; cases s) (simp add: splice_version_def upd comp splice_in_key_def splice_row_def link_def pos_ref_def)
  qed
qed

subsection \<open>One registration\<close>

definition chain_below :: "fact_version list \<Rightarrow> str \<Rightarrow> str \<Rightarrow> fact_version \<Rightarrow> fact_version list" where
  "chain_below t k e r = sort_key fv_pos (filter (\<lambda>v. fv_pos v < fv_pos r) (filter (in_chain k e) t))"

definition chain_above :: "fact_version list \<Rightarrow> str \<Rightarrow> str \<Rightarrow> fact_version \<Rightarrow> fact_version list" where
  "chain_above t k e r = sort_key fv_pos (filter (\<lambda>v. fv_pos r < fv_pos v) (filter (in_chain k e) t))"

lemma chain_split:
  assumes "fv_wf t" and "r \<in> set t" and "in_chain k e r"
  shows "chain t k e = chain_below t k e r @ r # chain_above t k e r"
  unfolding chain_def chain_below_def chain_above_def
  by (rule sort_key_split) (use assms fv_wf_pos [OF fv_wf_filter] in auto)

lemma set_below: "set (chain_below t k e r) \<subseteq> {v \<in> set t. in_chain k e v}"
  by (auto simp: chain_below_def)

lemma set_above: "set (chain_above t k e r) \<subseteq> {v \<in> set t. in_chain k e v}"
  by (auto simp: chain_above_def)

lemma fv_pos_less:
  "fv_pos v < (a, b, c) \<longleftrightarrow> fv_ts v < a \<or> (fv_ts v = a \<and> fv_recorded v < b)
     \<or> (fv_ts v = a \<and> fv_recorded v = b \<and> fv_rowid v < c)"
  "(a, b, c) < fv_pos v \<longleftrightarrow> fv_ts v > a \<or> (fv_ts v = a \<and> fv_recorded v > b)
     \<or> (fv_ts v = a \<and> fv_recorded v = b \<and> fv_rowid v > c)"
  by (auto simp: fv_pos_def less_prod_def')

lemma ordered_neighbour_below:
  assumes "fv_ts r = as_i64 ts" and "fv_recorded r = as_i64 rec"
  shows "ordered_fact_neighbour t k e ts rec (fv_rowid r) True
       = (if chain_below t k e r = [] then None else Some (fact_position (last (chain_below t k e r))))"
proof -
  have "filter (\<lambda>v. in_chain k e v \<and> (fv_ts v < as_i64 ts
          \<or> (fv_ts v = as_i64 ts \<and> fv_recorded v < as_i64 rec)
          \<or> (fv_ts v = as_i64 ts \<and> fv_recorded v = as_i64 rec \<and> fv_rowid v < fv_rowid r))) t
      = filter (\<lambda>v. fv_pos v < fv_pos r) (filter (in_chain k e) t)"
    using assms by (simp add: conj_commute fv_pos_less fv_pos_def [of r])
  then show ?thesis
    by (simp add: ordered_fact_neighbour_def sql_first_desc_last chain_below_def sort_key_eq_Nil)
qed

lemma ordered_neighbour_above:
  assumes "fv_ts r = as_i64 ts" and "fv_recorded r = as_i64 rec"
  shows "ordered_fact_neighbour t k e ts rec (fv_rowid r) False
       = (if chain_above t k e r = [] then None else Some (fact_position (hd (chain_above t k e r))))"
proof -
  have "filter (\<lambda>v. in_chain k e v \<and> (fv_ts v > as_i64 ts
          \<or> (fv_ts v = as_i64 ts \<and> fv_recorded v > as_i64 rec)
          \<or> (fv_ts v = as_i64 ts \<and> fv_recorded v = as_i64 rec \<and> fv_rowid v > fv_rowid r))) t
      = filter (\<lambda>v. fv_pos r < fv_pos v) (filter (in_chain k e) t)"
    using assms by (simp add: conj_commute fv_pos_less fv_pos_def [of r])
  then show ?thesis
    by (simp add: ordered_fact_neighbour_def sql_first_asc_hd chain_above_def sort_key_eq_Nil)
qed

lemma fst_fact_position [simp]: "fst (fact_position v) = fv_mid v"
  by (simp add: fact_position_def)

lemma last_ref_below:
  "map_option fst (if chain_below t k e r = [] then None else Some (fact_position (last (chain_below t k e r))))
   = last_ref (chain_below t k e r) None"
  by (simp add: last_ref_def)

lemma head_ref_above:
  assumes "fv_wf t"
  shows "pos_ref (if chain_above t k e r = [] then None else Some (fact_position (hd (chain_above t k e r))))
       = head_ref (chain_above t k e r) None"
proof (cases "chain_above t k e r")
  case (Cons y ys)
  then have "y \<in> set t" using set_above [of t k e r] by auto
  then have "in_i64 (fv_ts y)" using assms by (simp add: fv_wf_def)
  with Cons show ?thesis by (simp add: pos_ref_def fact_position_def)
qed (simp add: pos_ref_def)

lemma fv_wf_map:
  assumes "fv_wf t" and "\<And>v. fv_rowid (g v) = fv_rowid v" and "\<And>v. fv_key (g v) = fv_key v"
    and "\<And>v. fv_mid (g v) = fv_mid v" and "\<And>v. fv_ts (g v) = fv_ts v"
    and "\<And>v. fv_recorded (g v) = fv_recorded v"
  shows "fv_wf (map g t)"
proof -
  have "fv_rowid \<circ> g = fv_rowid" "fv_pk \<circ> g = fv_pk"
    using assms by (auto simp: fun_eq_iff fv_pk_def)
  then show ?thesis using assms by (auto simp: fv_wf_def)
qed

text \<open>
  The heart of the proof: after the splice every chain is linked, and the chain of the
  registered fact has the same versions in the same order.
\<close>

lemma splice_keeps_ok:
  assumes wf: "fv_wf t" and r: "r \<in> set t" "in_chain k e r" "fv_mid r = mid"
    and ts: "fv_ts r = as_i64 ts" and rec: "fv_recorded r = as_i64 rec"
    and L: "relink None (chain_below t k e r) n = chain_below t k e r"
    and H: "relink p (chain_above t k e r) None = chain_above t k e r"
    and others: "\<And>k' e'. (k', e') \<noteq> (k, e) \<Longrightarrow> linked t k' e'"
  defines "t' \<equiv> splice_version t k mid ts (ordered_fact_neighbour t k e ts rec (fv_rowid r) True)
      (ordered_fact_neighbour t k e ts rec (fv_rowid r) False)"
  shows "fv_ok t'" and "chain t' k e = relink None (chain t k e) None"
    and "(k', e') \<noteq> (k, e) \<Longrightarrow> chain t' k' e' = chain t k' e'"
proof -
  let ?g = "splice_in_key k mid (as_i64 ts) (last_ref (chain_below t k e r) None)
      (head_ref (chain_above t k e r) None)"
  have split: "chain t k e = chain_below t k e r @ r # chain_above t k e r"
    by (rule chain_split [OF wf r(1,2)])
  have d: "distinct (map fv_mid (chain_below t k e r @ r # chain_above t k e r))"
    using distinct_mid_chain [OF wf, of k e] by (simp add: split)
  have keys: "fv_mid v = mid \<Longrightarrow> v = r" if "v \<in> set t" "fv_key v = k" for v
    using fv_wf_pkD [OF wf that(1) r(1)] that r by (simp add: in_chain_def)
  have ne: "last_ref (chain_below t k e r) None \<noteq> Some mid"
    "map_option fst (head_ref (chain_above t k e r) None) \<noteq> Some mid"
    "chain_below t k e r \<noteq> [] \<Longrightarrow> last_ref (chain_below t k e r) None \<noteq> map_option fst (head_ref (chain_above t k e r) None)"
    using d r(3) by (cases "chain_below t k e r" rule: rev_cases; cases "chain_above t k e r"; auto)+
  let ?p = "if chain_below t k e r = [] then None else Some (fact_position (last (chain_below t k e r)))"
  let ?s = "if chain_above t k e r = [] then None else Some (fact_position (hd (chain_above t k e r)))"
  have refs: "map_option fst ?p = last_ref (chain_below t k e r) None"
    "map_option fst ?s = map_option fst (head_ref (chain_above t k e r) None)"
    "pos_ref ?s = head_ref (chain_above t k e r) None"
    by (rule last_ref_below, cases "chain_above t k e r", simp, simp, rule head_ref_above [OF wf])
  have "splice_version t k mid ts ?p ?s = map ?g t"
    unfolding refs [symmetric]
  proof (rule splice_version_map)
    show "fv_ts v = as_i64 ts" if "v \<in> set t" "fv_key v = k" "fv_mid v = mid" for v
      using keys [OF that] ts by simp
    show "map_option fst ?p \<noteq> Some mid" unfolding refs by (rule ne(1))
    show "map_option fst ?s \<noteq> Some mid" unfolding refs by (rule ne(2))
    show "map_option fst ?p \<noteq> map_option fst ?s" if "?p \<noteq> None"
      unfolding refs by (rule ne(3)) (use that in \<open>auto split: if_splits\<close>)
  qed
  then have t': "t' = map ?g t"
    unfolding t'_def ordered_neighbour_below [OF ts rec] ordered_neighbour_above [OF ts rec] .
  have row: "chain t' k' e' = map ?g (chain t k' e')" for k' e'
    unfolding t' by (rule chain_map) (auto simp: fv_pos_def in_chain_def)
  show ch: "chain t' k e = relink None (chain t k e) None"
  proof -
    have "map ?g (chain t k e) = map (splice_row (fv_mid r) (as_i64 ts)
        (last_ref (chain_below t k e r) None) (head_ref (chain_above t k e r) None)) (chain t k e)"
      using r(3) by (intro map_cong) (auto simp: splice_in_key_def in_chain_def)
    also have "\<dots> = relink None (chain t k e) None"
      unfolding split using splice_chain [OF L H d] ts by simp
    finally show ?thesis by (simp add: row)
  qed
  have oth: "chain t' k' e' = chain t k' e'" if "(k', e') \<noteq> (k, e)" for k' e'
  proof -
    have "?g v = v" if v: "v \<in> set (chain t k' e')" for v
    proof (cases "fv_key v = k")
      case True
      with v \<open>(k', e') \<noteq> (k, e)\<close> have ve: "v \<in> set t" "\<not> in_chain k e v" by (auto simp: in_chain_def)
      have diff: "fv_mid w \<noteq> fv_mid v" if "w \<in> set t" "in_chain k e w" for w
        using fv_wf_pkD [OF wf that(1) ve(1)] that ve(2) True by (auto simp: in_chain_def)
      have "fv_mid v \<noteq> mid" using diff [OF r(1,2)] r(3) by simp
      moreover have "last_ref (chain_below t k e r) None \<noteq> Some (fv_mid v)"
        using diff set_below [of t k e r] by (cases "chain_below t k e r" rule: rev_cases) auto
      moreover have "map_option fst (head_ref (chain_above t k e r) None) \<noteq> Some (fv_mid v)"
        using diff set_above [of t k e r] by (cases "chain_above t k e r") auto
      ultimately show ?thesis by (simp add: splice_in_key_def splice_row_other)
    qed (simp add: splice_in_key_def)
    then have "map ?g (chain t k' e') = chain t k' e'" by (intro map_idI) auto
    with row show ?thesis by simp
  qed
  then show "(k', e') \<noteq> (k, e) \<Longrightarrow> chain t' k' e' = chain t k' e'" .
  have "linked t' k' e'" for k' e'
    using others [of k' e'] oth [of k' e'] ch
    by (cases "(k', e') = (k, e)") (auto simp: linked_def relink_idem)
  moreover have "fv_wf t'" unfolding t' by (rule fv_wf_map [OF wf]) auto
  ultimately show "fv_ok t'" by (simp add: fv_ok_iff)
qed

subsection \<open>Reading a linked chain\<close>

lemma relink_current:
  "vs \<noteq> [] \<Longrightarrow> relink p vs None = vs \<Longrightarrow> filter (\<lambda>v. fv_status v = ''current'') vs = [last vs]"
proof (induction vs arbitrary: p)
  case (Cons v vs)
  then have v: "link p v (head_ref vs None) = v" and vs: "relink (Some (fv_mid v)) vs None = vs"
    by simp_all
  from v have st: "fv_status v = (if head_ref vs None = None then ''current'' else ''stale'')"
    by (metis link_sel(8))
  show ?case
    using Cons.IH [OF _ vs] st by (cases vs) auto
qed simp

lemma current_rows:
  assumes "linked t k e"
  shows "sort_key fv_pos (filter (\<lambda>v. in_chain k e v \<and> fv_status v = ''current'') t)
       = (if chain t k e = [] then [] else [last (chain t k e)])"
proof -
  have "filter (\<lambda>v. in_chain k e v \<and> fv_status v = ''current'') t
      = filter (\<lambda>v. fv_status v = ''current'') (filter (in_chain k e) t)"
    by (simp add: conj_commute)
  then have "sort_key fv_pos (filter (\<lambda>v. in_chain k e v \<and> fv_status v = ''current'') t)
      = filter (\<lambda>v. fv_status v = ''current'') (chain t k e)"
    by (simp only: chain_def filter_sort)
  then show ?thesis
    using assms relink_current [of "chain t k e" None] by (simp add: linked_def)
qed

lemma sql_first_desc_current:
  assumes "linked t k e"
  shows "sql_first_desc fv_pos (filter (\<lambda>v. in_chain k e v \<and> fv_status v = ''current'') t)
       = (if chain t k e = [] then None else Some (last (chain t k e)))"
  using current_rows [OF assms] by (simp add: sql_first_desc_def)

lemma current_fact_version_linked:
  "linked t k e \<Longrightarrow> current_fact_version t k e
     = (if chain t k e = [] then None
        else Some (fv_mid (last (chain t k e)), as_u64 (fv_ts (last (chain t k e)))))"
  by (simp add: current_fact_version_def sql_first_desc_current)

lemma get_current_fact_value_linked:
  "linked t k e \<Longrightarrow> get_current_fact_value t e k
     = (if chain t k e = [] then None else fv_object (last (chain t k e)))"
  by (simp add: get_current_fact_value_def sql_first_desc_current)

subsection \<open>Registering a fact keeps the invariant\<close>

definition consistent :: "str \<Rightarrow> fact_version list \<Rightarrow> registration \<Rightarrow> bool" where
  "consistent e t r \<longleftrightarrow> (\<forall>v \<in> set t. fv_pk v = (rg_key r, rg_mid r) \<longrightarrow>
     fv_entity v = e \<and> fv_ts v = as_i64 (rg_ts r))"

lemma new_fact_version_sel:
  "fv_key (new_fact_version t e recorded r) = rg_key r"
  "fv_mid (new_fact_version t e recorded r) = rg_mid r"
  "fv_entity (new_fact_version t e recorded r) = e"
  "fv_object (new_fact_version t e recorded r) = Some (rg_object r)"
  "fv_ts (new_fact_version t e recorded r) = as_i64 (rg_ts r)"
  "fv_recorded (new_fact_version t e recorded r) = as_i64 recorded"
  "fv_rowid (new_fact_version t e recorded r) = next_rowid fv_rowid t"
  by (simp_all add: new_fact_version_def)

lemma fact_version_of_row:
  assumes "fv_wf t" and "r \<in> set t"
  shows "fact_version_of t (fv_key r) (fv_mid r) = Inr (fact_position r)"
proof -
  have "r \<in> set (filter (\<lambda>v. fv_key v = fv_key r \<and> fv_mid v = fv_mid r) t)" using assms by simp
  then obtain v vs where f: "filter (\<lambda>v. fv_key v = fv_key r \<and> fv_mid v = fv_mid r) t = v # vs"
    by (cases "filter (\<lambda>v. fv_key v = fv_key r \<and> fv_mid v = fv_mid r) t") auto
  have "v \<in> set (filter (\<lambda>v. fv_key v = fv_key r \<and> fv_mid v = fv_mid r) t)"
    unfolding f by simp
  then have "v = r" using fv_wf_pkD assms by auto
  with f show ?thesis by (simp add: fact_version_of_def)
qed

lemma relink_parts:
  "relink None (xs @ r # ys) None = xs @ r # ys \<Longrightarrow>
     relink None xs (Some (fv_mid r, fv_ts r)) = xs \<and> relink (Some (fv_mid r)) ys None = ys"
  by (simp add: relink_append) (metis append_eq_append_conv length_map list.inject map_relink link_sel(3))

lemma relink_parts2:
  "relink None (xs @ ys) None = xs @ ys \<Longrightarrow>
     relink None xs (head_ref ys None) = xs \<and> relink (last_ref xs None) ys None = ys"
  by (simp add: relink_append) (metis append_eq_append_conv length_map map_relink link_sel(3))

text \<open>The table after the INSERT, whether or not it added a row.\<close>

lemma insert_fact_version_cases [consumes 2, case_names old new]:
  fixes recorded :: u64
  assumes ok: "fv_ok t" and c: "consistent e t rg"
  defines "t1 \<equiv> insert_fact_version t e recorded rg"
  obtains (old) r where "t1 = t" "r \<in> set t1" "fv_key r = rg_key rg" "fv_entity r = e"
      "fv_mid r = rg_mid rg" "fv_ts r = as_i64 (rg_ts rg)"
      "chain t (rg_key rg) e = chain t1 (rg_key rg) e"
      "relink None (chain_below t1 (rg_key rg) e r) (Some (fv_mid r, fv_ts r)) = chain_below t1 (rg_key rg) e r"
      "relink (Some (fv_mid r)) (chain_above t1 (rg_key rg) e r) None = chain_above t1 (rg_key rg) e r"
      "fv_wf t1" "rg_mid rg \<in> fv_mid ` set (chain t (rg_key rg) e)"
  | (new) r n p where "t1 = t @ [r]" "r \<in> set t1" "fv_key r = rg_key rg" "fv_entity r = e"
      "fv_mid r = rg_mid rg" "fv_ts r = as_i64 (rg_ts rg)"
      "r = new_fact_version t e recorded rg"
      "relink None (chain_below t1 (rg_key rg) e r) n = chain_below t1 (rg_key rg) e r"
      "relink p (chain_above t1 (rg_key rg) e r) None = chain_above t1 (rg_key rg) e r"
      "fv_wf t1" "chain t (rg_key rg) e = chain_below t1 (rg_key rg) e r @ chain_above t1 (rg_key rg) e r"
      "rg_mid rg \<notin> fv_mid ` set (chain t (rg_key rg) e)"
proof (cases "\<exists>v \<in> set t. fv_pk v = (rg_key rg, rg_mid rg)")
  case True
  then obtain r where r: "r \<in> set t" "fv_pk r = (rg_key rg, rg_mid rg)" by blast
  have t1: "t1 = t"
    using True by (auto simp: t1_def insert_fact_version_def sql_ignore_def new_fact_version_def fv_pk_def)
  have re: "fv_key r = rg_key rg" "fv_mid r = rg_mid rg" "fv_entity r = e" "fv_ts r = as_i64 (rg_ts rg)"
    using r c by (auto simp: consistent_def fv_pk_def)
  have wf: "fv_wf t" using ok by (simp add: fv_ok_def)
  have ch: "chain t (rg_key rg) e = chain_below t (rg_key rg) e r @ r # chain_above t (rg_key rg) e r"
    using r(1) re by (intro chain_split [OF wf]) (auto simp: in_chain_def)
  have "relink None (chain t (rg_key rg) e) None = chain t (rg_key rg) e"
    using ok by (simp add: fv_ok_iff linked_def)
  note parts = relink_parts [OF this [unfolded ch]]
  show ?thesis
    by (rule old [of r]) (use t1 r re wf parts ch in \<open>simp_all\<close>)
next
  case False
  let ?r = "new_fact_version t e recorded rg"
  let ?k = "rg_key rg"
  have t1: "t1 = t @ [?r]"
    using False by (auto simp: t1_def insert_fact_version_def sql_ignore_def new_fact_version_def fv_pk_def)
  have wf: "fv_wf t" using ok by (simp add: fv_ok_def)
  have fresh: "fv_rowid v < fv_rowid ?r" if "v \<in> set t" for v
    using next_rowid_gt [OF that, of fv_rowid] by (simp add: new_fact_version_def)
  have "fv_rowid ?r \<notin> fv_rowid ` set t"
    by (metis fresh imageE less_irrefl)
  moreover have "fv_pk ?r \<notin> fv_pk ` set t"
    using False by (auto simp: new_fact_version_def fv_pk_def)
  moreover have "in_i64 (fv_ts ?r)" "in_i64 (fv_recorded ?r)"
    by (simp_all add: new_fact_version_def)
  ultimately have wf1: "fv_wf t1"
    using wf by (simp add: t1 fv_wf_def)
  have inc: "in_chain ?k e ?r" by (simp add: in_chain_def new_fact_version_def)
  have b: "chain_below t1 ?k e ?r = chain_below t ?k e ?r" "chain_above t1 ?k e ?r = chain_above t ?k e ?r"
    by (simp_all add: chain_below_def chain_above_def t1)
  have "\<forall>v \<in> set t. fv_rowid ?r \<noteq> fv_rowid v"
    by (metis fresh less_irrefl)
  then have "fv_pos ?r \<notin> fv_pos ` set (filter (in_chain ?k e) t)"
    by (auto simp: fv_pos_def)
  then have ch: "chain t ?k e = chain_below t ?k e ?r @ chain_above t ?k e ?r"
    unfolding chain_def chain_below_def chain_above_def
    by (intro sort_key_split_absent fv_wf_pos [OF fv_wf_filter [OF wf]])
  have "relink None (chain t ?k e) None = chain t ?k e"
    using ok by (simp add: fv_ok_iff linked_def)
  note parts = relink_parts2 [OF this [unfolded ch]]
  show ?thesis
  proof (rule new [of ?r "head_ref (chain_above t ?k e ?r) None" "last_ref (chain_below t ?k e ?r) None"])
    show "rg_mid rg \<notin> fv_mid ` set (chain t ?k e)"
      using False by (auto simp: in_chain_def fv_pk_def)
  qed (use t1 wf1 parts ch b in \<open>simp_all add: new_fact_version_sel\<close>)
qed

end
