(* ===== verification/Fact_Registry.thy ===== *)
theory Fact_Registry
  imports Fact_Chain
begin

section \<open>Fact versions: the abstract history\<close>

text \<open>
  The specification of \<open>register_fact_versions_tx\<close>.  A fact's history is the list of its
  versions as (memory id, event time, object), oldest first.  Registering an observation
  either confirms the version that covers its time, finds its own version, or inserts a new
  one after every version that is not later.  The theory proves that the SQL of the code
  computes this function and that it never fails.
\<close>

type_synonym hist = "(str \<times> int \<times> str) list"

definition history :: "fact_version list \<Rightarrow> str \<Rightarrow> str \<Rightarrow> hist" where
  "history t k e = map (\<lambda>v. (fv_mid v, fv_ts v, coalesce (fv_object v) [])) (chain t k e)"

definition up_to :: "int \<Rightarrow> hist \<Rightarrow> hist" where
  "up_to ts h = takeWhile (\<lambda>(_, s, _). s \<le> ts) h"

definition after :: "int \<Rightarrow> hist \<Rightarrow> hist" where
  "after ts h = dropWhile (\<lambda>(_, s, _). s \<le> ts) h"

definition hist_covering :: "int \<Rightarrow> hist \<Rightarrow> (str \<times> int \<times> str) option" where
  "hist_covering ts h =
     (if up_to ts h \<noteq> [] then Some (last (up_to ts h)) else if h = [] then None else Some (hd h))"

definition hist_confirms :: "registration \<Rightarrow> hist \<Rightarrow> (u64 \<times> str) option" where
  "hist_confirms r h =
     (case hist_covering (as_i64 (rg_ts r)) h of
        None \<Rightarrow> None
      | Some (i, s, obj) \<Rightarrow>
          if i \<noteq> rg_mid r \<and> same_fact_object obj (rg_object r) then Some (as_u64 s, i) else None)"

definition hist_insert :: "registration \<Rightarrow> hist \<Rightarrow> hist" where
  "hist_insert r h =
     (if rg_mid r \<in> fst ` set h then h
      else up_to (as_i64 (rg_ts r)) h @ (rg_mid r, as_i64 (rg_ts r), rg_object r)
             # after (as_i64 (rg_ts r)) h)"

text \<open>A status that is not final yet is the key whose newest version it will name.\<close>

definition hist_step :: "registration \<Rightarrow> hist \<Rightarrow> hist \<times> (fact_version_status + str)" where
  "hist_step r h =
     (case hist_confirms r h of
        Some c \<Rightarrow> (h, Inl (Confirmed c))
      | None \<Rightarrow>
          (let h' = hist_insert r h in
           (h', if fst (last h') = rg_mid r
                then Inl (Current (if h = [] \<or> fst (last h) = rg_mid r then None
                                   else Some (as_u64 (fst (snd (last h))), fst (last h))))
                else Inr (rg_key r))))"

fun hist_batch :: "registration list \<Rightarrow> (str \<Rightarrow> hist) \<Rightarrow> (str \<Rightarrow> hist) \<times> (fact_version_status + str) list" where
  "hist_batch [] H = (H, [])"
| "hist_batch (r # rs) H =
     (let s = hist_step r (H (rg_key r));
          b = hist_batch rs (H(rg_key r := fst s))
      in (fst b, snd s # snd b))"

fun hist_resolve :: "(str \<Rightarrow> hist) \<Rightarrow> fact_version_status + str \<Rightarrow> fact_version_status" where
  "hist_resolve H (Inl st) = st"
| "hist_resolve H (Inr k) = Stale (as_u64 (fst (snd (last (H k)))), fst (last (H k)))"

subsection \<open>Queries against the history\<close>

lemma filter_le_takeWhile:
  "sorted (map f xs) \<Longrightarrow> filter (\<lambda>x. f x \<le> (c::'a::linorder)) xs = takeWhile (\<lambda>x. f x \<le> c) xs"
proof (induction xs)
  case (Cons a xs)
  then show ?case by (cases xs) auto
qed simp

lemma filter_gt_dropWhile:
  "sorted (map f xs) \<Longrightarrow> filter (\<lambda>x. \<not> f x \<le> (c::'a::linorder)) xs = dropWhile (\<lambda>x. f x \<le> c) xs"
proof (induction xs)
  case (Cons a xs)
  then show ?case by (cases xs) (auto simp: filter_id_conv)
qed simp

lemma sorted_ts_chain: "sorted (map fv_ts (chain t k e))"
proof -
  have "sorted (map fv_pos (chain t k e))" by (simp add: chain_def)
  then show ?thesis
    by (auto simp: sorted_map fv_pos_def less_eq_prod_def intro: sorted_wrt_mono_rel [rotated])
qed

lemma history_sel: "history t k e = [] \<longleftrightarrow> chain t k e = []"
  "chain t k e \<noteq> [] \<Longrightarrow> last (history t k e)
     = (fv_mid (last (chain t k e)), fv_ts (last (chain t k e)), coalesce (fv_object (last (chain t k e))) [])"
  "fst ` set (history t k e) = fv_mid ` set (chain t k e)"
  by (simp_all add: history_def last_map image_image del: set_chain)

lemma up_to_history:
  "up_to ts (history t k e)
     = map (\<lambda>v. (fv_mid v, fv_ts v, coalesce (fv_object v) [])) (filter (\<lambda>v. fv_ts v \<le> ts) (chain t k e))"
  "after ts (history t k e)
     = map (\<lambda>v. (fv_mid v, fv_ts v, coalesce (fv_object v) [])) (filter (\<lambda>v. \<not> fv_ts v \<le> ts) (chain t k e))"
  unfolding filter_le_takeWhile [OF sorted_ts_chain] filter_gt_dropWhile [OF sorted_ts_chain]
  by (simp_all add: up_to_def after_def history_def takeWhile_map dropWhile_map comp_def)

lemma fact_neighbour_chain:
  "fact_neighbour t k e P True = (if filter P (chain t k e) = [] then None
     else Some (fact_position (last (filter P (chain t k e)))))"
  "fact_neighbour t k e P False = (if filter P (chain t k e) = [] then None
     else Some (fact_position (hd (filter P (chain t k e)))))"
proof -
  have f: "sort_key fv_pos (filter (\<lambda>v. in_chain k e v \<and> P v) t) = filter P (chain t k e)"
    by (simp add: chain_def filter_sort conj_commute)
  moreover have "filter (\<lambda>v. in_chain k e v \<and> P v) t = [] \<longleftrightarrow> filter P (chain t k e) = []"
    by (metis f sort_key_eq_Nil)
  ultimately show
    "fact_neighbour t k e P True = (if filter P (chain t k e) = [] then None
       else Some (fact_position (last (filter P (chain t k e)))))"
    "fact_neighbour t k e P False = (if filter P (chain t k e) = [] then None
       else Some (fact_position (hd (filter P (chain t k e)))))"
    by (simp_all add: fact_neighbour_def sql_first_desc_last sql_first_asc_hd)
qed

lemma covering_version_history:
  "map_option (\<lambda>(i, s, _, _, obj). (i, s, obj)) (covering_version t k e ts)
     = map_option (\<lambda>(i, s, obj). (i, as_u64 s, obj)) (hist_covering (as_i64 ts) (history t k e))"
proof (cases "filter (\<lambda>v. fv_ts v \<le> as_i64 ts) (chain t k e) = []")
  case True
  then have "up_to (as_i64 ts) (history t k e) = []"
    by (simp only: up_to_history list.map)
  with True show ?thesis
    by (simp add: covering_version_def fact_neighbour_chain hist_covering_def)
      (simp add: history_def fact_position_def hd_map)
next
  case False
  then show ?thesis
    by (simp add: covering_version_def fact_neighbour_chain hist_covering_def up_to_history
      fact_position_def last_map)
qed

lemma register_confirms:
  "(case covering_version t (rg_key r) e (rg_ts r) of
      None \<Rightarrow> None
    | Some (vid, vts, _, _, vobj) \<Rightarrow>
        if vid \<noteq> rg_mid r \<and> same_fact_object vobj (rg_object r) then Some (vid, vts) else None)
   = map_option prod.swap (hist_confirms r (history t (rg_key r) e))"
  using covering_version_history [of t "rg_key r" e "rg_ts r"]
  by (auto simp: hist_confirms_def split: option.splits)

subsection \<open>One registration\<close>

definition row_id :: "fact_version \<Rightarrow> (str \<times> str) \<times> str \<times> int \<times> int" where
  "row_id v = (fv_pk v, fv_entity v, fv_ts v, fv_recorded v)"

definition reg_id :: "str \<Rightarrow> u64 \<Rightarrow> registration \<Rightarrow> (str \<times> str) \<times> str \<times> int \<times> int" where
  "reg_id e recorded r = ((rg_key r, rg_mid r), e, as_i64 (rg_ts r), as_i64 recorded)"

lemma consistent_row_id:
  "consistent e t r \<longleftrightarrow> (\<forall>x \<in> row_id ` set t. fst x = (rg_key r, rg_mid r) \<longrightarrow>
     fst (snd x) = e \<and> fst (snd (snd x)) = as_i64 (rg_ts r))"
  by (auto simp: consistent_def row_id_def)

lemma history_relink:
  "chain t' k e = relink None (chain t k e) None \<Longrightarrow> history t' k e = history t k e"
  by (simp add: history_def map_relink)

lemma map_row_id_splice [simp]:
  "row_id (splice_in_key k mid ts p n v) = row_id v"
  by (simp add: row_id_def fv_pk_def)

lemma chain_below_above_filter:
  "chain_below t k e r = filter (\<lambda>v. fv_pos v < fv_pos r) (chain t k e)"
  "chain_above t k e r = filter (\<lambda>v. fv_pos r < fv_pos v) (chain t k e)"
  by (simp_all add: chain_below_def chain_above_def chain_def filter_sort)

text \<open>
  A version recorded after every version of its fact stands, among versions of the same
  event time, last: the order by position is the order by event time.
\<close>

lemma new_version_position:
  assumes "\<forall>v \<in> set t. fv_recorded v \<le> as_i64 recorded" and "r = new_fact_version t e recorded rg"
  shows "filter (\<lambda>v. fv_pos v < fv_pos r) (chain t k e') = filter (\<lambda>v. fv_ts v \<le> fv_ts r) (chain t k e')"
    and "filter (\<lambda>v. fv_pos r < fv_pos v) (chain t k e') = filter (\<lambda>v. \<not> fv_ts v \<le> fv_ts r) (chain t k e')"
proof -
  have "(fv_pos v < fv_pos r \<longleftrightarrow> fv_ts v \<le> fv_ts r) \<and> (fv_pos r < fv_pos v \<longleftrightarrow> \<not> fv_ts v \<le> fv_ts r)"
    if "v \<in> set t" for v
    using assms that next_rowid_gt [OF that, of fv_rowid]
    by (auto simp: fv_pos_def less_prod_def' new_fact_version_sel)
  then show "filter (\<lambda>v. fv_pos v < fv_pos r) (chain t k e') = filter (\<lambda>v. fv_ts v \<le> fv_ts r) (chain t k e')"
    and "filter (\<lambda>v. fv_pos r < fv_pos v) (chain t k e') = filter (\<lambda>v. \<not> fv_ts v \<le> fv_ts r) (chain t k e')"
    by (auto intro: filter_cong)
qed

lemma history_insert:
  assumes ok: "fv_ok t" and c: "consistent e t rg"
    and rec: "\<forall>v \<in> set t. fv_recorded v \<le> as_i64 recorded"
  shows "history (insert_fact_version t e recorded rg) (rg_key rg) e
       = hist_insert rg (history t (rg_key rg) e)"
  using ok c
proof (cases rule: insert_fact_version_cases [where recorded = recorded])
  case (old r)
  from old(11) have "rg_mid rg \<in> fst ` set (history t (rg_key rg) e)"
    unfolding history_sel .
  with old(1) show ?thesis by (simp add: hist_insert_def)
next
  case (new r n p)
  let ?k = "rg_key rg" and ?t1 = "insert_fact_version t e recorded rg"
  have "r \<in> set ?t1" "in_chain ?k e r" using new by (simp_all add: in_chain_def)
  from chain_split [OF new(10) this]
  have "chain ?t1 ?k e = chain_below ?t1 ?k e r @ r # chain_above ?t1 ?k e r" .
  also have "chain_below ?t1 ?k e r = chain_below t ?k e r"
    by (simp add: new(1) chain_below_def)
  also have "chain_above ?t1 ?k e r = chain_above t ?k e r"
    by (simp add: new(1) chain_above_def)
  also have "chain_below t ?k e r = filter (\<lambda>v. fv_ts v \<le> as_i64 (rg_ts rg)) (chain t ?k e)"
    using new_version_position(1) [OF rec new(7), of ?k e] new(6) by (simp add: chain_below_above_filter)
  also have "chain_above t ?k e r = filter (\<lambda>v. \<not> fv_ts v \<le> as_i64 (rg_ts rg)) (chain t ?k e)"
    using new_version_position(2) [OF rec new(7), of ?k e] new(6) by (simp add: chain_below_above_filter)
  finally have ch: "chain ?t1 ?k e = filter (\<lambda>v. fv_ts v \<le> as_i64 (rg_ts rg)) (chain t ?k e)
      @ r # filter (\<lambda>v. \<not> fv_ts v \<le> as_i64 (rg_ts rg)) (chain t ?k e)" .
  have "rg_mid rg \<notin> fst ` set (history t ?k e)"
    using new(12) unfolding history_sel .
  then have "hist_insert rg (history t ?k e) = up_to (as_i64 (rg_ts rg)) (history t ?k e)
      @ (rg_mid rg, as_i64 (rg_ts rg), rg_object rg) # after (as_i64 (rg_ts rg)) (history t ?k e)"
    by (simp add: hist_insert_def)
  also have "\<dots> = history ?t1 ?k e"
    unfolding up_to_history history_def [of ?t1] ch
    using new(5-7) by (simp add: new_fact_version_sel coalesce_def)
  finally show ?thesis ..
qed

text \<open>The table after the INSERT and the three UPDATE statements of a registration.\<close>

definition registered_versions :: "fact_version list \<Rightarrow> str \<Rightarrow> u64 \<Rightarrow> registration \<Rightarrow> fact_version list" where
  "registered_versions t e recorded rg =
     (let t1 = insert_fact_version t e recorded rg in
      case fact_version_of t1 (rg_key rg) (rg_mid rg) of
        Inl _ \<Rightarrow> t1
      | Inr (_, _, rec, rid, _) \<Rightarrow>
          splice_version t1 (rg_key rg) (rg_mid rg) (rg_ts rg)
            (ordered_fact_neighbour t1 (rg_key rg) e (rg_ts rg) rec rid True)
            (ordered_fact_neighbour t1 (rg_key rg) e (rg_ts rg) rec rid False))"

lemma register_row:
  fixes recorded :: u64
  assumes ok: "fv_ok t" and c: "consistent e t rg"
  defines "t1 \<equiv> insert_fact_version t e recorded rg"
  shows "\<exists>r n p. r \<in> set t1 \<and> fv_key r = rg_key rg \<and> fv_entity r = e \<and> fv_mid r = rg_mid rg
      \<and> fv_ts r = as_i64 (rg_ts rg) \<and> fv_wf t1
      \<and> relink None (chain_below t1 (rg_key rg) e r) n = chain_below t1 (rg_key rg) e r
      \<and> relink p (chain_above t1 (rg_key rg) e r) None = chain_above t1 (rg_key rg) e r"
  unfolding t1_def using ok c
  by (cases rule: insert_fact_version_cases [where recorded = recorded]) blast+

lemma insert_other_chain:
  "(k', e') \<noteq> (rg_key rg, e) \<Longrightarrow> chain (insert_fact_version t e recorded rg) k' e' = chain t k' e'"
  by (auto simp: chain_def insert_fact_version_def sql_ignore_def in_chain_def new_fact_version_sel)

lemma register_splice:
  fixes recorded :: u64
  assumes ok: "fv_ok t" and c: "consistent e t rg"
  defines "t1 \<equiv> insert_fact_version t e recorded rg"
    and "t' \<equiv> registered_versions t e recorded rg"
  shows "fv_ok t'" and "chain t' (rg_key rg) e = relink None (chain t1 (rg_key rg) e) None"
    and "\<And>k' e'. (k', e') \<noteq> (rg_key rg, e) \<Longrightarrow> chain t' k' e' = chain t k' e'"
    and "\<exists>r. fact_version_of t1 (rg_key rg) (rg_mid rg) = Inr (fact_position r)
       \<and> (ordered_fact_neighbour t1 (rg_key rg) e (rg_ts rg) (as_u64 (fv_recorded r)) (fv_rowid r) False = None
          \<longleftrightarrow> fv_mid (last (chain t1 (rg_key rg) e)) = rg_mid rg)"
proof -
  obtain r n p where r: "r \<in> set t1" "fv_key r = rg_key rg" "fv_entity r = e" "fv_mid r = rg_mid rg"
      "fv_ts r = as_i64 (rg_ts rg)" and wf: "fv_wf t1"
    and L: "relink None (chain_below t1 (rg_key rg) e r) n = chain_below t1 (rg_key rg) e r"
    and H: "relink p (chain_above t1 (rg_key rg) e r) None = chain_above t1 (rg_key rg) e r"
    using register_row [OF ok c, of recorded] unfolding t1_def by blast
  have of: "fact_version_of t1 (rg_key rg) (rg_mid rg) = Inr (fact_position r)"
    using fact_version_of_row [OF wf r(1)] r by simp
  have rec: "fv_recorded r = as_i64 (as_u64 (fv_recorded r))"
    using wf r(1) by (simp add: fv_wf_def)
  have inc: "in_chain (rg_key rg) e r" using r by (simp add: in_chain_def)
  have t': "t' = splice_version t1 (rg_key rg) (rg_mid rg) (rg_ts rg)
      (ordered_fact_neighbour t1 (rg_key rg) e (rg_ts rg) (as_u64 (fv_recorded r)) (fv_rowid r) True)
      (ordered_fact_neighbour t1 (rg_key rg) e (rg_ts rg) (as_u64 (fv_recorded r)) (fv_rowid r) False)"
    unfolding t'_def registered_versions_def Let_def t1_def [symmetric] of
    by (simp add: fact_position_def)
  have others: "linked t1 k' e'" if "(k', e') \<noteq> (rg_key rg, e)" for k' e'
    using ok insert_other_chain [OF that, of t recorded] by (simp add: fv_ok_iff linked_def t1_def)
  note sp = splice_keeps_ok [OF wf r(1) inc r(4) r(5) rec L H others, folded t']
  show "fv_ok t'" and "chain t' (rg_key rg) e = relink None (chain t1 (rg_key rg) e) None"
    using sp(1,2) by blast+
  show "chain t' k' e' = chain t k' e'" if "(k', e') \<noteq> (rg_key rg, e)" for k' e'
    using sp(3) [OF _ that] insert_other_chain [OF that, of t recorded] by (simp add: t1_def)
  have "chain_above t1 (rg_key rg) e r = [] \<longleftrightarrow> fv_mid (last (chain t1 (rg_key rg) e)) = rg_mid rg"
    using chain_split [OF wf r(1) inc] distinct_mid_chain [OF wf, of "rg_key rg" e] r(4)
    by (cases "chain_above t1 (rg_key rg) e r" rule: rev_cases) auto
  then show "\<exists>r. fact_version_of t1 (rg_key rg) (rg_mid rg) = Inr (fact_position r)
       \<and> (ordered_fact_neighbour t1 (rg_key rg) e (rg_ts rg) (as_u64 (fv_recorded r)) (fv_rowid r) False = None
          \<longleftrightarrow> fv_mid (last (chain t1 (rg_key rg) e)) = rg_mid rg)"
    using of by (intro exI [of _ r]) (simp add: ordered_neighbour_above [OF r(5) rec])
qed

lemma map_row_id_splice_version: "map row_id (splice_version t k mid ts pred succ) = map row_id t"
  by (auto simp: splice_version_def Let_def row_id_def fv_pk_def map_sql_update split: option.splits)

lemma row_id_registered:
  "row_id ` set (registered_versions t e recorded rg)
     \<subseteq> insert ((rg_key rg, rg_mid rg), e, as_i64 (rg_ts rg), as_i64 recorded) (row_id ` set t)"
proof -
  let ?t1 = "insert_fact_version t e recorded rg"
  have "row_id ` set (registered_versions t e recorded rg) = row_id ` set ?t1"
    using map_row_id_splice_version [THEN arg_cong [of _ _ set]]
    by (auto simp: registered_versions_def Let_def split: sum.splits)
  also have "\<dots> \<subseteq> insert ((rg_key rg, rg_mid rg), e, as_i64 (rg_ts rg), as_i64 recorded) (row_id ` set t)"
    using set_sql_ignore_subset [of fv_pk "new_fact_version t e recorded rg" t]
    by (auto simp: insert_fact_version_def row_id_def new_fact_version_sel fv_pk_def)
  finally show ?thesis .
qed

lemma register_fact_step:
  assumes ok: "fv_ok (versions db)" and c: "consistent e (versions db) rg"
    and rec: "\<forall>v \<in> set (versions db). fv_recorded v \<le> as_i64 recorded"
  shows "\<exists>db' st d. register_fact e recorded db rg = Inr (db', st, d)
     \<and> fv_ok (versions db')
     \<and> history (versions db') (rg_key rg) e = fst (hist_step rg (history (versions db) (rg_key rg) e))
     \<and> (\<forall>k' e'. (k', e') = (rg_key rg, e) \<or> history (versions db') k' e' = history (versions db) k' e')
     \<and> (case snd (hist_step rg (history (versions db) (rg_key rg) e)) of
          Inl s \<Rightarrow> st = s \<and> \<not> d | Inr k \<Rightarrow> k = rg_key rg \<and> d \<and> st = Stale (0, []))
     \<and> row_id ` set (versions db')
        \<subseteq> insert ((rg_key rg, rg_mid rg), e, as_i64 (rg_ts rg), as_i64 recorded) (row_id ` set (versions db))"
proof (cases "hist_confirms rg (history (versions db) (rg_key rg) e)")
  case (Some cf)
  then show ?thesis
    using ok register_confirms [where t = "versions db" and r = rg and e = e]
    by (cases cf) (auto simp: register_fact_def Let_def hist_step_def)
next
  case None
  let ?t = "versions db" and ?k = "rg_key rg"
  let ?t1 = "insert_fact_version ?t e recorded rg" and ?t' = "registered_versions ?t e recorded rg"
  let ?h = "history ?t ?k e"
  note sp = register_splice [OF ok c, where recorded = recorded]
  obtain r where of: "fact_version_of ?t1 ?k (rg_mid rg) = Inr (fact_position r)"
    and succ: "ordered_fact_neighbour ?t1 ?k e (rg_ts rg) (as_u64 (fv_recorded r)) (fv_rowid r) False = None
          \<longleftrightarrow> fv_mid (last (chain ?t1 ?k e)) = rg_mid rg"
    using sp(4) by (elim exE conjE) (rule that)
  have h1: "history ?t1 ?k e = hist_insert rg ?h" by (rule history_insert [OF ok c rec])
  have ne: "hist_insert rg ?h \<noteq> []" by (auto simp: hist_insert_def)
  then have ne1: "chain ?t1 ?k e \<noteq> []" using h1 history_sel(1) by metis
  have lst: "fv_mid (last (chain ?t1 ?k e)) = fst (last (hist_insert rg ?h))"
    using history_sel(2) [OF ne1] h1 by simp
  have t': "?t' = splice_version ?t1 ?k (rg_mid rg) (rg_ts rg)
      (ordered_fact_neighbour ?t1 ?k e (rg_ts rg) (as_u64 (fv_recorded r)) (fv_rowid r) True)
      (ordered_fact_neighbour ?t1 ?k e (rg_ts rg) (as_u64 (fv_recorded r)) (fv_rowid r) False)"
    unfolding registered_versions_def Let_def of by (simp add: fact_position_def)
  have cur: "current_fact_version ?t ?k e = (if ?h = [] then None
      else Some (fst (last ?h), as_u64 (fst (snd (last ?h)))))"
    using ok current_fact_version_linked [of ?t ?k e] history_sel(1,2) [of ?t ?k e]
    by (auto simp: fv_ok_iff)
  have h': "history ?t' ?k e = hist_insert rg ?h"
    using history_relink [OF sp(2)] h1 by simp
  have oth: "history ?t' k' e' = history ?t k' e'" if "(k', e') \<noteq> (?k, e)" for k' e'
    using sp(3) [OF that] by (simp add: history_def)
  have cf: "(case covering_version ?t ?k e (rg_ts rg) of None \<Rightarrow> None
    | Some (vid, vts, _, _, vobj) \<Rightarrow>
        if vid \<noteq> rg_mid rg \<and> same_fact_object vobj (rg_object rg) then Some (vid, vts) else None) = None"
    using register_confirms [where t = ?t and r = rg and e = e] None by simp
  let ?db1 = "db\<lparr>versions := ?t', evidence := insert_evidence (evidence db) ?k e (rg_mid rg) (rg_mid rg) (rg_ts rg)\<rparr>"
  let ?last = "fst (last (hist_insert rg ?h)) = rg_mid rg"
  have reg: "register_fact e recorded db rg = Inr (?db1,
      (if ?last then Current (if ?h = [] \<or> fst (last ?h) = rg_mid rg then None
                              else Some (as_u64 (fst (snd (last ?h))), fst (last ?h)))
       else Stale (0, [])), \<not> ?last)"
    unfolding register_fact_def Let_def cf of cur t'
    using succ lst by (simp add: fact_position_def)
  show ?thesis
    unfolding reg using sp(1) h' oth row_id_registered [of ?t e recorded rg] None
    by (auto simp: hist_step_def Let_def)
qed

subsection \<open>A batch of registrations\<close>

text \<open>
  What a batch must satisfy: a memory id names one event time per key, in the table and in
  the batch, and nothing is recorded later than now.
\<close>

definition consistent_batch :: "str \<Rightarrow> u64 \<Rightarrow> registration list \<Rightarrow> fact_version list \<Rightarrow> bool" where
  "consistent_batch e recorded rs t \<longleftrightarrow>
     (\<forall>r \<in> set rs. consistent e t r)
     \<and> (\<forall>r \<in> set rs. \<forall>r' \<in> set rs. rg_key r = rg_key r' \<and> rg_mid r = rg_mid r' \<longrightarrow> rg_ts r = rg_ts r')
     \<and> (\<forall>v \<in> set t. fv_recorded v \<le> as_i64 recorded)"

fun raw_status :: "fact_version_status + str \<Rightarrow> fact_version_status" where
  "raw_status (Inl st) = st"
| "raw_status (Inr k) = Stale (0, [])"

fun deferred_at :: "nat \<Rightarrow> (fact_version_status + str) list \<Rightarrow> (nat \<times> str) list" where
  "deferred_at n [] = []"
| "deferred_at n (Inl st # ss) = deferred_at (Suc n) ss"
| "deferred_at n (Inr k # ss) = (n, k) # deferred_at (Suc n) ss"

lemma consistent_batchD:
  "consistent_batch e recorded rs t \<Longrightarrow> r \<in> set rs \<Longrightarrow> r' \<in> set rs \<Longrightarrow> rg_key r = rg_key r'
     \<Longrightarrow> rg_mid r = rg_mid r' \<Longrightarrow> rg_ts r = rg_ts r'"
  unfolding consistent_batch_def by blast

lemma consistent_batch_step:
  assumes b: "consistent_batch e recorded (r # rs) t"
    and ids: "row_id ` set t' \<subseteq> insert ((rg_key r, rg_mid r), e, as_i64 (rg_ts r), as_i64 recorded) (row_id ` set t)"
  shows "consistent_batch e recorded rs t'"
proof -
  have "consistent e t' q" if q: "q \<in> set rs" for q
    unfolding consistent_row_id
  proof (intro ballI impI)
    fix x assume x: "x \<in> row_id ` set t'" "fst x = (rg_key q, rg_mid q)"
    then consider "x = ((rg_key r, rg_mid r), e, as_i64 (rg_ts r), as_i64 recorded)" | "x \<in> row_id ` set t"
      using ids by blast
    then show "fst (snd x) = e \<and> fst (snd (snd x)) = as_i64 (rg_ts q)"
    proof cases
      case 1
      with x(2) have eq: "rg_key r = rg_key q" "rg_mid r = rg_mid q" by simp_all
      have "rg_ts r = rg_ts q"
        using consistent_batchD [OF b _ _ eq] q by simp
      with 1 show ?thesis by simp
    next
      case 2
      from b q have "consistent e t q" by (simp add: consistent_batch_def)
      with 2 x show ?thesis unfolding consistent_row_id by blast
    qed
  qed
  moreover have "fv_recorded v \<le> as_i64 recorded" if "v \<in> set t'" for v
  proof -
    have "row_id v \<in> insert ((rg_key r, rg_mid r), e, as_i64 (rg_ts r), as_i64 recorded) (row_id ` set t)"
      using ids that by blast
    then show ?thesis using b by (auto simp: row_id_def consistent_batch_def)
  qed
  moreover have "rg_ts q = rg_ts q'"
    if "q \<in> set rs" "q' \<in> set rs" "rg_key q = rg_key q'" "rg_mid q = rg_mid q'" for q q'
    using consistent_batchD [OF b _ _ that(3,4)] that(1,2) by simp
  ultimately show ?thesis unfolding consistent_batch_def by blast
qed

lemma hist_insert_ne [simp]: "hist_insert r h \<noteq> []"
  by (auto simp: hist_insert_def)

lemma hist_step_deferred: "snd (hist_step r h) = Inr k \<Longrightarrow> k = rg_key r \<and> fst (hist_step r h) \<noteq> []"
  by (auto simp: hist_step_def Let_def split: option.splits if_splits)

lemma hist_step_ne: "h \<noteq> [] \<Longrightarrow> fst (hist_step r h) \<noteq> []"
  by (auto simp: hist_step_def Let_def split: option.splits)

lemma hist_batch_Cons:
  "hist_batch (r # rs) H =
     (fst (hist_batch rs (H(rg_key r := fst (hist_step r (H (rg_key r)))))),
      snd (hist_step r (H (rg_key r))) # snd (hist_batch rs (H(rg_key r := fst (hist_step r (H (rg_key r)))))))"
  by (simp add: Let_def)

declare hist_batch.simps(2) [simp del]

lemma hist_batch_ne: "H k \<noteq> [] \<Longrightarrow> fst (hist_batch rs H) k \<noteq> []"
proof (induction rs arbitrary: H)
  case (Cons r rs)
  show ?case
    unfolding hist_batch_Cons fst_conv
    by (rule Cons.IH) (use Cons.prems hist_step_ne [of "H k" r] in auto)
qed simp

lemma hist_batch_deferred: "Inr k \<in> set (snd (hist_batch rs H)) \<Longrightarrow> fst (hist_batch rs H) k \<noteq> []"
proof (induction rs arbitrary: H)
  case (Cons r rs)
  let ?H = "H(rg_key r := fst (hist_step r (H (rg_key r))))"
  consider "snd (hist_step r (H (rg_key r))) = Inr k" | "Inr k \<in> set (snd (hist_batch rs ?H))"
    using Cons.prems unfolding hist_batch_Cons by auto
  then show ?case
  proof cases
    case 1
    then have "?H k \<noteq> []" using hist_step_deferred by fastforce
    then show ?thesis unfolding hist_batch_Cons fst_conv by (rule hist_batch_ne)
  next
    case 2
    then show ?thesis unfolding hist_batch_Cons fst_conv by (rule Cons.IH)
  qed
qed simp

lemma subset_insert_step: "A \<subseteq> insert x B \<Longrightarrow> C \<subseteq> A \<union> D \<Longrightarrow> C \<subseteq> B \<union> insert x D"
  by blast

lemma register_loop_batch:
  assumes "fv_ok (versions db)" and "consistent_batch e recorded rs (versions db)"
  shows "\<exists>db'. register_loop e recorded rs db sts def
       = Inr (db', sts @ map raw_status (snd (hist_batch rs (\<lambda>k. history (versions db) k e))),
              def @ deferred_at (length sts) (snd (hist_batch rs (\<lambda>k. history (versions db) k e))))
     \<and> fv_ok (versions db')
     \<and> (\<forall>k. history (versions db') k e = fst (hist_batch rs (\<lambda>k. history (versions db) k e)) k)
     \<and> (\<forall>k e'. e' = e \<or> history (versions db') k e' = history (versions db) k e')
     \<and> row_id ` set (versions db') \<subseteq> row_id ` set (versions db) \<union> reg_id e recorded ` set rs"
  using assms
proof (induction rs arbitrary: db sts "def")
  case (Cons r rs)
  let ?H = "\<lambda>k. history (versions db) k e"
  let ?s = "hist_step r (?H (rg_key r))"
  have c: "consistent e (versions db) r" and rec: "\<forall>v \<in> set (versions db). fv_recorded v \<le> as_i64 recorded"
    using Cons.prems(2) by (simp_all add: consistent_batch_def)
  obtain db1 st d where reg: "register_fact e recorded db r = Inr (db1, st, d)"
    and ok1: "fv_ok (versions db1)"
    and h1: "history (versions db1) (rg_key r) e = fst ?s"
    and o1: "\<forall>k' e'. (k', e') = (rg_key r, e) \<or> history (versions db1) k' e' = history (versions db) k' e'"
    and st: "case snd ?s of Inl s \<Rightarrow> st = s \<and> \<not> d | Inr k \<Rightarrow> k = rg_key r \<and> d \<and> st = Stale (0, [])"
    and ids: "row_id ` set (versions db1) \<subseteq> insert ((rg_key r, rg_mid r), e, as_i64 (rg_ts r), as_i64 recorded)
        (row_id ` set (versions db))"
    using register_fact_step [OF Cons.prems(1) c rec] by blast
  have H1: "(\<lambda>k. history (versions db1) k e) = ?H(rg_key r := fst ?s)"
    using h1 o1 by (auto simp: fun_eq_iff)
  obtain db' where
    loop: "register_loop e recorded rs db1 (sts @ [st]) (if d then def @ [(length sts, rg_key r)] else def)
       = Inr (db', (sts @ [st]) @ map raw_status (snd (hist_batch rs (?H(rg_key r := fst ?s)))),
              (if d then def @ [(length sts, rg_key r)] else def)
                @ deferred_at (length (sts @ [st])) (snd (hist_batch rs (?H(rg_key r := fst ?s)))))"
    and ok': "fv_ok (versions db')"
    and h': "\<forall>k. history (versions db') k e = fst (hist_batch rs (?H(rg_key r := fst ?s))) k"
    and o': "\<forall>k e'. e' = e \<or> history (versions db') k e' = history (versions db1) k e'"
    and ids': "row_id ` set (versions db') \<subseteq> row_id ` set (versions db1) \<union> reg_id e recorded ` set rs"
    using Cons.IH [OF ok1 consistent_batch_step [OF Cons.prems(2) ids], unfolded H1] by blast
  have "register_loop e recorded (r # rs) db sts def
      = Inr (db', sts @ map raw_status (snd ?s # snd (hist_batch rs (?H(rg_key r := fst ?s)))),
             def @ deferred_at (length sts) (snd ?s # snd (hist_batch rs (?H(rg_key r := fst ?s)))))"
    using reg loop st by (cases "snd ?s") simp_all
  moreover have "history (versions db') k e' = history (versions db) k e'" if "e' \<noteq> e" for k e'
    using o' o1 that by (metis prod.inject)
  moreover have "row_id ` set (versions db') \<subseteq> row_id ` set (versions db) \<union> reg_id e recorded ` set (r # rs)"
  proof -
    have "row_id ` set (versions db1) \<subseteq> insert (reg_id e recorded r) (row_id ` set (versions db))"
      using ids by (simp only: reg_id_def)
    from subset_insert_step [OF this ids'] show ?thesis
      by (simp only: list.simps(15) image_insert)
  qed
  ultimately show ?case
    using ok' h' by (intro exI [of _ db']) (simp only: hist_batch_Cons fst_conv snd_conv, blast)
qed simp

lemma resolve_deferred_batch:
  assumes "fv_ok (versions db)" and "\<forall>k. Inr k \<in> set ss \<longrightarrow> history (versions db) k e \<noteq> []"
  shows "resolve_deferred e (deferred_at (length pre) ss) db (pre @ map raw_status ss)
       = Inr (db, pre @ map (hist_resolve (\<lambda>k. history (versions db) k e)) ss)"
  using assms(2)
proof (induction ss arbitrary: pre)
  case (Cons s ss)
  show ?case
  proof (cases s)
    case (Inl st)
    with Cons.IH [of "pre @ [st]"] Cons.prems show ?thesis by simp
  next
    case (Inr k)
    let ?h = "history (versions db) k e"
    have ne: "?h \<noteq> []" using Cons.prems Inr by simp
    then have "current_fact_version (versions db) k e = Some (fst (last ?h), as_u64 (fst (snd (last ?h))))"
      using assms(1) current_fact_version_linked [of "versions db" k e] history_sel(1,2) [of "versions db" k e]
      by (auto simp: fv_ok_iff)
    with Cons.IH [of "pre @ [hist_resolve (\<lambda>k. history (versions db) k e) (Inr k)]"] Cons.prems Inr
    show ?thesis by simp
  qed
qed simp

lemma register_batch:
  assumes "fv_ok (versions db)" and "consistent_batch e recorded rs (versions db)"
  shows "\<exists>db'. register_fact_versions_tx e rs recorded db
       = Inr (db', map (hist_resolve (fst (hist_batch rs (\<lambda>k. history (versions db) k e))))
                       (snd (hist_batch rs (\<lambda>k. history (versions db) k e))))
     \<and> fv_ok (versions db')
     \<and> (\<forall>k. history (versions db') k e = fst (hist_batch rs (\<lambda>k. history (versions db) k e)) k)
     \<and> (\<forall>k e'. e' = e \<or> history (versions db') k e' = history (versions db) k e')
     \<and> row_id ` set (versions db') \<subseteq> row_id ` set (versions db) \<union> reg_id e recorded ` set rs"
proof -
  let ?b = "hist_batch rs (\<lambda>k. history (versions db) k e)"
  obtain db' where loop: "register_loop e recorded rs db [] []
      = Inr (db', [] @ map raw_status (snd ?b), [] @ deferred_at (length ([] :: fact_version_status list)) (snd ?b))"
    and ok: "fv_ok (versions db')" and h: "\<forall>k. history (versions db') k e = fst ?b k"
    and o: "\<forall>k e'. e' = e \<or> history (versions db') k e' = history (versions db) k e'"
    and ids: "row_id ` set (versions db') \<subseteq> row_id ` set (versions db) \<union> reg_id e recorded ` set rs"
    using register_loop_batch [OF assms] by blast
  have H: "(\<lambda>k. history (versions db') k e) = fst ?b" using h by auto
  have "resolve_deferred e (deferred_at (length ([] :: fact_version_status list)) (snd ?b)) db' ([] @ map raw_status (snd ?b))
      = Inr (db', [] @ map (hist_resolve (\<lambda>k. history (versions db') k e)) (snd ?b))"
    by (rule resolve_deferred_batch [OF ok]) (simp add: h hist_batch_deferred)
  with loop ok h o ids show ?thesis
    unfolding H by (intro exI [of _ db']) (simp add: register_fact_versions_tx_def)
qed

subsection \<open>The properties\<close>

text \<open>
  C1. Registering a batch never fails, keeps the invariant and refines the abstract history:
  the versions of every fact of the entity, in order, and the statuses returned are those of
  \<open>hist_batch\<close>, a deferred status naming the newest version of its fact at the end of the
  batch; facts of other entities are untouched.  In particular the repair branch and the
  \<open>NoVersionsAtAll\<close> error are never reached on a well-formed table.
\<close>

theorem register_fact_versions_refines:
  assumes "fv_ok (versions db)" and "consistent_batch e recorded rs (versions db)"
  shows "\<exists>db'. register_fact_versions_tx e rs recorded db
       = Inr (db', map (hist_resolve (fst (hist_batch rs (\<lambda>k. history (versions db) k e))))
                       (snd (hist_batch rs (\<lambda>k. history (versions db) k e))))
     \<and> fv_ok (versions db')
     \<and> (\<forall>k. history (versions db') k e = fst (hist_batch rs (\<lambda>k. history (versions db) k e)) k)
     \<and> (\<forall>k e'. e' = e \<or> history (versions db') k e' = history (versions db) k e')"
  using register_batch [OF assms] by blast

definition sample_registration :: "str \<Rightarrow> u64 \<Rightarrow> str \<Rightarrow> registration" where
  "sample_registration mid ts obj =
     \<lparr>rg_key = ''u:city'', rg_ts = ts, rg_mid = mid, rg_subject = ''u'', rg_predicate = ''city'',
      rg_object = obj\<rparr>"

lemma register_fact_versions_refines_witness:
  "\<exists>db'. register_fact_versions_tx ''e''
       [sample_registration ''m1'' 10 ''Oslo'', sample_registration ''m2'' 30 ''Rome'',
        sample_registration ''m3'' 20 ''Bern''] 40 \<lparr>versions = [], evidence = []\<rparr>
     = Inr (db', [Current None, Current (Some (10, ''m1'')), Stale (30, ''m2'')])"
proof -
  let ?rs = "[sample_registration ''m1'' 10 ''Oslo'', sample_registration ''m2'' 30 ''Rome'',
        sample_registration ''m3'' 20 ''Bern'']"
  let ?db = "\<lparr>versions = [], evidence = []\<rparr>"
  have ok: "fv_ok (versions ?db)" by (simp add: fv_ok_def fv_wf_def)
  have b: "consistent_batch ''e'' 40 ?rs (versions ?db)"
    by (simp add: consistent_batch_def consistent_def sample_registration_def)
  have "map (hist_resolve (fst (hist_batch ?rs (\<lambda>k. [])))) (snd (hist_batch ?rs (\<lambda>k. [])))
      = [Current None, Current (Some (10, ''m1'')), Stale (30, ''m2'')]"
    by code_simp
  moreover have "(\<lambda>k. history (versions ?db) k ''e'') = (\<lambda>k. [])"
    by (simp add: history_def chain_def)
  ultimately show ?thesis using register_fact_versions_refines [OF ok b] by auto
qed

text \<open>
  On a well-formed table a fact has a current value exactly when it has a version, and the
  value is the object of its newest version; the row that holds it is the only current row.
\<close>

theorem current_value_is_newest:
  assumes "fv_ok t"
  shows "get_current_fact_value t e k
       = (if chain t k e = [] then None else fv_object (last (chain t k e)))
     \<and> map fv_mid (sort_key fv_pos (filter (\<lambda>v. in_chain k e v \<and> fv_status v = ''current'') t))
       = (if history t k e = [] then [] else [fst (last (history t k e))])"
  using assms current_rows [of t k e] history_sel(1,2) [of t k e]
  by (auto simp: fv_ok_iff get_current_fact_value_linked)

lemma valid_relink:
  "relink q vs None = vs \<Longrightarrow> sorted (map fv_ts vs) \<Longrightarrow> distinct vs \<Longrightarrow> v \<in> set vs \<Longrightarrow>
     valid_at p v \<longleftrightarrow>
       filter (\<lambda>w. fv_ts w \<le> p) vs \<noteq> [] \<and> v = last (filter (\<lambda>w. fv_ts w \<le> p) vs)"
proof (induction vs arbitrary: q)
  case (Cons u us)
  from Cons.prems(1) have lk: "link q u (head_ref us None) = u" and us: "relink (Some (fv_mid u)) us None = us"
    by simp_all
  have ends: "fv_valid_from u = Some (fv_ts u)" "fv_valid_to u = map_option snd (head_ref us None)"
    using link_sel(11,12) [of q u "head_ref us None"] by (simp_all add: lk)
  have nil: "filter (\<lambda>w. fv_ts w \<le> p) us = [] \<longleftrightarrow> us = [] \<or> p < fv_ts (hd us)"
    using Cons.prems(2) by (cases us) (auto simp: filter_empty_conv)
  show ?case
  proof (cases "v = u")
    case True
    have "valid_at p u \<longleftrightarrow> fv_ts u \<le> p \<and> filter (\<lambda>w. fv_ts w \<le> p) us = []"
      unfolding nil by (cases us) (auto simp: valid_at_def ends coalesce_def)
    moreover have "u \<notin> set (filter (\<lambda>w. fv_ts w \<le> p) us)" using Cons.prems(3) by simp
    ultimately show ?thesis using True
      by (cases "filter (\<lambda>w. fv_ts w \<le> p) us" rule: rev_cases) auto
  next
    case False
    then have "v \<in> set us" using Cons.prems(4) by simp
    moreover have "filter (\<lambda>w. fv_ts w \<le> p) us = []" if "\<not> fv_ts u \<le> p"
      using Cons.prems(2) that by (auto simp: filter_empty_conv)
    ultimately show ?thesis
      using Cons.IH [OF us] Cons.prems False by auto
  qed
qed simp

text \<open>
  On a well-formed table the version of a fact that is valid at a point in time, in the
  sense of the point-in-time query, is the newest one whose event time is not after it: at
  most one version per fact is valid, and one is whenever the fact had begun.
\<close>

theorem valid_version_is_covering:
  assumes "fv_ok t" and "v \<in> set t"
  shows "valid_at p v \<longleftrightarrow>
     (let past = filter (\<lambda>w. fv_ts w \<le> p) (chain t (fv_key v) (fv_entity v))
      in past \<noteq> [] \<and> v = last past)"
proof -
  have "distinct (chain t (fv_key v) (fv_entity v))"
    using distinct_mid_chain [of t] assms by (auto simp: fv_ok_def distinct_map)
  then show ?thesis
    unfolding Let_def using assms sorted_ts_chain
    by (intro valid_relink) (auto simp: fv_ok_iff linked_def in_chain_def)
qed

definition sample_versions :: "fact_version list" where
  "sample_versions =
     [\<lparr>fv_rowid = 1, fv_key = ''u:city'', fv_mid = ''m1'', fv_entity = ''e'', fv_subject = None,
       fv_predicate = None, fv_object = Some ''Oslo'', fv_status = ''stale'', fv_ts = 10,
       fv_superseded_by = Some ''m2'', fv_supersedes = None, fv_valid_from = Some 10,
       fv_valid_to = Some 30, fv_recorded = 40\<rparr>,
      \<lparr>fv_rowid = 2, fv_key = ''u:city'', fv_mid = ''m2'', fv_entity = ''e'', fv_subject = None,
       fv_predicate = None, fv_object = Some ''Rome'', fv_status = ''current'', fv_ts = 30,
       fv_superseded_by = None, fv_supersedes = Some ''m1'', fv_valid_from = Some 30,
       fv_valid_to = None, fv_recorded = 40\<rparr>]"

lemma chain_sample: "chain sample_versions ''u:city'' ''e'' = sample_versions"
  by (simp add: chain_def sample_versions_def in_chain_def fv_pos_def less_eq_prod_def)

lemma sample_versions_ok: "fv_ok sample_versions"
proof -
  have "fv_wf sample_versions"
    by (simp add: fv_wf_def sample_versions_def fv_pk_def in_i64_def)
  moreover have "linked sample_versions ''u:city'' ''e''"
    by (simp add: linked_def chain_sample) (simp add: sample_versions_def link_def)
  moreover have "\<forall>v \<in> set sample_versions. fv_key v = ''u:city'' \<and> fv_entity v = ''e''"
    by (simp add: sample_versions_def)
  ultimately show ?thesis by (simp add: fv_ok_def)
qed

lemma current_value_is_newest_witness:
  "get_current_fact_value sample_versions ''e'' ''u:city'' = Some ''Rome''"
  using current_value_is_newest [OF sample_versions_ok, of "''e''" "''u:city''"]
  unfolding chain_sample by (simp add: sample_versions_def)

lemma valid_version_is_covering_witness:
  "valid_at 20 (hd sample_versions) \<and> \<not> valid_at 30 (hd sample_versions)"
proof -
  have mem: "hd sample_versions \<in> set sample_versions"
    and key: "fv_key (hd sample_versions) = ''u:city''" "fv_entity (hd sample_versions) = ''e''"
    by (simp_all add: sample_versions_def)
  show ?thesis
    unfolding valid_version_is_covering [OF sample_versions_ok mem] Let_def key chain_sample
    by (simp add: sample_versions_def)
qed


end
