(* ===== verification/Ingest_Laws.thy ===== *)
theory Ingest_Laws
  imports Ingest Fact_Registry
begin

section \<open>What the ingest transaction keeps\<close>

text \<open>
  The laws of the operations of \<open>Ingest\<close>: each table is a keyed store, the memories and their
  vectors are one keyed store together, and the facts of a transaction are registered as the
  histories of \<open>Fact_Registry\<close>.
\<close>

subsection \<open>Memories and their vectors\<close>

text \<open>
  Identifiers and rowids are unique, rowids are bounded by the AUTOINCREMENT counter, and a
  vector belongs to the memory whose rowid is its id.
\<close>

definition memories_ok :: "store \<Rightarrow> bool" where
  "memories_ok db \<longleftrightarrow>
     distinct (map m_memory_id (memories db)) \<and> distinct (map m_rowid (memories db))
     \<and> (\<forall>m \<in> set (memories db). m_rowid m \<le> memories_seq db)
     \<and> distinct (map v_vector_id (vector_lookup db))
     \<and> (\<forall>v \<in> set (vector_lookup db).
          \<exists>m \<in> set (memories db). m_rowid m = v_vector_id v \<and> m_memory_id m = v_memory_id v)"

definition memory_view :: "store \<Rightarrow> str \<Rightarrow> (memory_row \<times> str option) option" where
  "memory_view db mid =
     map_option (\<lambda>m. (m\<lparr>m_rowid := 0\<rparr>, map_option v_embedding (row_of v_vector_id (vector_lookup db) (m_rowid m))))
       (row_of m_memory_id (memories db) mid)"

definition observation_view :: "int \<Rightarrow> u64 \<times> str \<times> AgentObservation \<Rightarrow> memory_row \<times> str option" where
  "observation_view recorded =
     (\<lambda>(ts, mid, obs). (observation_row 0 recorded ts mid obs,
        if o_embedding obs = [] then None else Some (vec_f32_to_bytes (o_embedding obs))))"

definition observation_key :: "u64 \<times> str \<times> AgentObservation \<Rightarrow> str" where
  "observation_key = (\<lambda>(_, mid, _). mid)"

text \<open>The memories and vectors after one observation, with the rowid it got.\<close>

definition observation_update :: "int \<Rightarrow> u64 \<Rightarrow> AgentObservation \<Rightarrow> memory_row \<Rightarrow> memory_row" where
  "observation_update recorded ts obs m = observation_row (m_rowid m) recorded ts (m_memory_id m) obs"

lemma insert_observation_cases:
  obtains (update) m where "row_of m_memory_id (memories db) mid = Some m"
      "insert_observation recorded db (ts, mid, obs) =
         (db\<lparr>memories := sql_update (\<lambda>x. m_rowid x = m_rowid m) (observation_update recorded ts obs) (memories db),
             memories_seq := memories_seq db,
             vector_lookup := (if o_embedding obs = []
               then sql_delete (\<lambda>v. v_vector_id v = m_rowid m) (vector_lookup db)
               else sql_replace v_vector_id (vector_of (m_rowid m) ts mid obs) (vector_lookup db))\<rparr>, m_rowid m)"
  | (insert) "row_of m_memory_id (memories db) mid = None"
      "insert_observation recorded db (ts, mid, obs) =
         (db\<lparr>memories := memories db @ [observation_row (memories_seq db + 1) recorded ts mid obs],
             memories_seq := memories_seq db + 1,
             vector_lookup := (if o_embedding obs = []
               then sql_delete (\<lambda>v. v_vector_id v = memories_seq db + 1) (vector_lookup db)
               else sql_replace v_vector_id (vector_of (memories_seq db + 1) ts mid obs) (vector_lookup db))\<rparr>,
          memories_seq db + 1)"
proof (cases "filter (\<lambda>m. m_memory_id m = mid) (memories db)")
  case Nil
  then have "row_of m_memory_id (memories db) mid = None"
    by (auto simp: row_of_None filter_empty_conv)
  with Nil insert show ?thesis by (simp add: insert_observation_def)
next
  case (Cons m ms)
  have "find p xs = (case filter p xs of [] \<Rightarrow> None | y # _ \<Rightarrow> Some y)" for p and xs :: "memory_row list"
    by (induction xs) auto
  with Cons have f: "row_of m_memory_id (memories db) mid = Some m"
    by (simp add: row_of_def)
  have "observation_update recorded ts obs = (\<lambda>x. x\<lparr>m_entity_id := o_entity_id obs,
      m_content := o_textual_content obs, m_kind := kind_as_str (o_kind obs),
      m_content_hash := o_content_hash obs, m_created_at_ms := as_i64 ts, m_recorded_at_ms := recorded,
      m_expires_at_ms := map_option as_i64 (o_expires_at_ms obs), m_session_id := o_session_id obs,
      m_turn_index := o_turn_index obs, m_role := o_role obs,
      m_parent_memory_id := o_parent_memory_id obs, m_indexed := 0\<rparr>)"
    by (rule ext) (simp add: observation_update_def observation_row_def)
  with Cons f update show ?thesis by (simp add: insert_observation_def)
qed

lemma observation_row_sel [simp]:
  "m_rowid (observation_row i recorded ts mid obs) = i"
  "m_memory_id (observation_row i recorded ts mid obs) = mid"
  "(observation_row i recorded ts mid obs)\<lparr>m_rowid := j\<rparr> = observation_row j recorded ts mid obs"
  by (simp_all add: observation_row_def)

lemma observation_update_sel [simp]:
  "m_rowid (observation_update recorded ts obs m) = m_rowid m"
  "m_memory_id (observation_update recorded ts obs m) = m_memory_id m"
  by (simp_all add: observation_update_def)

lemma vector_of_sel [simp]:
  "v_vector_id (vector_of i ts mid obs) = i" "v_memory_id (vector_of i ts mid obs) = mid"
  "v_embedding (vector_of i ts mid obs) = vec_f32_to_bytes (o_embedding obs)"
  by (simp_all add: vector_of_def)

lemma memories_okD:
  assumes "memories_ok db"
  shows "distinct (map m_memory_id (memories db))" "distinct (map m_rowid (memories db))"
    "m \<in> set (memories db) \<Longrightarrow> m_rowid m \<le> memories_seq db"
    "distinct (map v_vector_id (vector_lookup db))"
    "v \<in> set (vector_lookup db) \<Longrightarrow>
       \<exists>m \<in> set (memories db). m_rowid m = v_vector_id v \<and> m_memory_id m = v_memory_id v"
  using assms by (auto simp: memories_ok_def)

lemma memories_ok_insert:
  assumes ok: "memories_ok db"
  shows "memories_ok (fst (insert_observation recorded db (ts, mid, obs)))"
proof (cases rule: insert_observation_cases [of db mid recorded ts obs])
  case (update m)
  have m: "m \<in> set (memories db)" "m_memory_id m = mid"
    using row_of_Some [OF update(1)] by simp_all
  let ?ms = "sql_update (\<lambda>x. m_rowid x = m_rowid m) (observation_update recorded ts obs) (memories db)"
  have keep: "map m_memory_id ?ms = map m_memory_id (memories db)" "map m_rowid ?ms = map m_rowid (memories db)"
    by (simp_all add: map_sql_update)
  have pairs: "map (\<lambda>x. (m_rowid x, m_memory_id x)) ?ms = map (\<lambda>x. (m_rowid x, m_memory_id x)) (memories db)"
    by (simp add: map_sql_update)
  have "(\<exists>x \<in> set xs. m_rowid x = i \<and> m_memory_id x = j)
      \<longleftrightarrow> (i, j) \<in> set (map (\<lambda>x. (m_rowid x, m_memory_id x)) xs)" for xs :: "memory_row list" and i j
    by auto
  then have ex: "(\<exists>x \<in> set ?ms. m_rowid x = i \<and> m_memory_id x = j)
      \<longleftrightarrow> (\<exists>x \<in> set (memories db). m_rowid x = i \<and> m_memory_id x = j)" for i j
    by (simp only: pairs)
  show ?thesis
    unfolding memories_ok_def update(2)
    using memories_okD [OF ok] m keep ex
    by (auto simp: set_sql_update set_sql_delete set_sql_replace distinct_sql_delete distinct_sql_replace)
next
  case insert
  have new: "mid \<notin> m_memory_id ` set (memories db)"
    using insert(1) by (simp add: row_of_None)
  have "memories_seq db + 1 \<notin> m_rowid ` set (memories db)"
    using memories_okD(3) [OF ok] by force
  with new show ?thesis
    unfolding memories_ok_def insert(2)
    using memories_okD [OF ok]
    by (auto simp: set_sql_delete set_sql_replace distinct_sql_delete distinct_sql_replace
      intro: order_trans [of _ "memories_seq db"])
qed

lemma memory_view_insert:
  assumes ok: "memories_ok db"
  shows "memory_view (fst (insert_observation recorded db (ts, mid, obs)))
       = (memory_view db)(mid \<mapsto> observation_view recorded (ts, mid, obs))"
proof (rule ext)
  fix k
  let ?r = "row_of v_vector_id"
  have vec: "?r (if o_embedding obs = [] then sql_delete (\<lambda>v. v_vector_id v = i) (vector_lookup db)
        else sql_replace v_vector_id (vector_of i ts mid obs) (vector_lookup db)) j
      = (if j = i then (if o_embedding obs = [] then None else Some (vector_of i ts mid obs))
         else ?r (vector_lookup db) j)" for i j
    by (simp add: row_of_delete row_of_replace)
  show "memory_view (fst (insert_observation recorded db (ts, mid, obs))) k
      = ((memory_view db)(mid \<mapsto> observation_view recorded (ts, mid, obs))) k"
  proof (cases rule: insert_observation_cases [of db mid recorded ts obs])
    case (update m)
    have m: "m \<in> set (memories db)" "m_memory_id m = mid"
      using row_of_Some [OF update(1)] by simp_all
    have "m_rowid x \<noteq> m_rowid m" if "row_of m_memory_id (memories db) k = Some x" "k \<noteq> mid" for x
    proof -
      from row_of_Some [OF that(1)] have "x \<in> set (memories db)" "m_memory_id x = k" by simp_all
      with m that(2) memories_okD(2) [OF ok] show ?thesis
        by (metis distinct_map inj_onD)
    qed
    then have other: "k \<noteq> mid \<Longrightarrow> row_of m_memory_id (memories db) k = Some x \<Longrightarrow> m_rowid x \<noteq> m_rowid m" for x
      by blast
    show ?thesis
    proof (cases "k = mid")
      case True
      with m update(1) show ?thesis
        unfolding memory_view_def update(2)
        by (simp add: row_of_update vec observation_view_def observation_update_def)
    next
      case False
      with other m show ?thesis
        unfolding memory_view_def update(2)
        by (cases "row_of m_memory_id (memories db) k") (simp_all add: row_of_update vec)
    qed
  next
    case insert
    have "m_rowid x \<noteq> memories_seq db + 1" if "row_of m_memory_id (memories db) k = Some x" for x
      using row_of_Some [OF that] memories_okD(3) [OF ok, of x] by auto
    with insert(1) show ?thesis
      unfolding memory_view_def insert(2)
      by (auto simp: row_of_append vec observation_view_def row_of_def [of _ "[_]"] split: option.splits)
  qed
qed

interpretation observations: keyed_store memories_ok memory_view
  "\<lambda>x db. fst (insert_observation recorded db x)" observation_key "observation_view recorded"
  for recorded
proof unfold_locales
  fix db and x :: "u64 \<times> str \<times> AgentObservation"
  assume ok: "memories_ok db"
  obtain ts mid obs where x: "x = (ts, mid, obs)" by (cases x)
  show "memories_ok (fst (insert_observation recorded db x))"
    unfolding x by (rule memories_ok_insert [OF ok])
  show "memory_view (fst (insert_observation recorded db x))
      = (memory_view db)(observation_key x \<mapsto> observation_view recorded x)"
    unfolding x by (simp add: memory_view_insert [OF ok] observation_key_def)
qed

lemma insert_observations_foldl:
  "fst (insert_observations_tx recorded db xs) = foldl (\<lambda>db x. fst (insert_observation recorded db x)) db xs"
  by (induction xs arbitrary: db) (simp_all add: split_beta Let_def)

subsection \<open>The other tables\<close>

interpretation cards: keyed_store "\<lambda>t. distinct (map c_card_id t)" "row_of c_card_id"
  "sql_replace c_card_id" c_card_id "\<lambda>c. c"
  by (rule keyed_store_replace)

interpretation documents: keyed_store "\<lambda>t. distinct (map f_rowid t)" "row_of f_rowid"
  "sql_replace f_rowid" f_rowid "\<lambda>f. f"
  by (rule keyed_store_replace)

interpretation consolidations: keyed_store "\<lambda>t. distinct (map q_memory_id t)" "row_of q_memory_id"
  "sql_replace q_memory_id" q_memory_id "\<lambda>q. q"
  by (rule keyed_store_replace)

text \<open>Frames: what the steps of the transaction leave alone.\<close>

lemma persist_router_frame:
  "memories (foldl (\<lambda>d key. persist_router tj now d (f key)) db keys) = memories db
   \<and> memories_seq (foldl (\<lambda>d key. persist_router tj now d (f key)) db keys) = memories_seq db
   \<and> vector_lookup (foldl (\<lambda>d key. persist_router tj now d (f key)) db keys) = vector_lookup db
   \<and> facts (foldl (\<lambda>d key. persist_router tj now d (f key)) db keys) = facts db
   \<and> metrics (foldl (\<lambda>d key. persist_router tj now d (f key)) db keys) = metrics db
   \<and> predicate_canon (foldl (\<lambda>d key. persist_router tj now d (f key)) db keys) = predicate_canon db"
  by (induction keys arbitrary: db) (simp_all add: persist_router_def)

lemma insert_observations_frame:
  "facts (fst (insert_observations_tx recorded db xs)) = facts db
   \<and> metrics (fst (insert_observations_tx recorded db xs)) = metrics db
   \<and> predicate_canon (fst (insert_observations_tx recorded db xs)) = predicate_canon db"
proof (induction xs arbitrary: db)
  case (Cons x xs)
  have "facts (fst (insert_observation recorded db x)) = facts db
      \<and> metrics (fst (insert_observation recorded db x)) = metrics db
      \<and> predicate_canon (fst (insert_observation recorded db x)) = predicate_canon db"
    by (cases x) (simp add: insert_observation_def split: list.splits)
  with Cons show ?case by (simp add: split_beta Let_def)
qed simp

lemmas same_memories_defs =
  insert_cards_tx_def insert_preferences_tx_def insert_memory_links_tx_def
  insert_consolidation_tasks_tx_def insert_graph_entries_tx_def insert_card_edges_tx_def
  update_card_latest_tx_def merge_router_records_tx_def

text \<open>Neighbour updates change embeddings and the \<open>indexed\<close> flag only.\<close>

definition unindexed :: "memory_row \<Rightarrow> memory_row" where
  "unindexed m = m\<lparr>m_rowid := 0, m_indexed := 0\<rparr>"

lemma neighbours_keep:
  "memories_ok db \<Longrightarrow> memories_ok (fst (update_neighbour_embeddings_tx db us))
     \<and> map unindexed (memories (fst (update_neighbour_embeddings_tx db us))) = map unindexed (memories db)
     \<and> map m_memory_id (memories (fst (update_neighbour_embeddings_tx db us))) = map m_memory_id (memories db)
     \<and> facts (fst (update_neighbour_embeddings_tx db us)) = facts db
     \<and> predicate_canon (fst (update_neighbour_embeddings_tx db us)) = predicate_canon db"
proof (induction db us rule: update_neighbour_embeddings_tx.induct)
  case (2 db mid emb us)
  show ?case
  proof (cases "filter (\<lambda>v. v_memory_id v = mid) (vector_lookup db)")
    case Nil
    with 2 show ?thesis by simp
  next
    case (Cons v vs)
    let ?ms = "sql_update (\<lambda>m. m_memory_id m = mid) (\<lambda>m. m\<lparr>m_indexed := 0\<rparr>) (memories db)"
    let ?vs = "sql_update (\<lambda>x. v_vector_id x = v_vector_id v) (\<lambda>x. x\<lparr>v_embedding := vec_f32_to_bytes emb\<rparr>)
      (vector_lookup db)"
    let ?db = "db\<lparr>memories := ?ms, vector_lookup := ?vs\<rparr>"
    have ms: "map m_memory_id ?ms = map m_memory_id (memories db)" "map m_rowid ?ms = map m_rowid (memories db)"
      "map (\<lambda>x. (m_rowid x, m_memory_id x)) ?ms = map (\<lambda>x. (m_rowid x, m_memory_id x)) (memories db)"
      "map unindexed ?ms = map unindexed (memories db)"
      "map v_vector_id ?vs = map v_vector_id (vector_lookup db)"
      "map (\<lambda>v. (v_vector_id v, v_memory_id v)) ?vs = map (\<lambda>v. (v_vector_id v, v_memory_id v)) (vector_lookup db)"
      by (simp_all add: map_sql_update unindexed_def)
    have inv: "memories_ok d \<longleftrightarrow> distinct (map m_memory_id (memories d)) \<and> distinct (map m_rowid (memories d))
        \<and> (\<forall>i \<in> set (map m_rowid (memories d)). i \<le> memories_seq d)
        \<and> distinct (map v_vector_id (vector_lookup d))
        \<and> set (map (\<lambda>v. (v_vector_id v, v_memory_id v)) (vector_lookup d))
            \<subseteq> set (map (\<lambda>x. (m_rowid x, m_memory_id x)) (memories d))" for d
      by (force simp: memories_ok_def)
    have "memories_ok ?db"
      using 2(3) unfolding inv [of ?db] inv [of db] by (simp add: ms del: set_map)
    from "2.IH"(2) [OF Cons refl this] Cons ms show ?thesis
      by (simp add: split_beta Let_def)
  qed
qed simp

subsection \<open>Facts of a transaction\<close>

definition fact_id :: "u64 \<Rightarrow> IngestFactRegistration \<Rightarrow> (str \<times> str) \<times> str \<times> int \<times> int" where
  "fact_id now f = ((if_fact_key f, if_memory_id f), if_entity_id f, as_i64 (if_timestamp f), as_i64 now)"

text \<open>
  A key and a memory id name one entity and one event time, in the table and in the
  transaction, and nothing stored was recorded later than now.
\<close>

definition agrees :: "IngestFactRegistration \<Rightarrow> (str \<times> str) \<times> str \<times> int \<times> int \<Rightarrow> bool" where
  "agrees f x \<longleftrightarrow> (fst x = (if_fact_key f, if_memory_id f) \<longrightarrow>
     fst (snd x) = if_entity_id f \<and> fst (snd (snd x)) = as_i64 (if_timestamp f))"

definition facts_consistent :: "u64 \<Rightarrow> fact_version list \<Rightarrow> IngestFactRegistration list \<Rightarrow> bool" where
  "facts_consistent now t fs \<longleftrightarrow>
     (\<forall>x \<in> row_id ` set t \<union> fact_id now ` set fs. \<forall>f \<in> set fs. agrees f x)
     \<and> (\<forall>v \<in> set t. fv_recorded v \<le> as_i64 now)"

lemma facts_consistent_batch:
  assumes "facts_consistent now t fs"
  shows "consistent_batch e now (map fact_input (filter (\<lambda>f. if_entity_id f = e) fs)) t"
proof -
  have all: "fst (snd x) = if_entity_id f \<and> fst (snd (snd x)) = as_i64 (if_timestamp f)"
    if "x \<in> row_id ` set t \<union> fact_id now ` set fs" "f \<in> set fs" "fst x = (if_fact_key f, if_memory_id f)" for x f
  proof -
    have "agrees f x" using assms that(1,2) unfolding facts_consistent_def by blast
    with that(3) show ?thesis by (simp add: agrees_def)
  qed
  have cons: "consistent e t (fact_input f)" if "f \<in> set fs" "if_entity_id f = e" for f
    unfolding consistent_row_id using all [OF _ that(1)] that(2) by (auto simp: fact_input_def)
  have same: "if_timestamp f = if_timestamp g"
    if "f \<in> set fs" "g \<in> set fs" "if_fact_key f = if_fact_key g" "if_memory_id f = if_memory_id g" for f g
  proof -
    have mem: "fact_id now f \<in> row_id ` set t \<union> fact_id now ` set fs" using that(1) by blast
    have "fst (fact_id now f) = (if_fact_key g, if_memory_id g)" using that by (simp add: fact_id_def)
    from all [OF mem that(2) this] show ?thesis by (simp add: fact_id_def)
  qed
  let ?rs = "map fact_input (filter (\<lambda>f. if_entity_id f = e) fs)"
  show ?thesis
    unfolding consistent_batch_def
  proof (intro conjI ballI impI)
    show "consistent e t r" if "r \<in> set ?rs" for r
      using that cons by auto
    show "rg_ts r = rg_ts r'"
      if r: "r \<in> set ?rs" "r' \<in> set ?rs" and k: "rg_key r = rg_key r' \<and> rg_mid r = rg_mid r'" for r r'
    proof -
      obtain f g where "f \<in> set fs" "g \<in> set fs" "r = fact_input f" "r' = fact_input g"
        using r by auto
      with same [of f g] k show ?thesis by (simp add: fact_input_def)
    qed
    show "fv_recorded v \<le> as_i64 now" if "v \<in> set t" for v
      using assms that by (simp add: facts_consistent_def)
  qed
qed

lemma facts_consistent_mono:
  assumes c: "facts_consistent now t fs" and ids: "row_id ` set t' \<subseteq> row_id ` set t \<union> fact_id now ` set fs"
  shows "facts_consistent now t' fs"
proof -
  have "fv_recorded v \<le> as_i64 now" if "v \<in> set t'" for v
  proof -
    have "row_id v \<in> row_id ` set t \<union> fact_id now ` set fs" using ids that by blast
    then show ?thesis using c by (auto simp: row_id_def fact_id_def facts_consistent_def)
  qed
  moreover have "row_id ` set t' \<union> fact_id now ` set fs \<subseteq> row_id ` set t \<union> fact_id now ` set fs"
    using ids by blast
  moreover have "\<forall>x \<in> row_id ` set t \<union> fact_id now ` set fs. \<forall>f \<in> set fs. agrees f x"
    using c unfolding facts_consistent_def by (rule conjunct1)
  ultimately show ?thesis unfolding facts_consistent_def by blast
qed

lemma reg_id_group:
  "reg_id e now ` set (map fact_input (filter (\<lambda>f. if_entity_id f = e) fs)) \<subseteq> fact_id now ` set fs"
  by (force simp: reg_id_def fact_input_def fact_id_def)

definition batch_histories :: "IngestFactRegistration list \<Rightarrow> fact_version list \<Rightarrow> str \<Rightarrow> str \<Rightarrow> hist" where
  "batch_histories fs t e k =
     fst (hist_batch (map fact_input (filter (\<lambda>f. if_entity_id f = e) fs)) (\<lambda>k. history t k e)) k"

lemma register_groups_refine:
  "fv_ok (versions db) \<Longrightarrow> facts_consistent now (versions db) fs \<Longrightarrow> distinct es \<Longrightarrow>
     \<exists>db' latest entries. register_groups now fs es db = Inr (db', latest, entries)
       \<and> fv_ok (versions db')
       \<and> (\<forall>e k. history (versions db') k e
            = (if e \<in> set es then batch_histories fs (versions db) e k else history (versions db) k e))"
proof (induction es arbitrary: db)
  case (Cons e es)
  let ?g = "filter (\<lambda>f. if_entity_id f = e) fs"
  obtain db1 sts where reg: "register_fact_versions_tx e (map fact_input ?g) now db = Inr (db1, sts)"
    and ok: "fv_ok (versions db1)"
    and h: "\<forall>k. history (versions db1) k e = batch_histories fs (versions db) e k"
    and o: "\<forall>k e'. e' = e \<or> history (versions db1) k e' = history (versions db) k e'"
    and ids: "row_id ` set (versions db1)
        \<subseteq> row_id ` set (versions db) \<union> reg_id e now ` set (map fact_input ?g)"
    using register_batch [OF Cons.prems(1) facts_consistent_batch [OF Cons.prems(2)], of e]
    unfolding batch_histories_def by blast
  have "facts_consistent now (versions db1) fs"
    using ids reg_id_group [of e now fs] by (intro facts_consistent_mono [OF Cons.prems(2)]) blast
  from Cons.IH [OF ok this] Cons.prems(3) obtain db' latest entries where
    rest: "register_groups now fs es db1 = Inr (db', latest, entries)" "fv_ok (versions db')"
    and h': "\<forall>e k. history (versions db') k e
      = (if e \<in> set es then batch_histories fs (versions db1) e k else history (versions db1) k e)"
    by auto
  have eq: "batch_histories fs (versions db1) e' k = batch_histories fs (versions db) e' k"
    if "e' \<in> set es" for e' k
  proof -
    have "(\<lambda>k. history (versions db1) k e') = (\<lambda>k. history (versions db) k e')"
      using o that Cons.prems(3) by (metis distinct.simps(2))
    then show ?thesis by (simp only: batch_histories_def)
  qed
  have "history (versions db') k e'
      = (if e' \<in> set (e # es) then batch_histories fs (versions db) e' k else history (versions db) k e')" for k e'
    using h' h o eq [of e' k] Cons.prems(3) by (cases "e' = e"; cases "e' \<in> set es") auto
  with reg rest show ?case by (simp add: Let_def)
qed simp

lemma batch_histories_absent:
  "e \<notin> if_entity_id ` set fs \<Longrightarrow> batch_histories fs t e k = history t k e"
proof -
  assume "e \<notin> if_entity_id ` set fs"
  then have "filter (\<lambda>f. if_entity_id f = e) fs = []" by (auto simp: filter_empty_conv)
  then show ?thesis by (simp add: batch_histories_def)
qed

lemma register_facts_refine:
  assumes "fv_ok (versions (facts db))" and "facts_consistent now (versions (facts db)) fs"
    and "mset (hash_order (remdups (map if_entity_id fs))) = mset (remdups (map if_entity_id fs))"
  shows "\<exists>db' latest. register_facts_tx hash_order now db fs = Inr (db', latest)
     \<and> fv_ok (versions (facts db'))
     \<and> (\<forall>e k. history (versions (facts db')) k e = batch_histories fs (versions (facts db)) e k)
     \<and> memories db' = memories db \<and> memories_seq db' = memories_seq db \<and> vector_lookup db' = vector_lookup db"
proof (cases "fs = []")
  case True
  with assms(1) show ?thesis by (simp add: register_facts_tx_def batch_histories_absent)
next
  case False
  let ?es = "hash_order (remdups (map if_entity_id fs))"
  have es: "distinct ?es" "set ?es = if_entity_id ` set fs"
    using mset_eq_imp_distinct_iff [OF assms(3)] mset_eq_setD [OF assms(3)] by simp_all
  obtain fdb latest entries where
    "register_groups now fs ?es (facts db) = Inr (fdb, latest, entries)" "fv_ok (versions fdb)"
    "\<forall>e k. history (versions fdb) k e = (if e \<in> set ?es then batch_histories fs (versions (facts db)) e k
       else history (versions (facts db)) k e)"
    using register_groups_refine [OF assms(1,2) es(1)] by blast
  with False es(2) show ?thesis
    by (simp add: register_facts_tx_def insert_graph_entries_tx_def batch_histories_absent)
qed

subsection \<open>Metrics\<close>

lemma insert_metrics_loop_ok:
  "(\<forall>x \<in> set t. x_memory_id x \<in> im_memory_id ` set ms \<longrightarrow> x_ordinal x < ords (x_memory_id x)) \<Longrightarrow>
     \<exists>t'. insert_metrics_loop t ords ms = Inr t'"
proof (induction t ords ms rule: insert_metrics_loop.induct)
  case (2 t ords m ms)
  let ?row = "\<lparr>x_memory_id = im_memory_id m, x_ordinal = ords (im_memory_id m), x_entity_id = im_entity_id m,
    x_timestamp_ms = as_i64 (im_timestamp m), x_label = im_label m, x_value = im_value m,
    x_unit = im_unit m, x_source_text = im_source_text m\<rparr>"
  have free: "\<not> (\<exists>x \<in> set t. metric_pk x = metric_pk ?row)"
    using "2.prems" by (auto simp: metric_pk_def)
  have "\<forall>x \<in> set (t @ [?row]). x_memory_id x \<in> im_memory_id ` set ms \<longrightarrow>
      x_ordinal x < (ords(im_memory_id m := ords (im_memory_id m) + 1)) (x_memory_id x)"
    using "2.prems" by auto
  from "2.IH" [OF refl free this] free show ?case
    by (simp only: insert_metrics_loop.simps Let_def if_False)
qed simp

lemma delete_all: "foldl (\<lambda>t mid. sql_delete (\<lambda>x. k x = mid) t) t mids = filter (\<lambda>x. k x \<notin> set mids) t"
  by (induction mids arbitrary: t) (auto simp: sql_delete_def intro: filter_cong)

lemma insert_metrics_ok:
  "im_memory_id ` set ms \<subseteq> set mids \<Longrightarrow> \<exists>t. insert_metrics_tx db mids ms = Inr (db\<lparr>metrics := t\<rparr>)"
proof -
  let ?t = "filter (\<lambda>x. x_memory_id x \<notin> set mids) (metrics db)"
  assume "im_memory_id ` set ms \<subseteq> set mids"
  then have "\<forall>x \<in> set ?t. x_memory_id x \<in> im_memory_id ` set ms \<longrightarrow> x_ordinal x < 0" by auto
  from insert_metrics_loop_ok [where ords = "\<lambda>_. 0", OF this] obtain t where
    "insert_metrics_loop ?t (\<lambda>_. 0) ms = Inr t" by blast
  then show ?thesis by (auto simp: insert_metrics_tx_def delete_all)
qed

subsection \<open>The transaction as a whole\<close>

definition committed_facts ::
  "(u32 list \<Rightarrow> u32 list \<Rightarrow> 'f::linorder option) \<Rightarrow> store \<Rightarrow> 'f IngestBatches \<Rightarrow> IngestFactRegistration list" where
  "committed_facts sim db b =
     map (canonical_fact (map_of (rev (snd (canonicalize_batches sim (b_predicate_canon_tau b)
       (predicate_canon db) (b_predicate_canon_batch b)))))) (b_fact_batch b)"

lemma row_of_map: "(\<And>r. k (g r) = k r) \<Longrightarrow> row_of k (map g t) x = map_option g (row_of k t x)"
  by (induction t) (auto simp: row_of_def)

lemma unindexed_sel [simp]: "m_memory_id (unindexed m) = m_memory_id m"
  by (simp add: unindexed_def)

lemma unindexed_view:
  "map_option unindexed (row_of m_memory_id (memories db) mid) = map_option (\<lambda>v. unindexed (fst v)) (memory_view db mid)"
  by (cases "row_of m_memory_id (memories db) mid") (simp_all add: memory_view_def unindexed_def)

lemma unindexed_observation: "unindexed (fst (observation_view recorded x)) = fst (observation_view recorded x)"
  by (cases x) (simp add: observation_view_def unindexed_def observation_row_def)

lemma memories_ok_cong:
  "memories d = memories db \<Longrightarrow> memories_seq d = memories_seq db \<Longrightarrow> vector_lookup d = vector_lookup db
     \<Longrightarrow> memories_ok d \<longleftrightarrow> memories_ok db"
  by (simp add: memories_ok_def)

lemma commit_ingest_unfold:
  fixes b :: "'f::linorder IngestBatches"
  assumes ok: "memories_ok db"
    and metrics: "im_memory_id ` set (b_metric_batch b) \<subseteq> set (b_metric_memory_ids b)"
  obtains db9 where "memories_ok db9" "facts db9 = facts db"
    "map unindexed (memories db9)
       = map unindexed (memories (fst (insert_observations_tx (as_i64 now) db (b_observations b))))"
    "\<And>db10 latest. register_facts_tx hash_order now db9 (committed_facts sim db b) = Inr (db10, latest) \<Longrightarrow>
       \<exists>out. commit_ingest tj fj hash_order sim now db b
         = Inr (insert_card_edges_tx (update_card_latest_tx db10 (b_memory_card_latest_updates b @ latest))
                  (b_memory_card_batch b) (committed_facts sim db b), out)"
proof -
  let ?db1 = "fst (insert_observations_tx (as_i64 now) db (b_observations b))"
  let ?db5 = "insert_memory_links_tx (insert_preferences_tx (fst (merge_router_records_tx tj fj now
      (insert_cards_tx ?db1 (b_memory_card_batch b)) (b_session_router_updates b))) (b_preference_batch b))
      (b_memory_links_batch b)"
  have ok1: "memories_ok ?db1"
    unfolding insert_observations_foldl by (rule observations.inv_batch [OF ok])
  have same: "memories ?db5 = memories ?db1" "memories_seq ?db5 = memories_seq ?db1"
    "vector_lookup ?db5 = vector_lookup ?db1" "facts ?db5 = facts db" "predicate_canon ?db5 = predicate_canon db"
    using insert_observations_frame [of "as_i64 now" db "b_observations b"]
    by (simp_all add: same_memories_defs persist_router_frame Let_def)
  obtain t where mt: "insert_metrics_tx ?db5 (b_metric_memory_ids b) (b_metric_batch b) = Inr (?db5\<lparr>metrics := t\<rparr>)"
    using insert_metrics_ok [OF metrics] by blast
  let ?db7 = "insert_consolidation_tasks_tx (?db5\<lparr>metrics := t\<rparr>) (b_consolidation_tasks b)"
  have same7: "memories ?db7 = memories ?db5" "memories_seq ?db7 = memories_seq ?db5"
    "vector_lookup ?db7 = vector_lookup ?db5" "facts ?db7 = facts ?db5" "predicate_canon ?db7 = predicate_canon ?db5"
    by (simp_all add: insert_consolidation_tasks_tx_def)
  have ok7: "memories_ok ?db7"
    using ok1 memories_ok_cong [of ?db7 ?db1] same7 same by metis
  let ?n = "update_neighbour_embeddings_tx ?db7 (b_neighbour_embedding_updates b)"
  let ?canon = "canonicalize_batches sim (b_predicate_canon_tau b) (predicate_canon db) (b_predicate_canon_batch b)"
  let ?db9 = "(fst ?n)\<lparr>predicate_canon := fst ?canon\<rparr>"
  note nk = neighbours_keep [OF ok7, of "b_neighbour_embedding_updates b"]
  have pc: "predicate_canon (fst ?n) = predicate_canon db"
    using nk same7(5) same(5) by simp
  show ?thesis
  proof (rule that [of ?db9])
    have "memories_ok (fst ?n)" using nk by (rule conjunct1)
    then show "memories_ok ?db9" by (subst memories_ok_cong [of _ "fst ?n"]) simp_all
    show "facts ?db9 = facts db" using nk same7(4) same(4) by simp
    show "map unindexed (memories ?db9) = map unindexed (memories ?db1)"
      using nk same7(1) same(1) by simp
    show "\<exists>out. commit_ingest tj fj hash_order sim now db b
         = Inr (insert_card_edges_tx (update_card_latest_tx db10 (b_memory_card_latest_updates b @ latest))
                  (b_memory_card_batch b) (committed_facts sim db b), out)"
      if "register_facts_tx hash_order now ?db9 (committed_facts sim db b) = Inr (db10, latest)" for db10 latest
      using that
      by (simp add: commit_ingest_def Let_def split_beta mt pc committed_facts_def)
  qed
qed

subsection \<open>The properties\<close>


definition sample_observation :: "str \<Rightarrow> AgentObservation" where
  "sample_observation txt =
     \<lparr>o_entity_id = ''e'', o_textual_content = txt, o_embedding = [1, 2], o_kind = Fact,
      o_content_hash = [], o_created_at_ms = 10, o_recorded_at_ms = 0, o_expires_at_ms = None,
      o_session_id = ''s'', o_turn_index = 0, o_role = ''user'', o_parent_memory_id = None\<rparr>"

definition sample_fact :: "str \<Rightarrow> u64 \<Rightarrow> str \<Rightarrow> IngestFactRegistration" where
  "sample_fact mid ts obj =
     \<lparr>if_entity_id = ''e'', if_fact_key = ''u:city'', if_timestamp = ts, if_memory_id = mid,
      if_subject = ''u'', if_predicate = ''city'', if_object = obj\<rparr>"

definition sample_batches :: "nat IngestBatches" where
  "sample_batches =
     \<lparr>b_observations = [(10, ''m1'', sample_observation ''first''), (30, ''m1'', sample_observation ''second'')],
      b_fts_batch = [], b_memory_card_batch = [], b_memory_card_latest_updates = [],
      b_session_router_updates = [], b_preference_batch = [], b_memory_links_batch = [],
      b_predicate_canon_batch = [], b_predicate_canon_tau = 0,
      b_fact_batch = [sample_fact ''m1'' 10 ''Oslo'', sample_fact ''m2'' 30 ''Rome''],
      b_metric_batch = [], b_metric_memory_ids = [], b_neighbour_embedding_updates = [],
      b_consolidation_tasks = []\<rparr>"


end
