(* ===== verification/Lookups.thy ===== *)
theory Lookups
  imports Ingest_Laws
begin

section \<open>Reading memories back\<close>

text \<open>
  Models the read operations of \<open>src/storage/repo/memories.rs\<close> and the chunking of
  \<open>src/storage/repo/mod.rs\<close>.  A batch is read by statements with exactly \<open>IN_CHUNK\<close>
  parameters, each chunk padded with its last element; binding another number of parameters is
  an error of the driver.  A \<open>HashMap\<close> is the map that the insertions build; a column read as
  \<open>u64\<close> without a cast is an error when it is negative.
\<close>

datatype read_error = WrongParameterCount | IntegralValueOutOfRange

subsection \<open>Chunks\<close>

definition IN_CHUNK :: nat where
  "IN_CHUNK = 500"

function slice_chunks :: "nat \<Rightarrow> 'a list \<Rightarrow> 'a list list" where
  "slice_chunks n [] = []"
| "slice_chunks n (x # xs) = (x # take (n - 1) xs) # slice_chunks n (drop (n - 1) xs)"
  by pat_completeness auto
termination by (relation "measure (\<lambda>(_, xs). length xs)") auto

definition padded_in_chunk :: "'a list \<Rightarrow> 'a list" where
  "padded_in_chunk c =
     (if c = [] then [] else take IN_CHUNK (c @ replicate (IN_CHUNK - length c) (last c)))"

definition in_query :: "('r \<Rightarrow> 'k) \<Rightarrow> 'r list \<Rightarrow> 'k list \<Rightarrow> read_error + 'r list" where
  "in_query k t params =
     (if length params = IN_CHUNK then Inr (filter (\<lambda>r. k r \<in> set params) t) else Inl WrongParameterCount)"

fun in_batches :: "('a \<Rightarrow> 'e + 'b list) \<Rightarrow> 'a list \<Rightarrow> 'e + 'b list" where
  "in_batches q [] = Inr []"
| "in_batches q (c # cs) = bind_res (q c) (\<lambda>rows. bind_res (in_batches q cs) (\<lambda>rest. Inr (rows @ rest)))"

definition chunked_rows :: "('r \<Rightarrow> 'k) \<Rightarrow> 'r list \<Rightarrow> 'k list \<Rightarrow> read_error + 'r list" where
  "chunked_rows k t ids = in_batches (\<lambda>c. in_query k t (padded_in_chunk c)) (slice_chunks IN_CHUNK ids)"

definition hash_map_of :: "('k \<times> 'v) list \<Rightarrow> 'k \<rightharpoonup> 'v" where
  "hash_map_of kvs = map_of (rev kvs)"

lemma concat_slice_chunks: "concat (slice_chunks n xs) = xs"
  by (induction n xs rule: slice_chunks.induct) simp_all

lemma slice_chunks_sizes:
  "0 < n \<Longrightarrow> c \<in> set (slice_chunks n xs) \<Longrightarrow> 0 < length c \<and> length c \<le> n"
  by (induction n xs rule: slice_chunks.induct) auto

lemma padded_in_chunk:
  assumes "0 < length c" "length c \<le> IN_CHUNK"
  shows "length (padded_in_chunk c) = IN_CHUNK" and "set (padded_in_chunk c) = set c"
  using assms by (auto simp: padded_in_chunk_def last_in_set)

lemma in_batches_ok:
  "\<forall>c \<in> set cs. q c = Inr (g c) \<Longrightarrow> in_batches q cs = Inr (concat (map g cs))"
  by (induction cs) auto

lemma chunked_rows_eq:
  "chunked_rows k t ids = Inr (concat (map (\<lambda>c. filter (\<lambda>r. k r \<in> set c) t) (slice_chunks IN_CHUNK ids)))"
proof -
  have "in_query k t (padded_in_chunk c) = Inr (filter (\<lambda>r. k r \<in> set c) t)"
    if "c \<in> set (slice_chunks IN_CHUNK ids)" for c
    using slice_chunks_sizes [OF _ that] padded_in_chunk [of c] by (simp add: in_query_def IN_CHUNK_def)
  then show ?thesis unfolding chunked_rows_def by (intro in_batches_ok) simp
qed

lemma chunked_rows_ok:
  obtains rows where "chunked_rows k t ids = Inr rows" "set rows = {r \<in> set t. k r \<in> set ids}"
proof
  have "set ids = (\<Union>c \<in> set (slice_chunks IN_CHUNK ids). set c)"
    by (metis concat_slice_chunks set_concat)
  then show "set (concat (map (\<lambda>c. filter (\<lambda>r. k r \<in> set c) t) (slice_chunks IN_CHUNK ids)))
      = {r \<in> set t. k r \<in> set ids}"
    by auto
qed (rule chunked_rows_eq)

lemma hash_map_of_Some: "hash_map_of kvs x = Some v \<Longrightarrow> (x, v) \<in> set kvs"
  unfolding hash_map_of_def by (drule map_of_SomeD) simp

lemma hash_map_of_None: "hash_map_of kvs x = None \<longleftrightarrow> x \<notin> fst ` set kvs"
  unfolding hash_map_of_def by (simp add: map_of_eq_None_iff)

text \<open>Whatever the order and the repetitions, rows with unique keys give their own map.\<close>

lemma hash_map_of_rows:
  assumes "distinct (map k t)" and "set rows = {r \<in> set t. k r \<in> S}"
  shows "hash_map_of (map (\<lambda>r. (k r, f r)) rows) x = (if x \<in> S then map_option f (row_of k t x) else None)"
proof (cases "hash_map_of (map (\<lambda>r. (k r, f r)) rows) x")
  case None
  then have "x \<notin> k ` {r \<in> set t. k r \<in> S}"
    unfolding hash_map_of_None using assms(2) by (simp add: image_image)
  then have "x \<in> S \<Longrightarrow> row_of k t x = None" by (auto simp: row_of_None)
  with None show ?thesis by simp
next
  case (Some v)
  then obtain r where "r \<in> set t" "k r \<in> S" "x = k r" "v = f r"
    using hash_map_of_Some [OF Some] assms(2) by auto
  with Some show ?thesis by (simp add: row_of_unique [OF assms(1)])
qed

subsection \<open>The operations\<close>

definition left_join_vectors :: "store \<Rightarrow> memory_row list \<Rightarrow> (memory_row \<times> vector_row option) list" where
  "left_join_vectors db ms =
     concat (map (\<lambda>m. case filter (\<lambda>v. v_memory_id v = m_memory_id m) (vector_lookup db) of
                        [] \<Rightarrow> [(m, None)] | vs \<Rightarrow> map (\<lambda>v. (m, Some v)) vs) ms)"

definition lookup_by_memory_id :: "store \<Rightarrow> str \<Rightarrow> (u64 \<times> u64 option) option" where
  "lookup_by_memory_id db mid =
     (case left_join_vectors db (filter (\<lambda>m. m_memory_id m = mid) (memories db)) of
        [] \<Rightarrow> None
      | (m, v) # _ \<Rightarrow> Some (as_u64 (m_created_at_ms m), map_option (\<lambda>v. as_u64 (v_vector_id v)) v))"

definition visible_vectors :: "u64 option \<Rightarrow> u64 option \<Rightarrow> store \<Rightarrow> vector_row list" where
  "visible_vectors point_in_time known_as_of db =
     concat (map (\<lambda>v. map (\<lambda>_. v) (filter (\<lambda>m. m_memory_id m = v_memory_id v
           \<and> (case known_as_of of None \<Rightarrow> True | Some x \<Rightarrow> m_recorded_at_ms m \<le> as_i64 x)) (memories db)))
       (filter (\<lambda>v. case point_in_time of None \<Rightarrow> True | Some x \<Rightarrow> v_timestamp_ms v \<le> as_i64 x)
          (vector_lookup db)))"

definition lookup_by_vector_ids_batch_at ::
  "store \<Rightarrow> u64 list \<Rightarrow> u64 option \<Rightarrow> u64 option \<Rightarrow> read_error + (u64 \<times> str) option list" where
  "lookup_by_vector_ids_batch_at db ids point_in_time known_as_of =
     (if ids = [] then Inr []
      else bind_res (chunked_rows v_vector_id (visible_vectors point_in_time known_as_of db) (map as_i64 ids))
        (\<lambda>rows. Inr (map (hash_map_of
           (map (\<lambda>v. (as_u64 (v_vector_id v), (as_u64 (v_timestamp_ms v), v_memory_id v))) rows)) ids)))"

definition lookup_by_vector_ids_batch :: "store \<Rightarrow> u64 list \<Rightarrow> read_error + (u64 \<times> str) option list" where
  "lookup_by_vector_ids_batch db ids = lookup_by_vector_ids_batch_at db ids None None"

definition lookup_by_memory_ids_batch :: "store \<Rightarrow> str list \<Rightarrow> read_error + (str \<rightharpoonup> u64 \<times> u64)" where
  "lookup_by_memory_ids_batch db ids =
     bind_res (chunked_rows m_memory_id (memories db) ids) (\<lambda>ms.
       Inr (hash_map_of (map (\<lambda>(m, v). (m_memory_id m, (as_u64 (m_created_at_ms m),
          coalesce (map_option (\<lambda>v. as_u64 (v_vector_id v)) v) 0))) (left_join_vectors db ms))))"

definition memory_identity_batch :: "store \<Rightarrow> str list \<Rightarrow> read_error + (str \<rightharpoonup> str \<times> u32)" where
  "memory_identity_batch db ids =
     bind_res (chunked_rows m_memory_id (memories db) ids) (\<lambda>ms.
       Inr (hash_map_of (map (\<lambda>m. (m_memory_id m, (m_session_id m, m_turn_index m))) ms)))"

definition stored_observation :: "memory_row \<Rightarrow> AgentObservation" where
  "stored_observation m =
     \<lparr>o_entity_id = m_entity_id m, o_textual_content = m_content m, o_embedding = [],
      o_kind = kind_parse (m_kind m), o_content_hash = [], o_created_at_ms = as_u64 (m_created_at_ms m),
      o_recorded_at_ms = as_u64 (m_recorded_at_ms m),
      o_expires_at_ms = map_option as_u64 (m_expires_at_ms m), o_session_id = m_session_id m,
      o_turn_index = m_turn_index m, o_role = m_role m, o_parent_memory_id = m_parent_memory_id m\<rparr>"

definition get_observation :: "store \<Rightarrow> str \<Rightarrow> read_error + AgentObservation option" where
  "get_observation db mid =
     (case filter (\<lambda>m. m_memory_id m = mid) (memories db) of
        [] \<Rightarrow> Inr None
      | m # _ \<Rightarrow> (if 0 \<le> m_created_at_ms m \<and> 0 \<le> m_recorded_at_ms m
                   then Inr (Some (stored_observation m)) else Inl IntegralValueOutOfRange))"

definition get_observations_batch :: "store \<Rightarrow> (u64 \<times> str) list \<Rightarrow> read_error + (str \<rightharpoonup> AgentObservation)" where
  "get_observations_batch db keys =
     bind_res (chunked_rows m_memory_id (memories db) (map snd keys)) (\<lambda>ms.
       Inr (hash_map_of (map (\<lambda>m. (m_memory_id m, stored_observation m)) ms)))"

definition stored_content_hashes :: "store \<Rightarrow> str list \<Rightarrow> read_error + (str \<rightharpoonup> str)" where
  "stored_content_hashes db ids =
     bind_res (chunked_rows m_memory_id (memories db) ids) (\<lambda>ms.
       Inr (hash_map_of (map (\<lambda>m. (m_memory_id m, m_content_hash m)) ms)))"

definition stored_content_states :: "store \<Rightarrow> str list \<Rightarrow> read_error + (str \<rightharpoonup> str \<times> int)" where
  "stored_content_states db ids =
     bind_res (chunked_rows m_memory_id (memories db) ids) (\<lambda>ms.
       Inr (hash_map_of (map (\<lambda>m. (m_memory_id m, (m_content_hash m, m_indexed m))) ms)))"

definition existing_content_hashes :: "store \<Rightarrow> str list \<Rightarrow> read_error + str set" where
  "existing_content_hashes db hashes =
     bind_res (chunked_rows m_content_hash (memories db) hashes) (\<lambda>ms. Inr (set (map m_content_hash ms)))"

fun update_embeddings ::
  "store \<Rightarrow> (str \<times> u32 list) list \<Rightarrow> store \<times> (u64 \<times> str \<times> u32 list) list" where
  "update_embeddings db [] = (db, [])"
| "update_embeddings db ((mid, emb) # us) =
     (case filter (\<lambda>v. v_memory_id v = mid) (vector_lookup db) of
        [] \<Rightarrow> update_embeddings db us
      | v # _ \<Rightarrow>
          (let (db', applied) = update_embeddings (db\<lparr>vector_lookup :=
                 sql_update (\<lambda>x. v_vector_id x = v_vector_id v)
                   (\<lambda>x. x\<lparr>v_embedding := vec_f32_to_bytes emb\<rparr>) (vector_lookup db)\<rparr>) us
           in (db', (as_u64 (v_vector_id v), v_entity_id v, emb) # applied)))"

subsection \<open>Batches and single reads\<close>

lemma one_vector_per_memory:
  assumes "memories_ok db"
  shows "distinct (map v_memory_id (vector_lookup db))"
proof -
  have ids: "distinct (map m_memory_id (memories db))" and vids: "distinct (map v_vector_id (vector_lookup db))"
    and owner: "\<forall>v \<in> set (vector_lookup db). \<exists>m \<in> set (memories db). m_rowid m = v_vector_id v \<and> m_memory_id m = v_memory_id v"
    using assms by (auto simp: memories_ok_def)
  have "v = w" if v: "v \<in> set (vector_lookup db)" and w: "w \<in> set (vector_lookup db)" and eq: "v_memory_id v = v_memory_id w" for v w
  proof -
    obtain m where m: "m \<in> set (memories db)" "m_rowid m = v_vector_id v" "m_memory_id m = v_memory_id v"
      using owner v by blast
    obtain n where n: "n \<in> set (memories db)" "m_rowid n = v_vector_id w" "m_memory_id n = v_memory_id w"
      using owner w by blast
    have "m = n" using ids m n eq by (auto simp: distinct_map inj_on_def)
    then show ?thesis using m n vids v w by (auto simp: distinct_map inj_on_def)
  qed
  then have "inj_on v_memory_id (set (vector_lookup db))" by (simp add: inj_on_def)
  with vids show ?thesis by (simp add: distinct_map)
qed

lemma filter_unique:
  "distinct (map k t) \<Longrightarrow> filter (\<lambda>r. k r = x) t = (case row_of k t x of None \<Rightarrow> [] | Some r \<Rightarrow> [r])"
proof (induction t)
  case (Cons r t)
  show ?case
  proof (cases "k r = x")
    case True
    with Cons.prems have "row_of k t x = None" by (auto simp: row_of_None)
    with True Cons show ?thesis by (simp add: row_of_def)
  next
    case False
    with Cons show ?thesis by (simp add: row_of_def)
  qed
qed (simp add: row_of_def)

lemma left_join_vectors_eq:
  assumes "memories_ok db"
  shows "left_join_vectors db ms = map (\<lambda>m. (m, row_of v_memory_id (vector_lookup db) (m_memory_id m))) ms"
proof -
  have "(case filter (\<lambda>v. v_memory_id v = m_memory_id m) (vector_lookup db) of
          [] \<Rightarrow> [(m, None)] | vs \<Rightarrow> map (\<lambda>v. (m, Some v)) vs)
        = [(m, row_of v_memory_id (vector_lookup db) (m_memory_id m))]" for m :: memory_row
    unfolding filter_unique [OF one_vector_per_memory [OF assms]]
    by (cases "row_of v_memory_id (vector_lookup db) (m_memory_id m)") simp_all
  then show ?thesis by (simp add: left_join_vectors_def)
qed

lemma memory_ids_distinct: "memories_ok db \<Longrightarrow> distinct (map m_memory_id (memories db))"
  by (simp add: memories_ok_def)

lemma lookup_by_memory_id_eq:
  "memories_ok db \<Longrightarrow> lookup_by_memory_id db mid =
     map_option (\<lambda>m. (as_u64 (m_created_at_ms m),
        map_option (\<lambda>v. as_u64 (v_vector_id v)) (row_of v_memory_id (vector_lookup db) mid)))
       (row_of m_memory_id (memories db) mid)"
  by (auto simp: lookup_by_memory_id_def left_join_vectors_eq filter_unique memory_ids_distinct
    split: option.splits dest: row_of_Some)

lemma get_observation_eq:
  "memories_ok db \<Longrightarrow> get_observation db mid =
     (case row_of m_memory_id (memories db) mid of
        None \<Rightarrow> Inr None
      | Some m \<Rightarrow> if 0 \<le> m_created_at_ms m \<and> 0 \<le> m_recorded_at_ms m
                 then Inr (Some (stored_observation m)) else Inl IntegralValueOutOfRange)"
  by (simp add: get_observation_def filter_unique memory_ids_distinct split: option.split)

lemma batch_map:
  assumes "memories_ok db"
  shows "\<exists>m. bind_res (chunked_rows m_memory_id (memories db) ids)
          (\<lambda>ms. Inr (hash_map_of (map (\<lambda>r. (m_memory_id r, f r)) ms))) = Inr m
     \<and> (\<forall>i. m i = (if i \<in> set ids then map_option f (row_of m_memory_id (memories db) i) else None))"
proof -
  obtain rows where "chunked_rows m_memory_id (memories db) ids = Inr rows"
    "set rows = {r \<in> set (memories db). m_memory_id r \<in> set ids}"
    by (rule chunked_rows_ok)
  then show ?thesis
    using hash_map_of_rows [OF memory_ids_distinct [OF assms], of rows "set ids" f]
    by (intro exI [of _ "hash_map_of (map (\<lambda>r. (m_memory_id r, f r)) rows)"]) simp
qed

text \<open>
  C11. Reading memories in batches of any size never fails and agrees with reading them one by
  one: the batched timestamps, observations and indexing states are, for every requested id,
  those of the single read, and no other id appears, however the ids are split into padded
  chunks or repeated.
\<close>

theorem batched_reads_agree:
  assumes ok: "memories_ok db"
  shows "\<exists>m os st.
     lookup_by_memory_ids_batch db ids = Inr m
     \<and> get_observations_batch db (map (Pair ts) ids) = Inr os
     \<and> stored_content_states db ids = Inr st
     \<and> (\<forall>i. m i = (if i \<in> set ids then map_option (\<lambda>(t, v). (t, coalesce v 0)) (lookup_by_memory_id db i) else None))
     \<and> (\<forall>i r. get_observation db i = Inr r \<longrightarrow> os i = (if i \<in> set ids then r else None))
     \<and> (\<forall>i. st i = (if i \<in> set ids then map_option (\<lambda>x. (m_content_hash x, m_indexed x))
            (row_of m_memory_id (memories db) i) else None))"
proof -
  let ?f = "\<lambda>m. (as_u64 (m_created_at_ms m), coalesce (map_option (\<lambda>v. as_u64 (v_vector_id v))
      (row_of v_memory_id (vector_lookup db) (m_memory_id m))) 0)"
  obtain m where m: "bind_res (chunked_rows m_memory_id (memories db) ids)
          (\<lambda>ms. Inr (hash_map_of (map (\<lambda>r. (m_memory_id r, ?f r)) ms))) = Inr m"
      "\<forall>i. m i = (if i \<in> set ids then map_option ?f (row_of m_memory_id (memories db) i) else None)"
    using batch_map [OF ok, where ids = ids and f = ?f] by auto
  have "lookup_by_memory_ids_batch db ids = Inr m"
    using m(1) by (simp add: lookup_by_memory_ids_batch_def left_join_vectors_eq [OF ok] comp_def)
  moreover have "m i = (if i \<in> set ids then map_option (\<lambda>(t, v). (t, coalesce v 0)) (lookup_by_memory_id db i) else None)" for i
    using m(2) by (cases "row_of m_memory_id (memories db) i")
      (auto simp: lookup_by_memory_id_eq [OF ok] dest: row_of_Some)
  moreover obtain os where "get_observations_batch db (map (Pair ts) ids) = Inr os"
      "\<forall>i. os i = (if i \<in> set ids then map_option stored_observation (row_of m_memory_id (memories db) i) else None)"
    using batch_map [OF ok, where ids = ids and f = stored_observation]
    by (auto simp: get_observations_batch_def comp_def)
  moreover from this(2) have "\<forall>i r. get_observation db i = Inr r \<longrightarrow> os i = (if i \<in> set ids then r else None)"
    by (auto simp: get_observation_eq [OF ok] split: option.splits if_splits)
  moreover obtain st where "stored_content_states db ids = Inr st"
      "\<forall>i. st i = (if i \<in> set ids then map_option (\<lambda>x. (m_content_hash x, m_indexed x))
            (row_of m_memory_id (memories db) i) else None)"
    using batch_map [OF ok, where ids = ids and f = "\<lambda>x. (m_content_hash x, m_indexed x)"]
    by (auto simp: stored_content_states_def)
  ultimately show ?thesis by blast
qed

definition sample_memories :: store where
  "sample_memories = empty_store
     \<lparr>memories := [\<lparr>m_rowid = 4, m_memory_id = ''m1'', m_entity_id = ''e'', m_content = ''text'',
        m_kind = ''fact'', m_content_hash = ''h'', m_created_at_ms = 10, m_recorded_at_ms = 40,
        m_expires_at_ms = None, m_session_id = ''s'', m_turn_index = 0, m_role = ''user'',
        m_parent_memory_id = None, m_indexed = 1\<rparr>],
      memories_seq := 4,
      vector_lookup := [\<lparr>v_vector_id = 4, v_memory_id = ''m1'', v_entity_id = ''e'',
        v_timestamp_ms = 10, v_embedding = []\<rparr>]\<rparr>"

lemma sample_memories_ok: "memories_ok sample_memories"
  by (simp add: memories_ok_def sample_memories_def empty_store_def)

lemma batched_reads_agree_witness:
  "\<exists>m. lookup_by_memory_ids_batch sample_memories [''m1'', ''x'', ''m1''] = Inr m
     \<and> m ''m1'' = Some (10, 4) \<and> m ''x'' = None"
  using batched_reads_agree [OF sample_memories_ok, of "[''m1'', ''x'', ''m1'']" 0]
  by (auto simp: lookup_by_memory_id_eq [OF sample_memories_ok])
    (simp_all add: sample_memories_def row_of_def empty_store_def as_u64_def coalesce_def)

subsection \<open>Vectors as of a point in time\<close>

lemma set_inner_join:
  "set (concat (map (\<lambda>v. map (\<lambda>_. v) (filter (P v) ms)) xs)) = {v \<in> set xs. \<exists>m \<in> set ms. P v m}"
  by (induction xs) auto

lemma set_visible_vectors:
  "v \<in> set (visible_vectors pit known db) \<longleftrightarrow>
     v \<in> set (vector_lookup db) \<and> (\<forall>x. pit = Some x \<longrightarrow> v_timestamp_ms v \<le> as_i64 x)
     \<and> (\<exists>m \<in> set (memories db). m_memory_id m = v_memory_id v
          \<and> (\<forall>x. known = Some x \<longrightarrow> m_recorded_at_ms m \<le> as_i64 x))"
  unfolding visible_vectors_def set_inner_join by (cases pit; cases known) auto

text \<open>
  C12. Resolving the hits of a vector search, at a point in time and as known at a recording
  time, never fails, answers position by position, and answers a hit exactly when its vector
  belongs to that time and its memory was recorded by then.
\<close>

theorem vector_hits_resolve:
  assumes ok: "memories_ok db" and vid: "\<forall>v \<in> set (vector_lookup db). in_i64 (v_vector_id v)"
  shows "\<exists>rs. lookup_by_vector_ids_batch_at db ids pit known = Inr rs \<and> length rs = length ids
     \<and> (\<forall>n < length ids. \<forall>t mid. rs ! n = Some (t, mid) \<longleftrightarrow>
          (\<exists>v \<in> set (vector_lookup db). \<exists>m \<in> set (memories db).
             as_u64 (v_vector_id v) = ids ! n \<and> as_u64 (v_timestamp_ms v) = t \<and> v_memory_id v = mid
             \<and> m_memory_id m = mid \<and> (\<forall>x. pit = Some x \<longrightarrow> v_timestamp_ms v \<le> as_i64 x)
             \<and> (\<forall>x. known = Some x \<longrightarrow> m_recorded_at_ms m \<le> as_i64 x)))"
proof (cases "ids = []")
  case False
  let ?vs = "visible_vectors pit known db"
  let ?kv = "\<lambda>v. (as_u64 (v_vector_id v), (as_u64 (v_timestamp_ms v), v_memory_id v))"
  obtain rows where rows: "chunked_rows v_vector_id ?vs (map as_i64 ids) = Inr rows"
    "set rows = {v \<in> set ?vs. v_vector_id v \<in> set (map as_i64 ids)}"
    by (rule chunked_rows_ok)
  let ?m = "hash_map_of (map ?kv rows)"
  have inj: "v = w" if "v \<in> set ?vs" "w \<in> set ?vs" "as_u64 (v_vector_id v) = as_u64 (v_vector_id w)" for v w
  proof -
    have v: "v \<in> set (vector_lookup db)" and w: "w \<in> set (vector_lookup db)"
      using that by (simp_all add: set_visible_vectors)
    from that(3) have "as_i64 (as_u64 (v_vector_id v)) = as_i64 (as_u64 (v_vector_id w))" by simp
    then have "v_vector_id v = v_vector_id w" using vid v w by simp
    then show ?thesis using ok v w by (auto simp: memories_ok_def distinct_map inj_on_def)
  qed
  have hit: "?m i = Some (t, mid) \<longleftrightarrow> (\<exists>v \<in> set ?vs. ?kv v = (i, (t, mid)))" if i: "i \<in> set ids" for i t mid
  proof
    assume "?m i = Some (t, mid)"
    from hash_map_of_Some [OF this] show "\<exists>v \<in> set ?vs. ?kv v = (i, (t, mid))" using rows(2) by auto
  next
    assume "\<exists>v \<in> set ?vs. ?kv v = (i, (t, mid))"
    then obtain v where v: "v \<in> set ?vs" "?kv v = (i, (t, mid))" by blast
    then have "v \<in> set (vector_lookup db)" by (simp add: set_visible_vectors)
    then have "as_i64 (as_u64 (v_vector_id v)) = v_vector_id v" using vid by simp
    then have "v_vector_id v = as_i64 i" using v(2) by simp
    with v i have "v \<in> set rows" unfolding rows(2) by simp
    then have "i \<in> fst ` set (map ?kv rows)" using v(2) by force
    then obtain y where y: "?m i = Some y" by (meson hash_map_of_None not_Some_eq)
    from hash_map_of_Some [OF this] obtain w where w: "w \<in> set ?vs" "?kv w = (i, y)" using rows(2) by auto
    with inj [OF w(1) v(1)] v(2) have "y = (t, mid)" by simp
    with y show "?m i = Some (t, mid)" by simp
  qed
  have "lookup_by_vector_ids_batch_at db ids pit known = Inr (map ?m ids)"
    using False rows(1) by (simp add: lookup_by_vector_ids_batch_at_def)
  moreover have "map ?m ids ! n = Some (t, mid) \<longleftrightarrow>
      (\<exists>v \<in> set (vector_lookup db). \<exists>m \<in> set (memories db).
         as_u64 (v_vector_id v) = ids ! n \<and> as_u64 (v_timestamp_ms v) = t \<and> v_memory_id v = mid
         \<and> m_memory_id m = mid \<and> (\<forall>x. pit = Some x \<longrightarrow> v_timestamp_ms v \<le> as_i64 x)
         \<and> (\<forall>x. known = Some x \<longrightarrow> m_recorded_at_ms m \<le> as_i64 x))" if "n < length ids" for n t mid
    using hit [OF nth_mem [OF that]] that by (auto simp: Bex_def set_visible_vectors)
  ultimately show ?thesis by (intro exI [of _ "map ?m ids"]) simp
qed (simp add: lookup_by_vector_ids_batch_at_def)

lemma vector_hits_resolve_witness:
  "\<exists>rs. lookup_by_vector_ids_batch_at sample_memories [9, 4] (Some 20) (Some 40) = Inr rs \<and> rs ! 1 = Some (10, ''m1'')"
  using vector_hits_resolve [OF sample_memories_ok, of "[9, 4]" "Some 20" "Some 40"]
  by (auto simp: sample_memories_def empty_store_def in_i64_def as_u64_def as_i64_def less_Suc_eq all_conj_distrib)

end
