(* ===== verification/Deletion.thy ===== *)
theory Deletion
  imports Store Fact_Registry "HOL-Library.AList" "HOL-Library.Char_ord" "HOL-Library.List_Lexorder"
begin

section \<open>Deleting a memory\<close>

text \<open>
  Models \<open>delete_observation\<close> of \<open>src/storage/repo/memories.rs\<close> with its helpers
  \<open>remove_deleted_from_core_profiles\<close>, \<open>rebuild_fact_chain_after_delete\<close> and
  \<open>rebuild_router_after_delete\<close>: the memory, every record derived from it, and every trace
  of both in the other tables.  JSON printing and parsing (\<open>serde_json\<close>) are parameters;
  \<open>HashSet\<close> iteration is the order of a list.
\<close>

subsection \<open>JSON values\<close>

datatype json =
    JNull
  | JBool bool
  | JNumber str
  | JString str
  | JArray "json list"
  | JObject "(str \<times> json) list"

fun json_get :: "str \<Rightarrow> json \<Rightarrow> json option" where
  "json_get k (JObject kvs) = map_of kvs k"
| "json_get k _ = None"

fun json_as_str :: "json \<Rightarrow> str option" where
  "json_as_str (JString s) = Some s"
| "json_as_str _ = None"

fun json_set :: "str \<Rightarrow> json \<Rightarrow> json \<Rightarrow> json" where
  "json_set k v (JObject kvs) = JObject (AList.update k v kvs)"
| "json_set k v j = j"

subsection \<open>Core profiles\<close>

definition keeps_fact :: "str \<Rightarrow> json \<Rightarrow> bool" where
  "keeps_fact mid f =
     (case Option.bind (json_get ''memory_id'' f) json_as_str of
        Some i \<Rightarrow> \<not> in_family mid i
      | None \<Rightarrow> True)"

definition clean_profile ::
  "(str \<Rightarrow> json option) \<Rightarrow> (json \<Rightarrow> str) \<Rightarrow> int \<Rightarrow> str \<Rightarrow> str \<times> str \<times> int \<Rightarrow> str \<times> str \<times> int" where
  "clean_profile parse print now mid row =
     (case row of (entity, profile_json, updated) \<Rightarrow>
       (case parse profile_json of
          None \<Rightarrow> row
        | Some profile \<Rightarrow>
            (case json_get ''facts'' profile of
               Some (JArray fs) \<Rightarrow>
                 (let kept = filter (keeps_fact mid) fs in
                  if length kept \<noteq> length fs
                  then (entity, print (json_set ''facts'' (JArray kept) profile), now) else row)
             | _ \<Rightarrow> row)))"

definition remove_deleted_from_core_profiles ::
  "(str \<Rightarrow> json option) \<Rightarrow> (json \<Rightarrow> str) \<Rightarrow> int \<Rightarrow> str \<Rightarrow> store \<Rightarrow> store" where
  "remove_deleted_from_core_profiles parse print now mid db =
     db\<lparr>core_profiles := map (clean_profile parse print now mid) (core_profiles db)\<rparr>"

subsection \<open>Rebuilding a fact chain\<close>

fun rebuild_loop ::
  "str \<Rightarrow> str \<Rightarrow> str option \<Rightarrow> fact_version list \<Rightarrow> fact_version list \<Rightarrow> fact_version list" where
  "rebuild_loop k e previous [] t = t"
| "rebuild_loop k e previous (v # vs) t =
     rebuild_loop k e (Some (fv_mid v)) vs
       (sql_update (\<lambda>w. fv_key w = k \<and> fv_entity w = e \<and> fv_mid w = fv_mid v)
          (\<lambda>w. w\<lparr>fv_status := (if vs = [] then ''current'' else ''stale''),
                 fv_valid_from := Some (fv_ts v),
                 fv_valid_to := (case vs of [] \<Rightarrow> None | n # _ \<Rightarrow> Some (fv_ts n)),
                 fv_superseded_by := (case vs of [] \<Rightarrow> None | n # _ \<Rightarrow> Some (fv_mid n)),
                 fv_supersedes := previous\<rparr>) t)"

definition chain_edge :: "fact_version \<Rightarrow> edge_row option" where
  "chain_edge v =
     (let subject = coalesce (fv_subject v) []; predicate = coalesce (fv_predicate v) [];
          obj = coalesce (fv_object v) [];
          (ref_source, ref_target) =
            (if fv_status v = ''current''
             then (map_option (\<lambda>_. edge_as_str Supersedes) (fv_supersedes v), fv_supersedes v)
             else (map_option (\<lambda>_. edge_as_str SupersededBy) (fv_superseded_by v), fv_superseded_by v))
      in if subject = [] \<or> predicate = [] \<or> obj = [] then None
         else Some \<lparr>e_edge_id = edge_id (fv_mid v) subject predicate, e_source = subject,
                    e_target = obj, e_edge_type = predicate,
                    e_label = edge_label subject predicate obj,
                    e_weight = default_weight (edge_from_str predicate), e_status = fv_status v,
                    e_ref_source = ref_source, e_ref_target = ref_target,
                    e_timestamp_ms = fv_ts v, e_memory_id = Some (fv_mid v)\<rparr>)"

definition rebuild_fact_chain_after_delete :: "store \<Rightarrow> str \<times> str \<Rightarrow> store" where
  "rebuild_fact_chain_after_delete db ke =
     (case ke of (k, e) \<Rightarrow>
       (let t = rebuild_loop k e None (chain (versions (facts db)) k e) (versions (facts db))
        in db\<lparr>edges := foldl (\<lambda>es v. case chain_edge v of None \<Rightarrow> es | Some x \<Rightarrow> sql_replace e_edge_id x es)
                 (edges db) (filter (in_chain k e) t),
              facts := (facts db)\<lparr>versions := t\<rparr>\<rparr>))"

subsection \<open>Rebuilding a session router\<close>

definition router_fragments ::
  "(str \<Rightarrow> SessionRouterRecord option) \<Rightarrow> store \<Rightarrow> str \<Rightarrow> str \<Rightarrow> SessionRouterRecord list" where
  "router_fragments from_json db session entity =
     List.map_filter (\<lambda>s. from_json (s_record_json s))
       (sort_key s_memory_id (filter (\<lambda>s. s_session_id s = session \<and> s_entity_id s = entity)
          (session_router_sources db)))"

definition rebuild_router_after_delete ::
  "(SessionRouterRecord \<Rightarrow> str) \<Rightarrow> (str \<Rightarrow> SessionRouterRecord option) \<Rightarrow> store \<Rightarrow> str \<times> str \<Rightarrow> store" where
  "rebuild_router_after_delete to_json from_json db se =
     (case se of (session, entity) \<Rightarrow>
       (case router_fragments from_json db session entity of
          [] \<Rightarrow>
            db\<lparr>fts_memories := sql_delete (\<lambda>f. f_rowid f = fts_rowid (router_id entity session)) (fts_memories db),
               session_router := sql_delete (\<lambda>r. r_session_id r = session \<and> r_entity_id r = entity) (session_router db),
               fts_session_router := sql_delete (\<lambda>g. g_rowid g = router_fts_rowid entity session) (fts_session_router db)\<rparr>
        | r # rs \<Rightarrow>
            (let merged0 = foldl merge_router_records r rs;
                 merged = merged0\<lparr>sr_router_text := build_session_router_text merged0\<rparr>
             in db\<lparr>fts_memories := sql_replace f_rowid
                     (fts_document (router_id entity session) entity (sr_router_text merged)) (fts_memories db),
                   session_router := upsert_router
                     \<lparr>r_session_id = session, r_entity_id = entity, r_record_json = to_json merged,
                      r_router_text = sr_router_text merged, r_created_at_ms = sr_created_at_ms merged,
                      r_updated_at_ms = sr_updated_at_ms merged\<rparr> (session_router db),
                   fts_session_router := sql_replace g_rowid
                     (router_document session entity (sr_router_text merged)) (fts_session_router db)\<rparr>)))"

subsection \<open>The deletion\<close>

record DeletionTombstone =
  dt_tombstone_id :: str
  dt_scope :: str
  dt_target_id :: str
  dt_deleted_at_ms :: u64
  dt_reason :: str
  dt_cascade_count :: nat
  dt_proof_hash :: str

record DeletedObservation =
  do_vector_id :: "u64 option"
  do_chunk_vector_ids :: "u64 list"
  do_entity_id :: str
  do_tombstone :: "DeletionTombstone option"
  do_fts_removed :: nat
  do_graph_edges_removed :: nat

definition deletion_tombstone :: "u64 \<Rightarrow> str \<Rightarrow> str \<Rightarrow> DeletionTombstone" where
  "deletion_tombstone now mid reason =
     \<lparr>dt_tombstone_id = ''tombstone::'' @ mid, dt_scope = ''memory'', dt_target_id = mid,
      dt_deleted_at_ms = now, dt_reason = reason, dt_cascade_count = 0, dt_proof_hash = []\<rparr>"

text \<open>A column that may be NULL: \<open>= ?1\<close> and the prefix test on \<open>COALESCE(column, '')\<close>.\<close>

definition opt_in_family :: "str \<Rightarrow> str option \<Rightarrow> bool" where
  "opt_in_family mid x = (x = Some mid \<or> starts_with (coalesce x []) (family_prefix mid))"

definition write_tombstone :: "(DeletionTombstone \<Rightarrow> str) \<Rightarrow> u64 \<Rightarrow> str \<Rightarrow> str \<Rightarrow> store \<Rightarrow> store" where
  "write_tombstone tomb_json now mid reason db =
     db\<lparr>deletion_tombstones := sql_replace t_tombstone_id
          \<lparr>t_tombstone_id = ''tombstone::'' @ mid, t_target_memory_id = mid, t_reason = reason,
           t_timestamp_ms = as_i64 now, t_tombstone_json = tomb_json (deletion_tombstone now mid reason)\<rparr>
          (deletion_tombstones db)\<rparr>"

text \<open>The statements that delete the memory itself.\<close>

definition delete_self :: "str \<Rightarrow> store \<Rightarrow> store" where
  "delete_self mid db =
     db\<lparr>memories := sql_delete (\<lambda>m. m_memory_id m = mid) (memories db),
        vector_lookup := sql_delete (\<lambda>v. v_memory_id v = mid) (vector_lookup db),
        memory_cards := sql_delete (\<lambda>c. c_card_id c = mid) (memory_cards db),
        fts_memories := sql_delete (\<lambda>f. f_rowid f = fts_rowid mid) (fts_memories db),
        memory_links := sql_delete (\<lambda>(s, t, _). s = mid \<or> t = mid) (memory_links db),
        metrics := sql_delete (\<lambda>x. x_memory_id x = mid) (metrics db),
        negative_centroids := sql_delete (\<lambda>(_, m, _). m = mid) (negative_centroids db),
        disambiguation_vectors := sql_delete (\<lambda>(_, m, _). m = mid) (disambiguation_vectors db)\<rparr>"

text \<open>\<open>LEFT JOIN vector_lookup\<close>: one row per vector of the memory, or one without a vector.\<close>

definition derived_chunks :: "str \<Rightarrow> store \<Rightarrow> (str \<times> int option) list" where
  "derived_chunks mid db =
     concat (map (\<lambda>m. case filter (\<lambda>v. v_memory_id v = m_memory_id m) (vector_lookup db) of
                        [] \<Rightarrow> [(m_memory_id m, None)]
                      | vs \<Rightarrow> map (\<lambda>v. (m_memory_id m, Some (v_vector_id v))) vs)
       (filter (\<lambda>m. starts_with (m_memory_id m) (family_prefix mid)) (memories db)))"

definition affected_facts :: "str \<Rightarrow> store \<Rightarrow> (str \<times> str) list" where
  "affected_facts mid db =
     remdups (map (\<lambda>v. (fv_key v, fv_entity v)) (filter (\<lambda>v. in_family mid (fv_mid v)) (versions (facts db))))"

definition affected_routers ::
  "(str \<Rightarrow> SessionRouterRecord option) \<Rightarrow> str \<Rightarrow> store \<Rightarrow> (str \<times> str) list" where
  "affected_routers from_json mid db =
     remdups
       (map router_pk (filter (\<lambda>r. case from_json (r_record_json r) of
            None \<Rightarrow> False | Some rec \<Rightarrow> list_ex (in_family mid) (sr_source_memory_ids rec)) (session_router db))
        @ map (\<lambda>s. (s_session_id s, s_entity_id s))
            (filter (\<lambda>s. in_family mid (s_memory_id s)) (session_router_sources db)))"

text \<open>The statements that delete the whole family.\<close>

definition delete_family :: "str \<Rightarrow> store \<Rightarrow> store" where
  "delete_family mid db =
     db\<lparr>memory_cards := sql_delete (\<lambda>c. c_source_memory_id c = mid
            \<or> starts_with (c_card_id c) (family_prefix mid)) (memory_cards db),
        edges := sql_delete (\<lambda>e. opt_in_family mid (e_memory_id e) \<or> opt_in_family mid (e_ref_source e)
            \<or> opt_in_family mid (e_ref_target e)) (edges db),
        preferences := sql_delete (\<lambda>(_, m, _). in_family mid m) (preferences db),
        memory_links := sql_delete (\<lambda>(s, t, _). in_family mid s \<or> in_family mid t) (memory_links db),
        facts := \<lparr>versions = sql_delete (\<lambda>v. in_family mid (fv_mid v)) (versions (facts db)),
                 evidence = sql_delete (\<lambda>x. in_family mid (fe_mid x) \<or> in_family mid (fe_version x))
                   (evidence (facts db))\<rparr>,
        metrics := sql_delete (\<lambda>x. in_family mid (x_memory_id x)) (metrics db),
        consolidation_queue := sql_delete (\<lambda>q. in_family mid (q_memory_id q)) (consolidation_queue db),
        negative_centroids := sql_delete (\<lambda>(_, m, _). in_family mid m) (negative_centroids db),
        disambiguation_vectors := sql_delete (\<lambda>(_, m, _). in_family mid m) (disambiguation_vectors db)\<rparr>"

definition delete_sources :: "str \<Rightarrow> store \<Rightarrow> store" where
  "delete_sources mid db =
     db\<lparr>session_router_sources := sql_delete (\<lambda>s. in_family mid (s_memory_id s)) (session_router_sources db)\<rparr>"

definition delete_chunk :: "store \<times> nat \<Rightarrow> str \<times> int option \<Rightarrow> store \<times> nat" where
  "delete_chunk = (\<lambda>(db, removed) (cid, _).
     (db\<lparr>memories := sql_delete (\<lambda>m. m_memory_id m = cid) (memories db),
         vector_lookup := sql_delete (\<lambda>v. v_memory_id v = cid) (vector_lookup db),
         fts_memories := sql_delete (\<lambda>f. f_rowid f = fts_rowid cid) (fts_memories db)\<rparr>,
      removed + length (filter (\<lambda>f. f_rowid f = fts_rowid cid) (fts_memories db))))"

definition delete_observation ::
  "(DeletionTombstone \<Rightarrow> str) \<Rightarrow> (SessionRouterRecord \<Rightarrow> str) \<Rightarrow> (str \<Rightarrow> SessionRouterRecord option)
     \<Rightarrow> (str \<Rightarrow> json option) \<Rightarrow> (json \<Rightarrow> str) \<Rightarrow> u64 \<Rightarrow> str \<Rightarrow> str \<Rightarrow> store
     \<Rightarrow> store \<times> DeletedObservation" where
  "delete_observation tomb_json to_json from_json parse print now mid reason db =
     (let vector_id = map_option v_vector_id (row_of v_memory_id (vector_lookup db) mid);
          entity = (case row_of m_memory_id (memories db) mid of None \<Rightarrow> [] | Some m \<Rightarrow> m_entity_id m);
          db1 = write_tombstone tomb_json now mid reason db;
          db2 = delete_self mid db1;
          fts_removed = length (filter (\<lambda>f. f_rowid f = fts_rowid mid) (fts_memories db));
          chunks = derived_chunks mid db2;
          facts_hit = affected_facts mid db2;
          routers_hit = affected_routers from_json mid db2;
          db3 = delete_family mid db2;
          edges_removed = length (edges db2) - length (edges db3);
          db4 = foldl rebuild_fact_chain_after_delete db3 facts_hit;
          db5 = delete_sources mid db4;
          db6 = remove_deleted_from_core_profiles parse print (as_i64 now) mid db5;
          db7 = foldl (rebuild_router_after_delete to_json from_json) db6 routers_hit;
          (db8, removed) = foldl delete_chunk (db7, fts_removed) chunks
      in (db8,
          \<lparr>do_vector_id = map_option as_u64 vector_id,
           do_chunk_vector_ids = List.map_filter (\<lambda>(_, v). map_option as_u64 v) chunks,
           do_entity_id = entity,
           do_tombstone = Some (deletion_tombstone now mid reason),
           do_fts_removed = removed, do_graph_edges_removed = edges_removed\<rparr>))"

end
