(* ===== verification/Deletion_Laws.thy ===== *)
theory Deletion_Laws
  imports Deletion
begin

section \<open>What a deletion removes and keeps\<close>

text \<open>
  The rebuild of a fact chain turns any well-formed table into one whose chain is linked;
  deleting a family and rebuilding the chains it touched gives the histories without the
  family's versions; and every other table is the old one filtered.
\<close>

subsection \<open>Rebuilding a chain\<close>

fun rebuild_row ::
  "str \<Rightarrow> str \<Rightarrow> str option \<Rightarrow> fact_version list \<Rightarrow> fact_version \<Rightarrow> fact_version" where
  "rebuild_row k e previous [] w = w"
| "rebuild_row k e previous (v # vs) w =
     (if fv_key w = k \<and> fv_entity w = e \<and> fv_mid w = fv_mid v
      then w\<lparr>fv_status := (if vs = [] then ''current'' else ''stale''),
             fv_valid_from := Some (fv_ts v),
             fv_valid_to := (case vs of [] \<Rightarrow> None | n # _ \<Rightarrow> Some (fv_ts n)),
             fv_superseded_by := (case vs of [] \<Rightarrow> None | n # _ \<Rightarrow> Some (fv_mid n)),
             fv_supersedes := previous\<rparr>
      else rebuild_row k e (Some (fv_mid v)) vs w)"

lemma rebuild_row_sel [simp]:
  "fv_rowid (rebuild_row k e p vs w) = fv_rowid w" "fv_key (rebuild_row k e p vs w) = fv_key w"
  "fv_mid (rebuild_row k e p vs w) = fv_mid w" "fv_entity (rebuild_row k e p vs w) = fv_entity w"
  "fv_object (rebuild_row k e p vs w) = fv_object w" "fv_ts (rebuild_row k e p vs w) = fv_ts w"
  "fv_recorded (rebuild_row k e p vs w) = fv_recorded w"
  by (induction k e p vs w rule: rebuild_row.induct) auto

lemma rebuild_row_absent: "\<forall>v \<in> set vs. fv_mid w \<noteq> fv_mid v \<Longrightarrow> rebuild_row k e p vs w = w"
  by (induction k e p vs w rule: rebuild_row.induct) auto

lemma rebuild_row_other: "\<not> in_chain k e w \<Longrightarrow> rebuild_row k e p vs w = w"
  by (induction k e p vs w rule: rebuild_row.induct) (auto simp: in_chain_def)

lemma rebuild_loop_map:
  "distinct (map fv_mid vs) \<Longrightarrow> rebuild_loop k e p vs t = map (rebuild_row k e p vs) t"
proof (induction k e p vs t rule: rebuild_loop.induct)
  case (2 k e p v vs t)
  have "\<forall>x \<in> set vs. fv_mid v \<noteq> fv_mid x"
    using 2(2) by (auto simp: image_iff)
  then have step: "rebuild_row k e (Some (fv_mid v)) vs w = w" if "fv_mid w = fv_mid v" for w
    using that by (intro rebuild_row_absent) simp
  show ?case
    using 2 step by (auto simp: sql_update_def)
qed (simp add: map_idI)

lemma link_eq:
  "link p v (head_ref vs None) = v\<lparr>fv_status := (if vs = [] then ''current'' else ''stale''),
     fv_valid_from := Some (fv_ts v),
     fv_valid_to := (case vs of [] \<Rightarrow> None | n # _ \<Rightarrow> Some (fv_ts n)),
     fv_superseded_by := (case vs of [] \<Rightarrow> None | n # _ \<Rightarrow> Some (fv_mid n)), fv_supersedes := p\<rparr>"
  by (cases vs) (simp_all add: link_def)

lemma map_rebuild_row:
  "distinct (map fv_mid vs) \<Longrightarrow> \<forall>v \<in> set vs. in_chain k e v \<Longrightarrow>
     map (rebuild_row k e p vs) vs = relink p vs None"
proof (induction vs arbitrary: p)
  case (Cons v vs)
  have "map (rebuild_row k e p (v # vs)) vs = map (rebuild_row k e (Some (fv_mid v)) vs) vs"
  proof (rule map_cong)
    fix x assume "x \<in> set vs"
    with Cons.prems(1) have "fv_mid x \<noteq> fv_mid v" by (auto simp: image_iff)
    then show "rebuild_row k e p (v # vs) x = rebuild_row k e (Some (fv_mid v)) vs x" by simp
  qed simp
  also have "\<dots> = relink (Some (fv_mid v)) vs None"
    using Cons.IH [of "Some (fv_mid v)"] Cons.prems by simp
  finally have tail: "map (rebuild_row k e p (v # vs)) vs = relink (Some (fv_mid v)) vs None" .
  have "rebuild_row k e p (v # vs) v = link p v (head_ref vs None)"
    using Cons.prems(2) by (simp add: in_chain_def link_eq)
  with tail show ?case by (simp only: list.map relink.simps)
qed simp

definition rebuild_chain :: "fact_version list \<Rightarrow> str \<times> str \<Rightarrow> fact_version list" where
  "rebuild_chain t = (\<lambda>(k, e). rebuild_loop k e None (chain t k e) t)"

lemma rebuild_chain_one:
  fixes k e k' e' :: str
  assumes wf: "fv_wf t"
  defines "t' \<equiv> rebuild_chain t (k, e)"
  shows "fv_wf t'" and "chain t' k e = relink None (chain t k e) None"
    and "(k', e') \<noteq> (k, e) \<Longrightarrow> chain t' k' e' = chain t k' e'"
    and "map row_id t' = map row_id t"
proof -
  let ?g = "rebuild_row k e None (chain t k e)"
  have t': "t' = map ?g t"
    unfolding t'_def rebuild_chain_def by (simp add: rebuild_loop_map distinct_mid_chain [OF wf])
  show "fv_wf t'" unfolding t' by (rule fv_wf_map [OF wf]) auto
  have ch: "chain t' k' e' = map ?g (chain t k' e')" for k' e'
    unfolding t' by (rule chain_map) (auto simp: fv_pos_def in_chain_def)
  show "chain t' k e = relink None (chain t k e) None"
    unfolding ch by (rule map_rebuild_row [OF distinct_mid_chain [OF wf]]) simp
  show "chain t' k' e' = chain t k' e'" if "(k', e') \<noteq> (k, e)"
    unfolding ch using that by (intro map_idI rebuild_row_other) (auto simp: in_chain_def)
  show "map row_id t' = map row_id t"
    unfolding t' by (simp add: row_id_def fv_pk_def)
qed

lemma rebuild_chains:
  "fv_wf t \<Longrightarrow> \<forall>k e. (k, e) \<in> set kes \<or> linked t k e \<Longrightarrow>
     fv_ok (foldl rebuild_chain t kes)
     \<and> (\<forall>k e. history (foldl rebuild_chain t kes) k e = history t k e)
     \<and> map row_id (foldl rebuild_chain t kes) = map row_id t"
proof (induction kes arbitrary: t)
  case Nil
  then show ?case by (simp add: fv_ok_iff)
next
  case (Cons ke kes)
  obtain k e where ke: "ke = (k, e)" by (cases ke)
  note one = rebuild_chain_one [OF Cons.prems(1), where k = k and e = e]
  have hist: "history (rebuild_chain t ke) k' e' = history t k' e'" for k' e'
    using history_relink [OF one(2)] one(3) [of k' e'] unfolding ke
    by (cases "(k', e') = (k, e)") (auto simp: history_def [of _ k' e'])
  have "\<forall>k' e'. (k', e') \<in> set kes \<or> linked (rebuild_chain t ke) k' e'"
  proof (intro allI)
    fix k' e'
    show "(k', e') \<in> set kes \<or> linked (rebuild_chain t ke) k' e'"
    proof (cases "(k', e') = (k, e)")
      case True
      then show ?thesis using one(2) by (simp add: ke linked_def relink_idem)
    next
      case False
      with Cons.prems(2) one(3) [OF False] show ?thesis by (auto simp: ke linked_def)
    qed
  qed
  from Cons.IH [OF _ this] one(1,4) hist show ?case by (simp add: ke)
qed

subsection \<open>Facts after a deletion\<close>

lemma chain_filter: "chain (filter P t) k e = filter P (chain t k e)"
  by (simp add: chain_def filter_sort filter_filter conj_commute)

lemma linked_unaffected:
  assumes "fv_ok t" and "(k, e) \<notin> (\<lambda>v. (fv_key v, fv_entity v)) ` set (filter P t)"
  shows "linked (filter (\<lambda>v. \<not> P v) t) k e"
proof -
  have "\<forall>v \<in> set (chain t k e). \<not> P v"
    using assms(2) by (auto simp: in_chain_def)
  then have "filter (\<lambda>v. \<not> P v) (chain t k e) = chain t k e" by (simp add: filter_id_conv)
  then show ?thesis
    using assms(1) by (simp add: fv_ok_iff linked_def chain_filter)
qed

definition deleted_versions :: "str \<Rightarrow> fact_version list \<Rightarrow> fact_version list" where
  "deleted_versions mid t =
     foldl rebuild_chain (filter (\<lambda>v. \<not> in_family mid (fv_mid v)) t)
       (remdups (map (\<lambda>v. (fv_key v, fv_entity v)) (filter (\<lambda>v. in_family mid (fv_mid v)) t)))"

lemma deleted_versions_laws:
  assumes "fv_ok t"
  shows "fv_ok (deleted_versions mid t)"
    and "history (deleted_versions mid t) k e = filter (\<lambda>(i, _). \<not> in_family mid i) (history t k e)"
    and "map row_id (deleted_versions mid t) = map row_id (filter (\<lambda>v. \<not> in_family mid (fv_mid v)) t)"
proof -
  let ?t = "filter (\<lambda>v. \<not> in_family mid (fv_mid v)) t"
  let ?kes = "remdups (map (\<lambda>v. (fv_key v, fv_entity v)) (filter (\<lambda>v. in_family mid (fv_mid v)) t))"
  have wf: "fv_wf ?t" using assms by (simp add: fv_ok_def fv_wf_filter)
  have "\<forall>k e. (k, e) \<in> set ?kes \<or> linked ?t k e"
    using linked_unaffected [OF assms, of _ _ "\<lambda>v. in_family mid (fv_mid v)"] by auto
  note laws = rebuild_chains [OF wf this]
  show "fv_ok (deleted_versions mid t)"
    and "map row_id (deleted_versions mid t) = map row_id ?t"
    using laws by (simp_all add: deleted_versions_def)
  have "history (deleted_versions mid t) k e = history ?t k e"
    using laws by (simp add: deleted_versions_def)
  also have "\<dots> = filter (\<lambda>(i, _). \<not> in_family mid i) (history t k e)"
    by (simp add: history_def chain_filter filter_map comp_def)
  finally show "history (deleted_versions mid t) k e = filter (\<lambda>(i, _). \<not> in_family mid i) (history t k e)" .
qed

lemma deleted_versions_mids:
  assumes "fv_ok t" and "v \<in> set (deleted_versions mid t)"
  shows "\<not> in_family mid (fv_mid v)"
proof -
  have "row_id v \<in> set (map row_id (deleted_versions mid t))" using assms(2) by simp
  then have "row_id v \<in> row_id ` {v \<in> set t. \<not> in_family mid (fv_mid v)}"
    unfolding deleted_versions_laws(3) [OF assms(1)] by simp
  then show ?thesis by (auto simp: row_id_def fv_pk_def)
qed

lemma relink_pointers:
  "relink p vs None = vs \<Longrightarrow> v \<in> set vs \<Longrightarrow>
     set_option (fv_superseded_by v) \<subseteq> fv_mid ` set vs
     \<and> set_option (fv_supersedes v) \<subseteq> fv_mid ` set vs \<union> set_option p"
proof (induction vs arbitrary: p)
  case (Cons u us)
  from Cons.prems(1) have u: "link p u (head_ref us None) = u" and us: "relink (Some (fv_mid u)) us None = us"
    by simp_all
  have "fv_superseded_by u = map_option fst (head_ref us None)" "fv_supersedes u = p"
    using link_sel(9,10) [of p u "head_ref us None"] by (simp_all add: u)
  then show ?case
    using Cons.IH [OF us] Cons.prems(2) by (cases us) auto
qed simp

lemma pointers_in_table:
  assumes "fv_ok t" and "v \<in> set t"
  shows "set_option (fv_superseded_by v) \<union> set_option (fv_supersedes v) \<subseteq> fv_mid ` set t"
proof -
  have "relink None (chain t (fv_key v) (fv_entity v)) None = chain t (fv_key v) (fv_entity v)"
    using assms(1) by (simp add: fv_ok_iff linked_def)
  from relink_pointers [OF this, of v] assms(2) show ?thesis
    by (auto simp: in_chain_def)
qed

subsection \<open>Frames of the loops\<close>

lemma rebuild_facts_frame:
  "\<exists>es. foldl rebuild_fact_chain_after_delete db kes
     = db\<lparr>edges := es,
          facts := (facts db)\<lparr>versions := foldl rebuild_chain (versions (facts db)) kes\<rparr>\<rparr>"
proof (induction kes arbitrary: db)
  case Nil
  have "db = db\<lparr>edges := edges db, facts := (facts db)\<lparr>versions := versions (facts db)\<rparr>\<rparr>" by simp
  then show ?case by (simp only: foldl.simps) blast
next
  case (Cons ke kes)
  obtain k e where ke: "ke = (k, e)" by (cases ke)
  obtain E where E: "rebuild_fact_chain_after_delete db ke
      = db\<lparr>edges := E, facts := (facts db)\<lparr>versions := rebuild_chain (versions (facts db)) ke\<rparr>\<rparr>"
    unfolding ke rebuild_fact_chain_after_delete_def rebuild_chain_def Let_def prod.case by blast
  obtain E' where "foldl rebuild_fact_chain_after_delete
        (db\<lparr>edges := E, facts := (facts db)\<lparr>versions := rebuild_chain (versions (facts db)) ke\<rparr>\<rparr>) kes
      = db\<lparr>edges := E', facts := (facts db)\<lparr>versions := foldl rebuild_chain (versions (facts db)) (ke # kes)\<rparr>\<rparr>"
    using Cons.IH [of "db\<lparr>edges := E, facts := (facts db)\<lparr>versions := rebuild_chain (versions (facts db)) ke\<rparr>\<rparr>"]
    by auto
  then show ?case using E by (simp only: foldl.simps) blast
qed

lemma rebuild_routers_frame:
  "\<exists>f r g. foldl (rebuild_router_after_delete tj fj) db ses
     = db\<lparr>fts_memories := f, session_router := r, fts_session_router := g\<rparr>"
proof (induction ses arbitrary: db)
  case Nil
  have "db = db\<lparr>fts_memories := fts_memories db, session_router := session_router db,
    fts_session_router := fts_session_router db\<rparr>" by simp
  then show ?case by (simp only: foldl.simps) blast
next
  case (Cons se ses)
  obtain a b where se: "se = (a, b)" by (cases se)
  have "\<exists>f r g. rebuild_router_after_delete tj fj db se
      = db\<lparr>fts_memories := f, session_router := r, fts_session_router := g\<rparr>"
    unfolding rebuild_router_after_delete_def Let_def se prod.case
    by (cases "router_fragments fj db a b") (simp_all only: list.case, blast+)
  then obtain f r g where 1: "rebuild_router_after_delete tj fj db se
      = db\<lparr>fts_memories := f, session_router := r, fts_session_router := g\<rparr>"
    by blast
  obtain f' r' g' where "foldl (rebuild_router_after_delete tj fj)
        (db\<lparr>fts_memories := f, session_router := r, fts_session_router := g\<rparr>) ses
      = db\<lparr>fts_memories := f', session_router := r', fts_session_router := g'\<rparr>"
    using Cons.IH [of "db\<lparr>fts_memories := f, session_router := r, fts_session_router := g\<rparr>"] by auto
  with 1 show ?case by (simp only: foldl.simps) blast
qed

lemma filter_delete_insert:
  "filter (\<lambda>x. k x \<notin> A) (sql_delete (\<lambda>x. k x = a) t) = filter (\<lambda>x. k x \<notin> insert a A) t"
  by (auto simp: sql_delete_def intro: filter_cong)

lemma delete_chunks_frame:
  "fst (foldl delete_chunk (db, n) cs)
     = db\<lparr>memories := filter (\<lambda>m. m_memory_id m \<notin> fst ` set cs) (memories db),
          vector_lookup := filter (\<lambda>v. v_memory_id v \<notin> fst ` set cs) (vector_lookup db),
          fts_memories := filter (\<lambda>f. f_rowid f \<notin> (\<lambda>c. fts_rowid (fst c)) ` set cs) (fts_memories db)\<rparr>"
proof (induction cs arbitrary: db n)
  case (Cons c cs)
  obtain cid v where c: "c = (cid, v)" by (cases c)
  let ?db = "db\<lparr>memories := sql_delete (\<lambda>m. m_memory_id m = cid) (memories db),
      vector_lookup := sql_delete (\<lambda>v. v_memory_id v = cid) (vector_lookup db),
      fts_memories := sql_delete (\<lambda>f. f_rowid f = fts_rowid cid) (fts_memories db)\<rparr>"
  obtain n' where "delete_chunk (db, n) c = (?db, n')"
    by (simp add: c delete_chunk_def)
  then show ?case
    using Cons.IH [of ?db n'] by (simp add: c filter_delete_insert del: insert_iff)
qed simp

lemma derived_chunks_ids:
  "fst ` set (derived_chunks mid db)
     = {i \<in> m_memory_id ` set (memories db). starts_with i (family_prefix mid)}"
proof -
  have F: "fst ` set (case filter (\<lambda>v. v_memory_id v = m_memory_id m) (vector_lookup db) of
      [] \<Rightarrow> [(m_memory_id m, None)] | vs \<Rightarrow> map (\<lambda>v. (m_memory_id m, Some (v_vector_id v))) vs)
    = {m_memory_id m}" for m :: memory_row
    by (cases "filter (\<lambda>v. v_memory_id v = m_memory_id m) (vector_lookup db)") (auto simp: image_image)
  show ?thesis
    unfolding derived_chunks_def set_concat image_Union set_map image_image F by auto
qed

subsection \<open>Edges\<close>

definition clean_edge :: "str \<Rightarrow> edge_row \<Rightarrow> bool" where
  "clean_edge mid x \<longleftrightarrow> \<not> opt_in_family mid (e_memory_id x) \<and> \<not> opt_in_family mid (e_ref_target x)"

lemma opt_in_family_iff: "opt_in_family mid x \<longleftrightarrow> (\<exists>i. x = Some i \<and> in_family mid i)"
proof (cases x)
  case None
  then show ?thesis
    by (simp add: opt_in_family_def coalesce_def starts_with_def family_prefix_def SEPARATOR_def)
next
  case (Some i)
  then show ?thesis by (simp add: opt_in_family_def in_family_def coalesce_def)
qed

lemma set_replace_fold:
  "x \<in> set (foldl (\<lambda>es v. case f v of None \<Rightarrow> es | Some y \<Rightarrow> sql_replace k y es) es vs) \<Longrightarrow>
     x \<in> set es \<or> (\<exists>v \<in> set vs. f v = Some x)"
proof (induction vs arbitrary: es)
  case (Cons v vs)
  show ?case
  proof (cases "f v")
    case None
    with Cons.IH [of es] Cons.prems show ?thesis by auto
  next
    case (Some y)
    with Cons.IH [of "sql_replace k y es"] Cons.prems show ?thesis
      by (auto simp: set_sql_replace)
  qed
qed simp

lemma clean_chain_edge:
  assumes "chain_edge v = Some x" and "\<not> in_family mid (fv_mid v)"
    and "\<forall>i \<in> set_option (fv_superseded_by v) \<union> set_option (fv_supersedes v). \<not> in_family mid i"
  shows "clean_edge mid x"
  using assms by (auto simp: chain_edge_def Let_def clean_edge_def opt_in_family_iff split: if_splits)

lemma clean_edges_rebuild:
  "fv_wf (versions (facts db)) \<Longrightarrow> \<forall>v \<in> set (versions (facts db)). \<not> in_family mid (fv_mid v) \<Longrightarrow>
     \<forall>x \<in> set (edges db). clean_edge mid x \<Longrightarrow>
     \<forall>x \<in> set (edges (foldl rebuild_fact_chain_after_delete db kes)). clean_edge mid x"
proof (induction kes arbitrary: db)
  case (Cons ke kes)
  obtain k e where ke: "ke = (k, e)" by (cases ke)
  let ?t = "versions (facts db)" and ?db = "rebuild_fact_chain_after_delete db ke"
  note one = rebuild_chain_one [OF Cons.prems(1), where k = k and e = e]
  have v': "versions (facts ?db) = rebuild_chain ?t (k, e)"
    by (simp add: ke rebuild_fact_chain_after_delete_def rebuild_chain_def Let_def)
  have ids: "row_id ` set (rebuild_chain ?t (k, e)) = row_id ` set ?t"
    using arg_cong [OF one(4), of set] by simp
  have mids: "fv_mid ` set (rebuild_chain ?t (k, e)) = fv_mid ` set ?t"
  proof -
    have "fv_mid ` A = (\<lambda>x. snd (fst x)) ` row_id ` A" for A
      by (simp add: image_image row_id_def fv_pk_def)
    then show ?thesis using ids by simp
  qed
  have outside: "\<not> in_family mid i" if "i \<in> fv_mid ` set ?t" for i
    using that Cons.prems(2) by blast
  have new: "clean_edge mid x" if "v \<in> set (chain (rebuild_chain ?t (k, e)) k e)" "chain_edge v = Some x" for v x
  proof -
    let ?c = "chain (rebuild_chain ?t (k, e)) k e"
    have "relink None ?c None = ?c" using one(2) by (simp add: relink_idem)
    from relink_pointers [OF this that(1)]
    have "set_option (fv_superseded_by v) \<union> set_option (fv_supersedes v) \<subseteq> fv_mid ` set ?c" by simp
    also have "\<dots> \<subseteq> fv_mid ` set ?t" using mids by auto
    finally have ptr: "set_option (fv_superseded_by v) \<union> set_option (fv_supersedes v) \<subseteq> fv_mid ` set ?t" .
    have "fv_mid v \<in> fv_mid ` set ?t" using that(1) mids by auto
    with ptr outside show ?thesis by (intro clean_chain_edge [OF that(2)]) blast+
  qed
  have "\<forall>x \<in> set (edges ?db). clean_edge mid x"
  proof
    fix x assume "x \<in> set (edges ?db)"
    moreover have "edges ?db = foldl (\<lambda>es v. case chain_edge v of None \<Rightarrow> es | Some y \<Rightarrow> sql_replace e_edge_id y es)
        (edges db) (filter (in_chain k e) (rebuild_chain ?t (k, e)))"
      by (simp add: ke rebuild_fact_chain_after_delete_def rebuild_chain_def Let_def)
    ultimately have "x \<in> set (edges db) \<or> (\<exists>v \<in> set (filter (in_chain k e) (rebuild_chain ?t (k, e))). chain_edge v = Some x)"
      by (intro set_replace_fold) simp
    then show "clean_edge mid x" using Cons.prems(3) new by auto
  qed
  moreover have "\<forall>v \<in> set (versions (facts ?db)). \<not> in_family mid (fv_mid v)"
    using outside mids unfolding v' by blast
  moreover have "fv_wf (versions (facts ?db))" unfolding v' by (rule one(1))
  ultimately show ?case using Cons.IH by simp
qed simp

subsection \<open>Routers and profiles\<close>

definition clean_router :: "(str \<Rightarrow> SessionRouterRecord option) \<Rightarrow> str \<Rightarrow> router_row \<Rightarrow> bool" where
  "clean_router fj mid x \<longleftrightarrow>
     (\<forall>r. fj (r_record_json x) = Some r \<longrightarrow> (\<forall>i \<in> set (sr_source_memory_ids r). \<not> in_family mid i))"

definition own_fragments :: "(str \<Rightarrow> SessionRouterRecord option) \<Rightarrow> router_source_row list \<Rightarrow> bool" where
  "own_fragments fj ss \<longleftrightarrow>
     (\<forall>s \<in> set ss. \<forall>r. fj (s_record_json s) = Some r \<longrightarrow> set (sr_source_memory_ids r) \<subseteq> {s_memory_id s})"

lemma set_upsert_router:
  "x \<in> set (upsert_router r t) \<Longrightarrow>
     (x \<in> set t \<and> router_pk x \<noteq> router_pk r) \<or> (router_pk x = router_pk r \<and> r_record_json x = r_record_json r)"
  by (auto simp: upsert_router_def set_sql_update router_pk_def split: if_splits)

lemma set_map_filter: "set (List.map_filter f xs) = {y. \<exists>x \<in> set xs. f x = Some y}"
  by (induction xs) (auto simp: List.map_filter_def split: option.splits)

lemma rebuild_router_step:
  assumes json: "\<forall>r r'. fj (tj r) = Some r' \<longrightarrow> r' = r"
    and own: "own_fragments fj (session_router_sources db)"
    and src: "\<forall>s \<in> set (session_router_sources db). \<not> in_family mid (s_memory_id s)"
    and x: "x \<in> set (session_router (rebuild_router_after_delete tj fj db se))"
  shows "(x \<in> set (session_router db) \<and> router_pk x \<noteq> se) \<or> clean_router fj mid x"
proof -
  obtain a b where se: "se = (a, b)" by (cases se)
  show ?thesis
  proof (cases "router_fragments fj db a b")
    case Nil
    then show ?thesis
      using x by (auto simp: se rebuild_router_after_delete_def set_sql_delete router_pk_def)
  next
    case (Cons r rs)
    let ?m = "foldl merge_router_records r rs"
    have frag: "\<forall>i \<in> set (sr_source_memory_ids q). \<not> in_family mid i" if "q \<in> set (r # rs)" for q
    proof -
      from that Cons have "q \<in> set (router_fragments fj db a b)" by simp
      then obtain s where "s \<in> set (session_router_sources db)" "fj (s_record_json s) = Some q"
        by (auto simp: router_fragments_def set_map_filter)
      with own src show ?thesis by (auto simp: own_fragments_def)
    qed
    have "\<forall>i \<in> set (sr_source_memory_ids ?m). \<not> in_family mid i"
      unfolding fold_merge_sources using frag by auto
    then have "clean_router fj mid y"
      if "r_record_json y = tj (?m\<lparr>sr_router_text := build_session_router_text ?m\<rparr>)" for y
      unfolding clean_router_def that by (auto dest!: json [rule_format])
    then show ?thesis
      using x Cons by (auto simp: se rebuild_router_after_delete_def Let_def router_pk_def
        dest!: set_upsert_router)
  qed
qed

lemma rebuild_routers_clean:
  assumes json: "\<forall>r r'. fj (tj r) = Some r' \<longrightarrow> r' = r"
  shows "own_fragments fj (session_router_sources db) \<Longrightarrow>
     \<forall>s \<in> set (session_router_sources db). \<not> in_family mid (s_memory_id s) \<Longrightarrow>
     \<forall>x \<in> set (session_router db). router_pk x \<in> set ses \<or> clean_router fj mid x \<Longrightarrow>
     \<forall>x \<in> set (session_router (foldl (rebuild_router_after_delete tj fj) db ses)). clean_router fj mid x"
proof (induction ses arbitrary: db)
  case (Cons se ses)
  let ?db = "rebuild_router_after_delete tj fj db se"
  obtain f r g where "?db = db\<lparr>fts_memories := f, session_router := r, fts_session_router := g\<rparr>"
    using rebuild_routers_frame [of tj fj db "[se]"] by auto
  then have src: "session_router_sources ?db = session_router_sources db" by simp
  have "\<forall>x \<in> set (session_router ?db). router_pk x \<in> set ses \<or> clean_router fj mid x"
    using rebuild_router_step [OF json Cons.prems(1,2)] Cons.prems(3) by fastforce
  with Cons.IH [of ?db] Cons.prems(1,2) src show ?case by simp
qed simp

definition clean_core_profile :: "(str \<Rightarrow> json option) \<Rightarrow> str \<Rightarrow> str \<times> str \<times> int \<Rightarrow> bool" where
  "clean_core_profile parse mid row \<longleftrightarrow>
     (\<forall>p fs. parse (fst (snd row)) = Some p \<longrightarrow> json_get ''facts'' p = Some (JArray fs) \<longrightarrow>
        list_all (keeps_fact mid) fs)"

lemma json_get_set: "json_get k p = Some v \<Longrightarrow> json_get k (json_set k w p) = Some w"
  by (cases p) (simp_all add: update_conv)

lemma clean_profile_clean:
  assumes json: "\<forall>p p'. parse (print p) = Some p' \<longrightarrow> p' = p"
  shows "clean_core_profile parse mid (clean_profile parse print now mid row)"
proof -
  obtain e pj u where row: "row = (e, pj, u)" by (cases row)
  show ?thesis
  proof (cases "parse pj")
    case None
    then show ?thesis by (simp add: row clean_profile_def clean_core_profile_def)
  next
    case (Some p)
    show ?thesis
    proof (cases "\<exists>fs. json_get ''facts'' p = Some (JArray fs)")
      case False
      then have "clean_profile parse print now mid row = row"
        using Some by (auto simp: row clean_profile_def split: option.splits json.splits)
      with False Some show ?thesis by (auto simp: row clean_core_profile_def)
    next
      case True
      then obtain fs where fs: "json_get ''facts'' p = Some (JArray fs)" by blast
      show ?thesis
      proof (cases "length (filter (keeps_fact mid) fs) = length fs")
        case True
        then have "list_all (keeps_fact mid) fs"
          by (metis filter_id_conv length_filter_less list_all_iff nat_neq_iff)
        with True Some fs show ?thesis by (simp add: row clean_profile_def clean_core_profile_def)
      next
        case False
        with Some fs json_get_set [OF fs] show ?thesis
          by (auto simp: row clean_profile_def clean_core_profile_def Let_def list_all_iff
            dest!: json [rule_format])
      qed
    qed
  qed
qed

subsection \<open>The whole deletion\<close>

lemma filter_twice:
  "filter (\<lambda>x. f x \<notin> {i \<in> f ` set (filter (\<lambda>x. f x \<noteq> mid) t). starts_with i (family_prefix mid)})
     (filter (\<lambda>x. f x \<noteq> mid) t) = filter (\<lambda>x. \<not> in_family mid (f x)) t"
  by (auto simp: in_family_def intro!: filter_cong)

text \<open>The stages of \<open>delete_observation\<close>: after the family, the chains, the profiles, the routers.\<close>

definition stage_family :: "(DeletionTombstone \<Rightarrow> str) \<Rightarrow> u64 \<Rightarrow> str \<Rightarrow> str \<Rightarrow> store \<Rightarrow> store" where
  "stage_family tomb now mid reason db = delete_family mid (delete_self mid (write_tombstone tomb now mid reason db))"

definition stage_chains :: "(DeletionTombstone \<Rightarrow> str) \<Rightarrow> u64 \<Rightarrow> str \<Rightarrow> str \<Rightarrow> store \<Rightarrow> store" where
  "stage_chains tomb now mid reason db =
     foldl rebuild_fact_chain_after_delete (stage_family tomb now mid reason db) (affected_facts mid db)"

definition stage_profiles ::
  "(DeletionTombstone \<Rightarrow> str) \<Rightarrow> (str \<Rightarrow> json option) \<Rightarrow> (json \<Rightarrow> str) \<Rightarrow> u64 \<Rightarrow> str \<Rightarrow> str \<Rightarrow> store \<Rightarrow> store" where
  "stage_profiles tomb parse print now mid reason db =
     remove_deleted_from_core_profiles parse print (as_i64 now) mid
       (delete_sources mid (stage_chains tomb now mid reason db))"

definition stage_routers ::
  "(DeletionTombstone \<Rightarrow> str) \<Rightarrow> (SessionRouterRecord \<Rightarrow> str) \<Rightarrow> (str \<Rightarrow> SessionRouterRecord option)
     \<Rightarrow> (str \<Rightarrow> json option) \<Rightarrow> (json \<Rightarrow> str) \<Rightarrow> u64 \<Rightarrow> str \<Rightarrow> str \<Rightarrow> store \<Rightarrow> store" where
  "stage_routers tomb tj fj parse print now mid reason db =
     foldl (rebuild_router_after_delete tj fj) (stage_profiles tomb parse print now mid reason db)
       (affected_routers fj mid db)"

lemma delete_observation_stages:
  "\<exists>n cs. fst ` set cs = {i \<in> m_memory_id ` set (filter (\<lambda>m. m_memory_id m \<noteq> mid) (memories db)).
        starts_with i (family_prefix mid)}
     \<and> fst (delete_observation tomb tj fj parse print now mid reason db)
       = fst (foldl delete_chunk (stage_routers tomb tj fj parse print now mid reason db, n) cs)"
proof -
  let ?db2 = "delete_self mid (write_tombstone tomb now mid reason db)"
  have hits: "affected_facts mid ?db2 = affected_facts mid db"
    "affected_routers fj mid ?db2 = affected_routers fj mid db"
    by (simp_all add: affected_facts_def affected_routers_def delete_self_def write_tombstone_def)
  have "fst ` set (derived_chunks mid ?db2)
      = {i \<in> m_memory_id ` set (filter (\<lambda>m. m_memory_id m \<noteq> mid) (memories db)). starts_with i (family_prefix mid)}"
    by (simp add: derived_chunks_ids delete_self_def write_tombstone_def sql_delete_def)
  moreover have "fst (delete_observation tomb tj fj parse print now mid reason db)
      = fst (foldl delete_chunk (stage_routers tomb tj fj parse print now mid reason db,
          length (filter (\<lambda>f. f_rowid f = fts_rowid mid) (fts_memories db))) (derived_chunks mid ?db2))"
    unfolding delete_observation_def Let_def hits stage_routers_def stage_profiles_def stage_chains_def
      stage_family_def by (simp add: split_beta)
  ultimately show ?thesis by blast
qed

lemma stage_chains_frame:
  "\<exists>es. stage_chains tomb now mid reason db = (stage_family tomb now mid reason db)
     \<lparr>edges := es,
      facts := \<lparr>versions = deleted_versions mid (versions (facts db)),
               evidence = filter (\<lambda>x. \<not> in_family mid (fe_mid x) \<and> \<not> in_family mid (fe_version x))
                 (evidence (facts db))\<rparr>\<rparr>"
proof -
  obtain es where "stage_chains tomb now mid reason db = (stage_family tomb now mid reason db)
     \<lparr>edges := es, facts := (facts (stage_family tomb now mid reason db))
        \<lparr>versions := foldl rebuild_chain (versions (facts (stage_family tomb now mid reason db))) (affected_facts mid db)\<rparr>\<rparr>"
    unfolding stage_chains_def using rebuild_facts_frame by blast
  then show ?thesis
    by (simp add: stage_family_def delete_family_def delete_self_def write_tombstone_def sql_delete_def
      deleted_versions_def affected_facts_def) blast
qed

definition deleted_from :: "str \<Rightarrow> store \<Rightarrow> store \<Rightarrow> bool" where
  "deleted_from mid db db' \<longleftrightarrow>
     (let out = (\<lambda>x. \<not> in_family mid x) in
      memories db' = filter (\<lambda>m. out (m_memory_id m)) (memories db)
      \<and> vector_lookup db' = filter (\<lambda>v. out (v_memory_id v)) (vector_lookup db)
      \<and> memory_cards db' = filter (\<lambda>c. out (c_card_id c) \<and> c_source_memory_id c \<noteq> mid) (memory_cards db)
      \<and> metrics db' = filter (\<lambda>x. out (x_memory_id x)) (metrics db)
      \<and> preferences db' = filter (\<lambda>(_, m, _). out m) (preferences db)
      \<and> memory_links db' = filter (\<lambda>(s, t, _). out s \<and> out t) (memory_links db)
      \<and> consolidation_queue db' = filter (\<lambda>q. out (q_memory_id q)) (consolidation_queue db)
      \<and> negative_centroids db' = filter (\<lambda>(_, m, _). out m) (negative_centroids db)
      \<and> disambiguation_vectors db' = filter (\<lambda>(_, m, _). out m) (disambiguation_vectors db)
      \<and> session_router_sources db' = filter (\<lambda>s. out (s_memory_id s)) (session_router_sources db)
      \<and> evidence (facts db') = filter (\<lambda>x. out (fe_mid x) \<and> out (fe_version x)) (evidence (facts db))
      \<and> versions (facts db') = deleted_versions mid (versions (facts db)))"

lemma delete_observation_tables:
  assumes vec: "v_memory_id ` set (vector_lookup db) \<subseteq> m_memory_id ` set (memories db)"
  shows "deleted_from mid db (fst (delete_observation tomb tj fj parse print now mid reason db))"
proof -
  obtain n cs where cs: "fst ` set cs = {i \<in> m_memory_id ` set (filter (\<lambda>m. m_memory_id m \<noteq> mid) (memories db)).
        starts_with i (family_prefix mid)}"
    and db': "fst (delete_observation tomb tj fj parse print now mid reason db)
       = fst (foldl delete_chunk (stage_routers tomb tj fj parse print now mid reason db, n) cs)"
    using delete_observation_stages by blast
  obtain f r g where db7: "stage_routers tomb tj fj parse print now mid reason db
      = (stage_profiles tomb parse print now mid reason db)
          \<lparr>fts_memories := f, session_router := r, fts_session_router := g\<rparr>"
    unfolding stage_routers_def using rebuild_routers_frame by blast
  obtain es where db4: "stage_chains tomb now mid reason db = (stage_family tomb now mid reason db)
     \<lparr>edges := es,
      facts := \<lparr>versions = deleted_versions mid (versions (facts db)),
               evidence = filter (\<lambda>x. \<not> in_family mid (fe_mid x) \<and> \<not> in_family mid (fe_version x))
                 (evidence (facts db))\<rparr>\<rparr>"
    using stage_chains_frame by blast
  note frames = db' delete_chunks_frame db7 stage_profiles_def remove_deleted_from_core_profiles_def
    delete_sources_def db4 stage_family_def delete_family_def delete_self_def write_tombstone_def
  have self: "in_family mid x \<longleftrightarrow> x = mid \<or> starts_with x (family_prefix mid)" for x
    by (simp add: in_family_def)
  have m: "filter (\<lambda>m. m_memory_id m \<notin> fst ` set cs) (filter (\<lambda>m. m_memory_id m \<noteq> mid) (memories db))
      = filter (\<lambda>m. \<not> in_family mid (m_memory_id m)) (memories db)"
    unfolding cs by (auto simp: self intro!: filter_cong)
  have v: "filter (\<lambda>v. v_memory_id v \<notin> fst ` set cs) (filter (\<lambda>v. v_memory_id v \<noteq> mid) (vector_lookup db))
      = filter (\<lambda>v. \<not> in_family mid (v_memory_id v)) (vector_lookup db)"
    unfolding cs using vec by (auto simp: self intro!: filter_cong)
  show ?thesis
    unfolding deleted_from_def Let_def
    using m v by (auto simp: frames sql_delete_def self intro!: filter_cong)
qed

subsection \<open>Properties\<close>

lemma final_frame:
  "\<exists>m v f. fst (delete_observation tomb tj fj parse print now mid reason db)
     = (stage_routers tomb tj fj parse print now mid reason db)
         \<lparr>memories := m, vector_lookup := v, fts_memories := f\<rparr>"
proof -
  obtain n cs where "fst (delete_observation tomb tj fj parse print now mid reason db)
       = fst (foldl delete_chunk (stage_routers tomb tj fj parse print now mid reason db, n) cs)"
    using delete_observation_stages by blast
  then show ?thesis unfolding delete_chunks_frame by blast
qed

lemma routers_frame_final:
  "\<exists>f r g. stage_routers tomb tj fj parse print now mid reason db
     = (stage_profiles tomb parse print now mid reason db)
         \<lparr>fts_memories := f, session_router := r, fts_session_router := g\<rparr>"
  unfolding stage_routers_def by (rule rebuild_routers_frame)

lemma final_sel:
  "edges (fst (delete_observation tomb tj fj parse print now mid reason db))
     = edges (stage_chains tomb now mid reason db)"
  "session_router (fst (delete_observation tomb tj fj parse print now mid reason db))
     = session_router (stage_routers tomb tj fj parse print now mid reason db)"
  "core_profiles (fst (delete_observation tomb tj fj parse print now mid reason db))
     = map (clean_profile parse print (as_i64 now) mid) (core_profiles (stage_chains tomb now mid reason db))"
proof -
  obtain m v f where 1: "fst (delete_observation tomb tj fj parse print now mid reason db)
     = (stage_routers tomb tj fj parse print now mid reason db)
         \<lparr>memories := m, vector_lookup := v, fts_memories := f\<rparr>"
    using final_frame by blast
  obtain f' r g where 2: "stage_routers tomb tj fj parse print now mid reason db
     = (stage_profiles tomb parse print now mid reason db)
         \<lparr>fts_memories := f', session_router := r, fts_session_router := g\<rparr>"
    using routers_frame_final by blast
  show "edges (fst (delete_observation tomb tj fj parse print now mid reason db))
     = edges (stage_chains tomb now mid reason db)"
    and "core_profiles (fst (delete_observation tomb tj fj parse print now mid reason db))
     = map (clean_profile parse print (as_i64 now) mid) (core_profiles (stage_chains tomb now mid reason db))"
    unfolding 1 by (simp_all add: 2 stage_profiles_def remove_deleted_from_core_profiles_def delete_sources_def)
  show "session_router (fst (delete_observation tomb tj fj parse print now mid reason db))
     = session_router (stage_routers tomb tj fj parse print now mid reason db)"
    unfolding 1 by simp
qed

lemma stage_chains_edges:
  assumes ok: "fv_ok (versions (facts db))"
  shows "\<forall>x \<in> set (edges (stage_chains tomb now mid reason db)). clean_edge mid x"
proof -
  let ?db = "stage_family tomb now mid reason db"
  have v: "versions (facts ?db) = filter (\<lambda>v. \<not> in_family mid (fv_mid v)) (versions (facts db))"
    by (simp add: stage_family_def delete_family_def delete_self_def write_tombstone_def sql_delete_def)
  have "\<forall>x \<in> set (edges ?db). clean_edge mid x"
    by (simp add: stage_family_def delete_family_def delete_self_def write_tombstone_def sql_delete_def
      clean_edge_def)
  moreover have "fv_wf (versions (facts ?db))"
    unfolding v using ok by (simp add: fv_ok_def fv_wf_filter)
  ultimately show ?thesis
    unfolding stage_chains_def by (intro clean_edges_rebuild) (simp_all add: v)
qed


text \<open>
  C3. Deleting a memory keeps the fact registry sound: all chains stay linked (current, stale,
  validity windows and both pointers agree with the order of the versions), the history of
  every fact is its old history without the deleted memories, and no version still names a
  deleted memory as its successor or predecessor.
\<close>

theorem deletion_relinks_facts:
  assumes vec: "v_memory_id ` set (vector_lookup db) \<subseteq> m_memory_id ` set (memories db)"
    and ok: "fv_ok (versions (facts db))"
    and t_def: "t = versions (facts (fst (delete_observation tomb tj fj parse print now mid reason db)))"
  shows "fv_ok t
     \<and> (\<forall>k e. history t k e = filter (\<lambda>(i, _). \<not> in_family mid i) (history (versions (facts db)) k e))
     \<and> (\<forall>v \<in> set t. \<forall>i \<in> set_option (fv_superseded_by v) \<union> set_option (fv_supersedes v). \<not> in_family mid i)"
proof -
  have t: "t = deleted_versions mid (versions (facts db))"
    using delete_observation_tables [OF vec] by (simp add: t_def deleted_from_def Let_def)
  note laws = deleted_versions_laws [OF ok, of mid]
  have "\<not> in_family mid i"
    if "v \<in> set t" "i \<in> set_option (fv_superseded_by v) \<union> set_option (fv_supersedes v)" for v i
  proof -
    from that pointers_in_table [of t v] laws(1) have "i \<in> fv_mid ` set t" by (auto simp: t)
    then show ?thesis using deleted_versions_mids [OF ok] by (auto simp: t)
  qed
  then show ?thesis using laws(1,2) by (simp add: t)
qed

lemma stage_profiles_routers:
  "session_router (stage_profiles tomb parse print now mid reason db) = session_router db"
  "session_router_sources (stage_profiles tomb parse print now mid reason db)
     = filter (\<lambda>s. \<not> in_family mid (s_memory_id s)) (session_router_sources db)"
proof -
  obtain es fv where "stage_chains tomb now mid reason db = (stage_family tomb now mid reason db)
     \<lparr>edges := es, facts := fv\<rparr>"
    using stage_chains_frame by blast
  then show "session_router (stage_profiles tomb parse print now mid reason db) = session_router db"
    and "session_router_sources (stage_profiles tomb parse print now mid reason db)
      = filter (\<lambda>s. \<not> in_family mid (s_memory_id s)) (session_router_sources db)"
    by (simp_all add: stage_profiles_def remove_deleted_from_core_profiles_def delete_sources_def
      stage_family_def delete_family_def delete_self_def write_tombstone_def sql_delete_def)
qed

text \<open>
  C10. Deleting a memory leaves no trace of it in the documents that aggregate memories: every
  session router that survives lists only memories outside the family among its sources, and
  no core profile keeps a fact of a deleted memory, provided the JSON codecs read back what
  they print and every router fragment names its own memory.
\<close>

theorem deletion_cleans_aggregates:
  assumes routers: "\<forall>r r'. fj (tj r) = Some r' \<longrightarrow> r' = r"
    and profiles: "\<forall>p p'. parse (print p) = Some p' \<longrightarrow> p' = p"
    and own: "own_fragments fj (session_router_sources db)"
    and db'_def: "db' = fst (delete_observation tomb tj fj parse print now mid reason db)"
  shows "(\<forall>x \<in> set (session_router db'). clean_router fj mid x)
     \<and> (\<forall>x \<in> set (core_profiles db'). clean_core_profile parse mid x)"
proof
  let ?p = "stage_profiles tomb parse print now mid reason db"
  have "clean_router fj mid x" if "x \<in> set (session_router db)" "router_pk x \<notin> set (affected_routers fj mid db)" for x
  proof -
    have "\<not> list_ex (in_family mid) (sr_source_memory_ids r)" if "fj (r_record_json x) = Some r" for r
      using \<open>x \<in> set (session_router db)\<close> \<open>router_pk x \<notin> set (affected_routers fj mid db)\<close> that
      unfolding affected_routers_def by (auto simp: image_iff dest!: spec [where x = x])
    then show ?thesis by (auto simp: clean_router_def list_ex_iff)
  qed
  moreover have "own_fragments fj (session_router_sources ?p)"
    using own by (simp add: stage_profiles_routers own_fragments_def)
  ultimately show "\<forall>x \<in> set (session_router db'). clean_router fj mid x"
    unfolding db'_def final_sel stage_routers_def
    by (intro rebuild_routers_clean [OF routers]) (auto simp: stage_profiles_routers)
  show "\<forall>x \<in> set (core_profiles db'). clean_core_profile parse mid x"
    unfolding db'_def final_sel by (auto intro: clean_profile_clean [OF profiles])
qed

definition sample_memory :: "int \<Rightarrow> str \<Rightarrow> memory_row" where
  "sample_memory n i =
     \<lparr>m_rowid = n, m_memory_id = i, m_entity_id = ''e'', m_content = ''text'', m_kind = ''fact'',
      m_content_hash = [], m_created_at_ms = 10, m_recorded_at_ms = 40, m_expires_at_ms = None,
      m_session_id = ''s'', m_turn_index = 0, m_role = ''user'', m_parent_memory_id = None, m_indexed = 1\<rparr>"

definition sample_fragment :: SessionRouterRecord where
  "sample_fragment =
     \<lparr>sr_session_id = ''s'', sr_entity_id = ''e'', sr_session_date = [], sr_document_time_ms = 1,
      sr_speakers = [], sr_persons = [], sr_session_focus = [], sr_canonical_facts = [],
      sr_events = [], sr_objects = [], sr_places = [], sr_activities = [],
      sr_preference_signals = [], sr_salient_terms = [], sr_source_memory_ids = [''m2''],
      sr_router_text = [], sr_created_at_ms = 1, sr_updated_at_ms = 2\<rparr>"

definition sample_profile :: "str list \<Rightarrow> json" where
  "sample_profile is = JObject [(''facts'', JArray (map (\<lambda>i. JObject [(''memory_id'', JString i)]) is))]"

definition sample_store :: store where
  "sample_store = empty_store
     \<lparr>memories := [sample_memory 1 ''m1'', sample_memory 2 ''m1::chunk::0'', sample_memory 3 ''m2''],
      memories_seq := 3,
      vector_lookup := [\<lparr>v_vector_id = 7, v_memory_id = ''m1::chunk::0'', v_entity_id = ''e'',
        v_timestamp_ms = 10, v_embedding = []\<rparr>],
      session_router := [\<lparr>r_session_id = ''s'', r_entity_id = ''e'', r_record_json = ''X'',
        r_router_text = [], r_created_at_ms = 1, r_updated_at_ms = 2\<rparr>],
      session_router_sources :=
        [\<lparr>s_session_id = ''s'', s_entity_id = ''e'', s_memory_id = ''m1'', s_record_json = []\<rparr>,
         \<lparr>s_session_id = ''s'', s_entity_id = ''e'', s_memory_id = ''m2'', s_record_json = ''X''\<rparr>],
      core_profiles := [(''e'', ''P'', 5)],
      facts := \<lparr>versions = sample_versions, evidence = []\<rparr>\<rparr>"

definition read_router :: "str \<Rightarrow> SessionRouterRecord option" where
  "read_router s = (if s = ''X'' then Some sample_fragment else None)"

definition show_router :: "SessionRouterRecord \<Rightarrow> str" where
  "show_router r = (if r = sample_fragment then ''X'' else [])"

definition read_profile :: "str \<Rightarrow> json option" where
  "read_profile s = (if s = ''P'' then Some (sample_profile [''m1'', ''m2''])
     else if s = ''Q'' then Some (sample_profile [''m2'']) else None)"

definition show_profile :: "json \<Rightarrow> str" where
  "show_profile p = (if p = sample_profile [''m1'', ''m2''] then ''P''
     else if p = sample_profile [''m2''] then ''Q'' else [])"

lemma sample_store_ok:
  "v_memory_id ` set (vector_lookup sample_store) \<subseteq> m_memory_id ` set (memories sample_store)"
  "fv_ok (versions (facts sample_store))"
  "history (versions (facts sample_store)) ''u:city'' ''e'' = [(''m1'', 10, ''Oslo''), (''m2'', 30, ''Rome'')]"
  by (simp_all add: sample_store_def sample_memory_def sample_versions_ok history_def chain_sample)
    (simp_all add: sample_versions_def coalesce_def)

lemma sample_codecs:
  "\<forall>r r'. read_router (show_router r) = Some r' \<longrightarrow> r' = r"
  "\<forall>p p'. read_profile (show_profile p) = Some p' \<longrightarrow> p' = p"
  "own_fragments read_router (session_router_sources sample_store)"
  by (simp_all add: read_router_def show_router_def read_profile_def show_profile_def
    own_fragments_def sample_store_def sample_fragment_def)

definition sample_deletion :: store where
  "sample_deletion =
     fst (delete_observation (\<lambda>_. []) show_router read_router read_profile show_profile 50 ''m1'' ''test'' sample_store)"


lemma deletion_relinks_facts_witness:
  "fv_ok (versions (facts sample_deletion))
     \<and> history (versions (facts sample_deletion)) ''u:city'' ''e'' = [(''m2'', 30, ''Rome'')]"
proof -
  have "\<not> in_family ''m1'' ''m2''" by code_simp
  then show ?thesis
    using deletion_relinks_facts [OF sample_store_ok(1,2), of "versions (facts sample_deletion)"
      "\<lambda>_. []" show_router read_router read_profile show_profile 50 "''m1''" "''test''"]
    by (simp add: sample_deletion_def sample_store_ok(3))
qed

lemma deletion_cleans_aggregates_witness:
  "list_all (clean_router read_router ''m1'') (session_router sample_deletion)
     \<and> list_all (clean_core_profile read_profile ''m1'') (core_profiles sample_deletion)"
  using deletion_cleans_aggregates [OF sample_codecs sample_deletion_def] by (simp add: list_all_iff)

end
