(* ===== verification/Calendar.thy ===== *)
theory Calendar
  imports Rust_String Router "HOL-Library.Signed_Division"
begin

section \<open>Calendar arithmetic and temporal windows\<close>

text \<open>
  Models \<open>src/core/calendar.rs\<close>: the day number of a date and the window of time a query
  asks about.  Years are \<open>int\<close> in the range of \<open>i32\<close>, months and days are \<open>nat\<close>, times are
  \<open>u64\<close> words with the release profile's wrap-around; \<open>i64\<close> division truncates.  In the unit
  of \<open>last n days\<close> a non-ASCII character counts as a letter.
\<close>

definition MONTHS :: "str list" where
  "MONTHS = [''january'', ''february'', ''march'', ''april'', ''may'', ''june'', ''july'',
     ''august'', ''september'', ''october'', ''november'', ''december'']"

definition MILLIS_PER_DAY :: u64 where
  "MILLIS_PER_DAY = 86400000"

definition MIN_YEAR :: int where "MIN_YEAR = 1990"

definition MAX_YEAR :: int where "MAX_YEAR = 2100"

definition month_index :: "str \<Rightarrow> nat option" where
  "month_index value =
     (let month = to_ascii_lowercase (trim_matches (\<lambda>c. \<not> is_alpha c) value) in
      if month \<in> {''jan'', ''january''} then Some 1
      else if month \<in> {''feb'', ''february''} then Some 2
      else if month \<in> {''mar'', ''march''} then Some 3
      else if month \<in> {''apr'', ''april''} then Some 4
      else if month = ''may'' then Some 5
      else if month \<in> {''jun'', ''june''} then Some 6
      else if month \<in> {''jul'', ''july''} then Some 7
      else if month \<in> {''aug'', ''august''} then Some 8
      else if month \<in> {''sep'', ''sept'', ''september''} then Some 9
      else if month \<in> {''oct'', ''october''} then Some 10
      else if month \<in> {''nov'', ''november''} then Some 11
      else if month \<in> {''dec'', ''december''} then Some 12
      else None)"

definition days_in_month :: "int \<Rightarrow> nat \<Rightarrow> nat" where
  "days_in_month year month =
     (if month \<in> {1, 3, 5, 7, 8, 10, 12} then 31
      else if month = 2
      then (if (year mod 4 = 0 \<and> year mod 100 \<noteq> 0) \<or> year mod 400 = 0 then 29 else 28)
      else 30)"

definition days_since_epoch :: "int \<Rightarrow> nat \<Rightarrow> nat \<Rightarrow> int" where
  "days_since_epoch year month day =
     (let a = (14 - int month) sdiv 12;
          y = year + 4800 - a;
          m = int month + 12 * a - 3;
          jdn = int day + (153 * m + 2) sdiv 5 + 365 * y + y sdiv 4 - y sdiv 100 + y sdiv 400 - 32045
      in jdn - 2440588)"

definition month_to_ms :: "int \<Rightarrow> nat \<Rightarrow> nat \<Rightarrow> u64" where
  "month_to_ms year month day = as_u64 (days_since_epoch year month day) * MILLIS_PER_DAY"

subsection \<open>Temporal terms\<close>

definition temporal_terms :: "str list" where
  "temporal_terms = [''spring'', ''summer'', ''fall'', ''autumn'', ''winter'', ''weekend'', ''week'',
     ''month'', ''year'', ''yesterday'', ''today'', ''tomorrow'', ''recently'', ''latest'', ''last'', ''recent'']"

definition extract_temporal_terms :: "str \<Rightarrow> str list" where
  "extract_temporal_terms query =
     (let lower = to_ascii_lowercase query in
      dedupe_append []
        (filter (\<lambda>t. length t = 4 \<and> list_all is_digit t) (split_if (\<lambda>c. \<not> is_alnum c) lower)
         @ filter (contains lower) MONTHS
         @ filter (contains lower) temporal_terms))"

subsection \<open>Windows\<close>

text \<open>A token \<open>year-month-day\<close> or \<open>year/month/day\<close>.\<close>

definition explicit_date_window :: "str \<Rightarrow> (u64 \<times> u64) option" where
  "explicit_date_window token =
     (let clean = trim_matches (\<lambda>c. \<not> is_alnum c \<and> c \<noteq> CHR ''/'' \<and> c \<noteq> CHR ''-'') token in
      case split_if (\<lambda>c. c = CHR ''/'' \<or> c = CHR ''-'') clean of
        [p, q, r] \<Rightarrow>
          (case (parse_i32 p, parse_unsigned 32 q, parse_unsigned 32 r) of
             (Some y, Some m, Some d) \<Rightarrow>
               if MIN_YEAR \<le> y \<and> y \<le> MAX_YEAR \<and> 1 \<le> m \<and> m \<le> 12 \<and> 1 \<le> d \<and> d \<le> 31
               then (let start = month_to_ms y m (min d (days_in_month y m))
                     in Some (start, start + MILLIS_PER_DAY))
               else None
           | _ \<Rightarrow> None)
      | _ \<Rightarrow> None)"

definition year_of_token :: "str \<Rightarrow> int option" where
  "year_of_token token =
     (let digits = filter is_digit token in
      if length digits = 4
      then (case parse_i32 digits of
              Some y \<Rightarrow> if MIN_YEAR \<le> y \<and> y \<le> MAX_YEAR then Some y else None
            | None \<Rightarrow> None)
      else None)"

definition day_of_token :: "str \<Rightarrow> nat option" where
  "day_of_token token =
     (let digits = filter is_digit token in
      if length digits \<le> 2
      then (case parse_unsigned 32 digits of
              Some d \<Rightarrow> if 1 \<le> d \<and> d \<le> 31 then Some d else None
            | None \<Rightarrow> None)
      else None)"

definition season_window :: "str \<Rightarrow> int \<Rightarrow> (u64 \<times> u64) option" where
  "season_window lower year =
     find_map (\<lambda>(season, start_month, end_month).
         if contains lower season
         then (let end_year = (if end_month < start_month then year + 1 else year)
               in Some (month_to_ms year start_month 1,
                        month_to_ms end_year end_month (days_in_month end_year end_month) + MILLIS_PER_DAY))
         else None)
       [(''spring'', 3, 5), (''summer'', 6, 8), (''fall'', 9, 11), (''autumn'', 9, 11), (''winter'', 12, 2)]"

definition found_month :: "str \<Rightarrow> str list \<Rightarrow> nat option" where
  "found_month lower tokens =
     (case find_map month_index tokens of
        Some m \<Rightarrow> Some m
      | None \<Rightarrow> find_map (\<lambda>(i, m). if contains lower m then Some (i + 1) else None) (enumerate 0 MONTHS))"

definition month_window :: "str \<Rightarrow> str list \<Rightarrow> int \<Rightarrow> nat \<Rightarrow> u64 \<times> u64" where
  "month_window lower tokens year month =
     (let dom = days_in_month year month in
      if contains lower ''last week''
      then (month_to_ms year month (max (dom - 6) 1), month_to_ms year month dom + MILLIS_PER_DAY)
      else if contains lower ''first week''
      then (month_to_ms year month 1, month_to_ms year month 7 + MILLIS_PER_DAY)
      else (case find_map day_of_token tokens of
              Some day \<Rightarrow> (month_to_ms year month (min day dom),
                           month_to_ms year month (min day dom) + MILLIS_PER_DAY)
            | None \<Rightarrow> (month_to_ms year month 1, month_to_ms year month dom + MILLIS_PER_DAY)))"

definition is_alphabetic_byte :: "char \<Rightarrow> bool" where
  "is_alphabetic_byte c \<longleftrightarrow> is_alpha c \<or> 128 \<le> code c"

fun last_n_window :: "u64 \<Rightarrow> str list \<Rightarrow> (u64 \<times> u64) option" where
  "last_n_window ref (a # b # c # ts) =
     (let unit = trim_matches (\<lambda>x. \<not> is_alphabetic_byte x) c;
          hit = (if a = ''last'' \<or> a = ''past''
                 then (case parse_unsigned 64 b of
                         None \<Rightarrow> None
                       | Some n \<Rightarrow>
                           if starts_with unit ''day''
                           then Some (saturating_sub_u64 ref (word_of_nat n * MILLIS_PER_DAY), ref)
                           else if starts_with unit ''week''
                           then Some (saturating_sub_u64 ref (word_of_nat n * 7 * MILLIS_PER_DAY), ref)
                           else if starts_with unit ''month''
                           then Some (saturating_sub_u64 ref (word_of_nat n * 30 * MILLIS_PER_DAY), ref)
                           else None)
                 else None)
      in (case hit of Some w \<Rightarrow> Some w | None \<Rightarrow> last_n_window ref (b # c # ts)))"
| "last_n_window ref _ = None"

definition relative_window :: "str \<Rightarrow> str list \<Rightarrow> u64 \<Rightarrow> (u64 \<times> u64) option" where
  "relative_window lower tokens ref =
     (let day_start = (ref div MILLIS_PER_DAY) * MILLIS_PER_DAY in
      if contains lower ''yesterday'' then Some (saturating_sub_u64 day_start MILLIS_PER_DAY, day_start)
      else if contains lower ''today'' then Some (day_start, day_start + MILLIS_PER_DAY)
      else if contains lower ''last week'' \<or> contains lower ''past week''
      then Some (saturating_sub_u64 ref (7 * MILLIS_PER_DAY), ref)
      else if contains lower ''this week''
      then Some (saturating_sub_u64 day_start (6 * MILLIS_PER_DAY), day_start + MILLIS_PER_DAY)
      else if contains lower ''last month'' \<or> contains lower ''past month''
      then Some (saturating_sub_u64 ref (30 * MILLIS_PER_DAY), ref)
      else if contains lower ''this month''
      then Some (saturating_sub_u64 ref (30 * MILLIS_PER_DAY), ref + MILLIS_PER_DAY)
      else if contains lower ''last year'' \<or> contains lower ''past year''
      then Some (saturating_sub_u64 ref (365 * MILLIS_PER_DAY), ref)
      else last_n_window ref tokens)"

definition parse_temporal_window :: "u64 \<Rightarrow> str \<Rightarrow> u64 option \<Rightarrow> (u64 \<times> u64) option" where
  "parse_temporal_window now query reference =
     (let lower = to_ascii_lowercase query; tokens = split_whitespace lower;
          relative = relative_window lower tokens (case reference of Some r \<Rightarrow> r | None \<Rightarrow> now)
      in case find_map explicit_date_window tokens of
          Some w \<Rightarrow> Some w
        | None \<Rightarrow>
            (case find_map year_of_token tokens of
               None \<Rightarrow> relative
             | Some year \<Rightarrow>
                 (case season_window lower year of
                    Some w \<Rightarrow> Some w
                  | None \<Rightarrow>
                      (case found_month lower tokens of
                         Some month \<Rightarrow> Some (month_window lower tokens year month)
                       | None \<Rightarrow> relative))))"

end
