(* ===== verification/Datetime.thy ===== *)
theory Datetime
  imports Calendar
begin

section \<open>Dates in ingested text\<close>

text \<open>
  Models \<open>src/api/ingest/datetime.rs\<close> and \<open>extract_bracketed_header_value\<close> of
  \<open>src/api/ingest/dialogue.rs\<close>: finding a date in a text and turning it into milliseconds.
  The \<open>i32\<close> arithmetic of \<open>days_from_civil\<close> wraps as in the release profile; a function that
  returns early with an \<open>Option\<close> is an option of an option, the outer one telling whether it
  returned.
\<close>

definition wrap32 :: "int \<Rightarrow> int" where
  "wrap32 x = (x + 2 ^ 31) mod 2 ^ 32 - 2 ^ 31"

definition parse_iso_date :: "str \<Rightarrow> (int \<times> nat \<times> nat) option" where
  "parse_iso_date token =
     (case split_if (\<lambda>c. c = CHR ''-'') token of
        [p, q, r] \<Rightarrow>
          (case (parse_i32 p, parse_unsigned 32 q, parse_unsigned 32 r) of
             (Some year, Some month, Some day) \<Rightarrow>
               if \<not> (1900 \<le> year \<and> year \<le> 2200) \<or> \<not> (1 \<le> month \<and> month \<le> 12) \<or> \<not> (1 \<le> day \<and> day \<le> 31)
               then None else Some (year, month, day)
           | _ \<Rightarrow> None)
      | _ \<Rightarrow> None)"

definition month_number :: "str \<Rightarrow> nat option" where
  "month_number token =
     (if token \<in> {''jan'', ''january''} then Some 1
      else if token \<in> {''feb'', ''february''} then Some 2
      else if token \<in> {''mar'', ''march''} then Some 3
      else if token \<in> {''apr'', ''april''} then Some 4
      else if token = ''may'' then Some 5
      else if token \<in> {''jun'', ''june''} then Some 6
      else if token \<in> {''jul'', ''july''} then Some 7
      else if token \<in> {''aug'', ''august''} then Some 8
      else if token \<in> {''sep'', ''sept'', ''september''} then Some 9
      else if token \<in> {''oct'', ''october''} then Some 10
      else if token \<in> {''nov'', ''november''} then Some 11
      else if token \<in> {''dec'', ''december''} then Some 12
      else None)"

subsection \<open>Day numbers\<close>

definition days_from_civil :: "int \<Rightarrow> nat \<Rightarrow> nat \<Rightarrow> int" where
  "days_from_civil year0 month day =
     (let year = wrap32 (year0 - (if month \<le> 2 then 1 else 0));
          era = (if 0 \<le> year then year else wrap32 (year - 399)) sdiv 400;
          yoe = wrap32 (year - era * 400);
          mp = int month + (if month > 2 then - 3 else 9);
          doy = (153 * mp + 2) sdiv 5 + int day - 1;
          doe = yoe * 365 + yoe sdiv 4 - yoe sdiv 100 + doy
      in wrap32 (era * 146097 + doe - 719468))"

definition civil_from_days :: "int \<Rightarrow> int \<times> nat \<times> nat" where
  "civil_from_days days =
     (let z = days + 719468;
          era = (if 0 \<le> z then z else z - 146096) sdiv 146097;
          doe = z - era * 146097;
          yoe = (doe - doe sdiv 1460 + doe sdiv 36524 - doe sdiv 146096) sdiv 365;
          y = yoe + era * 400;
          doy = doe - (365 * yoe + yoe sdiv 4 - yoe sdiv 100);
          mp = (5 * doy + 2) sdiv 153;
          d = doy - (153 * mp + 2) sdiv 5 + 1;
          m = mp + (if mp < 10 then 3 else - 9)
      in (wrap32 (y + (if m \<le> 2 then 1 else 0)), nat m, nat d))"

definition epoch_ms_from_ymd :: "int \<Rightarrow> nat \<Rightarrow> nat \<Rightarrow> u64 option" where
  "epoch_ms_from_ymd year month day =
     (if \<not> (1 \<le> month \<and> month \<le> 12) \<or> \<not> (1 \<le> day \<and> day \<le> 31) then None
      else (let days = days_from_civil year month day
            in if days < 0 then None else Some (as_u64 days * 86400000)))"

definition civil_from_epoch_ms :: "u64 \<Rightarrow> int \<times> nat \<times> nat" where
  "civil_from_epoch_ms ms = civil_from_days (as_i64 (ms div 86400000))"

subsection \<open>Finding a date\<close>

definition iso_date_in :: "str \<Rightarrow> u64 option option" where
  "iso_date_in txt =
     find_map (\<lambda>raw. map_option (\<lambda>(y, m, d). epoch_ms_from_ymd y m d)
         (parse_iso_date (trim_matches (\<lambda>c. \<not> is_alnum c \<and> c \<noteq> CHR ''-'') raw)))
       (split_whitespace txt)"

definition date_tokens :: "str \<Rightarrow> str list" where
  "date_tokens txt = map to_ascii_lowercase (filter (\<lambda>t. t \<noteq> []) (split_if (\<lambda>c. \<not> is_alnum c) txt))"

text \<open>The token after the month: a day, possibly followed by a year, or a year.\<close>

definition after_month :: "int \<Rightarrow> str list \<Rightarrow> nat \<times> int \<times> bool" where
  "after_month year rest =
     (case rest of
        [] \<Rightarrow> (1, year, False)
      | next # rest' \<Rightarrow>
          (case parse_unsigned 32 next of
             None \<Rightarrow> (1, year, False)
           | Some n \<Rightarrow>
               if 1 \<le> n \<and> n \<le> 31
               then (n, (case rest' of
                           [] \<Rightarrow> year
                         | a # _ \<Rightarrow> (case parse_i32 a of
                              None \<Rightarrow> year
                            | Some y \<Rightarrow> if 1900 \<le> y \<and> y \<le> 2200 then y else year)), True)
               else if 1900 \<le> wrap32 (int n) \<and> wrap32 (int n) \<le> 2200 then (1, wrap32 (int n), True)
               else (1, year, False)))"

fun scan_months :: "int \<Rightarrow> str option \<Rightarrow> str list \<Rightarrow> u64 option option" where
  "scan_months reference_year prev [] = None"
| "scan_months reference_year prev (token # rest) =
     (case month_number token of
        None \<Rightarrow> scan_months reference_year (Some token) rest
      | Some month \<Rightarrow>
          (let (day1, year, explicit1) = after_month reference_year rest;
               (day, explicit) =
                 (case Option.bind prev (parse_unsigned 32) of
                    None \<Rightarrow> (day1, explicit1)
                  | Some p \<Rightarrow> if 1 \<le> p \<and> p \<le> 31 then (p, True) else (day1, explicit1))
           in if token = ''may'' \<and> \<not> explicit then scan_months reference_year (Some token) rest
              else Some (epoch_ms_from_ymd year month day)))"

definition year_in :: "str list \<Rightarrow> u64 option option" where
  "year_in tokens =
     find_map (\<lambda>token.
         if length token = 4
         then (case parse_i32 token of
                 None \<Rightarrow> None
               | Some year \<Rightarrow> if 1900 \<le> year \<and> year \<le> 2200 then Some (epoch_ms_from_ymd year 1 1) else None)
         else None) tokens"

definition parse_date_to_epoch_ms :: "str \<Rightarrow> u64 \<Rightarrow> u64 option" where
  "parse_date_to_epoch_ms txt reference_ms =
     (case iso_date_in txt of
        Some r \<Rightarrow> r
      | None \<Rightarrow>
          (let tokens = date_tokens txt in
           if tokens = [] then None
           else (case scan_months (fst (civil_from_epoch_ms reference_ms)) None tokens of
                   Some r \<Rightarrow> r
                 | None \<Rightarrow> (case year_in tokens of Some r \<Rightarrow> r | None \<Rightarrow> None))))"

definition extract_event_time_ms :: "str \<Rightarrow> u64 \<Rightarrow> u64 option" where
  "extract_event_time_ms txt document_time_ms =
     (case parse_date_to_epoch_ms txt document_time_ms of
        Some ms \<Rightarrow> Some ms
      | None \<Rightarrow>
          (let lower = to_ascii_lowercase txt; day_ms = 86400000 in
           if contains lower ''tomorrow'' then Some (saturating_add_u64 document_time_ms day_ms)
           else if contains lower ''yesterday'' then Some (saturating_sub_u64 document_time_ms day_ms)
           else if contains lower ''next week'' then Some (saturating_add_u64 document_time_ms (day_ms * 7))
           else if contains lower ''last week'' \<or> contains lower ''past week''
           then Some (saturating_sub_u64 document_time_ms (day_ms * 7))
           else if contains lower ''next month'' then Some (saturating_add_u64 document_time_ms (day_ms * 30))
           else if contains lower ''last month'' \<or> contains lower ''past month''
           then Some (saturating_sub_u64 document_time_ms (day_ms * 30))
           else if contains lower ''today'' then Some document_time_ms
           else None))"

subsection \<open>The header of a session\<close>

definition extract_bracketed_header_value :: "str \<Rightarrow> str \<Rightarrow> str option" where
  "extract_bracketed_header_value txt label =
     (let needle = ''['' @ to_ascii_lowercase label @ '':'' in
      find_map (\<lambda>line.
          (let trimmed = trim line in
           if starts_with (to_ascii_lowercase trimmed) needle \<and> ends_with trimmed '']''
           then (let value = (case find_char CHR '':'' trimmed of
                        None \<Rightarrow> []
                      | Some i \<Rightarrow> trim (trim_end_matches (\<lambda>c. c = CHR '']'') (trim (drop (Suc i) trimmed))))
                 in if value = [] then None else Some value)
           else None))
        (lines txt))"

definition extract_document_time_ms :: "str \<Rightarrow> u64 \<Rightarrow> u64" where
  "extract_document_time_ms txt fallback_ms =
     (case Option.bind (extract_bracketed_header_value txt ''Session Date'')
         (\<lambda>date. parse_date_to_epoch_ms date fallback_ms) of
        Some ms \<Rightarrow> ms
      | None \<Rightarrow> fallback_ms)"

end
