(* ===== verification/Calendar_Laws.thy ===== *)
theory Calendar_Laws
  imports Datetime
begin

section \<open>Laws of the calendar\<close>

text \<open>
  The two day-number algorithms of the code agree and are inverse to the date of a day number;
  windows of time are ordered; a date found in a text is the midnight of a date the text names.
  The era of 400 years is decomposed into centuries, groups of four years, years and days.
\<close>


lemma sdiv_pos: "0 \<le> a \<Longrightarrow> 0 \<le> b \<Longrightarrow> a sdiv b = (a :: int) div b"
  by (cases "a = 0"; cases "b = 0") (simp_all add: signed_divide_int_def)

lemma wrap32_id: "- 2147483648 \<le> x \<Longrightarrow> x < 2147483648 \<Longrightarrow> wrap32 x = x"
  by (simp add: wrap32_def)

lemma div_bounds: "0 < k \<Longrightarrow> k * (x div k) \<le> x \<and> x < k * (x div k) + (k :: int)"
  using mult_div_mod_eq [of k x] pos_mod_bound [of k x] pos_mod_sign [of k x] by linarith

lemma div_eqI: "0 < k \<Longrightarrow> k * q \<le> x \<Longrightarrow> x < k * q + k \<Longrightarrow> x div k = (q :: int)"
  by (rule int_div_pos_eq [of _ _ _ "x - k * q"]) auto

lemma mod_eqI: "0 < k \<Longrightarrow> k * q \<le> x \<Longrightarrow> x < k * q + k \<Longrightarrow> x mod k = x - k * (q :: int)"
  using div_eqI [of k q x] by (simp add: minus_div_mult_eq_mod [symmetric])

text \<open>Year of the era and day of the year, with the year starting in March.\<close>

definition era_leap :: "int \<Rightarrow> bool" where
  "era_leap yoe \<longleftrightarrow> (yoe + 1) mod 4 = 0 \<and> ((yoe + 1) mod 100 \<noteq> 0 \<or> (yoe + 1) mod 400 = 0)"

definition day_of_era :: "int \<Rightarrow> int \<Rightarrow> int" where
  "day_of_era yoe doy = yoe * 365 + yoe div 4 - yoe div 100 + doy"

definition year_of_era :: "int \<Rightarrow> int" where
  "year_of_era doe = (doe - doe div 1460 + doe div 36524 - doe div 146096) div 365"

lemma day_of_era_digits:
  assumes "0 \<le> c" "0 \<le> q" "q < 25" "0 \<le> r" "r < 4"
  shows "day_of_era (100 * c + 4 * q + r) doy = 36524 * c + 1461 * q + 365 * r + doy"
proof -
  have "(100 * c + 4 * q + r) div 4 = 25 * c + q" using assms by (intro div_eqI) auto
  moreover have "(100 * c + 4 * q + r) div 100 = c" using assms by (intro div_eqI) auto
  ultimately show ?thesis by (simp add: day_of_era_def)
qed

lemma year_of_era_digits:
  assumes c: "0 \<le> c" "c < 4" and q: "0 \<le> q" "q < 25" and r: "0 \<le> r" "r < (4::int)"
    and doy: "0 \<le> doy" "doy \<le> 365" "doy = 365 \<Longrightarrow> r = 3 \<and> (q \<noteq> 24 \<or> c = 3)"
  defines "doe \<equiv> 36524 * c + 1461 * q + 365 * r + doy"
  shows "year_of_era doe = 100 * c + 4 * q + r" and "0 \<le> doe \<and> doe < 146097"
proof -
  show bound: "0 \<le> doe \<and> doe < 146097"
    using assms by (auto simp: doe_def)
  have rest: "1461 * q + 365 * r + doy \<le> 36524 - 1 + (if c = 3 then 1 else 0)"
  proof (cases "doy = 365")
    case True
    with doy(3) q r show ?thesis by (cases "q = 24") auto
  next
    case False
    with doy q r show ?thesis by simp
  qed
  have century: "doe div 36524 - doe div 146096 = c"
  proof (cases "doe = 146096")
    case True
    then show ?thesis using assms by (auto simp: doe_def)
  next
    case False
    then have "doe < 146096" using bound by simp
    then have "doe div 146096 = 0" using bound by simp
    moreover have "doe div 36524 = c"
    proof -
      have "1461 * q + 365 * r + doy < 36524"
        using rest \<open>doe < 146096\<close> c by (cases "c = 3") (auto simp: doe_def)
      moreover have "0 \<le> 1461 * q + 365 * r + doy" using q r doy by simp
      ultimately show ?thesis unfolding doe_def by (intro div_eqI) auto
    qed
    ultimately show ?thesis by simp
  qed
  define t where "t = 24 * c + q + 365 * r + doy"
  have t: "0 \<le> t" "t < 2920" using assms by (auto simp: t_def)
  have split: "doe = 1460 * (25 * c + q) + t" by (simp add: doe_def t_def)
  have "doe div 1460 = 25 * c + q + (if 1460 \<le> t then 1 else 0)"
    unfolding split using t by (intro div_eqI) auto
  then have "doe - doe div 1460 + doe div 36524 - doe div 146096
      = 365 * (100 * c + 4 * q + r) + (doy - (if 1460 \<le> t then 1 else 0))"
    using century by (simp add: doe_def)
  moreover have "0 \<le> doy - (if 1460 \<le> t then 1 else 0)" "doy - (if 1460 \<le> t then 1 else 0) < 365"
    using assms by (cases "doy = 365"; auto simp: t_def)+
  ultimately show "year_of_era doe = 100 * c + 4 * q + r" by (simp add: year_of_era_def)
qed


text \<open>Every day of an era has such digits.\<close>

lemma era_digits_exist:
  assumes "0 \<le> doe" "doe < (146097::int)"
  obtains c q r doy where "0 \<le> c" "c < 4" "0 \<le> q" "q < 25" "0 \<le> r" "r < 4" "0 \<le> doy" "doy \<le> 365"
    "doy = 365 \<Longrightarrow> r = 3 \<and> (q \<noteq> 24 \<or> c = 3)" "doe = 36524 * c + 1461 * q + 365 * r + doy"
proof -
  define c where "c = min 3 (doe div 36524)"
  define u where "u = doe - 36524 * c"
  define q where "q = u div 1461"
  define w where "w = u - 1461 * q"
  define r where "r = min 3 (w div 365)"
  define doy where "doy = w - 365 * r"
  have c: "0 \<le> c" "c < 4" "0 \<le> u" "u < 36524 + (if c = 3 then 1 else 0)"
    using assms div_bounds [of 36524 doe] by (auto simp: c_def u_def min_def)
  have q: "0 \<le> q" "q < 25" "0 \<le> w" "w < 1461"
    using c div_bounds [of 1461 u] by (auto simp: q_def w_def split: if_splits)
  have "r = 3 \<or> doy < 365"
    using div_bounds [of 365 w] by (cases "3 \<le> w div 365") (simp_all add: r_def doy_def min_def, linarith?)
  moreover have "0 \<le> r" "r < 4" "0 \<le> doy" "doy \<le> 365"
    using q div_bounds [of 365 w] by (auto simp: r_def doy_def min_def)
  ultimately have r: "0 \<le> r" "r < 4" "0 \<le> doy" "doy \<le> 365" "doy = 365 \<Longrightarrow> r = 3" by auto
  have "c = 3" if "doy = 365" "q = 24"
  proof (rule ccontr)
    assume "c \<noteq> 3"
    with c(4) have "u < 36524" by simp
    moreover have "w = 1460" using that(1) r(5) [OF that(1)] doy_def by linarith
    ultimately show False using that(2) w_def by linarith
  qed
  then have "doy = 365 \<Longrightarrow> r = 3 \<and> (q \<noteq> 24 \<or> c = 3)" using r(5) by metis
  moreover have "doe = 36524 * c + 1461 * q + 365 * r + doy" by (simp add: doy_def w_def u_def)
  ultimately show ?thesis by (rule that [OF c(1,2) q(1,2) r(1-4)])
qed

lemma era_leap_digits:
  assumes "0 \<le> c" "c < 4" "0 \<le> q" "q < 25" "0 \<le> r" "r < (4::int)"
  shows "era_leap (100 * c + 4 * q + r) \<longleftrightarrow> r = 3 \<and> (q \<noteq> 24 \<or> c = 3)"
proof -
  define x where "x = 100 * c + 4 * q + r + 1"
  have m4: "x mod 4 = (if r = 3 then 0 else r + 1)"
    using mod_eqI [of 4 "25 * c + q + (if r = 3 then 1 else 0)" x] assms by (auto simp: x_def)
  have "x mod 4 = 0 \<longleftrightarrow> r = 3" unfolding m4 using assms by auto
  moreover have "r = 3 \<Longrightarrow> x mod 100 = 0 \<longleftrightarrow> q = 24"
  proof -
    assume "r = 3"
    then have m: "x mod 100 = (if q = 24 then 0 else 4 * q + 4)"
      using mod_eqI [of 100 "c + (if q = 24 then 1 else 0)" x] assms by (auto simp: x_def)
    show ?thesis unfolding m using assms by auto
  qed
  moreover have "r = 3 \<Longrightarrow> q = 24 \<Longrightarrow> x mod 400 = 0 \<longleftrightarrow> c = 3"
  proof -
    assume "r = 3" "q = 24"
    then have m: "x mod 400 = (if c = 3 then 0 else 100 * c + 100)"
      using mod_eqI [of 400 "if c = 3 then 1 else 0" x] assms by (auto simp: x_def)
    show ?thesis unfolding m using assms by auto
  qed
  ultimately show ?thesis unfolding era_leap_def x_def by metis
qed

lemma yoe_digits:
  assumes "0 \<le> yoe" "yoe < (400::int)"
  obtains c q r where "0 \<le> c" "c < 4" "0 \<le> q" "q < 25" "0 \<le> r" "r < 4" "yoe = 100 * c + 4 * q + r"
proof -
  have "0 \<le> yoe div 100" "yoe div 100 < 4" using assms by auto
  moreover have "0 \<le> (yoe mod 100) div 4" "(yoe mod 100) div 4 < 25"
    using pos_mod_bound [of 100 yoe] by auto
  moreover have "0 \<le> yoe mod 4" "yoe mod 4 < 4" by simp_all
  moreover have "yoe = 100 * (yoe div 100) + 4 * ((yoe mod 100) div 4) + yoe mod 4"
  proof -
    have "yoe mod 100 mod 4 = yoe mod 4" by (rule mod_mod_cancel) simp
    then show ?thesis
      using mult_div_mod_eq [of 100 yoe] mult_div_mod_eq [of 4 "yoe mod 100"] by linarith
  qed
  ultimately show ?thesis by (rule that)
qed

lemma year_of_era:
  assumes "0 \<le> yoe" "yoe < 400" "0 \<le> doy" "doy \<le> 365" "doy = 365 \<Longrightarrow> era_leap yoe"
  shows "year_of_era (day_of_era yoe doy) = yoe" and "0 \<le> day_of_era yoe doy \<and> day_of_era yoe doy < 146097"
proof -
  obtain c q r where d: "0 \<le> c" "c < 4" "0 \<le> q" "q < 25" "0 \<le> r" "r < 4" "yoe = 100 * c + 4 * q + r"
    using yoe_digits [OF assms(1,2)] by blast
  have "doy = 365 \<Longrightarrow> r = 3 \<and> (q \<noteq> 24 \<or> c = 3)"
    using assms(5) era_leap_digits [OF d(1-6)] d(7) by blast
  note digits = year_of_era_digits [OF d(1-6) assms(3,4) this]
  have e: "day_of_era yoe doy = 36524 * c + 1461 * q + 365 * r + doy"
    unfolding d(7) by (rule day_of_era_digits [OF d(1,3,4,5,6)])
  show "year_of_era (day_of_era yoe doy) = yoe" and "0 \<le> day_of_era yoe doy \<and> day_of_era yoe doy < 146097"
    unfolding e using digits d(7) by simp_all
qed

lemma day_of_era_surj:
  assumes "0 \<le> doe" "doe < 146097"
  obtains yoe doy where "0 \<le> yoe" "yoe < 400" "0 \<le> doy" "doy \<le> 365" "doy = 365 \<Longrightarrow> era_leap yoe"
    "doe = day_of_era yoe doy"
proof -
  obtain c q r doy where d: "0 \<le> c" "c < 4" "0 \<le> q" "q < 25" "0 \<le> r" "r < 4" "0 \<le> doy" "doy \<le> 365"
    "doy = 365 \<Longrightarrow> r = 3 \<and> (q \<noteq> 24 \<or> c = 3)" "doe = 36524 * c + 1461 * q + 365 * r + doy"
    using era_digits_exist [OF assms] by metis
  have "doe = day_of_era (100 * c + 4 * q + r) doy"
    using day_of_era_digits [OF d(1,3,4,5,6)] d(10) by simp
  moreover have "doy = 365 \<Longrightarrow> era_leap (100 * c + 4 * q + r)"
    using era_leap_digits [OF d(1-6)] d(9) by blast
  ultimately show ?thesis using that [of "100 * c + 4 * q + r" doy] d by simp
qed

text \<open>Month and day of the month, with March as month 0.\<close>

definition month_len :: "int \<Rightarrow> int" where
  "month_len mp = (153 * (mp + 1) + 2) div 5 - (153 * mp + 2) div 5"

lemma month_of_day:
  assumes "1 \<le> d" "d \<le> month_len mp"
  shows "(5 * ((153 * mp + 2) div 5 + d - 1) + 2) div 153 = mp"
  using assms div_bounds [of 5 "153 * mp + 2"] div_bounds [of 5 "153 * (mp + 1) + 2"]
  unfolding month_len_def by (intro div_eqI) auto

lemma day_of_month:
  fixes doy :: int
  assumes "0 \<le> doy" "doy \<le> 365"
  defines "mp \<equiv> (5 * doy + 2) div 153"
  shows "0 \<le> mp" "mp < 12" and "1 \<le> doy - (153 * mp + 2) div 5 + 1"
    and "doy - (153 * mp + 2) div 5 + 1 \<le> month_len mp"
proof -
  have mp: "153 * mp \<le> 5 * doy + 2" "5 * doy + 2 < 153 * mp + 153"
    using div_bounds [of 153 "5 * doy + 2"] by (simp_all add: mp_def)
  then show "0 \<le> mp" "mp < 12" using assms(1,2) by simp_all
  show "1 \<le> doy - (153 * mp + 2) div 5 + 1"
    using mp div_bounds [of 5 "153 * mp + 2"] by simp
  show "doy - (153 * mp + 2) div 5 + 1 \<le> month_len mp"
    using mp div_bounds [of 5 "153 * (mp + 1) + 2"] by (simp add: month_len_def)
qed


subsection \<open>The two day numbers\<close>

definition valid_ymd :: "int \<Rightarrow> nat \<Rightarrow> nat \<Rightarrow> bool" where
  "valid_ymd y m d \<longleftrightarrow> 1 \<le> m \<and> m \<le> 12 \<and> 1 \<le> d \<and> d \<le> days_in_month y m"

text \<open>The year and month that start in March.\<close>

definition march_year :: "int \<Rightarrow> nat \<Rightarrow> int" where
  "march_year y m = y - (if m \<le> 2 then 1 else 0)"

definition march_month :: "nat \<Rightarrow> int" where
  "march_month m = int m + (if m > 2 then - 3 else 9)"

lemma rust_era:
  fixes y k k1 :: int
  assumes that: "0 < k" and k1: "k1 = k - 1"
  shows "(if 0 \<le> y then y else y - k1) sdiv k = y div k"
proof (cases "0 \<le> y")
  case True
  then show ?thesis using that by (simp add: sdiv_pos)
next
  case False
  have "(k1 - y) div k = - (y div k)"
  proof (rule div_eqI [OF that])
    show "k * - (y div k) \<le> k1 - y" "k1 - y < k * - (y div k) + k"
      using div_bounds [OF that, of y] by (simp_all add: k1)
  qed
  moreover have "(y - k1) sdiv k = - ((k1 - y) div k)"
    using False that by (simp add: signed_divide_int_def k1)
  ultimately show ?thesis using False by simp
qed

lemma days_from_civil_eq:
  assumes "1 \<le> m" "m \<le> 12" "d \<le> 1000" "\<bar>y\<bar> \<le> 5000000"
  shows "days_from_civil y m d =
    (march_year y m div 400) * 146097
      + day_of_era (march_year y m mod 400) ((153 * march_month m + 2) div 5 + int d - 1) - 719468"
proof -
  let ?y = "march_year y m"
  have y: "\<bar>?y\<bar> \<le> 5000001" using assms(4) by (auto simp: march_year_def)
  have w1: "wrap32 ?y = ?y" "wrap32 (?y - 399) = ?y - 399" using y by (auto intro!: wrap32_id)
  have era: "(if 0 \<le> ?y then ?y else ?y - 399) sdiv 400 = ?y div 400" by (rule rust_era) simp_all
  have yoe: "?y - ?y div 400 * 400 = ?y mod 400" by (simp add: minus_div_mult_eq_mod)
  have w2: "wrap32 (?y mod 400) = ?y mod 400"
    using pos_mod_bound [of 400 ?y] pos_mod_sign [of 400 ?y] by (intro wrap32_id) simp_all
  have mp: "0 \<le> march_month m" "march_month m < 12" using assms(1,2) by (auto simp: march_month_def)
  let ?doy = "(153 * march_month m + 2) div 5 + int d - 1"
  have doy: "- 1 \<le> ?doy" "?doy \<le> 1400"
    using mp assms(3) div_bounds [of 5 "153 * march_month m + 2"] by linarith+
  have doe: "day_of_era (?y mod 400) ?doy \<le> 150000 \<and> - 10 \<le> day_of_era (?y mod 400) ?doy"
    using pos_mod_bound [of 400 ?y] pos_mod_sign [of 400 ?y] doy
      div_bounds [of 4 "?y mod 400"] div_bounds [of 100 "?y mod 400"] unfolding day_of_era_def by linarith
  have "wrap32 (?y div 400 * 146097 + day_of_era (?y mod 400) ?doy - 719468)
      = ?y div 400 * 146097 + day_of_era (?y mod 400) ?doy - 719468"
    using doe y div_bounds [of 400 ?y] by (intro wrap32_id) linarith+
  moreover have "days_from_civil y m d = wrap32 (?y div 400 * 146097 + day_of_era (?y mod 400) ?doy - 719468)"
    unfolding days_from_civil_def Let_def march_year_def [symmetric] march_month_def [symmetric]
      day_of_era_def w1 era yoe w2
    using mp by (simp add: sdiv_pos)
  ultimately show ?thesis by simp
qed


lemma civil_from_days_eq:
  assumes "\<bar>z\<bar> \<le> 1900000000"
  defines "era \<equiv> (z + 719468) div 146097" and "doe \<equiv> (z + 719468) mod 146097"
  defines "yoe \<equiv> year_of_era doe"
  defines "doy \<equiv> doe - (365 * yoe + yoe div 4 - yoe div 100)"
  defines "mp \<equiv> (5 * doy + 2) div 153"
  assumes "0 \<le> yoe" "yoe < 400" "0 \<le> doy" "doy \<le> 365"
  shows "civil_from_days z =
    (yoe + era * 400 + (if mp \<ge> 10 then 1 else 0), nat (mp + (if mp < 10 then 3 else - 9)),
     nat (doy - (153 * mp + 2) div 5 + 1))"
proof -
  have doe: "0 \<le> doe" "doe < 146097" by (simp_all add: doe_def)
  have e1: "(if 0 \<le> z + 719468 then z + 719468 else z + 719468 - 146096) sdiv 146097 = era"
    unfolding era_def by (rule rust_era) simp_all
  have e2: "z + 719468 - era * 146097 = doe"
    by (simp add: era_def doe_def minus_div_mult_eq_mod)
  have "0 \<le> doe - doe div 1460 + doe div 36524 - doe div 146096"
    using doe div_bounds [of 1460 doe] div_bounds [of 36524 doe] div_bounds [of 146096 doe] by linarith
  then have e3: "(doe - doe sdiv 1460 + doe sdiv 36524 - doe sdiv 146096) sdiv 365 = yoe"
    using doe by (simp add: sdiv_pos yoe_def year_of_era_def)
  have e4: "doe - (365 * yoe + yoe sdiv 4 - yoe sdiv 100) = doy"
    using assms(7,8) by (simp add: sdiv_pos doy_def)
  have mp: "0 \<le> mp" "mp < 12" using day_of_month(1,2) [OF assms(9,10)] by (simp_all add: mp_def)
  have e5: "(5 * doy + 2) sdiv 153 = mp" "(153 * mp + 2) sdiv 5 = (153 * mp + 2) div 5"
    using assms(9) mp by (simp_all add: sdiv_pos mp_def)
  have "\<bar>era\<bar> \<le> 13010" using assms(1) div_bounds [of 146097 "z + 719468"] unfolding era_def by linarith
  then have w: "wrap32 (yoe + era * 400 + b) = yoe + era * 400 + b" if "0 \<le> b" "b \<le> 1" for b
    using that assms(7,8) by (intro wrap32_id) linarith+
  have "(mp + (if mp < 10 then 3 else - 9) \<le> 2) = (mp \<ge> 10)" using mp by auto
  then show ?thesis
    unfolding civil_from_days_def Let_def e1 e2 e3 e4 e5 using w [of 0] w [of 1] by simp
qed

lemma mod_succ:
  assumes "k dvd n"
  shows "(y mod n + 1) mod k = (y + 1) mod (k :: int)"
proof -
  have "(y mod n + 1) mod k = ((y mod n) mod k + 1) mod k" by (simp add: mod_add_left_eq)
  also have "\<dots> = (y + 1) mod k" by (simp add: mod_mod_cancel [OF assms] mod_add_left_eq)
  finally show ?thesis .
qed

lemma era_leap_mod: "era_leap (y mod 400) \<longleftrightarrow> days_in_month (y + 1) 2 = 29"
proof -
  define x where "x = y + 1"
  have k: "(y mod 400 + 1) mod k = x mod k" if "k \<in> {4, 100, 400}" for k :: int
    unfolding x_def using that by (intro mod_succ) auto
  have l: "era_leap (y mod 400) \<longleftrightarrow> x mod 4 = 0 \<and> (x mod 100 \<noteq> 0 \<or> x mod 400 = 0)"
    unfolding era_leap_def using k [of 4] k [of 100] k [of 400] by simp
  have "x mod 400 mod 4 = x mod 4" by (rule mod_mod_cancel) simp
  then have "x mod 400 = 0 \<Longrightarrow> x mod 4 = 0" by (metis mod_0)
  moreover have "days_in_month x 2 = 29 \<longleftrightarrow> (x mod 4 = 0 \<and> x mod 100 \<noteq> 0) \<or> x mod 400 = 0"
    unfolding days_in_month_def by simp
  ultimately show ?thesis unfolding l x_def [symmetric] by metis
qed

lemma month_cases: "1 \<le> m \<Longrightarrow> m \<le> 12 \<Longrightarrow> m \<in> {1, 2, 3, 4, 5, 6, 7, 8, 9, 10, 11, 12 :: nat}"
  unfolding insert_iff empty_iff by presburger

lemma month_len_march:
  assumes "1 \<le> m" "m \<le> 12"
  shows "int (days_in_month y m) \<le> month_len (march_month m)"
    and "m \<noteq> 2 \<Longrightarrow> int (days_in_month y m) = month_len (march_month m)"
proof -
  have "m \<in> {1, 2, 3, 4, 5, 6, 7, 8, 9, 10, 11, 12}" by (rule month_cases [OF assms])
  then show "int (days_in_month y m) \<le> month_len (march_month m)"
    and "m \<noteq> 2 \<Longrightarrow> int (days_in_month y m) = month_len (march_month m)"
    by (auto simp: days_in_month_def month_len_def march_month_def)
qed

lemma valid_day_of_year:
  assumes "valid_ymd y m d"
  defines "doy \<equiv> (153 * march_month m + 2) div 5 + int d - 1"
  shows "0 \<le> doy" "doy \<le> 365" "doy = 365 \<Longrightarrow> era_leap (march_year y m mod 400)"
    and "(5 * doy + 2) div 153 = march_month m"
    and "doy - (153 * march_month m + 2) div 5 + 1 = int d"
proof -
  have m: "1 \<le> m" "m \<le> 12" and d: "1 \<le> int d" "int d \<le> int (days_in_month y m)"
    using assms(1) by (auto simp: valid_ymd_def)
  have mp: "0 \<le> march_month m" "march_month m < 12" using m by (auto simp: march_month_def)
  have len: "int d \<le> month_len (march_month m)" using d month_len_march(1) [OF m, of y] by linarith
  show "(5 * doy + 2) div 153 = march_month m"
    unfolding doy_def by (rule month_of_day [OF d(1) len])
  show "doy - (153 * march_month m + 2) div 5 + 1 = int d" by (simp add: doy_def)
  show "0 \<le> doy" using mp d(1) by (simp add: doy_def)
  have cases: "m \<in> {1, 2, 3, 4, 5, 6, 7, 8, 9, 10, 11, 12}" by (rule month_cases [OF m])
  have upper: "doy \<le> 336 + int (if m = 2 then d else 0)"
    using cases d by (auto simp: doy_def march_month_def days_in_month_def split: if_splits)
  then show "doy \<le> 365" using d by (auto simp: days_in_month_def split: if_splits)
  show "era_leap (march_year y m mod 400)" if "doy = 365"
  proof -
    have "m = 2" using upper that by (auto split: if_splits)
    moreover from this have "d = 29" using that d by (auto simp: doy_def march_month_def days_in_month_def split: if_splits)
    ultimately show ?thesis
      using d era_leap_mod [of "march_year y m"]
      by (auto simp: march_year_def days_in_month_def split: if_splits)
  qed
qed


lemma civil_of_parts:
  assumes "0 \<le> yoe" "yoe < 400" "0 \<le> doy" "doy \<le> 365" "doy = 365 \<longrightarrow> era_leap yoe" "\<bar>era\<bar> \<le> 12501"
  defines "mp \<equiv> (5 * doy + 2) div 153"
  shows "civil_from_days (era * 146097 + day_of_era yoe doy - 719468) =
    (yoe + era * 400 + (if mp \<ge> 10 then 1 else 0), nat (mp + (if mp < 10 then 3 else - 9)),
     nat (doy - (153 * mp + 2) div 5 + 1))"
proof -
  let ?z = "era * 146097 + day_of_era yoe doy - 719468"
  have doe: "0 \<le> day_of_era yoe doy" "day_of_era yoe doy < 146097"
    using year_of_era(2) [OF assms(1-4)] assms(5) by simp_all
  have d: "(?z + 719468) div 146097 = era" using doe by (intro div_eqI) simp_all
  have m: "(?z + 719468) mod 146097 = day_of_era yoe doy"
    using mod_eqI [of 146097 era "?z + 719468"] doe by simp
  have y: "year_of_era (day_of_era yoe doy) = yoe" using year_of_era(1) [OF assms(1-4)] assms(5) by simp
  have doy: "day_of_era yoe doy - (365 * yoe + yoe div 4 - yoe div 100) = doy"
    by (simp add: day_of_era_def)
  have "\<bar>?z\<bar> \<le> 1900000000" using doe assms(6) by linarith
  from civil_from_days_eq [OF this, unfolded d m y doy, OF assms(1-4)]
  show ?thesis by (simp add: mp_def)
qed

lemma civil_days_civil:
  assumes v: "valid_ymd y m d" and y: "\<bar>y\<bar> \<le> 5000000"
  shows "civil_from_days (days_from_civil y m d) = (y, m, d)"
proof -
  let ?doy = "(153 * march_month m + 2) div 5 + int d - 1" and ?y = "march_year y m"
  have m: "1 \<le> m" "m \<le> 12" and d: "d \<le> 1000"
    using v by (auto simp: valid_ymd_def days_in_month_def split: if_splits)
  note doy = valid_day_of_year [OF v]
  have my: "0 \<le> ?y mod 400" "?y mod 400 < 400" by simp_all
  have "\<bar>?y\<bar> \<le> 5000001" using y by (auto simp: march_year_def)
  then have era: "\<bar>?y div 400\<bar> \<le> 12501" using div_bounds [of 400 ?y] by linarith
  have "civil_from_days (days_from_civil y m d) =
    (?y mod 400 + ?y div 400 * 400 + (if march_month m \<ge> 10 then 1 else 0),
     nat (march_month m + (if march_month m < 10 then 3 else - 9)), nat (int d))"
    using civil_of_parts [OF my doy(1,2) impI [OF doy(3)] era, unfolded doy(4), unfolded doy(5)]
    unfolding days_from_civil_eq [OF m d y] by simp
  moreover have "?y mod 400 + ?y div 400 * 400 = ?y" by simp
  moreover have "march_month m \<ge> 10 \<longleftrightarrow> m \<le> 2" using m by (auto simp: march_month_def)
  ultimately show ?thesis using m by (auto simp: march_month_def march_year_def)
qed

lemma days_civil_days:
  assumes z: "\<bar>z\<bar> \<le> 1800000000"
  obtains y m d where "civil_from_days z = (y, m, d)" "valid_ymd y m d" "\<bar>y\<bar> \<le> 5000000" "days_from_civil y m d = z"
proof -
  define era where "era = (z + 719468) div 146097"
  have "0 \<le> (z + 719468) mod 146097" "(z + 719468) mod 146097 < 146097" by simp_all
  then obtain yoe doy where p: "0 \<le> yoe" "yoe < 400" "0 \<le> doy" "doy \<le> 365" "doy = 365 \<Longrightarrow> era_leap yoe"
    "(z + 719468) mod 146097 = day_of_era yoe doy"
    using day_of_era_surj by metis
  have zeq: "z = era * 146097 + day_of_era yoe doy - 719468"
    using div_mult_mod_eq [of "z + 719468" 146097] by (simp add: era_def p(6))
  have era: "\<bar>era\<bar> \<le> 12400" using z div_bounds [of 146097 "z + 719468"] unfolding era_def by linarith
  define mp where "mp = (5 * doy + 2) div 153"
  define dd where "dd = doy - (153 * mp + 2) div 5 + 1"
  note month = day_of_month [OF p(3,4), folded mp_def, folded dd_def]
  define y where "y = yoe + era * 400 + (if mp \<ge> 10 then 1 else 0)"
  define m where "m = nat (mp + (if mp < 10 then 3 else - 9))"
  define d where "d = nat dd"
  have civil: "civil_from_days z = (y, m, d)"
    unfolding zeq y_def m_def d_def dd_def mp_def by (rule civil_of_parts [OF p(1-4) impI [OF p(5)]]) (use era in linarith)+
  have m: "1 \<le> m" "m \<le> 12" "march_month m = mp" and my: "march_year y m = yoe + era * 400"
    using month(1,2) by (auto simp: m_def y_def march_month_def march_year_def split: if_splits)
  have yb: "\<bar>y\<bar> \<le> 5000000" using era p(1,2) by (auto simp: y_def split: if_splits)
  have d: "int d = dd" "1 \<le> d" "d \<le> 1000" using month(3) p(4) div_bounds [of 5 "153 * mp + 2"] month(1)
    by (auto simp: d_def dd_def)
  have my': "march_year y m div 400 = era" "march_year y m mod 400 = yoe"
    unfolding my using p(1,2) by (simp_all add: div_eqI mod_eqI)
  have doy: "(153 * march_month m + 2) div 5 + int d - 1 = doy" by (simp add: m(3) d(1) dd_def)
  have days: "days_from_civil y m d = z"
    unfolding days_from_civil_eq [OF m(1,2) d(3) yb] my' doy by (simp add: zeq)
  have "d \<le> days_in_month y m"
  proof (cases "m = 2")
    case False
    then show ?thesis using month(4) month_len_march(2) [OF m(1,2) False, of y] m(3) d(1) by simp
  next
    case True
    then have "mp = 11" using m(3) by (simp add: march_month_def)
    then have dd: "int d = doy - 336" by (simp add: d(1) dd_def)
    have "y = march_year y m + 1" using True by (simp add: march_year_def)
    then have leap: "era_leap yoe \<longleftrightarrow> days_in_month y 2 = 29"
      using era_leap_mod [of "march_year y m"] my'(2) by simp
    show ?thesis
    proof (cases "doy = 365")
      case True
      then show ?thesis using dd leap p(5) \<open>m = 2\<close> by simp
    next
      case False
      then have "d \<le> 28" using dd p(4) by simp
      then show ?thesis using \<open>m = 2\<close> by (simp add: days_in_month_def)
    qed
  qed
  then have "valid_ymd y m d" using m d by (simp add: valid_ymd_def)
  from that [OF civil this yb days] show ?thesis .
qed

lemma era_quotients:
  "(y mod 400) div 4 = y div 4 - 100 * (y div 400)" "(y mod 400) div 100 = y div 100 - 4 * (y div (400::int))"
proof -
  have y: "y = y mod 400 + (100 * (y div 400)) * 4" "y = y mod 400 + (4 * (y div 400)) * 100" by simp_all
  have "y div 4 = 100 * (y div 400) + (y mod 400) div 4"
    by (subst y(1)) (rule div_mult_self1 [where b = 4], simp)
  moreover have "y div 100 = 4 * (y div 400) + (y mod 400) div 100"
    by (subst y(2)) (rule div_mult_self1 [where b = 100], simp)
  ultimately show "(y mod 400) div 4 = y div 4 - 100 * (y div 400)"
    and "(y mod 400) div 100 = y div 100 - 4 * (y div 400)" by simp_all
qed

lemma jdn_constants:
  "Y = 400 * q + r \<Longrightarrow>
     d + k + 365 * (Y + 4800) + (a + 1200) - (b + 48) + (q + 12) - 32045 - 2440588
       = q * 146097 + (r * 365 + (a - 100 * q) - (b - 4 * q) + (k + d - 1)) - (719468 :: int)"
  by simp

text \<open>The Julian day number of \<open>calendar.rs\<close> is the day number of \<open>datetime.rs\<close>.\<close>

lemma days_since_epoch_eq:
  assumes "1 \<le> m" "m \<le> 12" "d \<le> 1000" "- 4000 \<le> y" "y \<le> 5000000"
  shows "days_since_epoch y m d = days_from_civil y m d"
proof -
  let ?y = "march_year y m" and ?mp = "march_month m"
  have mp: "0 \<le> ?mp" using assms(1) by (auto simp: march_month_def)
  have "m \<in> {1, 2, 3, 4, 5, 6, 7, 8, 9, 10, 11, 12}" by (rule month_cases [OF assms(1,2)])
  then have a: "(14 - int m) sdiv 12 = (if m \<le> 2 then 1 else 0)" by (auto simp: signed_divide_int_def)
  have y: "y + 4800 - (14 - int m) sdiv 12 = ?y + 4800" unfolding a by (simp add: march_year_def)
  have mo: "int m + 12 * ((14 - int m) sdiv 12) - 3 = ?mp" unfolding a by (simp add: march_month_def)
  have pos: "0 \<le> ?y + 4800" using assms(4) by (simp add: march_year_def)
  have q: "(?y + 4800) div 4 = ?y div 4 + 1200" "(?y + 4800) div 100 = ?y div 100 + 48"
    "(?y + 4800) div 400 = ?y div 400 + 12"
    by (simp_all add: div_add1_eq [symmetric] div_eqI div_bounds)
  have split: "?y = 400 * (?y div 400) + ?y mod 400" by simp
  have r4: "(?y mod 400) div 4 = ?y div 4 - 100 * (?y div 400)"
    and r100: "(?y mod 400) div 100 = ?y div 100 - 4 * (?y div 400)"
    by (rule era_quotients)+
  have "days_since_epoch y m d = int d + (153 * ?mp + 2) div 5 + 365 * (?y + 4800)
      + (?y div 4 + 1200) - (?y div 100 + 48) + (?y div 400 + 12) - 32045 - 2440588"
    unfolding days_since_epoch_def Let_def y mo using pos mp by (simp add: sdiv_pos q)
  also have "\<dots> = days_from_civil y m d"
  proof -
    have y5: "\<bar>y\<bar> \<le> 5000000" using assms(4,5) by simp
    show ?thesis unfolding days_from_civil_eq [OF assms(1-3) y5] day_of_era_def r4 r100 by (rule jdn_constants [OF split])
  qed
  finally show ?thesis .
qed


lemma days_since_epoch_day: "days_since_epoch y m d = days_since_epoch y m 0 + int d"
  by (simp add: days_since_epoch_def Let_def)

lemma days_since_epoch_month:
  assumes "1 \<le> m" "m \<le> 12" "d \<le> 1000" "- 4000 \<le> y" "y \<le> 5000000"
  shows "days_since_epoch y m d = int d + (153 * march_month m + 2) div 5 + 365 * march_year y m
    + march_year y m div 4 - march_year y m div 100 + march_year y m div 400 - 719469"
proof -
  have y5: "\<bar>y\<bar> \<le> 5000000" using assms(4,5) by simp
  have "march_year y m = 400 * (march_year y m div 400) + march_year y m mod 400" by simp
  from jdn_constants [OF this, of "int d" "(153 * march_month m + 2) div 5" "march_year y m div 4" "march_year y m div 100"]
  show ?thesis
    unfolding days_since_epoch_eq [OF assms] days_from_civil_eq [OF assms(1-3) y5] day_of_era_def era_quotients
    by simp
qed

subsection \<open>Properties of the day numbers\<close>

text \<open>
  C32. Converting a date to its day number and back gives the same date, and every day number
  is that of a valid calendar date (a month of the right length, 29 February in leap years
  only), for all years within five million of year 0.
\<close>

theorem civil_date_round_trip:
  assumes "valid_ymd y m d" and "\<bar>y\<bar> \<le> 5000000" and "\<bar>z\<bar> \<le> 1800000000"
  shows "civil_from_days (days_from_civil y m d) = (y, m, d)
     \<and> (case civil_from_days z of (y', m', d') \<Rightarrow> valid_ymd y' m' d' \<and> days_from_civil y' m' d' = z)"
proof -
  obtain y' m' d' where "civil_from_days z = (y', m', d')" "valid_ymd y' m' d'" "days_from_civil y' m' d' = z"
    using days_civil_days [OF assms(3)] by blast
  then show ?thesis using civil_days_civil [OF assms(1,2)] by simp
qed

lemma civil_date_round_trip_witness:
  "civil_from_days (days_from_civil 2024 2 29) = (2024, 2, 29)
     \<and> (case civil_from_days (- 1) of (y, m, d) \<Rightarrow> valid_ymd y m d \<and> days_from_civil y m d = - 1)"
  using civil_date_round_trip [of 2024 2 29 "- 1"] by (simp add: valid_ymd_def days_in_month_def)

text \<open>
  The Julian-day formula of the query planner and the era-based algorithm of ingest give
  the same day number for every month of every year from 4000 BC to five million AD, even for
  days past the end of the month.
\<close>

theorem day_numbers_agree:
  assumes "1 \<le> m" "m \<le> 12" "d \<le> 1000" "- 4000 \<le> y" "y \<le> 5000000"
  shows "days_since_epoch y m d = days_from_civil y m d"
  using assms by (rule days_since_epoch_eq)

lemma day_numbers_agree_witness: "days_since_epoch 2023 2 31 = days_from_civil 2023 2 31"
  by (rule day_numbers_agree) simp_all

subsection \<open>Windows\<close>

definition in_window :: "u64 \<times> u64 \<Rightarrow> bool" where
  "in_window w \<longleftrightarrow> fst w \<le> snd w"

lemma year_days:
  assumes "1990 \<le> y" "y \<le> 2101" "1 \<le> m" "m \<le> 12" "d \<le> 31"
  shows "0 \<le> days_since_epoch y m d \<and> days_since_epoch y m d \<le> 60000"
proof -
  let ?Y = "march_year y m" and ?mp = "march_month m"
  have Y: "1989 \<le> ?Y" "?Y \<le> 2101" using assms by (auto simp: march_year_def)
  have mp: "0 \<le> ?mp" "?mp \<le> 11" using assms by (auto simp: march_month_def)
  have p: "0 \<le> (153 * ?mp + 2) div 5" "(153 * ?mp + 2) div 5 \<le> 400"
    using mp div_bounds [of 5 "153 * ?mp + 2"] by simp_all
  have b: "497 \<le> ?Y div 4" "?Y div 4 \<le> 525" "19 \<le> ?Y div 100" "?Y div 100 \<le> 21" "4 \<le> ?Y div 400" "?Y div 400 \<le> 5"
    using Y div_bounds [of 4 ?Y] div_bounds [of 100 ?Y] div_bounds [of 400 ?Y] by simp_all
  have "days_since_epoch y m d = int d + (153 * ?mp + 2) div 5 + 365 * ?Y + ?Y div 4 - ?Y div 100 + ?Y div 400 - 719469"
    using assms by (intro days_since_epoch_month) auto
  then show ?thesis using Y p b assms(5) by linarith
qed

lemma days_order:
  assumes "1990 \<le> y" "y \<le> 2100" "1 \<le> m" "m \<le> m'" "m' \<le> 12" "2 < m \<or> m = m'" "m = m' \<longrightarrow> d \<le> d'" "d \<le> 28" "28 \<le> d'"
    "d' \<le> 31"
  shows "days_since_epoch y m d \<le> days_since_epoch y m' d'"
proof (cases "m = m'")
  case True
  then show ?thesis using assms days_since_epoch_day [of y m d] days_since_epoch_day [of y m d'] by simp
next
  case False
  then have m: "2 < m" "m < m'" using assms by auto
  then have "march_year y m = march_year y m'" "march_month m + 1 \<le> march_month m'"
    using assms by (auto simp: march_year_def march_month_def)
  then have "(153 * march_month m + 2) div 5 \<le> (153 * march_month m' + 2) div 5" by (intro zdiv_mono1) auto
  moreover note days_since_epoch_month [of m d y] days_since_epoch_month [of m' d' y]
  ultimately show ?thesis using assms \<open>march_year y m = march_year y m'\<close> by simp
qed

lemma unat_day_ms:
  assumes "0 \<le> a" "a \<le> 60000"
  shows "unat (as_u64 a * MILLIS_PER_DAY) = nat a * 86400000"
proof -
  have "as_u64 a * MILLIS_PER_DAY = word_of_int (a * 86400000)"
    by (simp add: as_u64_def MILLIS_PER_DAY_def)
  moreover have "uint (word_of_int (a * 86400000) :: u64) = a * 86400000"
    using assms by (subst uint_word_of_int) simp
  ultimately show ?thesis using assms by (simp add: unat_eq_nat_uint nat_mult_distrib)
qed

lemma unat_plus_day: "unat x < 2 ^ 64 - 86400000 \<Longrightarrow> unat (x + MILLIS_PER_DAY) = unat x + 86400000"
  by (simp add: MILLIS_PER_DAY_def unat_word_ariths)

lemma days_window:
  assumes "0 \<le> a" "a \<le> b" "b \<le> 60000"
  shows "in_window (as_u64 a * MILLIS_PER_DAY, as_u64 b * MILLIS_PER_DAY + MILLIS_PER_DAY)"
proof -
  have a: "unat (as_u64 a * MILLIS_PER_DAY) = nat a * 86400000"
    and b: "unat (as_u64 b * MILLIS_PER_DAY) = nat b * 86400000"
    using assms by (simp_all add: unat_day_ms)
  have "unat (as_u64 b * MILLIS_PER_DAY + MILLIS_PER_DAY) = nat b * 86400000 + 86400000"
    using unat_plus_day [of "as_u64 b * MILLIS_PER_DAY"] b assms by simp
  with a assms show ?thesis by (simp add: in_window_def word_le_nat_alt nat_mono)
qed

lemma days_in_month_28: "28 \<le> days_in_month y m" "days_in_month y m \<le> 31"
  by (auto simp: days_in_month_def)

lemma month_ms_window:
  assumes "1990 \<le> y" "y \<le> 2100" "1 \<le> m" "m \<le> m'" "m' \<le> 12" "2 < m \<or> m = m'"
    "m = m' \<longrightarrow> d \<le> d'" "d \<le> 28 \<or> m = m'" "28 \<le> d' \<or> m = m'" "d' \<le> 31"
  shows "in_window (month_to_ms y m d, month_to_ms y m' d' + MILLIS_PER_DAY)"
proof -
  have "days_since_epoch y m d \<le> days_since_epoch y m' d'"
  proof (cases "m = m'")
    case True
    then show ?thesis using assms days_since_epoch_day [of y m d] days_since_epoch_day [of y m d'] by simp
  next
    case False
    then show ?thesis using assms by (intro days_order) auto
  qed
  moreover have "0 \<le> days_since_epoch y m d" "days_since_epoch y m' d' \<le> 60000"
    using year_days [of y m 0] year_days [of y m' d'] assms days_since_epoch_day [of y m d] by auto
  ultimately show ?thesis unfolding month_to_ms_def by (intro days_window)
qed

lemma winter_window:
  assumes "1990 \<le> y" "y \<le> 2100" "28 \<le> d" "d \<le> 31"
  shows "in_window (month_to_ms y 12 1, month_to_ms (y + 1) 2 d + MILLIS_PER_DAY)"
proof -
  have "days_since_epoch (y + 1) 2 d = days_since_epoch y 12 1 + int d + 61"
    using assms by (simp add: days_since_epoch_month march_year_def march_month_def)
  moreover have "0 \<le> days_since_epoch y 12 1" "days_since_epoch (y + 1) 2 d \<le> 60000"
    using year_days [of y 12 1] year_days [of "y + 1" 2 d] assms by auto
  ultimately show ?thesis unfolding month_to_ms_def by (intro days_window) auto
qed

lemma explicit_window: "explicit_date_window token = Some w \<Longrightarrow> in_window w"
  by (auto simp: explicit_date_window_def Let_def MIN_YEAR_def MAX_YEAR_def
      split: list.splits option.splits if_splits intro!: month_ms_window)

lemma season_window_ordered:
  "1990 \<le> y \<Longrightarrow> y \<le> 2100 \<Longrightarrow> season_window lower y = Some w \<Longrightarrow> in_window w"
  by (auto simp: season_window_def Let_def days_in_month_28 split: if_splits intro!: month_ms_window winter_window [unfolded One_nat_def])

lemma month_window_ordered:
  assumes "1990 \<le> y" "y \<le> 2100" "1 \<le> m" "m \<le> 12"
  shows "in_window (month_window lower tokens y m)"
  using assms days_in_month_28 [of y m]
  by (auto simp: month_window_def Let_def split: option.split intro!: month_ms_window)

lemma saturating_sub_le: "saturating_sub_u64 a b \<le> a"
  by (auto simp: saturating_sub_u64_def) (metis word_sub_le)

lemma day_start_le: "(ref div MILLIS_PER_DAY) * MILLIS_PER_DAY \<le> ref"
proof -
  have "unat ((ref div MILLIS_PER_DAY) * MILLIS_PER_DAY) = unat ref div 86400000 * 86400000"
  proof -
    have "unat ref div 86400000 * 86400000 < 2 ^ 64"
      using unat_u64_less [of ref] div_times_less_eq_dividend [of "unat ref" 86400000] by linarith
    then show ?thesis by (simp add: MILLIS_PER_DAY_def unat_word_ariths unat_div_distrib)
  qed
  then show ?thesis by (simp add: word_le_nat_alt)
qed

lemma in_window_sub: "in_window (saturating_sub_u64 a b, a)"
  by (simp add: in_window_def saturating_sub_le)

lemma in_window_plus:
  assumes "x \<le> y" "unat y < 2 ^ 64 - 86400000"
  shows "in_window (x, y + MILLIS_PER_DAY)"
  using assms unat_plus_day [OF assms(2)] by (simp add: in_window_def word_le_nat_alt)

lemma last_n_window_ordered: "last_n_window ref ts = Some w \<Longrightarrow> in_window w"
  by (induction ref ts rule: last_n_window.induct)
    (auto simp: Let_def in_window_sub split: option.splits if_splits)

lemma relative_window_ordered:
  assumes ref: "unat ref < 2 ^ 64 - 86400000" and w: "relative_window lower tokens ref = Some w"
  shows "in_window w"
proof -
  let ?d = "(ref div MILLIS_PER_DAY) * MILLIS_PER_DAY"
  have "unat ?d < 2 ^ 64 - 86400000" using day_start_le [of ref] ref by (simp add: word_le_nat_alt)
  then have "in_window (?d, ?d + MILLIS_PER_DAY)" "in_window (saturating_sub_u64 ?d k, ?d + MILLIS_PER_DAY)"
    "in_window (saturating_sub_u64 ref k, ref + MILLIS_PER_DAY)" for k
    using ref by (auto intro!: in_window_plus saturating_sub_le)
  then show ?thesis
    using w by (auto simp: relative_window_def Let_def in_window_sub dest: last_n_window_ordered split: if_splits)
qed

lemma month_index_range: "month_index t = Some m \<Longrightarrow> 1 \<le> m \<and> m \<le> 12"
  by (auto simp: month_index_def Let_def split: if_splits)

lemma found_month_range: "found_month lower tokens = Some m \<Longrightarrow> 1 \<le> m \<and> m \<le> 12"
proof (cases "find_map month_index tokens")
  case None
  assume "found_month lower tokens = Some m"
  with None obtain i x where "(i, x) \<in> set (enumerate 0 MONTHS)" "m = i + 1"
    by (auto simp: found_month_def dest!: find_map_Some split: if_splits)
  then show ?thesis by (auto simp: in_set_enumerate_eq MONTHS_def)
next
  case (Some k)
  assume "found_month lower tokens = Some m"
  with Some show ?thesis by (auto simp: found_month_def dest!: find_map_Some month_index_range)
qed

lemma year_of_token_range: "year_of_token t = Some y \<Longrightarrow> 1990 \<le> y \<and> y \<le> 2100"
  by (auto simp: year_of_token_def Let_def MIN_YEAR_def MAX_YEAR_def split: if_splits option.splits)

text \<open>
  C33. A query's window of time is never reversed: whatever the query says (a date, a season, a
  month, the first or last week of one, a relative expression), the start is not after the end,
  unless the reference time is in the last day that fits into 64 bits.
\<close>

theorem temporal_windows_ordered:
  assumes "unat (case reference of Some r \<Rightarrow> r | None \<Rightarrow> now) < 2 ^ 64 - 86400000"
    and "parse_temporal_window now query reference = Some (s, e)"
  shows "s \<le> e"
proof -
  let ?lower = "to_ascii_lowercase query"
  let ?tokens = "split_whitespace ?lower"
  have "in_window (s, e)"
  proof (cases "find_map explicit_date_window ?tokens")
    case (Some w)
    then show ?thesis
      using assms(2) by (auto simp: parse_temporal_window_def Let_def dest!: find_map_Some intro: explicit_window)
  next
    case None
    note no_date = None
    show ?thesis
    proof (cases "find_map year_of_token ?tokens")
      case None
      then show ?thesis
        using assms no_date relative_window_ordered by (simp add: parse_temporal_window_def Let_def)
    next
      case (Some y)
      then have "1990 \<le> y" "y \<le> 2100" by (auto dest!: find_map_Some year_of_token_range)
      note year = this
      show ?thesis
      proof (cases "season_window ?lower y = None \<and> found_month ?lower ?tokens \<noteq> None")
        case True
        then obtain m where m: "found_month ?lower ?tokens = Some m" by blast
        with True assms(2) no_date Some have "(s, e) = month_window ?lower ?tokens y m"
          by (simp add: parse_temporal_window_def Let_def)
        then show ?thesis using month_window_ordered [OF year] found_month_range [OF m] by simp
      next
        case False
        with assms no_date Some show ?thesis
          using relative_window_ordered season_window_ordered [OF year]
          by (auto simp: parse_temporal_window_def Let_def split: option.splits)
      qed
    qed
  qed
  then show ?thesis by (simp add: in_window_def)
qed

lemma temporal_windows_ordered_witness:
  "\<exists>s e. parse_temporal_window 0 ''today'' (Some 90000000) = Some (s, e) \<and> s \<le> e"
proof -
  have l: "to_ascii_lowercase ''today'' = ''today''" "split_whitespace ''today'' = [''today'']"
    "contains ''today'' ''yesterday'' = False" "contains ''today'' ''today'' = True"
    "trim_matches (\<lambda>c. \<not> is_alnum c \<and> c \<noteq> CHR ''/'' \<and> c \<noteq> CHR ''-'') ''today'' = ''today''"
    "split_if (\<lambda>c. c = CHR ''/'' \<or> c = CHR ''-'') ''today'' = [''today'']"
    "filter is_digit ''today'' = []" by code_simp+
  have none: "explicit_date_window ''today'' = None" "year_of_token ''today'' = None"
    unfolding explicit_date_window_def year_of_token_def Let_def l(5-7) by simp_all
  have w: "parse_temporal_window 0 ''today'' (Some 90000000)
      = Some ((90000000 div MILLIS_PER_DAY) * MILLIS_PER_DAY, (90000000 div MILLIS_PER_DAY) * MILLIS_PER_DAY + MILLIS_PER_DAY)"
    by (simp only: parse_temporal_window_def relative_window_def Let_def l none find_map.simps option.case
      if_True if_False)
  show ?thesis using temporal_windows_ordered [OF _ w] w by simp
qed

subsection \<open>Relative ranges\<close>

text \<open>
  \<open>last n days\<close> goes back n days from the reference time and stops at the epoch, for every
  n below 213 503 982 335; the multiplication by the length of a day is not checked, so a larger n wraps
  around: the last 18014398509481984 days are an empty window.
\<close>

theorem last_n_days:
  assumes "n \<le> 213503982334"
  shows "last_n_window ref [''last'', show_nat n, ''days'']
       = Some (word_of_nat (unat ref - n * 86400000), ref)
     \<and> last_n_window 5000000000 [''last'', ''18014398509481984'', ''days''] = Some (5000000000, 5000000000)"
proof
  have unit: "trim_matches (\<lambda>x. \<not> is_alphabetic_byte x) ''days'' = ''days''" "starts_with ''days'' ''day''"
    by code_simp+
  have "unat (word_of_nat n * MILLIS_PER_DAY) = n * 86400000"
  proof -
    have "word_of_nat n * MILLIS_PER_DAY = word_of_nat (n * 86400000)" by (simp add: MILLIS_PER_DAY_def)
    moreover have "n * 86400000 < 2 ^ 64" using assms by simp
    ultimately show ?thesis by (simp only: unsigned_of_nat take_bit_nat_eq_self_iff of_nat_id) (simp add: take_bit_nat_eq_self)
  qed
  then have "saturating_sub_u64 ref (word_of_nat n * MILLIS_PER_DAY) = word_of_nat (unat ref - n * 86400000)"
    by (auto simp: saturating_sub_u64_def word_le_nat_alt of_nat_diff MILLIS_PER_DAY_def)
  moreover have "parse_unsigned 64 (show_nat n) = Some n"
    using assms by (intro parse_unsigned_show_nat) simp
  ultimately show "last_n_window ref [''last'', show_nat n, ''days'']
      = Some (word_of_nat (unat ref - n * 86400000), ref)"
    by (simp add: unit Let_def)
  have "parse_unsigned 64 ''18014398509481984'' = Some 18014398509481984"
    by (simp add: parse_unsigned_def parse_dec_def strip_plus_def is_digit_def)
  then show "last_n_window 5000000000 [''last'', ''18014398509481984'', ''days''] = Some (5000000000, 5000000000)"
    by (simp add: unit Let_def MILLIS_PER_DAY_def saturating_sub_u64_def)
qed

lemma last_n_days_witness:
  "last_n_window 864000000 [''last'', show_nat 7, ''days''] = Some (259200000, 864000000)"
  using last_n_days [of 7 864000000] by simp

subsection \<open>Dates found in a text\<close>

text \<open>The midnight of a date with a month and a day of any month, in a year of the given set.\<close>

definition midnight_of :: "int set \<Rightarrow> u64 \<Rightarrow> bool" where
  "midnight_of years ms \<longleftrightarrow>
     (\<exists>y \<in> years. \<exists>m \<in> {1..12}. \<exists>d \<in> {1..31}.
        0 \<le> days_from_civil y m d \<and> ms = as_u64 (days_from_civil y m d) * MILLIS_PER_DAY)"

lemma epoch_ms_midnight: "epoch_ms_from_ymd y m d = Some ms \<Longrightarrow> y \<in> years \<Longrightarrow> midnight_of years ms"
  unfolding midnight_of_def
  by (rule bexI [of _ y], rule bexI [of _ m], rule bexI [of _ d])
    (auto simp: epoch_ms_from_ymd_def Let_def MILLIS_PER_DAY_def split: if_splits)

lemma iso_date_in_years: "iso_date_in txt = Some (Some ms) \<Longrightarrow> midnight_of ({1900..2200} \<union> Y) ms"
  unfolding iso_date_in_def
  by (auto dest!: find_map_Some simp: parse_iso_date_def split: list.splits option.splits if_splits
      intro: epoch_ms_midnight)

lemma after_month_years: "after_month y rest = (d, y', b) \<Longrightarrow> y' \<in> {1900..2200} \<union> {y}"
  by (auto simp: after_month_def split: list.splits option.splits if_splits)

lemma scan_months_years: "scan_months y prev ts = Some (Some ms) \<Longrightarrow> midnight_of ({1900..2200} \<union> {y}) ms"
proof (induction y prev ts rule: scan_months.induct)
  case (2 y prev t ts)
  obtain d1 y1 b1 where a: "after_month y ts = (d1, y1, b1)" by (metis prod_cases3)
  note years = after_month_years [OF a]
  show ?case
    using 2 a years by (auto simp: Let_def split: option.splits if_splits intro: epoch_ms_midnight)
qed simp

lemma year_in_years: "year_in ts = Some (Some ms) \<Longrightarrow> midnight_of ({1900..2200} \<union> Y) ms"
proof -
  assume "year_in ts = Some (Some ms)"
  then obtain y where "1900 \<le> y" "y \<le> 2200" "epoch_ms_from_ymd y 1 1 = Some ms"
    unfolding year_in_def by (auto dest!: find_map_Some split: option.splits if_splits)
  then show ?thesis by (intro epoch_ms_midnight) auto
qed

text \<open>
  The time ingest reads from a text is always a midnight, of a day in the years 1900 to
  2200 or in the year of the reference time, and not before the epoch.
\<close>

theorem text_dates_are_midnights:
  assumes "parse_date_to_epoch_ms txt reference = Some ms"
  shows "midnight_of ({1900..2200} \<union> {fst (civil_from_epoch_ms reference)}) ms"
proof -
  let ?y = "fst (civil_from_epoch_ms reference)"
  consider "iso_date_in txt = Some (Some ms)" | "scan_months ?y None (date_tokens txt) = Some (Some ms)"
    | "year_in (date_tokens txt) = Some (Some ms)"
    using assms unfolding parse_date_to_epoch_ms_def Let_def by (auto split: option.splits if_splits)
  then show ?thesis
    by cases (rule iso_date_in_years, assumption, rule scan_months_years, assumption, rule year_in_years, assumption)
qed

lemma feb_31:
  "iso_date_in ''2023-02-31'' = Some (Some 1677801600000)"
  "explicit_date_window ''2023-02-31'' = Some (1677542400000, 1677628800000)"
proof -
  have p: "parse_i32 ''2023'' = Some 2023" "parse_unsigned 32 ''02'' = Some 2" "parse_unsigned 32 ''31'' = Some 31"
    by (simp_all add: parse_i32_def parse_unsigned_def parse_dec_def strip_plus_def is_digit_def)
  have t: "split_whitespace ''2023-02-31'' = [''2023-02-31'']"
    "trim_matches (\<lambda>c. \<not> is_alnum c \<and> c \<noteq> CHR ''-'') ''2023-02-31'' = ''2023-02-31''"
    "split_if (\<lambda>c. c = CHR ''-'') ''2023-02-31'' = [''2023'', ''02'', ''31'']"
    "trim_matches (\<lambda>c. \<not> is_alnum c \<and> c \<noteq> CHR ''/'' \<and> c \<noteq> CHR ''-'') ''2023-02-31'' = ''2023-02-31''"
    "split_if (\<lambda>c. c = CHR ''/'' \<or> c = CHR ''-'') ''2023-02-31'' = [''2023'', ''02'', ''31'']" by code_simp+
  have d: "days_from_civil 2023 2 31 = 19419" "days_since_epoch 2023 2 28 = 19416" "days_in_month 2023 2 = 28"
    by code_simp+
  have iso: "parse_iso_date ''2023-02-31'' = Some (2023, 2, 31)"
    unfolding parse_iso_date_def t by (simp add: p)
  have "epoch_ms_from_ymd 2023 2 31 = Some 1677801600000"
    unfolding epoch_ms_from_ymd_def d Let_def by (simp add: as_u64_def)
  then show "iso_date_in ''2023-02-31'' = Some (Some 1677801600000)"
    unfolding iso_date_in_def t by (simp add: t iso)
  have "month_to_ms 2023 2 28 = 1677542400000"
    unfolding month_to_ms_def d by (simp add: as_u64_def MILLIS_PER_DAY_def)
  then show "explicit_date_window ''2023-02-31'' = Some (1677542400000, 1677628800000)"
    unfolding explicit_date_window_def t Let_def by (simp add: p d MIN_YEAR_def MAX_YEAR_def MILLIS_PER_DAY_def)
qed

lemma text_dates_are_midnights_witness:
  "parse_date_to_epoch_ms ''2023-02-31'' 0 = Some 1677801600000
     \<and> midnight_of ({1900..2200} \<union> {fst (civil_from_epoch_ms 0)}) 1677801600000"
proof -
  have "parse_date_to_epoch_ms ''2023-02-31'' 0 = Some 1677801600000"
    by (simp add: parse_date_to_epoch_ms_def feb_31)
  then show ?thesis using text_dates_are_midnights by blast
qed


end
