(* ===== verification/Platform.thy ===== *)
theory Platform
  imports Prelude Rust_String
begin

section \<open>Accounts, sessions, API keys and usage\<close>

text \<open>
  Models \<open>src/platform.rs\<close>: the tables of \<open>PlatformStore\<close> and its operations.  The clock, the
  random strings, Argon2 and SHA-256 are arguments.  A \<open>u64\<close> is bound to a column as \<open>i64\<close>: a
  value from 2 to the 63rd on is an error of the driver.  Usage counters are integers: SQLite's
  change to floating point beyond 64 bits is not modelled.  JSON columns of the profile are kept
  as the text that the given encoders produce.
\<close>

datatype platform_error =
    UsernameTooLong | UsernameTooShort | PasswordTooLong | PasswordTooShort
  | UsernameExists | InvalidCredentials | ConstraintViolation | KeyNotFound
  | UnsafeUserId | IntegerOutOfRange

record user_row =
  u_user_id :: str
  u_username :: str
  u_password_hash :: str
  u_created_at_ms :: int

record session_row =
  se_token :: str
  se_user_id :: str
  se_created_at_ms :: int
  se_expires_at_ms :: int

record api_key_row =
  ak_key_id :: str
  ak_user_id :: str
  ak_name :: str
  ak_key_prefix :: str
  ak_key_hash :: str
  ak_created_at_ms :: int
  ak_last_used_ms :: "int option"
  ak_disabled :: bool
  ak_cluster_id :: "str option"

record usage_row =
  us_user_id :: str
  us_request_count :: int
  us_ingest_count :: int
  us_query_count :: int
  us_temporal_query_count :: int
  us_reset_count :: int
  us_health_count :: int
  us_version_count :: int
  us_last_request_ms :: "int option"

record profile_row =
  pr_user_id :: str
  pr_stable_facts :: str
  pr_recent_activity :: str
  pr_last_updated_ms :: int

text \<open>\<open>key_touched\<close> maps a key to the instant (in seconds) of the last write of its \<open>last_used_ms\<close>.\<close>

record platform =
  users :: "user_row list"
  sessions :: "session_row list"
  api_keys :: "api_key_row list"
  usage_table :: "usage_row list"
  user_profiles :: "profile_row list"
  key_touched :: "(str \<times> int) list"

record PublicUser =
  pu_user_id :: str
  pu_username :: str
  pu_created_at_ms :: int

record PublicApiKey =
  pk_key_id :: str
  pk_name :: str
  pk_key_prefix :: str
  pk_created_at_ms :: int
  pk_last_used_ms :: "int option"
  pk_disabled :: bool

record ApiKeyAuth =
  au_user_id :: str
  au_key_id :: str
  au_cluster_id :: "str option"

record UsageStats =
  st_request_count :: int
  st_ingest_count :: int
  st_query_count :: int
  st_temporal_query_count :: int
  st_reset_count :: int
  st_health_count :: int
  st_version_count :: int
  st_last_request_ms :: "int option"

definition empty_platform :: platform where
  "empty_platform =
     \<lparr>users = [], sessions = [], api_keys = [], usage_table = [], user_profiles = [], key_touched = []\<rparr>"

definition bind_u64 :: "u64 \<Rightarrow> platform_error + int" where
  "bind_u64 x = (if unat x < 2 ^ 63 then Inr (uint x) else Inl IntegerOutOfRange)"

subsection \<open>Users\<close>

definition public_user :: "user_row \<Rightarrow> PublicUser" where
  "public_user u =
     \<lparr>pu_user_id = u_user_id u, pu_username = u_username u, pu_created_at_ms = u_created_at_ms u\<rparr>"

definition create_user ::
  "u64 \<Rightarrow> str \<Rightarrow> (str \<Rightarrow> str) \<Rightarrow> str \<Rightarrow> str \<Rightarrow> platform \<Rightarrow> platform_error + (platform \<times> PublicUser)" where
  "create_user now random hash_password username0 password db =
     (let username = to_ascii_lowercase (trim username0) in
      if length username > 64 then Inl UsernameTooLong
      else if username = [] \<or> length username < 3 then Inl UsernameTooShort
      else if length password > 4096 then Inl PasswordTooLong
      else if length password < 8 then Inl PasswordTooShort
      else bind_res (bind_u64 now) (\<lambda>created.
        (let user = \<lparr>u_user_id = ''usr_'' @ random, u_username = username,
                     u_password_hash = hash_password password, u_created_at_ms = created\<rparr>
         in if \<exists>u \<in> set (users db). u_user_id u = u_user_id user \<or> u_username u = username
            then Inl UsernameExists
            else Inr (db\<lparr>users := users db @ [user]\<rparr>, public_user user))))"

definition login ::
  "(str \<Rightarrow> str \<Rightarrow> bool) \<Rightarrow> str \<Rightarrow> str \<Rightarrow> platform \<Rightarrow> platform_error + PublicUser" where
  "login verify_password username0 password db =
     (let username = to_ascii_lowercase (trim username0) in
      if length username > 64 then Inl UsernameTooLong
      else if length password > 4096 then Inl PasswordTooLong
      else (case filter (\<lambda>u. u_username u = username) (users db) of
              [] \<Rightarrow> Inl InvalidCredentials
            | u # _ \<Rightarrow> if verify_password (u_password_hash u) password then Inr (public_user u)
                       else Inl InvalidCredentials))"

subsection \<open>Sessions\<close>

definition saturating_mul_u64 :: "u64 \<Rightarrow> u64 \<Rightarrow> u64" where
  "saturating_mul_u64 a b = (if unat a * unat b < 2 ^ 64 then a * b else - 1)"

definition create_session ::
  "u64 \<Rightarrow> str \<Rightarrow> str \<Rightarrow> u64 \<Rightarrow> platform \<Rightarrow> platform_error + (platform \<times> str)" where
  "create_session now random user_id ttl_secs db =
     (let token = ''sess_'' @ random;
          expires = saturating_add_u64 now (saturating_mul_u64 ttl_secs 1000)
      in bind_res (bind_u64 now) (\<lambda>created. bind_res (bind_u64 expires) (\<lambda>expires_at.
           if \<exists>s \<in> set (sessions db). se_token s = token then Inl ConstraintViolation
           else Inr (db\<lparr>sessions := sessions db @ [\<lparr>se_token = token, se_user_id = user_id,
                        se_created_at_ms = created, se_expires_at_ms = expires_at\<rparr>]\<rparr>, token))))"

definition resolve_session :: "u64 \<Rightarrow> str \<Rightarrow> platform \<Rightarrow> PublicUser option" where
  "resolve_session now token db =
     (case concat (map (\<lambda>s. map (\<lambda>u. (s, u)) (filter (\<lambda>u. u_user_id u = se_user_id s) (users db)))
             (filter (\<lambda>s. se_token s = token) (sessions db))) of
        [] \<Rightarrow> None
      | (s, u) # _ \<Rightarrow> if se_expires_at_ms s \<le> uint now then None else Some (public_user u))"

definition delete_session :: "str \<Rightarrow> platform \<Rightarrow> platform" where
  "delete_session token db = db\<lparr>sessions := sql_delete (\<lambda>s. se_token s = token) (sessions db)\<rparr>"

definition purge_expired_sessions :: "u64 \<Rightarrow> platform \<Rightarrow> platform_error + (platform \<times> nat)" where
  "purge_expired_sessions now db =
     bind_res (bind_u64 now) (\<lambda>n.
       Inr (db\<lparr>sessions := sql_delete (\<lambda>s. se_expires_at_ms s \<le> n) (sessions db)\<rparr>,
            length (filter (\<lambda>s. se_expires_at_ms s \<le> n) (sessions db))))"

subsection \<open>API keys\<close>

text \<open>\<open>chars().take(n)\<close> on UTF-8 text: a continuation byte belongs to the character before it.\<close>

fun take_chars :: "nat \<Rightarrow> str \<Rightarrow> str" where
  "take_chars n [] = []"
| "take_chars n (c # s) =
     (if 128 \<le> code c \<and> code c < 192 then c # take_chars n s
      else (case n of 0 \<Rightarrow> [] | Suc k \<Rightarrow> c # take_chars k s))"

definition new_api_key ::
  "(str \<Rightarrow> str) \<Rightarrow> int \<Rightarrow> str \<Rightarrow> str \<Rightarrow> str \<Rightarrow> str \<Rightarrow> str option \<Rightarrow> api_key_row" where
  "new_api_key sha256_hex created key_id user_id name raw_key cluster_id =
     \<lparr>ak_key_id = key_id, ak_user_id = user_id, ak_name = trim name, ak_key_prefix = take_chars 12 raw_key,
      ak_key_hash = sha256_hex raw_key, ak_created_at_ms = created, ak_last_used_ms = None,
      ak_disabled = False, ak_cluster_id = cluster_id\<rparr>"

definition public_api_key :: "api_key_row \<Rightarrow> PublicApiKey" where
  "public_api_key k =
     \<lparr>pk_key_id = ak_key_id k, pk_name = ak_name k, pk_key_prefix = ak_key_prefix k,
      pk_created_at_ms = ak_created_at_ms k, pk_last_used_ms = ak_last_used_ms k,
      pk_disabled = ak_disabled k\<rparr>"

definition create_api_key_for_cluster ::
  "(str \<Rightarrow> str) \<Rightarrow> u64 \<Rightarrow> str \<Rightarrow> str \<Rightarrow> str \<Rightarrow> str \<Rightarrow> str option \<Rightarrow> platform
     \<Rightarrow> platform_error + (platform \<times> PublicApiKey \<times> str)" where
  "create_api_key_for_cluster sha256_hex now random_id random_key user_id name cluster_id db =
     bind_res (bind_u64 now) (\<lambda>created.
       (let raw_key = ''ak_'' @ random_key;
            key = new_api_key sha256_hex created (''key_'' @ random_id) user_id name raw_key cluster_id
        in if \<exists>k \<in> set (api_keys db). ak_key_id k = ak_key_id key \<or> ak_key_hash k = ak_key_hash key
           then Inl ConstraintViolation
           else Inr (db\<lparr>api_keys := api_keys db @ [key]\<rparr>, public_api_key key, raw_key)))"

definition create_api_key ::
  "(str \<Rightarrow> str) \<Rightarrow> u64 \<Rightarrow> str \<Rightarrow> str \<Rightarrow> str \<Rightarrow> str \<Rightarrow> platform
     \<Rightarrow> platform_error + (platform \<times> PublicApiKey \<times> str)" where
  "create_api_key sha256_hex now random_id random_key user_id name db =
     create_api_key_for_cluster sha256_hex now random_id random_key user_id name None db"

definition inject_api_key ::
  "(str \<Rightarrow> str) \<Rightarrow> u64 \<Rightarrow> str \<Rightarrow> str \<Rightarrow> str \<Rightarrow> str \<Rightarrow> str option \<Rightarrow> platform \<Rightarrow> platform_error + platform" where
  "inject_api_key sha256_hex now key_id user_id name raw_key cluster_id db =
     bind_res (bind_u64 now) (\<lambda>created.
       (let key = new_api_key sha256_hex created key_id user_id name raw_key cluster_id
        in Inr (db\<lparr>api_keys := sql_delete (\<lambda>k. ak_key_id k = ak_key_id key \<or> ak_key_hash k = ak_key_hash key)
                       (api_keys db) @ [key]\<rparr>)))"

definition list_api_keys :: "str \<Rightarrow> platform \<Rightarrow> PublicApiKey list" where
  "list_api_keys user_id db =
     map public_api_key (sort_key (\<lambda>k. - ak_created_at_ms k) (filter (\<lambda>k. ak_user_id k = user_id) (api_keys db)))"

definition disable_keys :: "(api_key_row \<Rightarrow> bool) \<Rightarrow> platform \<Rightarrow> platform_error + platform" where
  "disable_keys p db =
     (if filter p (api_keys db) = [] then Inl KeyNotFound
      else Inr (db\<lparr>api_keys := sql_update p (\<lambda>k. k\<lparr>ak_disabled := True\<rparr>) (api_keys db)\<rparr>))"

definition revoke_api_key :: "str \<Rightarrow> str \<Rightarrow> platform \<Rightarrow> platform_error + platform" where
  "revoke_api_key user_id key_id db = disable_keys (\<lambda>k. ak_key_id k = key_id \<and> ak_user_id k = user_id) db"

definition admin_revoke_api_key :: "str \<Rightarrow> platform \<Rightarrow> platform_error + platform" where
  "admin_revoke_api_key key_id db = disable_keys (\<lambda>k. ak_key_id k = key_id) db"

text \<open>The instant is recorded before the write; an error of the write keeps it.\<close>

definition touch_key :: "u64 \<Rightarrow> int \<Rightarrow> str \<Rightarrow> platform \<Rightarrow> platform \<times> platform_error option" where
  "touch_key now instant key_id db =
     (if (case map_of (key_touched db) key_id of Some before \<Rightarrow> instant - before < 60 | None \<Rightarrow> False)
      then (db, None)
      else (let db1 = db\<lparr>key_touched := (key_id, instant) # key_touched db\<rparr> in
        case bind_u64 now of
          Inl e \<Rightarrow> (db1, Some e)
        | Inr n \<Rightarrow> (db1\<lparr>api_keys := sql_update (\<lambda>k. ak_key_id k = key_id)
                       (\<lambda>k. k\<lparr>ak_last_used_ms := Some n\<rparr>) (api_keys db1)\<rparr>, None)))"

definition authenticate_api_key ::
  "(str \<Rightarrow> str) \<Rightarrow> u64 \<Rightarrow> int \<Rightarrow> str \<Rightarrow> platform \<Rightarrow> platform \<times> (platform_error + ApiKeyAuth option)" where
  "authenticate_api_key sha256_hex now instant raw_key db =
     (case filter (\<lambda>k. ak_key_hash k = sha256_hex raw_key \<and> \<not> ak_disabled k) (api_keys db) of
        [] \<Rightarrow> (db, Inr None)
      | k # _ \<Rightarrow>
          (case touch_key now instant (ak_key_id k) db of
             (db', Some e) \<Rightarrow> (db', Inl e)
           | (db', None) \<Rightarrow> (db', Inr (Some \<lparr>au_user_id = ak_user_id k, au_key_id = ak_key_id k,
                                           au_cluster_id = ak_cluster_id k\<rparr>))))"

subsection \<open>Usage\<close>

definition is_safe_user_id :: "str \<Rightarrow> bool" where
  "is_safe_user_id user_id \<longleftrightarrow>
     8 \<le> length user_id \<and> length user_id \<le> 128 \<and> starts_with user_id ''usr_''
     \<and> list_all (\<lambda>b. is_alnum b \<or> b = CHR ''_'') user_id"

definition count_request :: "str \<Rightarrow> int \<Rightarrow> int \<Rightarrow> usage_row \<Rightarrow> usage_row" where
  "count_request endpoint n now u =
     (let u = u\<lparr>us_request_count := us_request_count u + n, us_last_request_ms := Some now\<rparr> in
      if endpoint = ''ingest'' then u\<lparr>us_ingest_count := us_ingest_count u + n\<rparr>
      else if endpoint = ''query'' then u\<lparr>us_query_count := us_query_count u + n\<rparr>
      else if endpoint = ''temporal_query'' then u\<lparr>us_temporal_query_count := us_temporal_query_count u + n\<rparr>
      else if endpoint = ''reset'' then u\<lparr>us_reset_count := us_reset_count u + n\<rparr>
      else if endpoint = ''health'' then u\<lparr>us_health_count := us_health_count u + n\<rparr>
      else if endpoint = ''version'' then u\<lparr>us_version_count := us_version_count u + n\<rparr>
      else u)"

definition new_usage :: "str \<Rightarrow> usage_row" where
  "new_usage user_id =
     \<lparr>us_user_id = user_id, us_request_count = 0, us_ingest_count = 0, us_query_count = 0,
      us_temporal_query_count = 0, us_reset_count = 0, us_health_count = 0, us_version_count = 0,
      us_last_request_ms = None\<rparr>"

text \<open>The statements are not in one transaction: an error keeps the row inserted before it.\<close>

definition record_usage_n :: "u64 \<Rightarrow> str \<Rightarrow> str \<Rightarrow> u64 \<Rightarrow> platform \<Rightarrow> platform \<times> platform_error option" where
  "record_usage_n now user_id endpoint n0 db =
     (if n0 = 0 then (db, None)
      else (let db1 = db\<lparr>usage_table := sql_ignore us_user_id (new_usage user_id) (usage_table db)\<rparr> in
        if \<not> is_safe_user_id user_id then (db1, Some UnsafeUserId)
        else (case bind_res (bind_u64 n0) (\<lambda>n. bind_res (bind_u64 now) (\<lambda>t. Inr (n, t))) of
                Inl e \<Rightarrow> (db1, Some e)
              | Inr (n, t) \<Rightarrow>
                  (db1\<lparr>usage_table := sql_update (\<lambda>u. us_user_id u = user_id) (count_request endpoint n t)
                         (usage_table db1)\<rparr>, None))))"

definition record_usage :: "u64 \<Rightarrow> str \<Rightarrow> str \<Rightarrow> platform \<Rightarrow> platform \<times> platform_error option" where
  "record_usage now user_id endpoint db = record_usage_n now user_id endpoint 1 db"

definition stats_of :: "usage_row \<Rightarrow> UsageStats" where
  "stats_of u =
     \<lparr>st_request_count = us_request_count u, st_ingest_count = us_ingest_count u,
      st_query_count = us_query_count u, st_temporal_query_count = us_temporal_query_count u,
      st_reset_count = us_reset_count u, st_health_count = us_health_count u,
      st_version_count = us_version_count u, st_last_request_ms = us_last_request_ms u\<rparr>"

definition usage_stats :: "str \<Rightarrow> platform \<Rightarrow> UsageStats" where
  "usage_stats user_id db =
     (case filter (\<lambda>u. us_user_id u = user_id) (usage_table db) of
        u # _ \<Rightarrow> stats_of u | [] \<Rightarrow> stats_of (new_usage user_id))"

definition sql_max :: "int option list \<Rightarrow> int option" where
  "sql_max xs = fold (\<lambda>x m. case (x, m) of (None, _) \<Rightarrow> m | (Some a, None) \<Rightarrow> Some a | (Some a, Some b) \<Rightarrow> Some (max a b)) xs None"

definition total_usage_stats :: "platform \<Rightarrow> UsageStats" where
  "total_usage_stats db =
     (let t = usage_table db in
      \<lparr>st_request_count = sum_list (map us_request_count t), st_ingest_count = sum_list (map us_ingest_count t),
       st_query_count = sum_list (map us_query_count t),
       st_temporal_query_count = sum_list (map us_temporal_query_count t),
       st_reset_count = sum_list (map us_reset_count t), st_health_count = sum_list (map us_health_count t),
       st_version_count = sum_list (map us_version_count t),
       st_last_request_ms = sql_max (map us_last_request_ms t)\<rparr>)"

subsection \<open>Random tokens\<close>

text \<open>
  \<open>random_token\<close> reads random bytes until the token is full; the argument is what the
  generator would deliver, and the result is None when it is too short.
\<close>

definition TOKEN_CHARS :: str where
  "TOKEN_CHARS = ''abcdefghijklmnopqrstuvwxyzABCDEFGHIJKLMNOPQRSTUVWXYZ0123456789''"

definition TOKEN_LIMIT :: nat where
  "TOKEN_LIMIT = 256 div length TOKEN_CHARS * length TOKEN_CHARS"

fun random_token :: "nat \<Rightarrow> nat list \<Rightarrow> str \<Rightarrow> str option" where
  "random_token n bytes out =
     (if length out \<ge> n then Some out
      else (case bytes of
              [] \<Rightarrow> None
            | b # bs \<Rightarrow> random_token n bs
                (if b < TOKEN_LIMIT then out @ [TOKEN_CHARS ! (b mod length TOKEN_CHARS)] else out)))"

declare random_token.simps [simp del]

subsection \<open>Profiles\<close>

definition normalize_fact :: "str \<Rightarrow> str" where
  "normalize_fact txt = join '' '' (split_whitespace txt)"

definition split_sentences :: "str \<Rightarrow> str list" where
  "split_sentences txt =
     filter (\<lambda>s. s \<noteq> [])
       (map trim (split_if (\<lambda>c. c = CHR ''.'' \<or> c = CHR ''!'' \<or> c = CHR ''?'' \<or> code c = 10) txt))"

definition contains_any :: "str \<Rightarrow> str list \<Rightarrow> bool" where
  "contains_any haystack needles = list_ex (contains haystack) needles"

text \<open>U+2019, the typographic apostrophe.\<close>

definition APOSTROPHE :: str where
  "APOSTROPHE = [CHR 0xE2, CHR 0x80, CHR 0x99]"

definition ASCII_APOSTROPHE :: str where
  "ASCII_APOSTROPHE = [CHR 0x27]"

definition is_first_person_sentence :: "str \<Rightarrow> bool" where
  "is_first_person_sentence lower = contains_any lower
     ['' i '', '' i'' @ ASCII_APOSTROPHE @ ''m '', '' i'' @ APOSTROPHE @ ''m '', '' i am '',
      '' i'' @ ASCII_APOSTROPHE @ ''d '', '' i'' @ APOSTROPHE @ ''d '', '' i have '',
      '' i'' @ APOSTROPHE @ ''ve '', '' i'' @ ASCII_APOSTROPHE @ ''ve '', '' my '']"

definition stable_markers :: "str list" where
  "stable_markers =
     [''i am'', ''i'' @ ASCII_APOSTROPHE @ ''m'', ''i'' @ APOSTROPHE @ ''m'', ''i have'',
      ''i'' @ ASCII_APOSTROPHE @ ''ve'', ''i'' @ APOSTROPHE @ ''ve'', ''i use'', ''i prefer'', ''i like'',
      ''i love'', ''i work'', ''i live'', ''i own'', ''usually'', ''typically'', ''currently'']"

definition activity_markers :: "str list" where
  "activity_markers =
     [''today'', ''yesterday'', ''last '', ''this '', ''in january'', ''in february'', ''in march'',
      ''in april'', ''in may'', ''in june'', ''in july'', ''in august'', ''in september'',
      ''in october'', ''in november'', ''in december'', ''i went'', ''i bought'', ''i attended'',
      ''i started'', ''i finished'', ''i did'']"

text \<open>Remove the first element that satisfies the predicate.\<close>

fun remove_where :: "('a \<Rightarrow> bool) \<Rightarrow> 'a list \<Rightarrow> 'a list" where
  "remove_where p [] = []"
| "remove_where p (x # xs) = (if p x then xs else x # remove_where p xs)"

definition insert_unique_front :: "str list \<Rightarrow> str \<Rightarrow> nat \<Rightarrow> str list" where
  "insert_unique_front items value max_len = take max_len (value # remove_where (\<lambda>x. x = value) items)"

fun extract_loop :: "str list \<Rightarrow> nat \<Rightarrow> nat \<Rightarrow> str list \<Rightarrow> str list \<Rightarrow> str list" where
  "extract_loop markers max_sentence max_facts out [] = out"
| "extract_loop markers max_sentence max_facts out (s # ss) =
     (let normalized = normalize_fact s;
          lower = '' '' @ to_ascii_lowercase normalized @ '' ''
      in extract_loop markers max_sentence max_facts
           (if length normalized < 10 \<or> length normalized > max_sentence then out
            else if is_first_person_sentence lower \<and> contains_any lower markers
            then insert_unique_front out normalized max_facts else out) ss)"

definition MAX_STABLE_FACTS :: nat where "MAX_STABLE_FACTS = 64"

definition MAX_ACTIVITY_FACTS :: nat where "MAX_ACTIVITY_FACTS = 120"

definition extract_profile_stable_facts :: "str \<Rightarrow> str list" where
  "extract_profile_stable_facts txt = extract_loop stable_markers 180 MAX_STABLE_FACTS [] (split_sentences txt)"

definition extract_profile_activity_facts :: "str \<Rightarrow> str list" where
  "extract_profile_activity_facts txt = extract_loop activity_markers 220 MAX_ACTIVITY_FACTS [] (split_sentences txt)"

record ProfileActivity =
  pa_fact :: str
  pa_source :: str
  pa_timestamp_ms :: u64

record UserProfile =
  up_user_id :: str
  up_stable_facts :: "str list"
  up_recent_activity :: "ProfileActivity list"
  up_last_updated_ms :: u64

definition user_profile ::
  "(str \<Rightarrow> str list option) \<Rightarrow> (str \<Rightarrow> ProfileActivity list option) \<Rightarrow> str \<Rightarrow> platform \<Rightarrow> UserProfile" where
  "user_profile read_facts read_activity user_id db =
     (case filter (\<lambda>p. pr_user_id p = user_id) (user_profiles db) of
        [] \<Rightarrow> \<lparr>up_user_id = user_id, up_stable_facts = [], up_recent_activity = [], up_last_updated_ms = 0\<rparr>
      | p # _ \<Rightarrow>
          \<lparr>up_user_id = user_id,
           up_stable_facts = (case read_facts (pr_stable_facts p) of None \<Rightarrow> [] | Some fs \<Rightarrow> fs),
           up_recent_activity = (case read_activity (pr_recent_activity p) of None \<Rightarrow> [] | Some xs \<Rightarrow> xs),
           up_last_updated_ms = as_u64 (pr_last_updated_ms p)\<rparr>)"

definition insert_activity :: "str \<Rightarrow> u64 \<Rightarrow> ProfileActivity list \<Rightarrow> str \<Rightarrow> ProfileActivity list" where
  "insert_activity source timestamp xs f =
     take MAX_ACTIVITY_FACTS
       (\<lparr>pa_fact = f, pa_source = source, pa_timestamp_ms = timestamp\<rparr>
          # remove_where (\<lambda>x. pa_fact x = f \<and> pa_source x = source) xs)"

definition update_profile_from_text ::
  "(str \<Rightarrow> str list option) \<Rightarrow> (str \<Rightarrow> ProfileActivity list option)
     \<Rightarrow> (str list \<Rightarrow> str) \<Rightarrow> (ProfileActivity list \<Rightarrow> str)
     \<Rightarrow> str \<Rightarrow> str \<Rightarrow> u64 \<Rightarrow> str \<Rightarrow> platform \<Rightarrow> platform_error + platform" where
  "update_profile_from_text read_facts read_activity show_facts show_activity user_id txt timestamp source db =
     (let stable = extract_profile_stable_facts txt; activity = extract_profile_activity_facts txt in
      if stable = [] \<and> activity = [] then Inr db
      else (let profile = user_profile read_facts read_activity user_id db;
                facts = foldl (\<lambda>fs f. insert_unique_front fs f MAX_STABLE_FACTS) (up_stable_facts profile) stable;
                recent = foldl (insert_activity source timestamp) (up_recent_activity profile) activity
            in bind_res (bind_u64 (max timestamp (up_last_updated_ms profile))) (\<lambda>updated.
                 Inr (db\<lparr>user_profiles := sql_replace pr_user_id
                   \<lparr>pr_user_id = user_id, pr_stable_facts = show_facts facts,
                    pr_recent_activity = show_activity recent, pr_last_updated_ms = updated\<rparr>
                   (user_profiles db)\<rparr>))))"

end
