(* ===== verification/Platform_Laws.thy ===== *)
theory Platform_Laws
  imports Platform
begin

section \<open>Accounts as a state machine\<close>

text \<open>
  Every successful operation of \<open>PlatformStore\<close> is a step; the invariant of the reachable states
  is the uniqueness the tables declare, together with the agreement of the usage counters.  On
  it rest the life of an API key, of a session, the accounting of usage and the bounded profile.
\<close>

datatype platform_event =
    Registered | SessionOpened str | SessionClosed str | Purged u64
  | KeyIssued str str
  | KeyRevoked str
  | Authenticated | UsageRecorded | ProfileUpdated

inductive platform_step :: "(str \<Rightarrow> str) \<Rightarrow> platform \<Rightarrow> platform_event \<Rightarrow> platform \<Rightarrow> bool" for sha where
  registered: "create_user now random hash name pw db = Inr (db', u) \<Longrightarrow> platform_step sha db Registered db'"
| session_opened: "create_session now random uid ttl db = Inr (db', tok) \<Longrightarrow> platform_step sha db (SessionOpened tok) db'"
| session_closed: "platform_step sha db (SessionClosed tok) (delete_session tok db)"
| purged: "purge_expired_sessions now db = Inr (db', n) \<Longrightarrow> platform_step sha db (Purged now) db'"
| key_created: "create_api_key_for_cluster sha now rid rkey uid name cl db = Inr (db', pub, raw)
    \<Longrightarrow> platform_step sha db (KeyIssued (pk_key_id pub) (sha raw)) db'"
| key_injected: "inject_api_key sha now kid uid name raw cl db = Inr db'
    \<Longrightarrow> platform_step sha db (KeyIssued kid (sha raw)) db'"
| key_revoked: "revoke_api_key uid kid db = Inr db' \<Longrightarrow> platform_step sha db (KeyRevoked kid) db'"
| key_admin_revoked: "admin_revoke_api_key kid db = Inr db' \<Longrightarrow> platform_step sha db (KeyRevoked kid) db'"
| authenticated: "platform_step sha db Authenticated (fst (authenticate_api_key sha now i raw db))"
| usage_recorded: "platform_step sha db UsageRecorded (fst (record_usage_n now uid ep n db))"
| profile_updated: "update_profile_from_text rf ra sf sa uid t ts src db = Inr db'
    \<Longrightarrow> platform_step sha db ProfileUpdated db'"

inductive platform_run :: "(str \<Rightarrow> str) \<Rightarrow> platform \<Rightarrow> platform_event list \<Rightarrow> platform \<Rightarrow> bool" for sha start where
  run_nil: "platform_run sha start [] start"
| run_step: "platform_run sha start es db1 \<Longrightarrow> platform_step sha db1 e db2 \<Longrightarrow> platform_run sha start (es @ [e]) db2"

inductive_cases platform_stepE: "platform_step sha db e db'"

text \<open>Uniqueness of the declared keys, and counters that never exceed the number of requests.\<close>

definition usage_ok :: "usage_row \<Rightarrow> bool" where
  "usage_ok u \<longleftrightarrow>
     0 \<le> us_ingest_count u \<and> 0 \<le> us_query_count u \<and> 0 \<le> us_temporal_query_count u \<and> 0 \<le> us_reset_count u
     \<and> 0 \<le> us_health_count u \<and> 0 \<le> us_version_count u
     \<and> us_ingest_count u + us_query_count u + us_temporal_query_count u + us_reset_count u
         + us_health_count u + us_version_count u \<le> us_request_count u"

definition platform_ok :: "platform \<Rightarrow> bool" where
  "platform_ok db \<longleftrightarrow>
     distinct (map u_user_id (users db)) \<and> distinct (map u_username (users db))
     \<and> distinct (map se_token (sessions db))
     \<and> distinct (map ak_key_id (api_keys db)) \<and> distinct (map ak_key_hash (api_keys db))
     \<and> distinct (map us_user_id (usage_table db)) \<and> distinct (map pr_user_id (user_profiles db))
     \<and> (\<forall>u \<in> set (usage_table db). usage_ok u)"

lemma distinct_map_filter': "distinct (map f xs) \<Longrightarrow> distinct (map f (filter p xs))"
  by (rule distinct_map_filter)

lemma distinct_map_update:
  "(\<And>r. k (f r) = k r) \<Longrightarrow> distinct (map k (sql_update p f t)) = distinct (map k t)"
  by (simp add: sql_update_def comp_def if_distrib [of k] cong: if_cong)

lemma touch_key_frame:
  "\<exists>ks ts. fst (touch_key now i kid db) = db\<lparr>key_touched := ts, api_keys := ks\<rparr>
     \<and> map (\<lambda>k. k\<lparr>ak_last_used_ms := None\<rparr>) ks = map (\<lambda>k. k\<lparr>ak_last_used_ms := None\<rparr>) (api_keys db)"
proof (cases "fst (touch_key now i kid db) = db")
  case True
  then have "fst (touch_key now i kid db) = db\<lparr>key_touched := key_touched db, api_keys := api_keys db\<rparr>" by simp
  then show ?thesis by blast
next
  case False
  let ?ts = "(kid, i) # key_touched db"
  let ?ks = "sql_update (\<lambda>k. ak_key_id k = kid) (\<lambda>k. k\<lparr>ak_last_used_ms := Some (uint now)\<rparr>) (api_keys db)"
  have "fst (touch_key now i kid db) \<in> {db\<lparr>key_touched := ?ts, api_keys := api_keys db\<rparr>,
      db\<lparr>key_touched := ?ts, api_keys := ?ks\<rparr>}"
    using False by (auto simp: touch_key_def Let_def bind_u64_def split: if_splits option.splits)
  moreover have "map (\<lambda>k. k\<lparr>ak_last_used_ms := None\<rparr>) ?ks = map (\<lambda>k. k\<lparr>ak_last_used_ms := None\<rparr>) (api_keys db)"
    by (simp add: sql_update_def)
  ultimately show ?thesis by blast
qed

text \<open>The part of a key that authentication does not touch.\<close>

definition key_core :: "api_key_row \<Rightarrow> api_key_row" where
  "key_core k = k\<lparr>ak_last_used_ms := None\<rparr>"

lemma key_core_sel [simp]:
  "ak_key_id (key_core k) = ak_key_id k" "ak_user_id (key_core k) = ak_user_id k"
  "ak_key_hash (key_core k) = ak_key_hash k" "ak_disabled (key_core k) = ak_disabled k"
  "ak_cluster_id (key_core k) = ak_cluster_id k"
  by (simp_all add: key_core_def)

lemma authenticate_frame:
  "\<exists>ks ts. fst (authenticate_api_key sha now i raw db) = db\<lparr>key_touched := ts, api_keys := ks\<rparr>
     \<and> map key_core ks = map key_core (api_keys db)"
proof (cases "filter (\<lambda>k. ak_key_hash k = sha raw \<and> \<not> ak_disabled k) (api_keys db)")
  case Nil
  then have "fst (authenticate_api_key sha now i raw db) = db\<lparr>key_touched := key_touched db, api_keys := api_keys db\<rparr>"
    by (simp add: authenticate_api_key_def)
  then show ?thesis by blast
next
  case (Cons k ks)
  then have "fst (authenticate_api_key sha now i raw db) = fst (touch_key now i (ak_key_id k) db)"
    by (simp add: authenticate_api_key_def split: prod.split option.split)
  then show ?thesis using touch_key_frame [of now i "ak_key_id k" db] unfolding key_core_def by simp
qed

lemma map_core_map: "map key_core ks = map key_core ks' \<Longrightarrow> (\<And>k. f (key_core k) = f k) \<Longrightarrow> map f ks = map f ks'"
proof -
  assume core: "map key_core ks = map key_core ks'" and f: "\<And>k. f (key_core k) = f k"
  have "map f xs = map f (map key_core xs)" for xs by (simp add: f comp_def)
  then show "map f ks = map f ks'" using core by metis
qed

lemma usage_ok_new [simp]: "usage_ok (new_usage uid)"
  by (simp add: usage_ok_def new_usage_def)

lemma usage_ok_count: "usage_ok u \<Longrightarrow> 0 \<le> n \<Longrightarrow> usage_ok (count_request ep n t u)"
  by (auto simp: usage_ok_def count_request_def Let_def)

lemma count_request_id [simp]: "us_user_id (count_request ep n t u) = us_user_id u"
  by (auto simp: count_request_def Let_def)

lemma bind_u64_Inr: "bind_u64 x = Inr n \<longleftrightarrow> unat x < 2 ^ 63 \<and> n = uint x"
  by (auto simp: bind_u64_def)

lemma record_usage_ok:
  assumes "distinct (map us_user_id (usage_table db))" "\<forall>u \<in> set (usage_table db). usage_ok u"
  shows "\<exists>t. fst (record_usage_n now uid ep n db) = db\<lparr>usage_table := t\<rparr>
     \<and> distinct (map us_user_id t) \<and> (\<forall>u \<in> set t. usage_ok u)"
proof -
  let ?t1 = "sql_ignore us_user_id (new_usage uid) (usage_table db)"
  have t1: "distinct (map us_user_id ?t1)" "\<forall>u \<in> set ?t1. usage_ok u"
    using assms by (auto simp: sql_ignore_def)
  have t2: "distinct (map us_user_id (sql_update (\<lambda>u. us_user_id u = uid) (count_request ep k s) ?t1))"
    "0 \<le> k \<Longrightarrow> \<forall>u \<in> set (sql_update (\<lambda>u. us_user_id u = uid) (count_request ep k s) ?t1). usage_ok u" for k s
    using t1 by (auto simp: distinct_map_update set_sql_update usage_ok_count)
  have "fst (record_usage_n now uid ep n db) = db\<lparr>usage_table := usage_table db\<rparr>
      \<or> fst (record_usage_n now uid ep n db) = db\<lparr>usage_table := ?t1\<rparr>
      \<or> (\<exists>k s. 0 \<le> k \<and> fst (record_usage_n now uid ep n db)
            = db\<lparr>usage_table := sql_update (\<lambda>u. us_user_id u = uid) (count_request ep k s) ?t1\<rparr>)"
    by (auto simp: record_usage_n_def Let_def bind_u64_def split: sum.splits if_splits)
  then show ?thesis using t1 t2 assms by blast
qed

lemma create_user_frame:
  "create_user now random hash name pw db = Inr (db', u) \<Longrightarrow>
   \<exists>r. db' = db\<lparr>users := users db @ [r]\<rparr> \<and> u = public_user r
     \<and> u_user_id r = ''usr_'' @ random \<and> u_username r = to_ascii_lowercase (trim name)
     \<and> u_user_id r \<notin> u_user_id ` set (users db) \<and> u_username r \<notin> u_username ` set (users db)"
proof -
  assume c: "create_user now random hash name pw db = Inr (db', u)"
  let ?name = "to_ascii_lowercase (trim name)"
  obtain created where t: "bind_u64 now = Inr created"
    and n: "\<forall>u \<in> set (users db). u_user_id u \<noteq> ''usr_'' @ random \<and> u_username u \<noteq> ?name"
    and r: "db' = db\<lparr>users := users db @ [\<lparr>u_user_id = ''usr_'' @ random, u_username = ?name,
                u_password_hash = hash pw, u_created_at_ms = created\<rparr>]\<rparr>"
      "u = public_user \<lparr>u_user_id = ''usr_'' @ random, u_username = ?name,
                u_password_hash = hash pw, u_created_at_ms = created\<rparr>"
    using c by (auto simp: create_user_def Let_def bind_res_eq_Inr split: if_splits)
  show ?thesis unfolding r
    by (rule exI [where x = "\<lparr>u_user_id = ''usr_'' @ random, u_username = ?name,
          u_password_hash = hash pw, u_created_at_ms = created\<rparr>"]) (use n in auto)
qed

lemma disable_keys_Inr: "disable_keys p db = Inr db' \<longleftrightarrow>
    filter p (api_keys db) \<noteq> [] \<and> db' = db\<lparr>api_keys := sql_update p (\<lambda>k. k\<lparr>ak_disabled := True\<rparr>) (api_keys db)\<rparr>"
  by (auto simp: disable_keys_def)

lemma disable_keys_ok: "disable_keys p db = Inr db' \<Longrightarrow> platform_ok db \<Longrightarrow> platform_ok db'"
  by (auto simp: disable_keys_Inr platform_ok_def distinct_map_update)

lemma new_api_key_sel [simp]:
  "ak_key_id (new_api_key sha c kid uid name raw cl) = kid"
  "ak_key_hash (new_api_key sha c kid uid name raw cl) = sha raw"
  "ak_user_id (new_api_key sha c kid uid name raw cl) = uid"
  "ak_cluster_id (new_api_key sha c kid uid name raw cl) = cl"
  "\<not> ak_disabled (new_api_key sha c kid uid name raw cl)"
  by (simp_all add: new_api_key_def)

lemma bex_image: "(\<exists>k \<in> S. f k = a \<or> g k = b) \<longleftrightarrow> a \<in> f ` S \<or> b \<in> g ` S"
  by blast

lemma create_key_Inr:
  "create_api_key_for_cluster sha now rid rkey uid name cl db = Inr (db', pub, raw) \<longleftrightarrow>
     (\<exists>created. bind_u64 now = Inr created \<and> raw = ''ak_'' @ rkey
      \<and> ''key_'' @ rid \<notin> ak_key_id ` set (api_keys db) \<and> sha raw \<notin> ak_key_hash ` set (api_keys db)
      \<and> db' = db\<lparr>api_keys := api_keys db @ [new_api_key sha created (''key_'' @ rid) uid name raw cl]\<rparr>
      \<and> pub = public_api_key (new_api_key sha created (''key_'' @ rid) uid name raw cl))"
  unfolding create_api_key_for_cluster_def bind_res_eq_Inr Let_def bex_image new_api_key_sel
  by (rule ex_cong1) (auto simp del: append.simps split: if_splits)

lemma inject_key_Inr:
  "inject_api_key sha now kid uid name raw cl db = Inr db' \<longleftrightarrow>
     (\<exists>created. bind_u64 now = Inr created
      \<and> db' = db\<lparr>api_keys := sql_delete (\<lambda>k. ak_key_id k = kid \<or> ak_key_hash k = sha raw) (api_keys db)
                    @ [new_api_key sha created kid uid name raw cl]\<rparr>)"
  by (auto simp: inject_api_key_def bind_res_eq_Inr Let_def new_api_key_def)

lemma distinct_delete: "distinct (map f xs) \<Longrightarrow> distinct (map f (sql_delete p xs))"
  by (simp add: sql_delete_def distinct_map_filter)

lemma uint_lt_iff: "uint x < 2 ^ 63 \<longleftrightarrow> unat (x::u64) < 2 ^ 63"
  using nat_less_iff [of "uint x" "2 ^ 63"] by simp

lemma create_session_Inr:
  "create_session now random uid ttl db = Inr (db', tok) \<Longrightarrow>
   \<exists>c e. db' = db\<lparr>sessions := sessions db @ [\<lparr>se_token = tok, se_user_id = uid, se_created_at_ms = c,
                    se_expires_at_ms = e\<rparr>]\<rparr>
       \<and> tok = ''sess_'' @ random \<and> tok \<notin> se_token ` set (sessions db)
       \<and> e = uint (saturating_add_u64 now (saturating_mul_u64 ttl 1000)) \<and> e < 2 ^ 63"
  by (auto simp: create_session_def Let_def bind_res_eq_Inr bind_u64_Inr uint_lt_iff [simplified] split: if_splits)

lemma profile_frame:
  "update_profile_from_text rf ra sf sa uid t ts src db = Inr db' \<Longrightarrow>
   db' = db \<or> (\<exists>r. db' = db\<lparr>user_profiles := sql_replace pr_user_id r (user_profiles db)\<rparr>)"
  by (auto simp: update_profile_from_text_def Let_def bind_res_eq_Inr split: if_splits)

lemma record_usage_frame: "\<exists>t. fst (record_usage_n now uid ep n db) = db\<lparr>usage_table := t\<rparr>"
proof -
  have "fst (record_usage_n now uid ep n db) = db\<lparr>usage_table := usage_table (fst (record_usage_n now uid ep n db))\<rparr>"
    by (auto simp: record_usage_n_def Let_def split: sum.splits)
  then show ?thesis by blast
qed

lemma platform_step_ok: "platform_step sha db e db' \<Longrightarrow> platform_ok db \<Longrightarrow> platform_ok db'"
proof (induction rule: platform_step.induct)
  case (registered now random hash name pw db db' u)
  then show ?case by (auto dest!: create_user_frame simp: platform_ok_def)
next
  case (session_opened now random uid ttl db db' tok)
  then show ?case by (auto dest!: create_session_Inr simp: platform_ok_def image_iff)
next
  case (purged now db db' n)
  then show ?case by (auto simp: purge_expired_sessions_def bind_res_eq_Inr platform_ok_def distinct_delete)
next
  case (key_injected now kid uid name raw cl db db')
  then show ?case
    by (auto simp: inject_key_Inr platform_ok_def sql_delete_def intro: distinct_map_filter)
next
  case (authenticated db now i raw)
  obtain ks ts where f: "fst (authenticate_api_key sha now i raw db) = db\<lparr>key_touched := ts, api_keys := ks\<rparr>"
    and core: "map key_core ks = map key_core (api_keys db)"
    using authenticate_frame [of sha now i raw db] by blast
  show ?case using authenticated map_core_map [OF core, of ak_key_id] map_core_map [OF core, of ak_key_hash]
    unfolding f by (simp add: platform_ok_def)
next
  case (usage_recorded db now uid ep n)
  then show ?case using record_usage_ok [of db now uid ep n] by (auto simp: platform_ok_def)
next
  case (profile_updated rf ra sf sa uid t ts src db db')
  then show ?case
    by (auto dest!: profile_frame simp: platform_ok_def distinct_sql_replace)
qed (auto simp: delete_session_def platform_ok_def distinct_delete create_key_Inr
       revoke_api_key_def admin_revoke_api_key_def dest!: disable_keys_ok)

lemma platform_ok_empty [simp]: "platform_ok empty_platform"
  by (simp add: platform_ok_def empty_platform_def)

lemma platform_run_ok: "platform_run sha start es db \<Longrightarrow> platform_ok start \<Longrightarrow> platform_ok db"
  by (induction es db rule: platform_run.induct) (blast intro: platform_step_ok)+

text \<open>
  C25. In every state the account store can reach by any sequence of its operations, user ids, user
  names, session tokens, key ids, key hashes, usage rows and profiles are unique, and the counters
  of the endpoints of a user are non-negative and add up to at most its number of requests.
\<close>

theorem reachable_platform_ok:
  assumes "platform_run sha empty_platform es db"
  shows "platform_ok db"
  by (rule platform_run_ok [OF assms platform_ok_empty])

lemma reachable_platform_ok_witness:
  "platform_ok (fst (record_usage_n 1 ''usr_junk'' ''query'' 3 (delete_session ''t'' empty_platform)))"
  by (rule reachable_platform_ok [OF run_step [OF run_step [OF run_nil session_closed] usage_recorded]])

subsection \<open>The life of a key\<close>

definition keys_of :: "str \<Rightarrow> platform \<Rightarrow> api_key_row list" where
  "keys_of h db = filter (\<lambda>k. ak_key_hash k = h) (map key_core (api_keys db))"

definition disable_core :: "(api_key_row \<Rightarrow> bool) \<Rightarrow> api_key_row \<Rightarrow> api_key_row" where
  "disable_core p k = (if p k then k\<lparr>ak_disabled := True\<rparr> else k)"

lemma keys_of_frame [simp]:
  "keys_of h (db\<lparr>users := us\<rparr>) = keys_of h db" "keys_of h (db\<lparr>sessions := ss\<rparr>) = keys_of h db"
  "keys_of h (db\<lparr>usage_table := ts\<rparr>) = keys_of h db" "keys_of h (db\<lparr>user_profiles := ps\<rparr>) = keys_of h db"
  by (simp_all add: keys_of_def)

lemma keys_of_disable:
  assumes "disable_keys p db = Inr db'" "\<And>k. p (key_core k) = p k"
  shows "keys_of h db' = map (disable_core p) (keys_of h db)"
proof -
  have "key_core (if p k then k\<lparr>ak_disabled := True\<rparr> else k) = disable_core p (key_core k)" for k
    using assms(2) by (simp add: disable_core_def key_core_def)
  moreover have "ak_key_hash (disable_core p k) = ak_key_hash k" for k by (simp add: disable_core_def)
  ultimately show ?thesis
    using assms(1) by (simp add: disable_keys_Inr keys_of_def sql_update_def filter_map comp_def)
qed

lemma keys_of_fresh:
  "i \<notin> ak_key_id ` set (api_keys db) \<Longrightarrow> filter (\<lambda>k. ak_key_id k \<noteq> i) (keys_of h db) = keys_of h db"
  unfolding filter_id_conv by (auto simp: keys_of_def)

lemma core_filter:
  "h' \<noteq> h \<Longrightarrow> filter (\<lambda>k. ak_key_hash k = h)
       (map key_core (sql_delete (\<lambda>k. ak_key_id k = i \<or> ak_key_hash k = h') ks))
     = filter (\<lambda>k. ak_key_id k \<noteq> i) (filter (\<lambda>k. ak_key_hash k = h) (map key_core ks))"
  by (induction ks) (auto simp: sql_delete_def)

lemma keys_of_step:
  assumes "platform_step sha db e db'"
  shows "(\<exists>i. e = KeyIssued i h)
    \<or> (\<exists>i h'. e = KeyIssued i h' \<and> keys_of h db' = filter (\<lambda>k. ak_key_id k \<noteq> i) (keys_of h db))
    \<or> (\<exists>i p. e = KeyRevoked i \<and> keys_of h db' = map (disable_core p) (keys_of h db)
          \<and> (\<forall>k. p k \<longrightarrow> ak_key_id k = i))
    \<or> keys_of h db' = keys_of h db"
  using assms
proof (cases rule: platform_step.cases)
  case (registered now random hash name pw u)
  then show ?thesis by (auto dest!: create_user_frame)
next
  case (session_opened now random uid ttl tok)
  then show ?thesis by (auto dest!: create_session_Inr)
next
  case (session_closed tok)
  then show ?thesis by (simp add: delete_session_def)
next
  case (purged now n)
  then show ?thesis by (auto simp: purge_expired_sessions_def bind_res_eq_Inr)
next
  case (key_created now rid rkey uid name cl pub raw)
  then have "\<exists>r. api_keys db' = api_keys db @ [r] \<and> ak_key_hash r = sha raw \<and> pk_key_id pub = ak_key_id r
      \<and> ak_key_id r \<notin> ak_key_id ` set (api_keys db)"
    unfolding create_key_Inr by (auto simp: public_api_key_def simp del: append.simps)
  then have "keys_of h db' = filter (\<lambda>k. ak_key_id k \<noteq> pk_key_id pub) (keys_of h db)" if "sha raw \<noteq> h"
    using that keys_of_fresh [of "pk_key_id pub" db h] by (auto simp: keys_of_def)
  then show ?thesis using key_created by auto
next
  case (key_injected now kid uid name raw cl)
  then have "keys_of h db' = filter (\<lambda>k. ak_key_id k \<noteq> kid) (keys_of h db)" if "sha raw \<noteq> h"
    using that by (auto simp: inject_key_Inr keys_of_def core_filter simp del: filter_filter)
  then show ?thesis using key_injected by auto
next
  case (key_revoked uid kid)
  then show ?thesis
    using keys_of_disable [of "\<lambda>k. ak_key_id k = kid \<and> ak_user_id k = uid" db db' h]
    by (auto simp: revoke_api_key_def)
next
  case (key_admin_revoked kid)
  then show ?thesis
    using keys_of_disable [of "\<lambda>k. ak_key_id k = kid" db db' h] by (auto simp: admin_revoke_api_key_def)
next
  case (authenticated now i raw)
  then show ?thesis using authenticate_frame [of sha now i raw db] by (auto simp: keys_of_def)
next
  case (usage_recorded now uid ep n)
  have "\<exists>t. fst (record_usage_n now uid ep n db) = db\<lparr>usage_table := t\<rparr>"
    by (rule record_usage_frame)
  then show ?thesis using usage_recorded by auto
next
  case (profile_updated rf ra sf sa uid t ts src)
  then show ?thesis by (auto dest!: profile_frame)
qed

lemma filter_enabled_keys:
  "map key_core (filter (\<lambda>k. ak_key_hash k = h \<and> \<not> ak_disabled k) (api_keys db))
     = filter (\<lambda>k. \<not> ak_disabled k) (keys_of h db)"
  by (simp add: keys_of_def filter_map comp_def conj_commute)

lemma authenticate_none:
  assumes "\<forall>k \<in> set (keys_of (sha raw) db). ak_disabled k"
  shows "authenticate_api_key sha now i raw db = (db, Inr None)"
proof -
  have "map key_core (filter (\<lambda>k. ak_key_hash k = sha raw \<and> \<not> ak_disabled k) (api_keys db)) = []"
    using assms unfolding filter_enabled_keys by (simp add: filter_empty_conv)
  then show ?thesis by (simp add: authenticate_api_key_def)
qed

lemma touch_key_ok: "unat now < 2 ^ 63 \<Longrightarrow> snd (touch_key now i kid db) = None"
  by (simp add: touch_key_def Let_def bind_u64_def)

lemma authenticate_some:
  assumes "keys_of (sha raw) db = [k]" "\<not> ak_disabled k" "unat now < 2 ^ 63"
  shows "snd (authenticate_api_key sha now i raw db)
    = Inr (Some \<lparr>au_user_id = ak_user_id k, au_key_id = ak_key_id k, au_cluster_id = ak_cluster_id k\<rparr>)"
proof -
  have "map key_core (filter (\<lambda>k. ak_key_hash k = sha raw \<and> \<not> ak_disabled k) (api_keys db)) = [k]"
    using assms(1,2) unfolding filter_enabled_keys by simp
  then obtain k' where f: "filter (\<lambda>k. ak_key_hash k = sha raw \<and> \<not> ak_disabled k) (api_keys db) = [k']"
    and k: "k = key_core k'" by auto
  obtain d where "touch_key now i (ak_key_id k') db = (d, None)"
    using touch_key_ok [OF assms(3), of i "ak_key_id k'" db] by (metis prod.collapse)
  then show ?thesis using f k by (simp add: authenticate_api_key_def)
qed

text \<open>A small store reached by three operations, for the concrete instances of the properties.\<close>

definition demo_user :: user_row where
  "demo_user = \<lparr>u_user_id = ''usr_a1b2'', u_username = ''alice'', u_password_hash = ''password'',
     u_created_at_ms = 1000\<rparr>"

definition demo_session :: session_row where
  "demo_session = \<lparr>se_token = ''sess_t'', se_user_id = ''usr_a1b2'', se_created_at_ms = 1000,
     se_expires_at_ms = 61000\<rparr>"

definition demo_key :: api_key_row where
  "demo_key = new_api_key (\<lambda>x. x) 1000 ''key_k'' ''usr_a1b2'' ''laptop'' ''ak_secret'' None"

definition demo_platform :: platform where
  "demo_platform = empty_platform\<lparr>users := [demo_user], sessions := [demo_session], api_keys := [demo_key]\<rparr>"

lemma demo_user_created: "create_user 1000 ''a1b2'' (\<lambda>p. p) '' Alice'' ''password'' empty_platform
    = Inr (empty_platform\<lparr>users := [demo_user]\<rparr>, public_user demo_user)"
proof -
  have "to_ascii_lowercase (trim '' Alice'') = ''alice''" by code_simp
  then show ?thesis by (simp add: create_user_def Let_def bind_u64_def demo_user_def empty_platform_def)
qed

lemma demo_session_created: "create_session 1000 ''t'' ''usr_a1b2'' 60 (empty_platform\<lparr>users := [demo_user]\<rparr>)
    = Inr (empty_platform\<lparr>users := [demo_user], sessions := [demo_session]\<rparr>, ''sess_t'')"
  by (simp add: create_session_def Let_def bind_u64_def demo_session_def empty_platform_def
      saturating_add_u64_def saturating_mul_u64_def)

lemma demo_key_created:
  "create_api_key_for_cluster (\<lambda>x. x) 1000 ''k'' ''secret'' ''usr_a1b2'' ''laptop'' None
     (empty_platform\<lparr>users := [demo_user], sessions := [demo_session]\<rparr>)
   = Inr (demo_platform, public_api_key demo_key, ''ak_secret'')"
  by (simp add: create_api_key_for_cluster_def Let_def bind_u64_def demo_key_def demo_platform_def empty_platform_def)

lemma demo_reachable:
  "platform_run (\<lambda>x. x) empty_platform
     [Registered, SessionOpened ''sess_t'', KeyIssued (pk_key_id (public_api_key demo_key)) ''ak_secret'']
     demo_platform"
  using run_step [OF run_step [OF run_step [OF run_nil registered [OF demo_user_created]]
    session_opened [OF demo_session_created]] key_created [OF demo_key_created]] by simp

text \<open>
  C26. Revocation is final: once the administrator has revoked an API key, or its owner has, the key
  is refused after any sequence of operations, unless a key with the same secret is issued again.
\<close>

theorem revoked_key_stays_refused:
  assumes "platform_run sha empty_platform es0 db" "k \<in> set (api_keys db)" "ak_key_hash k = sha raw"
    and "admin_revoke_api_key (ak_key_id k) db = Inr db1 \<or> revoke_api_key (ak_user_id k) (ak_key_id k) db = Inr db1"
    and run: "platform_run sha db1 es db2" and fresh: "\<And>i. KeyIssued i (sha raw) \<notin> set es"
  shows "authenticate_api_key sha now i raw db2 = (db2, Inr None)"
proof -
  obtain p where d: "disable_keys p db = Inr db1" and p: "p k" "\<And>k. p (key_core k) = p k"
    using assms(4) unfolding admin_revoke_api_key_def revoke_api_key_def by fastforce
  have ok: "distinct (map ak_key_hash (api_keys db))"
    using platform_run_ok [OF assms(1) platform_ok_empty] by (simp add: platform_ok_def)
  have k1: "k' = k" if "k' \<in> set (api_keys db)" "ak_key_hash k' = sha raw" for k'
    using ok that assms(2,3) by (metis distinct_map inj_onD)
  have "\<forall>k \<in> set (keys_of (sha raw) db1). ak_disabled k"
    unfolding keys_of_disable [OF d p(2)] using k1 p by (fastforce simp: keys_of_def disable_core_def)
  with run fresh have "\<forall>k \<in> set (keys_of (sha raw) db2). ak_disabled k"
  proof (induction es db2 rule: platform_run.induct)
    case (run_step es db1 e db2)
    then show ?case using keys_of_step [OF run_step.hyps(2), of "sha raw"] by (fastforce simp: disable_core_def)
  qed
  then show ?thesis by (rule authenticate_none)
qed

lemma revoked_key_stays_refused_witness:
  "\<exists>db1. admin_revoke_api_key ''key_k'' demo_platform = Inr db1
     \<and> authenticate_api_key (\<lambda>x. x) 5 0 ''ak_secret'' (delete_session ''sess_t'' db1)
         = (delete_session ''sess_t'' db1, Inr None)"
proof -
  have k: "ak_key_id demo_key = ''key_k''" "ak_key_hash demo_key = ''ak_secret''" by (simp_all add: demo_key_def)
  obtain db1 where r: "admin_revoke_api_key ''key_k'' demo_platform = Inr db1"
    by (simp add: admin_revoke_api_key_def disable_keys_def demo_platform_def k)
  have "authenticate_api_key (\<lambda>x. x) 5 0 ''ak_secret'' (delete_session ''sess_t'' db1)
      = (delete_session ''sess_t'' db1, Inr None)"
    by (rule revoked_key_stays_refused [where k = demo_key and es = "[SessionClosed ''sess_t'']",
          OF demo_reachable _ _ _ run_step [OF run_nil session_closed, simplified]])
       (simp_all add: k r demo_platform_def [THEN arg_cong, of api_keys])
  with r show ?thesis by blast
qed

text \<open>
  C28. A created API key is valid until it is revoked: after any sequence of operations that neither
  revokes it nor issues a key with its id or its secret, it authenticates, as the user, the key and
  the cluster it was created for.
\<close>

theorem created_key_authenticates:
  assumes "create_api_key_for_cluster sha t rid rkey uid name cl db = Inr (db1, pub, raw)"
    and run: "platform_run sha db1 es db2" and "\<And>h. KeyIssued (pk_key_id pub) h \<notin> set es"
    and "\<And>i. KeyIssued i (sha raw) \<notin> set es" and "KeyRevoked (pk_key_id pub) \<notin> set es"
    and "unat now < 2 ^ 63"
  shows "snd (authenticate_api_key sha now i raw db2)
    = Inr (Some \<lparr>au_user_id = uid, au_key_id = pk_key_id pub, au_cluster_id = cl\<rparr>)"
proof -
  obtain c where c: "api_keys db1 = api_keys db @ [new_api_key sha c (pk_key_id pub) uid name raw cl]"
    "sha raw \<notin> ak_key_hash ` set (api_keys db)"
    using assms(1) unfolding create_key_Inr by (auto simp: public_api_key_def simp del: append.simps)
  let ?k = "key_core (new_api_key sha c (pk_key_id pub) uid name raw cl)"
  have "keys_of (sha raw) db1 = [?k]"
    using c by (simp add: keys_of_def filter_empty_conv image_iff) metis
  with run assms(3-5) have "keys_of (sha raw) db2 = [?k]"
  proof (induction es db2 rule: platform_run.induct)
    case (run_step es db2 e db3)
    then show ?case using keys_of_step [OF run_step.hyps(2), of "sha raw"] by (fastforce simp: disable_core_def)
  qed
  with assms(6) show ?thesis using authenticate_some [of sha raw db2 ?k now i] by simp
qed

lemma created_key_authenticates_witness:
  "snd (authenticate_api_key (\<lambda>x. x) 9 0 ''ak_secret'' (delete_session ''sess_t'' demo_platform))
     = Inr (Some \<lparr>au_user_id = ''usr_a1b2'', au_key_id = pk_key_id (public_api_key demo_key), au_cluster_id = None\<rparr>)"
  by (rule created_key_authenticates [where es = "[SessionClosed ''sess_t'']",
        OF demo_key_created run_step [OF run_nil session_closed, simplified]]) simp_all

subsection \<open>The life of a session\<close>

definition session_pairs :: "str \<Rightarrow> platform \<Rightarrow> (session_row \<times> user_row) list" where
  "session_pairs tok db =
     concat (map (\<lambda>s. map (Pair s) (filter (\<lambda>u. u_user_id u = se_user_id s) (users db)))
       (filter (\<lambda>s. se_token s = tok) (sessions db)))"

lemma resolve_session_alt:
  "resolve_session now tok db = (case session_pairs tok db of [] \<Rightarrow> None
     | (s, u) # _ \<Rightarrow> if se_expires_at_ms s \<le> uint now then None else Some (public_user u))"
  by (simp add: resolve_session_def session_pairs_def)

text \<open>What a step can do to the session with a given token and to the user it belongs to.\<close>

definition session_live :: "str \<Rightarrow> user_row \<Rightarrow> int \<Rightarrow> platform \<Rightarrow> bool" where
  "session_live tok u e db \<longleftrightarrow>
     filter (\<lambda>v. u_user_id v = u_user_id u) (users db) = [u]
     \<and> (\<exists>s. filter (\<lambda>s. se_token s = tok) (sessions db) = [s] \<and> se_user_id s = u_user_id u
          \<and> se_expires_at_ms s = e)"

definition session_gone :: "str \<Rightarrow> platform \<Rightarrow> bool" where
  "session_gone tok db \<longleftrightarrow> filter (\<lambda>s. se_token s = tok) (sessions db) = []"

lemma resolve_live: "session_live tok u e db \<Longrightarrow>
    resolve_session t tok db = (if uint t < e then Some (public_user u) else None)"
  by (auto simp: resolve_session_def session_live_def)

lemma resolve_gone: "session_gone tok db \<Longrightarrow> resolve_session t tok db = None"
  by (simp add: resolve_session_def session_gone_def)

lemma session_gone_step:
  assumes "platform_step sha db ev db'" "session_gone tok db" "ev \<noteq> SessionOpened tok"
  shows "session_gone tok db'"
  using assms(1)
proof (cases rule: platform_step.cases)
  case (session_opened now random uid ttl tok')
  then show ?thesis using assms(2,3) by (auto dest!: create_session_Inr simp: session_gone_def)
next
  case (authenticated now i raw)
  then show ?thesis using assms(2) authenticate_frame [of sha now i raw db] by (auto simp: session_gone_def)
next
  case (usage_recorded now uid ep n)
  then show ?thesis using assms(2) record_usage_frame [of now uid ep n db] by (auto simp: session_gone_def)
qed (use assms(2) in \<open>auto simp: session_gone_def filter_empty_conv delete_session_def sql_delete_def
      purge_expired_sessions_def bind_res_eq_Inr inject_key_Inr revoke_api_key_def admin_revoke_api_key_def
      disable_keys_Inr create_key_Inr dest!: create_user_frame profile_frame\<close>)

lemma session_live_step:
  assumes "platform_step sha db ev db'" "session_live tok u e db" "ev \<noteq> SessionOpened tok"
    "ev \<noteq> SessionClosed tok"
  shows "session_live tok u e db' \<or> (\<exists>n. ev = Purged n \<and> e \<le> uint n \<and> session_gone tok db')"
  using assms(1)
proof (cases rule: platform_step.cases)
  case (registered now random hash name pw v)
  have "u \<in> set (users db)" using assms(2) by (auto simp: session_live_def dest: filter_eq_ConsD)
  with registered assms(2) show ?thesis
    by (auto dest!: create_user_frame simp: session_live_def)
next
  case (session_opened now random uid ttl tok')
  then show ?thesis using assms(2,3) by (auto dest!: create_session_Inr simp: session_live_def)
next
  case (session_closed tok')
  then show ?thesis using assms(2,4)
    by (auto simp: session_live_def delete_session_def sql_delete_def conj_commute cong: conj_cong)
next
  case (purged now n)
  then have "sessions db' = filter (\<lambda>s. \<not> se_expires_at_ms s \<le> uint now) (sessions db)" "users db' = users db"
    by (auto simp: purge_expired_sessions_def bind_res_eq_Inr bind_u64_Inr sql_delete_def)
  moreover from this have f: "filter (\<lambda>s. se_token s = tok) (sessions db')
      = filter (\<lambda>s. \<not> se_expires_at_ms s \<le> uint now) (filter (\<lambda>s. se_token s = tok) (sessions db))"
    by (simp add: conj_commute)
  moreover obtain s where "filter (\<lambda>s. se_token s = tok) (sessions db) = [s]" "se_user_id s = u_user_id u"
    "se_expires_at_ms s = e"
    using assms(2) by (auto simp: session_live_def)
  ultimately show ?thesis using assms(2) purged(1)
    by (cases "e \<le> uint now") (simp_all add: session_live_def session_gone_def del: filter_filter)
next
  case (authenticated now i raw)
  then show ?thesis using assms(2) authenticate_frame [of sha now i raw db] by (auto simp: session_live_def)
next
  case (usage_recorded now uid ep n)
  then show ?thesis using assms(2) record_usage_frame [of now uid ep n db] by (auto simp: session_live_def)
qed (use assms(2) in \<open>auto simp: session_live_def inject_key_Inr revoke_api_key_def admin_revoke_api_key_def
      disable_keys_Inr create_key_Inr dest!: profile_frame\<close>)

lemma unat_saturating_mul_u64: "unat (saturating_mul_u64 a b) = min (unat a * unat b) (2 ^ 64 - 1)"
proof (cases "unat a * unat b < 2 ^ 64")
  case True
  then have "unat (a * b) = unat a * unat b" by (simp add: unat_mult_lem [THEN iffD1])
  with True show ?thesis by (simp add: saturating_mul_u64_def)
next
  case False
  then show ?thesis by (simp add: saturating_mul_u64_def unat_minus_one_u64)
qed

lemma session_expiry:
  assumes "uint (saturating_add_u64 now (saturating_mul_u64 ttl 1000)) < 2 ^ 63"
  shows "uint (saturating_add_u64 now (saturating_mul_u64 ttl 1000)) = int (unat now + unat ttl * 1000)"
proof -
  have "unat (saturating_add_u64 now (saturating_mul_u64 ttl 1000)) < 2 ^ 63"
    using assms unfolding uint_lt_iff .
  then have "unat (saturating_add_u64 now (saturating_mul_u64 ttl 1000)) = unat now + unat ttl * 1000"
    unfolding unat_saturating_add_u64 unat_saturating_mul_u64 by simp
  then show ?thesis unfolding uint_nat by simp
qed

lemma filter_key_unique:
  "distinct (map f xs) \<Longrightarrow> x \<in> set xs \<Longrightarrow> filter (\<lambda>y. f y = f x) xs = [x]"
  by (induction xs) (auto simp: filter_empty_conv image_iff)

text \<open>
  A session token resolves to its user exactly until the instant its lifetime ends, whatever
  operations happen in between: purges up to the present do not shorten it, and nothing but deleting
  the token ends it; a deleted token does not resolve.
\<close>

theorem session_lifetime:
  assumes "platform_run sha empty_platform es0 db" "u \<in> set (users db)"
    and "create_session now random (u_user_id u) ttl db = Inr (db1, tok)"
    and run: "platform_run sha db1 es db2" and "SessionOpened tok \<notin> set es" "SessionClosed tok \<notin> set es"
    and "\<And>n. Purged n \<in> set es \<Longrightarrow> n \<le> t"
  shows "resolve_session t tok db2 = (if unat t < unat now + unat ttl * 1000 then Some (public_user u) else None)
    \<and> resolve_session t tok (delete_session tok db2) = None"
proof -
  let ?e = "int (unat now + unat ttl * 1000)"
  have ids: "distinct (map u_user_id (users db))"
    using platform_run_ok [OF assms(1) platform_ok_empty] by (simp add: platform_ok_def)
  obtain c e where s: "db1 = db\<lparr>sessions := sessions db @ [\<lparr>se_token = tok, se_user_id = u_user_id u,
      se_created_at_ms = c, se_expires_at_ms = e\<rparr>]\<rparr>" "tok \<notin> se_token ` set (sessions db)"
    "e = uint (saturating_add_u64 now (saturating_mul_u64 ttl 1000))" "e < 2 ^ 63"
    using create_session_Inr [OF assms(3)] by blast
  have e: "e = ?e" using s(3,4) session_expiry by simp
  have "filter (\<lambda>s. se_token s = tok) (sessions db) = []" using s(2) by (auto simp: filter_empty_conv)
  then have live: "session_live tok u ?e db1"
    using filter_key_unique [OF ids assms(2)] unfolding s(1) e by (simp add: session_live_def)
  from run assms(5-7) have "session_live tok u ?e db2 \<or> (?e \<le> uint t \<and> session_gone tok db2)"
  proof (induction es db2 rule: platform_run.induct)
    case (run_step es db2 ev db3)
    then have "session_live tok u ?e db2 \<or> (?e \<le> uint t \<and> session_gone tok db2)" by simp
    then show ?case
      using session_live_step [OF run_step.hyps(2), of tok u ?e] session_gone_step [OF run_step.hyps(2), of tok]
        run_step.prems by (fastforce simp: word_le_def)
  qed (use live in blast)
  moreover have "uint t < ?e \<longleftrightarrow> unat t < unat now + unat ttl * 1000"
    unfolding uint_nat of_nat_less_iff by (rule refl)
  ultimately have "resolve_session t tok db2
      = (if unat t < unat now + unat ttl * 1000 then Some (public_user u) else None)"
    using resolve_live [of tok u ?e db2 t] resolve_gone [of tok db2 t] by auto
  moreover have "session_gone tok (delete_session tok db2)"
    by (simp add: session_gone_def delete_session_def sql_delete_def filter_empty_conv)
  ultimately show ?thesis using resolve_gone by simp
qed

lemma session_lifetime_witness:
  "resolve_session 60999 ''sess_t'' demo_platform = Some (public_user demo_user)
   \<and> resolve_session 61000 ''sess_t'' demo_platform = None"
proof -
  have r: "platform_run (\<lambda>x. x) empty_platform [Registered] (empty_platform\<lparr>users := [demo_user]\<rparr>)"
    using run_step [OF run_nil registered [OF demo_user_created]] by simp
  have k: "platform_run (\<lambda>x. x) (empty_platform\<lparr>users := [demo_user], sessions := [demo_session]\<rparr>)
      [KeyIssued (pk_key_id (public_api_key demo_key)) ''ak_secret''] demo_platform"
    using run_step [OF run_nil key_created [OF demo_key_created]] by simp
  have o: "create_session 1000 ''t'' (u_user_id demo_user) 60 (empty_platform\<lparr>users := [demo_user]\<rparr>)
      = Inr (empty_platform\<lparr>users := [demo_user], sessions := [demo_session]\<rparr>, ''sess_t'')"
    using demo_session_created by (simp add: demo_user_def)
  show ?thesis
    using session_lifetime [OF r _ o k, of 60999] session_lifetime [OF r _ o k, of 61000] by simp
qed

end
