(* ===== verification/Account_Laws.thy ===== *)
theory Account_Laws
  imports Platform_Laws
begin

section \<open>Usage, tokens and profiles\<close>

text \<open>
  The accounting of usage, the random tokens and the bounded, duplicate-free profile of a user.
\<close>

subsection \<open>Usage\<close>

text \<open>What one recorded request does to the statistics of a user.\<close>

definition bump :: "str \<Rightarrow> int \<Rightarrow> int \<Rightarrow> UsageStats \<Rightarrow> UsageStats" where
  "bump ep n now s = s
     \<lparr>st_request_count := st_request_count s + n,
      st_ingest_count := st_ingest_count s + (if ep = ''ingest'' then n else 0),
      st_query_count := st_query_count s + (if ep = ''query'' then n else 0),
      st_temporal_query_count := st_temporal_query_count s + (if ep = ''temporal_query'' then n else 0),
      st_reset_count := st_reset_count s + (if ep = ''reset'' then n else 0),
      st_health_count := st_health_count s + (if ep = ''health'' then n else 0),
      st_version_count := st_version_count s + (if ep = ''version'' then n else 0),
      st_last_request_ms := Some now\<rparr>"

lemma stats_count_request: "stats_of (count_request ep n now u) = bump ep n now (stats_of u)"
  by (simp add: stats_of_def count_request_def bump_def Let_def)

lemma usage_stats_ignore: "usage_stats v (db\<lparr>usage_table := sql_ignore us_user_id (new_usage uid) (usage_table db)\<rparr>)
    = usage_stats v db"
  by (auto simp: usage_stats_def sql_ignore_def new_usage_def filter_empty_conv split: list.splits)

lemma usage_ignore_mem: "uid \<in> us_user_id ` set (sql_ignore us_user_id (new_usage uid) t)"
  by (auto simp: sql_ignore_def new_usage_def image_iff)

lemma sum_update:
  fixes g :: "'r \<Rightarrow> int"
  assumes "distinct (map k t)" "i \<in> k ` set t" "\<And>r. g (f r) = g r + d"
  shows "sum_list (map g (sql_update (\<lambda>r. k r = i) f t)) = sum_list (map g t) + d"
  using assms(1,2)
proof (induction t)
  case (Cons r t)
  show ?case
  proof (cases "k r = i")
    case True
    then have "sql_update (\<lambda>r. k r = i) f t = t" using Cons.prems(1) by (intro sql_update_none) (simp, metis imageI)
    with True show ?thesis by (simp add: sql_update_Cons assms(3))
  qed (use Cons in \<open>auto simp: sql_update_Cons\<close>)
qed simp

lemma new_usage_zero [simp]:
  "us_request_count (new_usage uid) = 0" "us_ingest_count (new_usage uid) = 0" "us_query_count (new_usage uid) = 0"
  "us_temporal_query_count (new_usage uid) = 0" "us_reset_count (new_usage uid) = 0"
  "us_health_count (new_usage uid) = 0" "us_version_count (new_usage uid) = 0"
  by (simp_all add: new_usage_def)

lemma sum_ignore: "g (new_usage uid) = (0::int) \<Longrightarrow>
    sum_list (map g (sql_ignore us_user_id (new_usage uid) t)) = sum_list (map g t)"
  by (simp add: sql_ignore_def)

lemma distinct_ignore: "distinct (map us_user_id t) \<Longrightarrow>
    distinct (map us_user_id (sql_ignore us_user_id (new_usage uid) t))"
  by (rule distinct_sql_ignore)

text \<open>Everything the usage totals count, without the last instant.\<close>

definition counts :: "UsageStats \<Rightarrow> UsageStats" where
  "counts s = s\<lparr>st_last_request_ms := None\<rparr>"

lemma total_ignore:
  "counts (total_usage_stats (db\<lparr>usage_table := sql_ignore us_user_id (new_usage uid) (usage_table db)\<rparr>))
     = counts (total_usage_stats db)"
  using sum_ignore [of _ uid "usage_table db"]
  by (simp add: total_usage_stats_def counts_def Let_def)

lemma total_update:
  assumes "distinct (map us_user_id (usage_table db))" "uid \<in> us_user_id ` set (usage_table db)"
  shows "counts (total_usage_stats (db\<lparr>usage_table :=
      sql_update (\<lambda>u. us_user_id u = uid) (count_request ep n now) (usage_table db)\<rparr>))
    = counts (bump ep n now (total_usage_stats db))"
proof -
  have 1: "sum_list (map g (sql_update (\<lambda>u. us_user_id u = uid) (count_request ep n now) (usage_table db)))
      = sum_list (map g (usage_table db)) + d" if "\<And>u. g (count_request ep n now u) = g u + d" for d and g :: "usage_row \<Rightarrow> int"
    using sum_update [OF assms, of g "count_request ep n now" d] that by simp
  have 2: "us_request_count (count_request ep n now u) = us_request_count u + n"
    "us_ingest_count (count_request ep n now u) = us_ingest_count u + (if ep = ''ingest'' then n else 0)"
    "us_query_count (count_request ep n now u) = us_query_count u + (if ep = ''query'' then n else 0)"
    "us_temporal_query_count (count_request ep n now u)
       = us_temporal_query_count u + (if ep = ''temporal_query'' then n else 0)"
    "us_reset_count (count_request ep n now u) = us_reset_count u + (if ep = ''reset'' then n else 0)"
    "us_health_count (count_request ep n now u) = us_health_count u + (if ep = ''health'' then n else 0)"
    "us_version_count (count_request ep n now u) = us_version_count u + (if ep = ''version'' then n else 0)" for u
    by (simp_all add: count_request_def Let_def)
  show ?thesis unfolding total_usage_stats_def counts_def bump_def Let_def
    by (simp add: 1 [of us_request_count, OF 2(1)] 1 [of us_ingest_count, OF 2(2)] 1 [of us_query_count, OF 2(3)] 1 [of us_temporal_query_count, OF 2(4)] 1 [of us_reset_count, OF 2(5)] 1 [of us_health_count, OF 2(6)] 1 [of us_version_count, OF 2(7)])
qed

lemma record_usage_result:
  "record_usage_n now uid ep n db = (db', r) \<Longrightarrow>
   r = (if n = 0 then None else if \<not> is_safe_user_id uid then Some UnsafeUserId
        else if 2 ^ 63 \<le> unat n \<or> 2 ^ 63 \<le> unat now then Some IntegerOutOfRange else None)
   \<and> (let db1 = db\<lparr>usage_table := sql_ignore us_user_id (new_usage uid) (usage_table db)\<rparr> in
      db' = (if n = 0 then db else if r \<noteq> None then db1
        else db1\<lparr>usage_table := sql_update (\<lambda>u. us_user_id u = uid) (count_request ep (uint n) (uint now)) (usage_table db1)\<rparr>))"
  by (auto simp: record_usage_n_def Let_def bind_u64_def split: if_splits)

lemma usage_stats_update_ignore:
  assumes db1_def: "db1 = db\<lparr>usage_table := sql_ignore us_user_id (new_usage uid) (usage_table db)\<rparr>"
  shows "usage_stats v (db1\<lparr>usage_table := sql_update (\<lambda>u. us_user_id u = uid) (count_request ep n s) (usage_table db1)\<rparr>)
    = (if v = uid then bump ep n s (usage_stats uid db) else usage_stats v db)"
proof -
  let ?t = "usage_table db1"
  have keys: "filter (\<lambda>u. us_user_id u = v) (sql_update (\<lambda>u. us_user_id u = uid) (count_request ep n s) t)
      = (if v = uid then map (count_request ep n s) (filter (\<lambda>u. us_user_id u = v) t)
         else filter (\<lambda>u. us_user_id u = v) t)" for t
    by (induction t) (auto simp: sql_update_def)
  have mem: "filter (\<lambda>u. us_user_id u = uid) ?t \<noteq> []"
    using usage_ignore_mem [of uid "usage_table db"] by (auto simp: db1_def filter_empty_conv)
  have "usage_stats v (db1\<lparr>usage_table := sql_update (\<lambda>u. us_user_id u = uid) (count_request ep n s) ?t\<rparr>)
      = (if v = uid then bump ep n s (usage_stats uid db1) else usage_stats v db1)"
    using mem by (auto simp: usage_stats_def keys stats_count_request split: list.splits)
  then show ?thesis unfolding db1_def usage_stats_ignore .
qed

text \<open>
  Recording a batch of \<open>n\<close> requests of an account adds exactly \<open>n\<close> to its requests and to the
  counter of the endpoint, sets its last instant and changes no other account; a rejected call changes
  no statistics at all; the totals move by the same amount; and the call is rejected exactly for an
  ill-formed account id or a value the column cannot hold.
\<close>

theorem usage_accounting:
  assumes "platform_run sha empty_platform es db" "record_usage_n now uid ep n db = (db', r)"
  shows "usage_stats v db'
        = (if v = uid \<and> r = None \<and> n \<noteq> 0 then bump ep (uint n) (uint now) (usage_stats v db)
           else usage_stats v db)
    \<and> counts (total_usage_stats db')
        = counts (if r = None \<and> n \<noteq> 0 then bump ep (uint n) (uint now) (total_usage_stats db)
                  else total_usage_stats db)
    \<and> r = (if n = 0 then None else if \<not> is_safe_user_id uid then Some UnsafeUserId
           else if 2 ^ 63 \<le> unat n \<or> 2 ^ 63 \<le> unat now then Some IntegerOutOfRange else None)"
proof -
  let ?db1 = "db\<lparr>usage_table := sql_ignore us_user_id (new_usage uid) (usage_table db)\<rparr>"
  have ok: "distinct (map us_user_id (usage_table db))"
    using platform_run_ok [OF assms(1) platform_ok_empty] by (simp add: platform_ok_def)
  have db': "db' = (if n = 0 then db else if r \<noteq> None then ?db1
      else ?db1\<lparr>usage_table := sql_update (\<lambda>u. us_user_id u = uid) (count_request ep (uint n) (uint now)) (usage_table ?db1)\<rparr>)"
    and r: "r = (if n = 0 then None else if \<not> is_safe_user_id uid then Some UnsafeUserId
        else if 2 ^ 63 \<le> unat n \<or> 2 ^ 63 \<le> unat now then Some IntegerOutOfRange else None)"
    using record_usage_result [OF assms(2)] by (simp_all add: Let_def)
  consider "n = 0" | "n \<noteq> 0" "r \<noteq> None" | "n \<noteq> 0" "r = None" by blast
  then have "usage_stats v db'
      = (if v = uid \<and> r = None \<and> n \<noteq> 0 then bump ep (uint n) (uint now) (usage_stats v db) else usage_stats v db)
    \<and> counts (total_usage_stats db')
      = counts (if r = None \<and> n \<noteq> 0 then bump ep (uint n) (uint now) (total_usage_stats db) else total_usage_stats db)"
  proof cases
    case 2
    then show ?thesis unfolding db' by (auto simp: usage_stats_ignore total_ignore)
  next
    case 3
    have t: "counts (bump ep (uint n) (uint now) (total_usage_stats ?db1))
        = counts (bump ep (uint n) (uint now) (total_usage_stats db))"
      using total_ignore [of uid db] by (simp add: counts_def bump_def total_usage_stats_def Let_def)
    show ?thesis
      using 3 usage_stats_update_ignore [OF refl, where db = db and uid = uid and v = v and ep = ep and n = "uint n" and s = "uint now"]
        total_update [of ?db1 uid ep "uint n" "uint now"] usage_ignore_mem distinct_ignore [OF ok, of uid] t
      unfolding db' by auto
  qed (simp add: db')
  with r show ?thesis by blast
qed

lemma usage_accounting_witness:
  "usage_stats ''usr_a1b2'' (fst (record_usage_n 2000 ''usr_a1b2'' ''query'' 3 demo_platform))
     = bump ''query'' 3 2000 (usage_stats ''usr_a1b2'' demo_platform)"
proof -
  obtain db' r where c: "record_usage_n 2000 ''usr_a1b2'' ''query'' 3 demo_platform = (db', r)" by fastforce
  have "is_safe_user_id ''usr_a1b2''" by code_simp
  then show ?thesis using usage_accounting [OF demo_reachable c, of "''usr_a1b2''"] c by simp
qed

subsection \<open>Random tokens\<close>

lemma token_chars_length: "length TOKEN_CHARS = 62" by (simp add: TOKEN_CHARS_def)

lemma token_limit: "TOKEN_LIMIT = 248" by (simp add: TOKEN_LIMIT_def token_chars_length)

lemma random_token_accepted:
  "random_token n bytes out =
     (let cs = map (\<lambda>b. TOKEN_CHARS ! (b mod 62)) (filter (\<lambda>b. b < 248) bytes) in
      if n \<le> length out then Some out
      else if length out + length cs < n then None
      else Some (out @ take (n - length out) cs))"
proof (induction bytes arbitrary: out)
  case Nil
  then show ?case by (subst random_token.simps) (auto simp: Let_def)
next
  case (Cons b bs)
  show ?case
    by (subst random_token.simps)
      (auto simp: Cons token_limit token_chars_length Let_def Suc_diff_Suc take_Cons' split: if_splits)
qed

lemma residues_248: "i < 62 \<Longrightarrow> {b. b < 248 \<and> b mod 62 = i} = {i, i + 62, i + 124, i + (186::nat)}"
proof (intro set_eqI iffI)
  fix b assume "b \<in> {b. b < 248 \<and> b mod 62 = i}"
  then have "b = b div 62 * 62 + i" "b div 62 < 4" using div_mult_mod_eq [of b 62] by auto
  then show "b \<in> {i, i + 62, i + 124, i + 186}" by (cases "b div 62") auto
next
  fix b assume "i < 62" "b \<in> {i, i + 62, i + 124, i + 186}"
  then show "b \<in> {b. b < 248 \<and> b mod 62 = i}"
    using mod_mult_self1 [of i 2 62] mod_mult_self1 [of i 3 62] by auto
qed

lemma four_bytes:
  assumes "i < length TOKEN_CHARS"
  shows "length (filter (\<lambda>b. b < TOKEN_LIMIT \<and> TOKEN_CHARS ! (b mod length TOKEN_CHARS) = TOKEN_CHARS ! i) [0..<256]) = 4"
proof -
  have d: "distinct TOKEN_CHARS" by (simp add: TOKEN_CHARS_def)
  have i: "i < 62" using assms by (simp add: token_chars_length)
  have "TOKEN_CHARS ! (b mod 62) = TOKEN_CHARS ! i \<longleftrightarrow> b mod 62 = i" for b
    using nth_eq_iff_index_eq [OF d, of "b mod 62" i] i by (simp add: token_chars_length)
  then have "length (filter (\<lambda>b. b < TOKEN_LIMIT \<and> TOKEN_CHARS ! (b mod length TOKEN_CHARS) = TOKEN_CHARS ! i) [0..<256])
      = length (filter (\<lambda>b. b < 248 \<and> b mod 62 = i) [0..<256])"
    by (simp add: token_limit token_chars_length)
  also have "\<dots> = card (set (filter (\<lambda>b. b < 248 \<and> b mod 62 = i) [0..<256]))"
    by (rule distinct_card [symmetric]) simp
  also have "set (filter (\<lambda>b. b < 248 \<and> b mod 62 = i) [0..<256]) = {i, i + 62, i + 124, i + 186}"
    unfolding residues_248 [OF i, symmetric] by auto
  finally show ?thesis by simp
qed

text \<open>
  C31. Generating a token of \<open>n\<close> characters returns as soon as \<open>n\<close> bytes below the limit have been
  drawn, with \<open>n\<close> characters of the alphabet, one per accepted byte in order; and the draw is not
  biased, because every character of the alphabet comes from exactly four accepted byte values.
\<close>

theorem random_token_correct:
  "(n \<le> length (filter (\<lambda>b. b < TOKEN_LIMIT) bytes)
      \<longrightarrow> random_token n bytes []
          = Some (map (\<lambda>b. TOKEN_CHARS ! (b mod length TOKEN_CHARS))
              (take n (filter (\<lambda>b. b < TOKEN_LIMIT) bytes))))
   \<and> (random_token n bytes [] = Some tok \<longrightarrow> length tok = n \<and> set tok \<subseteq> set TOKEN_CHARS)
   \<and> list_all (\<lambda>c. length (filter (\<lambda>b. b < TOKEN_LIMIT \<and> TOKEN_CHARS ! (b mod length TOKEN_CHARS) = c) [0..<256]) = 4)
       TOKEN_CHARS"
proof (intro conjI impI)
  assume "n \<le> length (filter (\<lambda>b. b < TOKEN_LIMIT) bytes)"
  then show "random_token n bytes [] = Some (map (\<lambda>b. TOKEN_CHARS ! (b mod length TOKEN_CHARS))
      (take n (filter (\<lambda>b. b < TOKEN_LIMIT) bytes)))"
    by (simp add: random_token_accepted token_limit token_chars_length Let_def take_map)
next
  assume t: "random_token n bytes [] = Some tok"
  show "length tok = n"
    using t by (auto simp: random_token_accepted Let_def split: if_splits)
  show "set tok \<subseteq> set TOKEN_CHARS"
    using t by (auto simp: random_token_accepted token_chars_length Let_def dest!: in_set_takeD split: if_splits)
next
  show "list_all (\<lambda>c. length (filter (\<lambda>b. b < TOKEN_LIMIT \<and> TOKEN_CHARS ! (b mod length TOKEN_CHARS) = c) [0..<256]) = 4)
       TOKEN_CHARS"
    unfolding list_all_length by (auto simp: four_bytes)
qed

lemma random_token_correct_witness:
  "random_token 2 [255, 1, 250, 63, 9] [] = Some ''bb'' \<and> length ''bb'' = 2"
  using random_token_correct [of 2 "[255, 1, 250, 63, 9]" "''bb''"]
  by (simp add: token_limit token_chars_length) (simp add: TOKEN_CHARS_def)

subsection \<open>Profiles\<close>

lemma filter_absent: "a \<notin> k ` set xs \<Longrightarrow> filter (\<lambda>x. k x \<noteq> a) xs = xs"
  unfolding filter_id_conv by blast

lemma remove_where_filter:
  "distinct (map k xs) \<Longrightarrow> remove_where (\<lambda>x. k x = a) xs = filter (\<lambda>x. k x \<noteq> a) xs"
  by (induction xs) (auto simp: filter_absent)

text \<open>Put in front, dropping the entry with the same key, bounded: both lists of a profile work so.\<close>

definition put_front :: "('a \<Rightarrow> 'k) \<Rightarrow> nat \<Rightarrow> 'a list \<Rightarrow> 'a \<Rightarrow> 'a list" where
  "put_front k m xs v = take m (v # remove_where (\<lambda>x. k x = k v) xs)"

lemma take_filter_take:
  "distinct (map k xs) \<Longrightarrow>
   take j (filter (\<lambda>x. k x \<noteq> a) (take (Suc j) xs)) = take j (filter (\<lambda>x. k x \<noteq> a) xs)"
proof (induction xs arbitrary: j)
  case (Cons x xs)
  show ?case
  proof (cases "k x = a")
    case True
    then have "filter (\<lambda>x. k x \<noteq> a) xs = xs" using Cons.prems by (auto intro: filter_absent)
    moreover from this have "filter (\<lambda>x. k x \<noteq> a) (take j xs) = take j xs"
      unfolding filter_id_conv by (meson in_set_takeD)
    ultimately show ?thesis using True by simp
  next
    case False
    then show ?thesis using Cons by (cases j) auto
  qed
qed simp

lemma put_front_take:
  assumes "distinct (map k xs)"
  shows "put_front k m (take m xs) v = take m (v # filter (\<lambda>x. k x \<noteq> k v) xs)"
proof (cases m)
  case (Suc j)
  have "distinct (map k (take m xs))" using assms by (simp add: take_map distinct_take flip: take_map)
  then show ?thesis using take_filter_take [OF assms, of j "k v"] by (simp add: put_front_def remove_where_filter Suc)
qed (simp add: put_front_def)

lemma foldl_put_front:
  assumes "distinct (map k xs)" "distinct (map k vs)" "length xs \<le> m"
  shows "foldl (put_front k m) xs vs = take m (rev vs @ filter (\<lambda>x. k x \<notin> k ` set vs) xs)"
  using assms(2)
proof (induction vs rule: rev_induct)
  case Nil
  then show ?case using assms(3) by simp
next
  case (snoc v vs)
  have d: "distinct (map k (rev vs @ filter (\<lambda>x. k x \<notin> k ` set vs) xs))"
    using snoc.prems assms(1) by (auto simp: distinct_map_filter rev_map [symmetric]) (metis imageI)
  have "filter (\<lambda>x. k x \<noteq> k v) (rev vs) = rev vs" using snoc.prems by (auto simp: filter_id_conv image_iff)
  then show ?case using snoc put_front_take [OF d, of m v] by (simp add: conj_commute)
qed

lemma distinct_put_front: "distinct (map k xs) \<Longrightarrow> distinct (map k (put_front k m xs v))"
proof -
  assume "distinct (map k xs)"
  then have "distinct (map k (v # remove_where (\<lambda>x. k x = k v) xs))"
    by (auto simp: remove_where_filter distinct_map_filter)
  then show ?thesis unfolding put_front_def take_map [symmetric] by (rule distinct_take)
qed

lemma distinct_foldl_put: "distinct (map k xs) \<Longrightarrow> distinct (map k (foldl (put_front k m) xs vs))"
  by (induction vs arbitrary: xs) (simp_all add: distinct_put_front)

lemma insert_unique_front_put: "insert_unique_front xs v m = put_front (\<lambda>x. x) m xs v"
  by (simp add: insert_unique_front_def put_front_def)

lemma extract_loop_ok:
  "distinct out \<Longrightarrow> length out \<le> m \<Longrightarrow>
   distinct (extract_loop ms l m out ss) \<and> length (extract_loop ms l m out ss) \<le> m"
proof (induction ss arbitrary: out)
  case (Cons s ss)
  have "distinct (insert_unique_front out v m)" for v
    using distinct_put_front [of "\<lambda>x. x" out m v] Cons.prems by (simp add: insert_unique_front_put)
  moreover have "length (insert_unique_front out v m) \<le> m" for v by (simp add: insert_unique_front_def)
  ultimately show ?case using Cons by (simp add: Let_def)
qed simp

lemma user_profile_replaced:
  "user_profile rf ra v (db\<lparr>user_profiles := sql_replace pr_user_id r (user_profiles db)\<rparr>)
     = (if v = pr_user_id r
        then \<lparr>up_user_id = v, up_stable_facts = (case rf (pr_stable_facts r) of None \<Rightarrow> [] | Some fs \<Rightarrow> fs),
              up_recent_activity = (case ra (pr_recent_activity r) of None \<Rightarrow> [] | Some xs \<Rightarrow> xs),
              up_last_updated_ms = as_u64 (pr_last_updated_ms r)\<rparr>
        else user_profile rf ra v db)"
proof (cases "v = pr_user_id r")
  case True
  then have "filter (\<lambda>p. pr_user_id p = v) (sql_replace pr_user_id r (user_profiles db)) = [r]"
    by (auto simp: sql_replace_def sql_delete_def filter_empty_conv)
  with True show ?thesis by (simp add: user_profile_def)
next
  case False
  then have "filter (\<lambda>p. pr_user_id p = v) (sql_replace pr_user_id r (user_profiles db))
      = filter (\<lambda>p. pr_user_id p = v) (user_profiles db)"
    by (auto simp: sql_replace_def sql_delete_def intro!: filter_cong)
  with False show ?thesis by (simp add: user_profile_def)
qed

lemma as_u64_uint: "as_u64 (uint x) = x"
  by (simp add: as_u64_def)

definition activity_key :: "ProfileActivity \<Rightarrow> str \<times> str" where
  "activity_key x = (pa_fact x, pa_source x)"

definition activity_of :: "str \<Rightarrow> u64 \<Rightarrow> str \<Rightarrow> ProfileActivity" where
  "activity_of src t f = \<lparr>pa_fact = f, pa_source = src, pa_timestamp_ms = t\<rparr>"

definition profile_ok :: "UserProfile \<Rightarrow> bool" where
  "profile_ok p \<longleftrightarrow> distinct (up_stable_facts p) \<and> length (up_stable_facts p) \<le> MAX_STABLE_FACTS
     \<and> distinct (map activity_key (up_recent_activity p)) \<and> length (up_recent_activity p) \<le> MAX_ACTIVITY_FACTS"

lemma insert_activity_put:
  "insert_activity src t = (\<lambda>xs f. put_front activity_key MAX_ACTIVITY_FACTS xs (activity_of src t f))"
  by (intro ext) (simp add: insert_activity_def put_front_def activity_key_def activity_of_def)

text \<open>
  C30. Updating a profile from a text keeps both of its lists bounded and free of duplicates; a text
  without statements about its author changes nothing; otherwise the new facts stand in front, newest
  first, a repeated one moves to the front instead of being kept twice, the oldest ones fall off the
  end, the time of the profile never goes back and no other profile changes.
\<close>

theorem profile_update_correct:
  assumes "\<And>xs. rf (sf xs) = Some xs" "\<And>xs. ra (sa xs) = Some xs"
    and "profile_ok (user_profile rf ra uid db)"
    and "update_profile_from_text rf ra sf sa uid txt t src db = Inr db'"
    and p: "p = user_profile rf ra uid db" and p': "p' = user_profile rf ra uid db'"
    and S: "S = extract_profile_stable_facts txt" and A: "A = extract_profile_activity_facts txt"
  shows "profile_ok p'
    \<and> (if S = [] \<and> A = [] then db' = db
       else up_stable_facts p' = take MAX_STABLE_FACTS (rev S @ filter (\<lambda>f. f \<notin> set S) (up_stable_facts p))
         \<and> up_recent_activity p' = take MAX_ACTIVITY_FACTS
             (rev (map (activity_of src t) A)
              @ filter (\<lambda>x. \<not> (pa_source x = src \<and> pa_fact x \<in> set A)) (up_recent_activity p))
         \<and> up_last_updated_ms p' = max t (up_last_updated_ms p))
    \<and> (\<exists>ps. db' = db\<lparr>user_profiles := ps\<rparr>)
    \<and> (v = uid \<or> user_profile rf ra v db' = user_profile rf ra v db)"
proof (cases "S = [] \<and> A = []")
  case True
  then have "db' = db" using assms(4) S A by (simp add: update_profile_from_text_def Let_def)
  moreover from this have "\<exists>ps. db' = db\<lparr>user_profiles := ps\<rparr>"
    by (intro exI [of _ "user_profiles db"]) simp
  ultimately show ?thesis using True assms(3) p p' by simp
next
  case False
  have ok: "distinct (map (\<lambda>x. x) (up_stable_facts p))" "length (up_stable_facts p) \<le> MAX_STABLE_FACTS"
    "distinct (map activity_key (up_recent_activity p))" "length (up_recent_activity p) \<le> MAX_ACTIVITY_FACTS"
    using assms(3) p by (simp_all add: profile_ok_def)
  have dS: "distinct (map (\<lambda>x. x) S)" and dA: "distinct A"
    using extract_loop_ok [of "[]" MAX_STABLE_FACTS] extract_loop_ok [of "[]" MAX_ACTIVITY_FACTS]
    by (simp_all add: S A extract_profile_stable_facts_def extract_profile_activity_facts_def)
  have dA': "distinct (map activity_key (map (activity_of src t) A))"
    using dA by (simp add: comp_def activity_key_def activity_of_def distinct_map inj_on_def)
  let ?F = "foldl (\<lambda>fs f. insert_unique_front fs f MAX_STABLE_FACTS) (up_stable_facts p) S"
  let ?R = "foldl (insert_activity src t) (up_recent_activity p) A"
  have F: "?F = take MAX_STABLE_FACTS (rev S @ filter (\<lambda>f. f \<notin> set S) (up_stable_facts p))"
    using foldl_put_front [OF ok(1) dS ok(2)] by (simp add: insert_unique_front_put)
  have "?R = foldl (put_front activity_key MAX_ACTIVITY_FACTS) (up_recent_activity p) (map (activity_of src t) A)"
    by (simp add: foldl_map insert_activity_put)
  also have "\<dots> = take MAX_ACTIVITY_FACTS (rev (map (activity_of src t) A)
      @ filter (\<lambda>x. \<not> (pa_source x = src \<and> pa_fact x \<in> set A)) (up_recent_activity p))"
    unfolding foldl_put_front [OF ok(3) dA' ok(4)]
    by (auto simp: activity_key_def activity_of_def image_iff intro!: filter_cong arg_cong2 [where f = append] arg_cong2 [where f = take])
  finally have R: "?R = \<dots>" .
  obtain n where n: "bind_u64 (max t (up_last_updated_ms p)) = Inr n"
    and db': "db' = db\<lparr>user_profiles := sql_replace pr_user_id
                   \<lparr>pr_user_id = uid, pr_stable_facts = sf ?F, pr_recent_activity = sa ?R, pr_last_updated_ms = n\<rparr>
                   (user_profiles db)\<rparr>"
    using assms(4) False unfolding update_profile_from_text_def Let_def S [symmetric] A [symmetric] p [symmetric]
    by (auto simp: bind_res_eq_Inr)
  have p'': "p' = \<lparr>up_user_id = uid, up_stable_facts = ?F, up_recent_activity = ?R,
      up_last_updated_ms = max t (up_last_updated_ms p)\<rparr>"
    using n unfolding p' db' user_profile_replaced by (auto simp: assms(1,2) bind_u64_Inr as_u64_uint)
  have "distinct ?F" using distinct_foldl_put [OF ok(1), of MAX_STABLE_FACTS S] by (simp add: insert_unique_front_put)
  moreover have "distinct (map activity_key ?R)"
    using distinct_foldl_put [OF ok(3), of MAX_ACTIVITY_FACTS "map (activity_of src t) A"]
    by (simp add: foldl_map insert_activity_put)
  moreover have "length ?F \<le> MAX_STABLE_FACTS" unfolding F length_take by simp
  moreover have "length ?R \<le> MAX_ACTIVITY_FACTS" unfolding R length_take by simp
  ultimately have "profile_ok p'" by (simp add: profile_ok_def p'')
  moreover have "v = uid \<or> user_profile rf ra v db' = user_profile rf ra v db"
    unfolding db' user_profile_replaced by simp
  ultimately show ?thesis using False F R db' by (auto simp: p'')
qed

text \<open>A concrete text encoding of the two lists, for the instance below.\<close>

definition show_strs :: "str list \<Rightarrow> str" where
  "show_strs xs = concat (map (\<lambda>s. concat (map (\<lambda>c. [CHR ''a'', c]) s) @ ''b'') xs)"

fun read_strs :: "str \<Rightarrow> str \<Rightarrow> str list option" where
  "read_strs acc [] = Some []"
| "read_strs acc [x] = Some [acc]"
| "read_strs acc (x # c # r) =
     (if x = CHR ''b'' then map_option ((#) acc) (read_strs [] (c # r)) else read_strs (acc @ [c]) r)"

lemma read_show_strs: "read_strs [] (show_strs xs) = Some xs"
proof (induction xs)
  case (Cons s xs)
  have "read_strs acc (concat (map (\<lambda>c. [CHR ''a'', c]) s) @ CHR ''b'' # r)
      = map_option ((#) (acc @ s)) (read_strs [] r)" for acc s r
    by (induction s arbitrary: acc) (cases r; simp)+
  with Cons show ?case by (simp add: show_strs_def)
qed (simp add: show_strs_def)

definition show_acts :: "ProfileActivity list \<Rightarrow> str" where
  "show_acts xs = show_strs (concat (map (\<lambda>x. [pa_fact x, pa_source x, replicate (unat (pa_timestamp_ms x)) CHR ''c'']) xs))"

fun group_acts :: "str list \<Rightarrow> ProfileActivity list" where
  "group_acts (f # s # t # r) = \<lparr>pa_fact = f, pa_source = s, pa_timestamp_ms = of_nat (length t)\<rparr> # group_acts r"
| "group_acts _ = []"

lemma read_show_acts: "map_option group_acts (read_strs [] (show_acts xs)) = Some xs"
  unfolding show_acts_def read_show_strs by (induction xs) simp_all

lemma profile_update_correct_witness:
  "\<exists>db'. update_profile_from_text (read_strs []) (\<lambda>s. map_option group_acts (read_strs [] s)) show_strs show_acts
      ''usr_a1b2'' ''I live in Berlin. Hm! Today I bought my bike'' 7 ''chat'' demo_platform = Inr db'
    \<and> up_stable_facts (user_profile (read_strs []) (\<lambda>s. map_option group_acts (read_strs [] s)) ''usr_a1b2'' db')
       = [''I live in Berlin'']"
proof -
  let ?rf = "read_strs []" and ?ra = "\<lambda>s. map_option group_acts (read_strs [] s)"
  let ?txt = "''I live in Berlin. Hm! Today I bought my bike''"
  have S: "extract_profile_stable_facts ?txt = [''I live in Berlin'']"
    and A: "extract_profile_activity_facts ?txt = [''Today I bought my bike'']" by code_simp+
  have p: "user_profile ?rf ?ra ''usr_a1b2'' demo_platform
      = \<lparr>up_user_id = ''usr_a1b2'', up_stable_facts = [], up_recent_activity = [], up_last_updated_ms = 0\<rparr>"
    by (simp add: user_profile_def demo_platform_def empty_platform_def)
  obtain db' where u: "update_profile_from_text ?rf ?ra show_strs show_acts ''usr_a1b2'' ?txt 7 ''chat'' demo_platform = Inr db'"
    by (simp add: update_profile_from_text_def S A Let_def p bind_u64_def)
  have "up_stable_facts (user_profile ?rf ?ra ''usr_a1b2'' db') = [''I live in Berlin'']"
    using profile_update_correct [OF read_show_strs read_show_acts _ u refl refl S [symmetric] A [symmetric]]
    by (simp add: p profile_ok_def MAX_STABLE_FACTS_def)
  with u show ?thesis by blast
qed

end
