(* ===== verification/Permits.thy ===== *)
theory Permits
  imports Prelude
begin

section \<open>The permits that bound concurrent model calls\<close>

text \<open>
  Models \<open>ComputePermits\<close> and \<open>PermitGuard\<close> of \<open>src/semantic.rs\<close>: a counter under a mutex and a
  condition variable.  The critical sections are the steps: one turn of the loop of \<open>acquire\<close>
  (take a permit, or park on the condition variable, which releases the mutex), the increment of
  \<open>drop\<close>, and its notification, which comes after the mutex is released.  \<open>notify_one\<close> wakes some
  parked thread if there is one; a thread may also wake without a notification.
\<close>

datatype thread = Idle | Parked | Notified | Holding | Releasing

record permits =
  available :: nat
  threads :: "thread list"

definition permits_new :: "nat \<Rightarrow> nat \<Rightarrow> permits" where
  "permits_new n k = \<lparr>available = max n 1, threads = replicate k Idle\<rparr>"

text \<open>One turn of the loop of \<open>acquire\<close>, for thread \<open>i\<close>.\<close>

definition acquire_turn :: "nat \<Rightarrow> permits \<Rightarrow> permits" where
  "acquire_turn i p =
     (if available p = 0 then p\<lparr>threads := (threads p)[i := Parked]\<rparr>
      else p\<lparr>available := available p - 1, threads := (threads p)[i := Holding]\<rparr>)"

definition drop_permit :: "nat \<Rightarrow> permits \<Rightarrow> permits" where
  "drop_permit i p = p\<lparr>available := available p + 1, threads := (threads p)[i := Releasing]\<rparr>"

text \<open>The notification of thread \<open>i\<close>; \<open>j\<close> is the parked thread it wakes.\<close>

definition notify_one :: "nat \<Rightarrow> nat option \<Rightarrow> permits \<Rightarrow> permits" where
  "notify_one i j p =
     (let ts = (threads p)[i := Idle]
      in p\<lparr>threads := (case j of None \<Rightarrow> ts | Some k \<Rightarrow> ts[k := Notified])\<rparr>)"

datatype permit_event = Acquire nat | Retry nat | Release nat | Notify nat | Wake nat

inductive permit_step :: "permits \<Rightarrow> permit_event \<Rightarrow> permits \<Rightarrow> bool" where
  acquire: "i < length (threads p) \<Longrightarrow> threads p ! i = Idle
    \<Longrightarrow> permit_step p (Acquire i) (acquire_turn i p)"
| retry: "i < length (threads p) \<Longrightarrow> threads p ! i = Notified
    \<Longrightarrow> permit_step p (Retry i) (acquire_turn i p)"
| release: "i < length (threads p) \<Longrightarrow> threads p ! i = Holding
    \<Longrightarrow> permit_step p (Release i) (drop_permit i p)"
| notify_some: "i < length (threads p) \<Longrightarrow> threads p ! i = Releasing
    \<Longrightarrow> j < length (threads p) \<Longrightarrow> threads p ! j = Parked
    \<Longrightarrow> permit_step p (Notify i) (notify_one i (Some j) p)"
| notify_none: "i < length (threads p) \<Longrightarrow> threads p ! i = Releasing \<Longrightarrow> Parked \<notin> set (threads p)
    \<Longrightarrow> permit_step p (Notify i) (notify_one i None p)"
| wake: "i < length (threads p) \<Longrightarrow> threads p ! i = Parked
    \<Longrightarrow> permit_step p (Wake i) (p\<lparr>threads := (threads p)[i := Notified]\<rparr>)"

inductive permit_run :: "permits \<Rightarrow> permit_event list \<Rightarrow> permits \<Rightarrow> bool" for start where
  permits_start: "permit_run start [] start"
| permits_more: "permit_run start es p \<Longrightarrow> permit_step p e q \<Longrightarrow> permit_run start (es @ [e]) q"

inductive_cases permit_stepE: "permit_step p e q"

abbreviation number :: "thread \<Rightarrow> permits \<Rightarrow> nat" where
  "number s p \<equiv> count_list (threads p) s"

lemma count_list_update:
  "i < length xs \<Longrightarrow> count_list (xs[i := y]) x + (if xs ! i = x then 1 else 0)
     = count_list xs x + (if y = x then 1 else 0)"
proof (induction xs arbitrary: i)
  case (Cons a xs)
  show ?case
  proof (cases i)
    case (Suc k)
    then show ?thesis using Cons.IH [of k] Cons.prems by (auto split: if_splits)
  qed simp
qed simp

text \<open>
  The counter and the permits held add up to the size of the pool, and no wake-up is lost: while
  a thread is parked, every free permit is matched by a thread that has been notified or by a
  notification still to be sent.
\<close>

definition permits_ok :: "nat \<Rightarrow> permits \<Rightarrow> bool" where
  "permits_ok n p \<longleftrightarrow> available p + number Holding p = n
     \<and> (0 < number Parked p \<longrightarrow> available p \<le> number Notified p + number Releasing p)"

lemma permit_step_ok: "permit_step p e q \<Longrightarrow> permits_ok n p \<Longrightarrow> permits_ok n q"
proof (induction rule: permit_step.induct)
  case (acquire i p)
  note c = count_list_update [OF acquire(1)]
  show ?case
    using acquire c [of Parked Holding] c [of Parked Parked] c [of Parked Notified] c [of Parked Releasing]
      c [of Holding Holding] c [of Holding Parked] c [of Holding Notified] c [of Holding Releasing]
    by (auto simp: permits_ok_def acquire_turn_def)
next
  case (retry i p)
  note c = count_list_update [OF retry(1)]
  show ?case
    using retry c [of Parked Holding] c [of Parked Parked] c [of Parked Notified] c [of Parked Releasing]
      c [of Holding Holding] c [of Holding Parked] c [of Holding Notified] c [of Holding Releasing]
    by (auto simp: permits_ok_def acquire_turn_def)
next
  case (release i p)
  note c = count_list_update [OF release(1)]
  show ?case
    using release c [of Releasing Holding] c [of Releasing Parked] c [of Releasing Notified]
      c [of Releasing Releasing]
    by (auto simp: permits_ok_def drop_permit_def)
next
  case (notify_some i p j)
  note c = count_list_update [OF notify_some(1), of Idle]
  have j: "j < length ((threads p)[i := Idle])" "(threads p)[i := Idle] ! j = Parked"
    using notify_some by (auto simp: nth_list_update)
  note d = count_list_update [OF j(1), of Notified]
  show ?case
    using notify_some j(2) c [of Holding] c [of Parked] c [of Notified] c [of Releasing]
      d [of Holding] d [of Parked] d [of Notified] d [of Releasing]
    by (auto simp: permits_ok_def notify_one_def Let_def)
next
  case (notify_none i p)
  note c = count_list_update [OF notify_none(1), of Idle]
  have "number Parked p = 0" using notify_none(3) by (simp add: count_list_0_iff)
  then show ?case
    using notify_none c [of Holding] c [of Parked]
    by (auto simp: permits_ok_def notify_one_def Let_def)
next
  case (wake i p)
  note c = count_list_update [OF wake(1), of Notified]
  show ?case
    using wake c [of Holding] c [of Parked] c [of Notified] c [of Releasing]
    by (auto simp: permits_ok_def)
qed

lemma permits_ok_new: "permits_ok (max n 1) (permits_new n k)"
proof -
  have "count_list (replicate k Idle) s = 0" if "s \<noteq> Idle" for s
    using that by (induction k) auto
  then show ?thesis by (simp add: permits_ok_def permits_new_def)
qed

lemma permit_run_ok: "permit_run start es p \<Longrightarrow> permits_ok n start \<Longrightarrow> permits_ok n p"
  by (induction rule: permit_run.induct) (blast intro: permit_step_ok)+

lemma count_list_pos: "0 < count_list xs x \<Longrightarrow> \<exists>i < length xs. xs ! i = x"
  using count_list_0_iff [of xs x] by (auto simp: in_set_conv_nth)

lemma permit_run_one: "permit_step p e q \<Longrightarrow> permit_run p [e] q"
  using permits_more [OF permits_start] by fastforce

text \<open>
  C29. In every reachable state of a pool of \<open>n\<close> permits (at least one) no more than \<open>n\<close> threads
  hold a permit, and no wake-up is lost: whenever a permit is free and some thread waits for one, a
  waiting thread obtains it by at most one pending notification and its own next turn, without any
  other thread acquiring, releasing or waking by chance.
\<close>

theorem permits_bounded_and_live:
  assumes "permit_run (permits_new n k) es p"
  shows "number Holding p \<le> max n 1
    \<and> (number Holding p < max n 1 \<and> 0 < number Parked p + number Notified p \<longrightarrow>
        (\<exists>i j es' q. (es' = [Retry i] \<or> es' = [Notify j, Retry i]) \<and> permit_run p es' q
           \<and> threads p ! i \<in> {Parked, Notified} \<and> threads q ! i = Holding))"
proof (intro conjI impI)
  have ok: "permits_ok (max n 1) p" by (rule permit_run_ok [OF assms permits_ok_new])
  then show "number Holding p \<le> max n 1" by (simp add: permits_ok_def)
  assume free: "number Holding p < max n 1 \<and> 0 < number Parked p + number Notified p"
  then have a: "0 < available p" using ok by (auto simp: permits_ok_def)
  show "\<exists>i j es' q. (es' = [Retry i] \<or> es' = [Notify j, Retry i]) \<and> permit_run p es' q
           \<and> threads p ! i \<in> {Parked, Notified} \<and> threads q ! i = Holding"
  proof (cases "0 < number Notified p")
    case True
    then obtain i where i: "i < length (threads p)" "threads p ! i = Notified" using count_list_pos [OF True] by blast
    have "permit_run p [Retry i] (acquire_turn i p)" by (rule permit_run_one [OF retry [OF i]])
    moreover have "threads (acquire_turn i p) ! i = Holding" using a i by (simp add: acquire_turn_def)
    ultimately show ?thesis using i(2) by blast
  next
    case False
    then have parked: "0 < number Parked p" using free by simp
    then have rel: "0 < number Releasing p" using ok a False by (auto simp: permits_ok_def)
    then obtain j where j: "j < length (threads p)" "threads p ! j = Releasing" using count_list_pos [OF rel] by blast
    obtain i where i: "i < length (threads p)" "threads p ! i = Parked" using count_list_pos [OF parked] by blast
    let ?p1 = "notify_one j (Some i) p"
    have s: "permit_step p (Notify j) ?p1" by (rule notify_some [OF j i])
    have i1: "i < length (threads ?p1)" "threads ?p1 ! i = Notified" "available ?p1 = available p"
      using i by (simp_all add: notify_one_def Let_def)
    have "permit_run p [Notify j, Retry i] (acquire_turn i ?p1)"
      using permits_more [OF permit_run_one [OF s] retry [OF i1(1,2)]] by simp
    moreover have "threads (acquire_turn i ?p1) ! i = Holding" using a i1 by (simp add: acquire_turn_def)
    ultimately show ?thesis using i(2) by blast
  qed
qed

lemma permits_bounded_and_live_witness:
  "\<exists>p q i. permit_run (permits_new 1 2) [Acquire 0, Acquire 1, Release 0] p \<and> threads p = [Releasing, Parked]
     \<and> (\<exists>es'. permit_run p es' q) \<and> threads q ! i = Holding"
proof -
  have 1: "permit_step (permits_new 1 2) (Acquire 0) \<lparr>available = 0, threads = [Holding, Idle]\<rparr>"
    using acquire [of 0 "permits_new 1 2"] by (simp add: permits_new_def acquire_turn_def numeral_2_eq_2)
  have 2: "permit_step \<lparr>available = 0, threads = [Holding, Idle]\<rparr> (Acquire 1) \<lparr>available = 0, threads = [Holding, Parked]\<rparr>"
    using acquire [of 1 "\<lparr>available = 0, threads = [Holding, Idle]\<rparr>"] by (simp add: acquire_turn_def)
  have 3: "permit_step \<lparr>available = 0, threads = [Holding, Parked]\<rparr> (Release 0) \<lparr>available = 1, threads = [Releasing, Parked]\<rparr>"
    using release [of 0 "\<lparr>available = 0, threads = [Holding, Parked]\<rparr>"] by (simp add: drop_permit_def)
  have r: "permit_run (permits_new 1 2) [Acquire 0, Acquire 1, Release 0] \<lparr>available = 1, threads = [Releasing, Parked]\<rparr>"
    using permits_more [OF permits_more [OF permit_run_one [OF 1] 2] 3] unfolding append.simps .
  have t: "threads \<lparr>available = 1, threads = [Releasing, Parked]\<rparr> = [Releasing, Parked]" by simp
  have "number Holding \<lparr>available = 1, threads = [Releasing, Parked]\<rparr> < max 1 1
    \<and> 0 < number Parked \<lparr>available = 1, threads = [Releasing, Parked]\<rparr>
        + number Notified \<lparr>available = 1, threads = [Releasing, Parked]\<rparr>" by simp
  with permits_bounded_and_live [OF r] obtain i es' q where
    "permit_run \<lparr>available = 1, threads = [Releasing, Parked]\<rparr> es' q" "threads q ! i = Holding" by blast
  then have "permit_run (permits_new 1 2) [Acquire 0, Acquire 1, Release 0] \<lparr>available = 1, threads = [Releasing, Parked]\<rparr>
    \<and> threads \<lparr>available = 1, threads = [Releasing, Parked]\<rparr> = [Releasing, Parked]
    \<and> (\<exists>es'. permit_run \<lparr>available = 1, threads = [Releasing, Parked]\<rparr> es' q) \<and> threads q ! i = Holding"
    using r t by (intro conjI exI)
  then show ?thesis by (intro exI)
qed

end
