(* ===== verification/Auth.thy ===== *)
theory Auth
  imports Complex_Main Platform Names
begin

section \<open>Authentication and rate limits of requests\<close>

text \<open>
  Models \<open>src/api/auth.rs\<close>.  The headers of a request are a function from the name of a header to
  its text (\<open>None\<close> where it is absent or not visible ASCII): the header map itself is the HTTP
  library's.  Statuses are numbers.  Instants are nanoseconds of the monotonic clock; the token
  counts of a bucket, floating-point numbers in the program, are exact rationals here, so rounding
  is not modelled.
\<close>

type_synonym headers = "str \<Rightarrow> str option"

record auth_config =
  ac_api_key :: "str option"
  ac_trust_proxy :: bool

subsection \<open>Credentials\<close>

definition split_space :: "str \<Rightarrow> (str \<times> str) option" where
  "split_space s = map_option (\<lambda>i. (take i s, drop (i + 1) s)) (find_char CHR '' '' s)"

definition request_bearer_token :: "headers \<Rightarrow> str option" where
  "request_bearer_token hdr =
     (case hdr ''authorization'' of
        None \<Rightarrow> None
      | Some value \<Rightarrow>
          (case split_space value of
             None \<Rightarrow> None
           | Some (scheme, token) \<Rightarrow>
               if \<not> eq_ignore_ascii_case scheme ''bearer'' then None
               else if trim token = [] then None else Some (trim token)))"

definition request_api_key :: "headers \<Rightarrow> str option" where
  "request_api_key hdr =
     (case hdr ''x-api-key'' of
        Some value \<Rightarrow> if trim value \<noteq> [] then Some (trim value) else request_bearer_token hdr
      | None \<Rightarrow> request_bearer_token hdr)"

text \<open>The comparison ORs the XOR of all bytes, without an early exit.\<close>

unbundle bit_operations_syntax

definition byte :: "char \<Rightarrow> 8 word" where
  "byte c = word_of_nat (code c)"

definition constant_time_eq :: "str \<Rightarrow> str \<Rightarrow> bool" where
  "constant_time_eq a b =
     (if length a \<noteq> length b then False
      else foldl (\<lambda>r (x, y). r OR (byte x XOR byte y)) 0 (zip a b) = 0)"

definition authorize_global_api_key :: "headers \<Rightarrow> auth_config \<Rightarrow> nat + unit" where
  "authorize_global_api_key hdr cfg =
     (case ac_api_key cfg of
        None \<Rightarrow> Inr ()
      | Some expected \<Rightarrow>
          (case request_api_key hdr of
             Some provided \<Rightarrow> if constant_time_eq provided expected then Inr () else Inl 401
           | None \<Rightarrow> Inl 401))"

datatype request_principal = GlobalApiKey | UserApiKey ApiKeyAuth

definition principal_user_id :: "request_principal \<Rightarrow> str option" where
  "principal_user_id p = (case p of UserApiKey auth \<Rightarrow> Some (au_user_id auth) | GlobalApiKey \<Rightarrow> None)"

definition is_valid_user_id :: "str \<Rightarrow> bool" where
  "is_valid_user_id user_id \<longleftrightarrow>
     8 \<le> length user_id \<and> length user_id \<le> 128 \<and> starts_with user_id ''usr_''
     \<and> list_all (\<lambda>b. is_alnum b \<or> b = CHR ''_'') user_id"

definition authorize_request ::
  "(str \<Rightarrow> str) \<Rightarrow> u64 \<Rightarrow> int \<Rightarrow> headers \<Rightarrow> auth_config \<Rightarrow> platform
     \<Rightarrow> platform \<times> (nat + request_principal)" where
  "authorize_request sha256_hex now instant hdr cfg db =
     (if authorize_global_api_key hdr cfg = Inr () then (db, Inr GlobalApiKey)
      else (case request_api_key hdr of
              None \<Rightarrow> (db, Inl 401)
            | Some provided \<Rightarrow>
                (case authenticate_api_key sha256_hex now instant provided db of
                   (db', Inr (Some auth)) \<Rightarrow>
                     if au_cluster_id auth = None then (db', Inl 403)
                     else if \<not> is_valid_user_id (au_user_id auth) then (db', Inl 500)
                     else (db', Inr (UserApiKey auth))
                 | (db', Inr None) \<Rightarrow> (db', Inl 401)
                 | (db', Inl _) \<Rightarrow> (db', Inl 500))))"

definition session_user_from_headers :: "u64 \<Rightarrow> headers \<Rightarrow> platform \<Rightarrow> EngineError + PublicUser" where
  "session_user_from_headers now hdr db =
     (case request_bearer_token hdr of
        None \<Rightarrow> Inl Unauthorized
      | Some token \<Rightarrow> (case resolve_session now token db of
                         Some user \<Rightarrow> Inr user | None \<Rightarrow> Inl Unauthorized))"

subsection \<open>Token buckets\<close>

record token_bucket =
  tb_tokens :: rat
  tb_last_refill :: int
  tb_rps :: rat
  tb_burst :: rat

definition RPS_PER_KEY :: rat where "RPS_PER_KEY = 20"
definition BURST_PER_KEY :: rat where "BURST_PER_KEY = 80"
definition RPS_PER_ADDR :: rat where "RPS_PER_ADDR = 50"
definition BURST_PER_ADDR :: rat where "BURST_PER_ADDR = 200"
definition RPS_PER_AUTH :: rat where "RPS_PER_AUTH = 1 / 10"
definition BURST_PER_AUTH :: rat where "BURST_PER_AUTH = 5"
definition PRUNE_THRESHOLD :: nat where "PRUNE_THRESHOLD = 4096"

definition bucket_new :: "int \<Rightarrow> rat \<Rightarrow> rat \<Rightarrow> token_bucket" where
  "bucket_new now rps burst = \<lparr>tb_tokens = burst, tb_last_refill = now, tb_rps = rps, tb_burst = burst\<rparr>"

text \<open>\<open>saturating_duration_since\<close>, in seconds.\<close>

definition elapsed_secs :: "int \<Rightarrow> int \<Rightarrow> rat" where
  "elapsed_secs now earlier = of_int (max 0 (now - earlier)) / 1000000000"

definition refilled_tokens :: "int \<Rightarrow> token_bucket \<Rightarrow> rat" where
  "refilled_tokens now b = min (tb_tokens b + elapsed_secs now (tb_last_refill b) * tb_rps b) (tb_burst b)"

definition try_consume :: "int \<Rightarrow> token_bucket \<Rightarrow> token_bucket \<times> bool" where
  "try_consume now b =
     (let tokens = refilled_tokens now b; b1 = b\<lparr>tb_tokens := tokens, tb_last_refill := now\<rparr>
      in if 1 \<le> tokens then (b1\<lparr>tb_tokens := tokens - 1\<rparr>, True) else (b1, False))"

definition is_refilled :: "int \<Rightarrow> token_bucket \<Rightarrow> bool" where
  "is_refilled now b \<longleftrightarrow> tb_burst b \<le> tb_tokens b + elapsed_secs now (tb_last_refill b) * tb_rps b"

text \<open>The hash map of the limiter, as an association list with one entry per key.\<close>

type_synonym limiter = "(str \<times> token_bucket) list"

definition allow_with :: "int \<Rightarrow> str \<Rightarrow> rat \<Rightarrow> rat \<Rightarrow> limiter \<Rightarrow> limiter \<times> bool" where
  "allow_with now key rps burst L =
     (let L1 = (if PRUNE_THRESHOLD \<le> length L \<and> map_of L key = None
                then filter (\<lambda>(_, b). \<not> is_refilled now b) L else L);
          bucket = (case map_of L1 key of Some b \<Rightarrow> b | None \<Rightarrow> bucket_new now rps burst);
          (bucket', ok) = try_consume now bucket
      in ((key, bucket') # filter (\<lambda>(k, _). k \<noteq> key) L1, ok))"

definition allow :: "int \<Rightarrow> str \<Rightarrow> limiter \<Rightarrow> limiter \<times> bool" where
  "allow now key L = allow_with now key RPS_PER_KEY BURST_PER_KEY L"

subsection \<open>Limits of a request\<close>

text \<open>The address of the peer is the text of its IP address.\<close>

definition client_address :: "headers \<Rightarrow> str option \<Rightarrow> bool \<Rightarrow> str" where
  "client_address hdr peer trust_proxy =
     (let forwarded = (if trust_proxy
                       then (case hdr ''x-forwarded-for'' of
                               None \<Rightarrow> None
                             | Some v \<Rightarrow> (let first = trim (hd (split_if (\<lambda>c. c = CHR '','') v))
                                         in if first = [] then None else Some first))
                       else None)
      in case forwarded of Some a \<Rightarrow> a
         | None \<Rightarrow> (case peer of Some a \<Rightarrow> a | None \<Rightarrow> ''unknown''))"

text \<open>The two charges of a request read the clock one after the other.\<close>

definition check_rate_limit ::
  "int \<Rightarrow> int \<Rightarrow> headers \<Rightarrow> str option \<Rightarrow> auth_config \<Rightarrow> limiter \<Rightarrow> limiter \<times> (nat + unit)" where
  "check_rate_limit t1 t2 hdr peer cfg L =
     (if authorize_global_api_key hdr cfg = Inr () \<and> ac_api_key cfg \<noteq> None then (L, Inr ())
      else (let addr = client_address hdr peer (ac_trust_proxy cfg);
                (L1, ok1) = allow_with t1 (''addr:'' @ addr) RPS_PER_ADDR BURST_PER_ADDR L;
                (L2, ok) = (if ok1 then (case request_api_key hdr of
                                           Some key \<Rightarrow> allow t2 (''key:'' @ key) L1
                                         | None \<Rightarrow> (L1, True))
                            else (L1, False))
            in (L2, if ok then Inr () else Inl 429)))"

definition check_auth_rate_limit ::
  "int \<Rightarrow> headers \<Rightarrow> str option \<Rightarrow> auth_config \<Rightarrow> limiter \<Rightarrow> limiter \<times> (EngineError + unit)" where
  "check_auth_rate_limit t hdr peer cfg L =
     (let (L1, ok) = allow_with t (''auth:'' @ client_address hdr peer (ac_trust_proxy cfg))
                       RPS_PER_AUTH BURST_PER_AUTH L
      in (L1, if ok then Inr () else Inl (from_http_status 429)))"

end
