(* ===== verification/Tenants.thy ===== *)
theory Tenants
  imports Auth "HOL-Library.Char_ord" "HOL-Library.List_Lexorder"
begin

section \<open>Tenants: one database file each\<close>

text \<open>
  Models \<open>src/storage/manager.rs\<close>, the tenant paths of \<open>src/runtime_paths.rs\<close> and the choice of
  the tenant of a request by its principal.  A path is the list of its components below the root of
  the file system; \<open>join\<close> and the resolution of \<open>.\<close> and \<open>..\<close> are those of Unix.  A handle stands
  for an opened \<open>TenantStore\<close>: the number of its opening and the path of its database.  Failures of
  the file system and of SQLite while a store is opened are not modelled.
\<close>

datatype tenant_error = InvalidTenantId str

definition validate_tenant_id :: "str \<Rightarrow> tenant_error + unit" where
  "validate_tenant_id tenant_id =
     (if tenant_id \<noteq> [] \<and> length tenant_id \<le> 128
         \<and> list_all (\<lambda>b. is_alnum b \<or> b = CHR ''_'' \<or> b = CHR ''-'') tenant_id
      then Inr () else Inl (InvalidTenantId tenant_id))"

subsection \<open>Paths\<close>

type_synonym path = "str list"

text \<open>\<open>Path::join\<close>: an absolute argument replaces the path; empty components do not count.\<close>

definition join_path :: "path \<Rightarrow> str \<Rightarrow> path" where
  "join_path p s =
     (let cs = filter (\<lambda>c. c \<noteq> []) (split_if (\<lambda>c. c = CHR ''/'') s)
      in if starts_with s ''/'' then cs else p @ cs)"

fun resolve_path :: "path \<Rightarrow> path \<Rightarrow> path" where
  "resolve_path acc [] = rev acc"
| "resolve_path acc (c # cs) =
     (if c = ''.'' then resolve_path acc cs
      else if c = ''..'' then resolve_path (tl acc) cs
      else resolve_path (c # acc) cs)"

definition tenant_dir :: "path \<Rightarrow> str \<Rightarrow> path" where
  "tenant_dir base tenant_id = join_path (join_path base ''tenants'') tenant_id"

definition tenant_db :: "path \<Rightarrow> str \<Rightarrow> path" where
  "tenant_db base tenant_id = join_path (tenant_dir base tenant_id) ''tellodb.db''"

subsection \<open>The manager\<close>

record handle =
  hd_serial :: nat
  hd_path :: path

text \<open>The least-recently-used cache, most recent first.\<close>

record manager =
  mg_root :: path
  mg_capacity :: nat
  mg_open :: "(str \<times> handle) list"
  mg_opened :: nat

definition with_capacity :: "path \<Rightarrow> nat \<Rightarrow> manager" where
  "with_capacity base capacity =
     \<lparr>mg_root = base, mg_capacity = capacity, mg_open = [], mg_opened = 0\<rparr>"

text \<open>\<open>TELLODB_MAX_OPEN_TENANTS\<close>; zero or a malformed value gives 32.\<close>

definition max_open_tenants :: "str option \<Rightarrow> nat" where
  "max_open_tenants var =
     (case (case var of None \<Rightarrow> None | Some v \<Rightarrow> parse_unsigned 64 v) of
        Some n \<Rightarrow> if n = 0 then 32 else n | None \<Rightarrow> 32)"

definition get_tenant :: "str \<Rightarrow> manager \<Rightarrow> manager \<times> (tenant_error + handle)" where
  "get_tenant tenant_id m =
     (case validate_tenant_id tenant_id of
        Inl e \<Rightarrow> (m, Inl e)
      | Inr _ \<Rightarrow>
          (case map_of (mg_open m) tenant_id of
             Some h \<Rightarrow>
               (m\<lparr>mg_open := (tenant_id, h) # filter (\<lambda>(k, _). k \<noteq> tenant_id) (mg_open m)\<rparr>, Inr h)
           | None \<Rightarrow>
               (let h = \<lparr>hd_serial = mg_opened m, hd_path = tenant_db (mg_root m) tenant_id\<rparr>
                in (m\<lparr>mg_open := take (mg_capacity m) ((tenant_id, h) # mg_open m),
                      mg_opened := mg_opened m + 1\<rparr>, Inr h))))"

definition all_tenants :: "manager \<Rightarrow> handle list" where
  "all_tenants m = map snd (mg_open m)"

text \<open>
  The entries of the tenants directory are given as their name (if it is UTF-8), whether it is a
  directory, and whether it holds a database.
\<close>

fun tenant_ids_go :: "(str option \<times> bool \<times> bool) list \<Rightarrow> tenant_error + str list" where
  "tenant_ids_go [] = Inr []"
| "tenant_ids_go ((name, is_dir, has_db) # es) =
     (if \<not> is_dir then tenant_ids_go es
      else (case name of
              None \<Rightarrow> tenant_ids_go es
            | Some tenant_id \<Rightarrow>
                bind_res (validate_tenant_id tenant_id) (\<lambda>_. bind_res (tenant_ids_go es) (\<lambda>ids.
                  Inr (if has_db then tenant_id # ids else ids)))))"

definition tenant_ids :: "(str option \<times> bool \<times> bool) list option \<Rightarrow> tenant_error + str list" where
  "tenant_ids dir =
     (case dir of
        None \<Rightarrow> Inr []
      | Some es \<Rightarrow> bind_res (tenant_ids_go es) (\<lambda>ids. Inr (sort ids)))"

subsection \<open>The tenant of a request\<close>

definition tenant_of :: "request_principal \<Rightarrow> str" where
  "tenant_of p = (case principal_user_id p of Some u \<Rightarrow> u | None \<Rightarrow> ''default'')"

definition tenant_store :: "request_principal \<Rightarrow> manager \<Rightarrow> manager \<times> (tenant_error + handle)" where
  "tenant_store p m = get_tenant (tenant_of p) m"

end
