(* ===== verification/Platform_Api.thy ===== *)
theory Platform_Api
  imports Auth
begin

section \<open>The account endpoints\<close>

text \<open>
  Models the handlers of \<open>src/api/handlers/platform.rs\<close> and the key administration of
  \<open>src/api/handlers/system.rs\<close>.  A handler takes the clocks, the random strings and the hash
  functions it uses as arguments and returns the new state of the server with an error or a status
  and a body.  The errors of the account store carry the texts by which the handlers sort them.
\<close>

record server =
  srv_platform :: platform
  srv_limiter :: limiter

definition SESSION_TTL_SECONDS :: u64 where
  "SESSION_TTL_SECONDS = 60 * 60 * 24 * 30"

fun platform_message :: "platform_error \<Rightarrow> str" where
  "platform_message UsernameTooLong = ''username must be at most 64 bytes''"
| "platform_message UsernameTooShort = ''username must be at least 3 characters''"
| "platform_message PasswordTooLong = ''password must be at most 4096 bytes''"
| "platform_message PasswordTooShort = ''password must be at least 8 characters''"
| "platform_message UsernameExists = ''username already exists''"
| "platform_message InvalidCredentials = ''invalid credentials''"
| "platform_message KeyNotFound = ''api key not found''"
| "platform_message UnsafeUserId = ''record_usage_n: user_id failed format check''"
| "platform_message ConstraintViolation = ''failed to write to database''"
| "platform_message IntegerOutOfRange = ''failed to write to database''"

definition other_error :: "platform_error \<Rightarrow> EngineError" where
  "other_error e = Other (platform_message e)"

definition signup_error :: "platform_error \<Rightarrow> EngineError" where
  "signup_error e =
     (let msg = platform_message e in
      if contains msg ''exists'' \<or> contains msg ''at least'' \<or> contains msg ''at most'' then BadRequest msg
      else other_error e)"

definition login_error :: "platform_error \<Rightarrow> EngineError" where
  "login_error e =
     (let msg = platform_message e in
      if contains msg ''invalid credentials'' then Unauthorized
      else if contains msg ''at most'' then BadRequest msg
      else other_error e)"

definition revoke_error :: "platform_error \<Rightarrow> EngineError" where
  "revoke_error e =
     (let msg = platform_message e in if contains msg ''not found'' then NotFound msg else other_error e)"

text \<open>A session for a user that has just been identified.\<close>

definition open_session ::
  "u64 \<Rightarrow> str \<Rightarrow> nat \<Rightarrow> PublicUser \<Rightarrow> server \<Rightarrow> server \<times> (EngineError + nat \<times> str \<times> PublicUser)" where
  "open_session now random status user s =
     (case create_session now random (pu_user_id user) SESSION_TTL_SECONDS (srv_platform s) of
        Inl e \<Rightarrow> (s, Inl (other_error e))
      | Inr (db, token) \<Rightarrow> (s\<lparr>srv_platform := db\<rparr>, Inr (status, token, user)))"

definition platform_signup_handler ::
  "auth_config \<Rightarrow> int \<Rightarrow> u64 \<Rightarrow> u64 \<Rightarrow> str \<Rightarrow> str \<Rightarrow> (str \<Rightarrow> str) \<Rightarrow> headers \<Rightarrow> str option \<Rightarrow> str \<Rightarrow> str \<Rightarrow> server
     \<Rightarrow> server \<times> (EngineError + nat \<times> str \<times> PublicUser)" where
  "platform_signup_handler cfg instant now1 now2 random_id random_tok hash_password hdr peer username password s =
     (case check_auth_rate_limit instant hdr peer cfg (srv_limiter s) of
        (L, Inl e) \<Rightarrow> (s\<lparr>srv_limiter := L\<rparr>, Inl e)
      | (L, Inr _) \<Rightarrow>
          (let s1 = s\<lparr>srv_limiter := L\<rparr> in
           case create_user now1 random_id hash_password username password (srv_platform s1) of
             Inl e \<Rightarrow> (s1, Inl (signup_error e))
           | Inr (db, user) \<Rightarrow> open_session now2 random_tok 201 user (s1\<lparr>srv_platform := db\<rparr>)))"

definition platform_login_handler ::
  "auth_config \<Rightarrow> int \<Rightarrow> u64 \<Rightarrow> str \<Rightarrow> (str \<Rightarrow> str \<Rightarrow> bool) \<Rightarrow> headers \<Rightarrow> str option \<Rightarrow> str \<Rightarrow> str \<Rightarrow> server
     \<Rightarrow> server \<times> (EngineError + nat \<times> str \<times> PublicUser)" where
  "platform_login_handler cfg instant now random_tok verify_password hdr peer username password s =
     (case check_auth_rate_limit instant hdr peer cfg (srv_limiter s) of
        (L, Inl e) \<Rightarrow> (s\<lparr>srv_limiter := L\<rparr>, Inl e)
      | (L, Inr _) \<Rightarrow>
          (let s1 = s\<lparr>srv_limiter := L\<rparr> in
           case login verify_password username password (srv_platform s1) of
             Inl e \<Rightarrow> (s1, Inl (login_error e))
           | Inr user \<Rightarrow> open_session now random_tok 200 user s1))"

definition platform_logout_handler :: "headers \<Rightarrow> server \<Rightarrow> server \<times> (EngineError + nat)" where
  "platform_logout_handler hdr s =
     (case request_bearer_token hdr of
        None \<Rightarrow> (s, Inl Unauthorized)
      | Some token \<Rightarrow> (s\<lparr>srv_platform := delete_session token (srv_platform s)\<rparr>, Inr 204))"

definition platform_me_handler :: "u64 \<Rightarrow> headers \<Rightarrow> server \<Rightarrow> EngineError + nat \<times> PublicUser" where
  "platform_me_handler now hdr s =
     bind_res (session_user_from_headers now hdr (srv_platform s)) (\<lambda>user. Inr (200, user))"

definition platform_create_api_key_handler ::
  "(str \<Rightarrow> str) \<Rightarrow> u64 \<Rightarrow> u64 \<Rightarrow> str \<Rightarrow> str \<Rightarrow> headers \<Rightarrow> str \<Rightarrow> server
     \<Rightarrow> server \<times> (EngineError + nat \<times> PublicApiKey \<times> str)" where
  "platform_create_api_key_handler sha256_hex now1 now2 random_id random_key hdr name s =
     (case session_user_from_headers now1 hdr (srv_platform s) of
        Inl e \<Rightarrow> (s, Inl e)
      | Inr user \<Rightarrow>
          (case create_api_key sha256_hex now2 random_id random_key (pu_user_id user) name (srv_platform s) of
             Inl e \<Rightarrow> (s, Inl (other_error e))
           | Inr (db, api_key, key) \<Rightarrow> (s\<lparr>srv_platform := db\<rparr>, Inr (201, api_key, key))))"

definition platform_list_api_keys_handler ::
  "u64 \<Rightarrow> headers \<Rightarrow> server \<Rightarrow> EngineError + nat \<times> PublicApiKey list" where
  "platform_list_api_keys_handler now hdr s =
     bind_res (session_user_from_headers now hdr (srv_platform s))
       (\<lambda>user. Inr (200, list_api_keys (pu_user_id user) (srv_platform s)))"

definition platform_revoke_api_key_handler ::
  "u64 \<Rightarrow> headers \<Rightarrow> str \<Rightarrow> server \<Rightarrow> server \<times> (EngineError + nat)" where
  "platform_revoke_api_key_handler now hdr key_id s =
     (case session_user_from_headers now hdr (srv_platform s) of
        Inl e \<Rightarrow> (s, Inl e)
      | Inr user \<Rightarrow>
          (case revoke_api_key (pu_user_id user) key_id (srv_platform s) of
             Inl e \<Rightarrow> (s, Inl (revoke_error e))
           | Inr db \<Rightarrow> (s\<lparr>srv_platform := db\<rparr>, Inr 204)))"

definition platform_stats_handler :: "u64 \<Rightarrow> headers \<Rightarrow> server \<Rightarrow> EngineError + nat \<times> UsageStats" where
  "platform_stats_handler now hdr s =
     bind_res (session_user_from_headers now hdr (srv_platform s))
       (\<lambda>user. Inr (200, usage_stats (pu_user_id user) (srv_platform s)))"

definition platform_profile_handler ::
  "(str \<Rightarrow> str list option) \<Rightarrow> (str \<Rightarrow> ProfileActivity list option) \<Rightarrow> u64 \<Rightarrow> headers \<Rightarrow> server
     \<Rightarrow> EngineError + nat \<times> UserProfile" where
  "platform_profile_handler read_facts read_activity now hdr s =
     bind_res (session_user_from_headers now hdr (srv_platform s))
       (\<lambda>user. Inr (200, user_profile read_facts read_activity (pu_user_id user) (srv_platform s)))"

subsection \<open>Administration\<close>

definition require_global_principal :: "request_principal \<Rightarrow> EngineError + unit" where
  "require_global_principal p = (case p of GlobalApiKey \<Rightarrow> Inr () | UserApiKey _ \<Rightarrow> Inl Unauthorized)"

record AdminInjectApiKeyPayload =
  ij_key_id :: str
  ij_user_id :: str
  ij_name :: str
  ij_token :: str
  ij_cluster_id :: "str option"

definition admin_inject_api_key_handler ::
  "(str \<Rightarrow> str) \<Rightarrow> u64 \<Rightarrow> request_principal \<Rightarrow> AdminInjectApiKeyPayload \<Rightarrow> server
     \<Rightarrow> server \<times> (EngineError + nat)" where
  "admin_inject_api_key_handler sha256_hex now caller payload s =
     (case require_global_principal caller of
        Inl e \<Rightarrow> (s, Inl e)
      | Inr _ \<Rightarrow>
          (case inject_api_key sha256_hex now (ij_key_id payload) (ij_user_id payload) (ij_name payload)
                  (ij_token payload) (ij_cluster_id payload) (srv_platform s) of
             Inl e \<Rightarrow> (s, Inl (other_error e))
           | Inr db \<Rightarrow> (s\<lparr>srv_platform := db\<rparr>, Inr 201)))"

definition admin_revoke_api_key_handler ::
  "request_principal \<Rightarrow> str \<Rightarrow> server \<Rightarrow> server \<times> (EngineError + nat)" where
  "admin_revoke_api_key_handler caller key_id s =
     (case require_global_principal caller of
        Inl e \<Rightarrow> (s, Inl e)
      | Inr _ \<Rightarrow>
          (case admin_revoke_api_key key_id (srv_platform s) of
             Inl e \<Rightarrow> (s, Inl (other_error e))
           | Inr db \<Rightarrow> (s\<lparr>srv_platform := db\<rparr>, Inr 204)))"

end
