(* ===== verification/Auth_Laws.thy ===== *)
theory Auth_Laws
  imports Auth Platform_Laws
begin

section \<open>Who is let in, and how often\<close>

text \<open>
  The comparison of keys, the decision of \<open>authorize_request\<close>, and the limiter: pruning is
  invisible, and the requests granted to a client in a span of time are bounded.
\<close>

subsection \<open>Comparison in constant time\<close>

lemma byte_inj: "byte x = byte y \<longleftrightarrow> x = y"
proof
  assume "byte x = byte y"
  then have "unat (byte x) = unat (byte y)" by simp
  moreover have "unat (byte c) = code c" for c
    using code_lt_256 [of c] by (simp add: byte_def unsigned_of_nat take_bit_nat_eq_self)
  ultimately show "x = y" by simp
qed simp

lemma xor_eq_0: "(a XOR b = (0 :: 'a::len word)) \<longleftrightarrow> a = b"
proof
  assume "a XOR b = 0"
  moreover have "(a XOR b) XOR b = a" by (simp add: xor.assoc)
  ultimately show "a = b" by simp
qed simp

lemma or_eq_0: "(a OR b = (0 :: 'a::len word)) \<longleftrightarrow> a = 0 \<and> b = 0"
  by (auto simp: bit_eq_iff bit_simps)

lemma fold_or_zero:
  "foldl (\<lambda>r (x, y). r OR (byte x XOR byte y)) r ps = 0 \<longleftrightarrow> r = 0 \<and> (\<forall>(x, y) \<in> set ps. x = y)"
  by (induction ps arbitrary: r) (auto simp: or_eq_0 xor_eq_0 byte_inj)

lemma constant_time_eq_iff: "constant_time_eq a b \<longleftrightarrow> a = b"
proof (cases "length a = length b")
  case True
  then have "(\<forall>(x, y) \<in> set (zip a b). x = y) \<longleftrightarrow> a = b"
    by (induction a b rule: list_induct2) auto
  with True show ?thesis by (simp add: constant_time_eq_def fold_or_zero)
qed (auto simp: constant_time_eq_def)

subsection \<open>The limiter without pruning\<close>

text \<open>
  What a client has left at an instant: the refilled tokens of its bucket, a full bucket if it has
  none.  On this view pruning is invisible, since a pruned bucket is a full one.
\<close>

definition left_tokens :: "rat \<Rightarrow> limiter \<Rightarrow> str \<Rightarrow> int \<Rightarrow> rat" where
  "left_tokens burst L key t = (case map_of L key of None \<Rightarrow> burst | Some b \<Rightarrow> refilled_tokens t b)"

text \<open>The rates and bursts of the three families of keys.\<close>

definition limits_of :: "str \<Rightarrow> rat \<times> rat" where
  "limits_of key =
     (if starts_with key ''addr:'' then (RPS_PER_ADDR, BURST_PER_ADDR)
      else if starts_with key ''auth:'' then (RPS_PER_AUTH, BURST_PER_AUTH)
      else (RPS_PER_KEY, BURST_PER_KEY))"

definition limiter_ok :: "int \<Rightarrow> limiter \<Rightarrow> bool" where
  "limiter_ok t L \<longleftrightarrow> distinct (map fst L)
     \<and> (\<forall>(k, b) \<in> set L. tb_last_refill b \<le> t \<and> (tb_rps b, tb_burst b) = limits_of k
          \<and> 0 \<le> tb_tokens b \<and> tb_tokens b \<le> tb_burst b)"

lemma limits_pos: "limits_of k = (r, b) \<Longrightarrow> 0 < r \<and> 1 \<le> b"
  by (auto simp: limits_of_def RPS_PER_KEY_def RPS_PER_ADDR_def RPS_PER_AUTH_def BURST_PER_KEY_def
      BURST_PER_ADDR_def BURST_PER_AUTH_def split: if_splits)

lemma elapsed_nonneg [simp]: "0 \<le> elapsed_secs t s"
  by (simp add: elapsed_secs_def)

lemma elapsed_add: "a \<le> b \<Longrightarrow> b \<le> c \<Longrightarrow> elapsed_secs c a = elapsed_secs b a + elapsed_secs c b"
  by (simp add: elapsed_secs_def max_def add_divide_distrib [symmetric] flip: of_int_add)

lemma refilled_full: "is_refilled t b \<Longrightarrow> t \<le> s \<Longrightarrow> tb_last_refill b \<le> t \<Longrightarrow> 0 \<le> tb_rps b \<Longrightarrow>
    refilled_tokens s b = tb_burst b"
proof -
  assume a: "is_refilled t b" "t \<le> s" "tb_last_refill b \<le> t" "0 \<le> tb_rps b"
  have "elapsed_secs t (tb_last_refill b) * tb_rps b \<le> elapsed_secs s (tb_last_refill b) * tb_rps b"
    using a elapsed_add [of "tb_last_refill b" t s] by (intro mult_right_mono) simp_all
  then show ?thesis using a by (simp add: is_refilled_def refilled_tokens_def)
qed

lemma limiter_entry:
  assumes "limiter_ok t L" "map_of L k = Some b"
  shows "tb_last_refill b \<le> t" "(tb_rps b, tb_burst b) = limits_of k" "0 \<le> tb_tokens b" "tb_tokens b \<le> tb_burst b"
  using assms map_of_SomeD [OF assms(2)] unfolding limiter_ok_def by blast+

lemma left_tokens_bounds:
  assumes "limiter_ok t0 L" "limits_of k = (r, B)"
  shows "0 \<le> left_tokens B L k t" "left_tokens B L k t \<le> B"
proof -
  show "0 \<le> left_tokens B L k t"
  proof (cases "map_of L k")
    case (Some b)
    note e = limiter_entry [OF assms(1) Some]
    then have "0 \<le> tb_rps b" "0 \<le> tb_burst b" using limits_pos [of k "tb_rps b" "tb_burst b"] by auto
    then show ?thesis using Some e(3) by (simp add: left_tokens_def refilled_tokens_def)
  qed (use limits_pos [OF assms(2)] in \<open>simp add: left_tokens_def\<close>)
  show "left_tokens B L k t \<le> B"
  proof (cases "map_of L k")
    case (Some b)
    then have "tb_burst b = B" using limiter_entry(2) [OF assms(1) Some] assms(2) by simp
    with Some show ?thesis by (simp add: left_tokens_def refilled_tokens_def)
  qed (simp add: left_tokens_def)
qed

text \<open>Waiting earns tokens at the rate of the key and no faster.\<close>

lemma left_tokens_wait:
  assumes "limiter_ok t0 L" "limits_of k = (r, B)" "t0 \<le> t1" "t1 \<le> t2"
  shows "left_tokens B L k t2 \<le> left_tokens B L k t1 + elapsed_secs t2 t1 * r"
proof (cases "map_of L k")
  case None
  then show ?thesis using limits_pos [OF assms(2)] by (simp add: left_tokens_def)
next
  case (Some b)
  note e = limiter_entry [OF assms(1) Some]
  have "elapsed_secs t2 (tb_last_refill b) * r
      = elapsed_secs t1 (tb_last_refill b) * r + elapsed_secs t2 t1 * r"
    using elapsed_add [of "tb_last_refill b" t1 t2] e(1) assms(3,4) by (simp add: algebra_simps)
  moreover have "0 \<le> elapsed_secs t2 t1 * r" using limits_pos [OF assms(2)] by simp
  ultimately show ?thesis using e(2) assms(2) Some
    by (auto simp: left_tokens_def refilled_tokens_def min_def)
qed

lemma map_of_filter_entries:
  "distinct (map fst L) \<Longrightarrow> map_of (filter (\<lambda>(_, b). P b) L) k
     = (case map_of L k of None \<Rightarrow> None | Some b \<Rightarrow> if P b then Some b else None)"
proof (induction L)
  case (Cons x L)
  obtain k' b' where x: "x = (k', b')" by fastforce
  have "map_of L k' = None" using Cons.prems by (simp add: x map_of_eq_None_iff)
  then show ?case using Cons by (auto simp: x split: option.splits)
qed simp

lemma map_of_filter_key: "map_of (filter (\<lambda>(k, _). k \<noteq> key) L) k' = (if k' = key then None else map_of L k')"
  by (induction L) auto

text \<open>Pruning changes what no client has left, now or later.\<close>

lemma prune_left:
  assumes "limiter_ok t0 L" "t0 \<le> t" "t \<le> s" "limits_of k = (r, B)"
  shows "left_tokens B (filter (\<lambda>(_, b). \<not> is_refilled t b) L) k s = left_tokens B L k s"
proof -
  have d: "distinct (map fst L)" using assms(1) by (simp add: limiter_ok_def)
  have "is_refilled t b \<Longrightarrow> refilled_tokens s b = B" if "map_of L k = Some b" for b
  proof -
    assume f: "is_refilled t b"
    note e = limiter_entry [OF assms(1) that]
    have "tb_burst b = B" "0 \<le> tb_rps b" using e(2) assms(4) limits_pos [OF assms(4)] by auto
    then show "refilled_tokens s b = B" using refilled_full [OF f assms(3)] e(1) assms(2) by simp
  qed
  then show ?thesis by (auto simp: left_tokens_def map_of_filter_entries [OF d] split: option.split)
qed

lemma limiter_ok_filter: "limiter_ok t L \<Longrightarrow> limiter_ok t (filter P L)"
  by (auto simp: limiter_ok_def distinct_map_filter)

lemma limiter_ok_later: "limiter_ok t L \<Longrightarrow> t \<le> s \<Longrightarrow> limiter_ok s L"
  by (fastforce simp: limiter_ok_def)

text \<open>One call: granted exactly if a token is left, which it takes; no other client is touched.\<close>

lemma allow_with_step:
  assumes "limiter_ok t0 L" "t0 \<le> t" "limits_of key = (r, B)" "allow_with t key r B L = (L', ok)"
  shows "limiter_ok t L'"
    and "ok \<longleftrightarrow> 1 \<le> left_tokens B L key t"
    and "left_tokens B L' key t = left_tokens B L key t - (if ok then 1 else 0)"
    and "k \<noteq> key \<Longrightarrow> t \<le> s \<Longrightarrow> limits_of k = (r', B') \<Longrightarrow> left_tokens B' L' k s = left_tokens B' L k s"
proof -
  define L1 where "L1 = (if PRUNE_THRESHOLD \<le> length L \<and> map_of L key = None
      then filter (\<lambda>(_, b). \<not> is_refilled t b) L else L)"
  define b where "b = (case map_of L1 key of Some b \<Rightarrow> b | None \<Rightarrow> bucket_new t r B)"
  have ok1: "limiter_ok t L1"
    using limiter_ok_later [OF assms(1,2)] limiter_ok_filter unfolding L1_def by auto
  have left1: "left_tokens B' L1 k s = left_tokens B' L k s" if "t \<le> s" "limits_of k = (r', B')" for k s r' B'
    using prune_left [OF assms(1,2) that] unfolding L1_def by auto
  have b: "tb_rps b = r" "tb_burst b = B" "0 \<le> tb_tokens b" "tb_tokens b \<le> B" "tb_last_refill b \<le> t"
    "refilled_tokens t b = left_tokens B L1 key t"
  proof -
    have pos: "0 \<le> r" "0 \<le> B" using limits_pos [OF assms(3)] by auto
    show "tb_rps b = r" "tb_burst b = B" "0 \<le> tb_tokens b" "tb_tokens b \<le> B" "tb_last_refill b \<le> t"
      using limiter_entry [OF ok1, of key] pos assms(3) by (auto simp: b_def bucket_new_def split: option.split)
    show "refilled_tokens t b = left_tokens B L1 key t"
      using pos by (auto simp: b_def left_tokens_def bucket_new_def refilled_tokens_def elapsed_secs_def split: option.split)
  qed
  have tok: "0 \<le> refilled_tokens t b" "refilled_tokens t b \<le> B"
    using left_tokens_bounds [OF ok1 assms(3), of t] b(6) by simp_all
  obtain b' where c: "try_consume t b = (b', ok)" and L': "L' = (key, b') # filter (\<lambda>(k, _). k \<noteq> key) L1"
    using assms(4) unfolding allow_with_def L1_def [symmetric] Let_def b_def [symmetric] by (auto split: prod.splits)
  have b': "tb_last_refill b' = t" "tb_rps b' = r" "tb_burst b' = B"
    "tb_tokens b' = refilled_tokens t b - (if ok then 1 else 0)" "ok \<longleftrightarrow> 1 \<le> refilled_tokens t b"
    using c b(1,2) by (auto simp: try_consume_def Let_def split: if_splits)
  have key_out: "key \<notin> fst ` set (filter (\<lambda>(k, _). k \<noteq> key) L1)" by auto
  show "limiter_ok t L'"
    using limiter_ok_filter [OF ok1, of "\<lambda>(k, _). k \<noteq> key"] b' tok assms(3) key_out
    unfolding L' limiter_ok_def by auto
  show "ok \<longleftrightarrow> 1 \<le> left_tokens B L key t" using b'(5) b(6) left1 [OF order.refl assms(3)] by simp
  show "left_tokens B L' key t = left_tokens B L key t - (if ok then 1 else 0)"
    using b' b(6) left1 [OF order.refl assms(3)] tok
    by (auto simp: L' left_tokens_def refilled_tokens_def [of t b'] elapsed_secs_def)
  show "left_tokens B' L' k s = left_tokens B' L k s" if "k \<noteq> key" "t \<le> s" "limits_of k = (r', B')"
    using left1 [OF that(2,3)] that(1) by (simp add: L' left_tokens_def map_of_filter_key)
qed

lemma left_tokens_mono:
  assumes "limiter_ok t0 L" "limits_of k = (r, B)" "t0 \<le> t1" "t1 \<le> t2"
  shows "left_tokens B L k t1 \<le> left_tokens B L k t2"
proof (cases "map_of L k")
  case (Some b)
  note e = limiter_entry [OF assms(1) Some]
  have "elapsed_secs t1 (tb_last_refill b) * r \<le> elapsed_secs t2 (tb_last_refill b) * r"
    using elapsed_add [of "tb_last_refill b" t1 t2] e(1) assms(3,4) limits_pos [OF assms(2)]
    by (intro mult_right_mono) auto
  then show ?thesis using e(2) assms(2) Some by (auto simp: left_tokens_def refilled_tokens_def)
qed (simp add: left_tokens_def)

subsection \<open>Requests\<close>

record request =
  rq_first :: int
  rq_second :: int
  rq_headers :: headers
  rq_peer :: "str option"

definition exempt :: "auth_config \<Rightarrow> request \<Rightarrow> bool" where
  "exempt cfg q \<longleftrightarrow> authorize_global_api_key (rq_headers q) cfg = Inr () \<and> ac_api_key cfg \<noteq> None"

definition client_of :: "auth_config \<Rightarrow> request \<Rightarrow> str" where
  "client_of cfg q = client_address (rq_headers q) (rq_peer q) (ac_trust_proxy cfg)"

definition check_request :: "auth_config \<Rightarrow> request \<Rightarrow> limiter \<Rightarrow> limiter \<times> (nat + unit)" where
  "check_request cfg q L = check_rate_limit (rq_first q) (rq_second q) (rq_headers q) (rq_peer q) cfg L"

fun serve :: "auth_config \<Rightarrow> request list \<Rightarrow> limiter \<Rightarrow> limiter" where
  "serve cfg [] L = L"
| "serve cfg (q # qs) L = serve cfg qs (fst (check_request cfg q L))"

text \<open>The requests a client made, and those of them that were let through.\<close>

definition charged :: "auth_config \<Rightarrow> str \<Rightarrow> request \<Rightarrow> bool" where
  "charged cfg a q \<longleftrightarrow> \<not> exempt cfg q \<and> client_of cfg q = a"

fun accepted_from :: "auth_config \<Rightarrow> str \<Rightarrow> request list \<Rightarrow> limiter \<Rightarrow> nat" where
  "accepted_from cfg a [] L = 0"
| "accepted_from cfg a (q # qs) L =
     (if charged cfg a q \<and> snd (check_request cfg q L) = Inr () then 1 else 0)
       + accepted_from cfg a qs (fst (check_request cfg q L))"

text \<open>The clock does not go back between two readings, from \<open>t\<close> to \<open>T\<close>.\<close>

fun timed :: "int \<Rightarrow> request list \<Rightarrow> int \<Rightarrow> bool" where
  "timed t [] T \<longleftrightarrow> t \<le> T"
| "timed t (q # qs) T \<longleftrightarrow> t \<le> rq_first q \<and> rq_first q \<le> rq_second q \<and> timed (rq_second q) qs T"

lemma timed_le: "timed t qs T \<Longrightarrow> t \<le> T"
  by (induction qs arbitrary: t) force+

lemma limits_addr: "limits_of (''addr:'' @ a) = (RPS_PER_ADDR, BURST_PER_ADDR)"
  by (simp add: limits_of_def starts_with_def)

lemma limits_key: "limits_of (''key:'' @ a) = (RPS_PER_KEY, BURST_PER_KEY)"
  by (simp add: limits_of_def starts_with_def)

abbreviation addr_left :: "limiter \<Rightarrow> str \<Rightarrow> int \<Rightarrow> rat" where
  "addr_left L a t \<equiv> left_tokens BURST_PER_ADDR L (''addr:'' @ a) t"

lemma check_request_step:
  assumes "limiter_ok t0 L" "t0 \<le> rq_first q" "rq_first q \<le> rq_second q"
    and "check_request cfg q L = (L', r)"
  shows "limiter_ok (rq_second q) L'"
    and "charged cfg a q \<Longrightarrow> r = Inr () \<Longrightarrow> 1 \<le> addr_left L a (rq_first q)"
    and "charged cfg a q \<Longrightarrow> 1 \<le> addr_left L a (rq_first q) \<Longrightarrow> request_api_key (rq_headers q) = None \<Longrightarrow> r = Inr ()"
    and "addr_left L' a (rq_second q) \<le> addr_left L a (rq_first q)
        - (if charged cfg a q \<and> r = Inr () then 1 else 0) + elapsed_secs (rq_second q) (rq_first q) * RPS_PER_ADDR"
    and "addr_left L a (rq_first q) - (if charged cfg a q then 1 else 0) \<le> addr_left L' a (rq_second q)"
proof -
  let ?c = "client_of cfg q" and ?t1 = "rq_first q" and ?t2 = "rq_second q"
  note wait = left_tokens_wait [OF _ limits_addr, of ?t1 _ ?t1 ?t2 a, OF _ order.refl assms(3)]
    and mono = left_tokens_mono [OF _ limits_addr, of ?t1 _ ?t1 ?t2 a, OF _ order.refl assms(3)]
  have "limiter_ok ?t2 L' \<and> (charged cfg a q \<longrightarrow> r = Inr () \<longrightarrow> 1 \<le> addr_left L a ?t1)
    \<and> (charged cfg a q \<longrightarrow> 1 \<le> addr_left L a ?t1 \<longrightarrow> request_api_key (rq_headers q) = None \<longrightarrow> r = Inr ())
    \<and> addr_left L' a ?t2 \<le> addr_left L a ?t1 - (if charged cfg a q \<and> r = Inr () then 1 else 0)
        + elapsed_secs ?t2 ?t1 * RPS_PER_ADDR
    \<and> addr_left L a ?t1 - (if charged cfg a q then 1 else 0) \<le> addr_left L' a ?t2"
  proof (cases "exempt cfg q")
    case True
    then have "L' = L" using assms(4) by (simp add: exempt_def check_request_def check_rate_limit_def)
    moreover have "limiter_ok ?t1 L" "limiter_ok ?t2 L"
      using assms(1-3) limiter_ok_later by (blast, meson limiter_ok_later order_trans)
    ultimately show ?thesis using True wait mono by (simp add: charged_def)
  next
    case False
    obtain L1 ok1 where s1: "allow_with ?t1 (''addr:'' @ ?c) RPS_PER_ADDR BURST_PER_ADDR L = (L1, ok1)" by fastforce
    note a1 = allow_with_step [OF assms(1,2) limits_addr s1]
    have left1: "addr_left L1 a ?t1 = addr_left L a ?t1 - (if charged cfg a q \<and> ok1 then 1 else 0)"
      using a1(3) a1(4) [of "''addr:'' @ a" ?t1, OF _ order.refl limits_addr] False
      by (cases "?c = a") (auto simp: charged_def)
    have ok1: "charged cfg a q \<Longrightarrow> ok1 \<longleftrightarrow> 1 \<le> addr_left L a ?t1" using a1(2) by (simp add: charged_def)
    have le1: "addr_left L1 a ?t2 \<le> addr_left L1 a ?t1 + elapsed_secs ?t2 ?t1 * RPS_PER_ADDR"
      "addr_left L1 a ?t1 \<le> addr_left L1 a ?t2" using wait mono a1(1) by blast+
    have res: "\<exists>ok. r = (if ok then Inr () else Inl 429) \<and> (ok \<longrightarrow> ok1) \<and> limiter_ok ?t2 L'
      \<and> addr_left L' a ?t2 = addr_left L1 a ?t2
      \<and> (ok1 \<longrightarrow> request_api_key (rq_headers q) = None \<longrightarrow> ok)"
    proof (cases "ok1 \<and> request_api_key (rq_headers q) \<noteq> None")
      case True
      then obtain key where k: "request_api_key (rq_headers q) = Some key" by blast
      obtain L2 ok2 where s2: "allow_with ?t2 (''key:'' @ key) RPS_PER_KEY BURST_PER_KEY L1 = (L2, ok2)" by fastforce
      note a2 = allow_with_step [OF a1(1) assms(3) limits_key s2]
      have "addr_left L2 a ?t2 = addr_left L1 a ?t2" by (rule a2(4) [OF _ order.refl limits_addr]) simp
      moreover have "L' = L2" "r = (if ok2 then Inr () else Inl 429)"
        using assms(4) False True k s1 s2
        by (auto simp: check_request_def check_rate_limit_def exempt_def Let_def allow_def client_of_def)
      ultimately show ?thesis using True a2(1) by (intro exI [of _ ok2]) auto
    next
      case key: False
      then have "L' = L1" "r = (if ok1 then Inr () else Inl 429)"
        using assms(4) False s1
        by (cases ok1; auto simp: check_request_def check_rate_limit_def exempt_def Let_def client_of_def)+
      then show ?thesis using limiter_ok_later [OF a1(1) assms(3)] by (intro exI [of _ ok1]) simp
    qed
    then obtain ok where r: "r = (if ok then Inr () else Inl 429)" "ok \<longrightarrow> ok1" and L': "limiter_ok ?t2 L'"
      and left2: "addr_left L' a ?t2 = addr_left L1 a ?t2"
      and key: "ok1 \<longrightarrow> request_api_key (rq_headers q) = None \<longrightarrow> ok" by (elim exE conjE)
    have "r = Inr () \<longleftrightarrow> ok" using r(1) by simp
    then show ?thesis using L' left1 ok1 le1 r(2) key unfolding left2
      by (cases ok; cases ok1; cases "charged cfg a q") auto
  qed
  then show "limiter_ok ?t2 L'"
    and "charged cfg a q \<Longrightarrow> r = Inr () \<Longrightarrow> 1 \<le> addr_left L a ?t1"
    and "charged cfg a q \<Longrightarrow> 1 \<le> addr_left L a ?t1 \<Longrightarrow> request_api_key (rq_headers q) = None \<Longrightarrow> r = Inr ()"
    and "addr_left L' a ?t2 \<le> addr_left L a ?t1 - (if charged cfg a q \<and> r = Inr () then 1 else 0)
        + elapsed_secs ?t2 ?t1 * RPS_PER_ADDR"
    and "addr_left L a ?t1 - (if charged cfg a q then 1 else 0) \<le> addr_left L' a ?t2" by simp_all
qed

lemma serve_ok: "limiter_ok t L \<Longrightarrow> timed t qs T \<Longrightarrow> limiter_ok T (serve cfg qs L)"
proof (induction qs arbitrary: t L)
  case (Cons q qs)
  obtain L' r where c: "check_request cfg q L = (L', r)" by fastforce
  show ?case using Cons check_request_step(1) [OF Cons.prems(1) _ _ c] c by simp
qed (simp add: limiter_ok_later)

lemma accepted_bound:
  "limiter_ok t L \<Longrightarrow> timed t qs T \<Longrightarrow>
   of_nat (accepted_from cfg a qs L) \<le> addr_left L a t + elapsed_secs T t * RPS_PER_ADDR"
proof (induction qs arbitrary: t L)
  case Nil
  have "0 \<le> elapsed_secs T t * RPS_PER_ADDR" by (simp add: RPS_PER_ADDR_def)
  then show ?case using left_tokens_bounds(1) [OF Nil.prems(1) limits_addr, of a t] by simp
next
  case (Cons q qs)
  obtain L' r where c: "check_request cfg q L = (L', r)" by fastforce
  have times: "t \<le> rq_first q" "rq_first q \<le> rq_second q" "rq_second q \<le> T"
    using Cons.prems(2) timed_le by auto
  note s = check_request_step [OF Cons.prems(1) times(1,2) c]
  have "of_nat (accepted_from cfg a qs L') \<le> addr_left L' a (rq_second q) + elapsed_secs T (rq_second q) * RPS_PER_ADDR"
    using Cons.IH [OF s(1)] Cons.prems(2) by simp
  moreover have "addr_left L a (rq_first q) \<le> addr_left L a t + elapsed_secs (rq_first q) t * RPS_PER_ADDR"
    using left_tokens_wait [OF Cons.prems(1) limits_addr order.refl times(1)] .
  moreover have "elapsed_secs T t = elapsed_secs (rq_first q) t + elapsed_secs (rq_second q) (rq_first q)
      + elapsed_secs T (rq_second q)"
    using elapsed_add [of t "rq_first q" T] elapsed_add [of "rq_first q" "rq_second q" T] times by simp
  moreover define d where "d = (if charged cfg a q \<and> r = Inr () then 1 else 0 :: nat)"
  have "of_nat (accepted_from cfg a (q # qs) L) = of_nat d + (of_nat (accepted_from cfg a qs L') :: rat)"
    using c by (simp add: d_def)
  moreover have "addr_left L' a (rq_second q) \<le> addr_left L a (rq_first q) - of_nat d
      + elapsed_secs (rq_second q) (rq_first q) * RPS_PER_ADDR"
    using s(4) [of a] by (auto simp: d_def)
  ultimately show ?case by (simp only: distrib_right)
qed

lemma left_after:
  "limiter_ok t L \<Longrightarrow> timed t qs T \<Longrightarrow>
   addr_left L a t - of_nat (length (filter (charged cfg a) qs)) \<le> addr_left (serve cfg qs L) a T"
proof (induction qs arbitrary: t L)
  case Nil
  then show ?case using left_tokens_mono [OF _ limits_addr order.refl, of t L T a] by simp
next
  case (Cons q qs)
  obtain L' r where c: "check_request cfg q L = (L', r)" by fastforce
  have times: "t \<le> rq_first q" "rq_first q \<le> rq_second q" using Cons.prems(2) by auto
  note s = check_request_step [OF Cons.prems(1) times c]
  have "addr_left L' a (rq_second q) - of_nat (length (filter (charged cfg a) qs)) \<le> addr_left (serve cfg qs L') a T"
    using Cons.IH [OF s(1)] Cons.prems(2) by simp
  moreover have "addr_left L a t \<le> addr_left L a (rq_first q)"
    using left_tokens_mono [OF Cons.prems(1) limits_addr order.refl times(1)] .
  ultimately show ?case using s(5) [of a] c by (simp split: if_splits)
qed

lemma limiter_ok_Nil: "limiter_ok t []"
  by (simp add: limiter_ok_def)



end
