(* ===== verification/Platform_Api_Laws.thy ===== *)
theory Platform_Api_Laws
  imports Platform_Api Auth_Laws
begin

section \<open>What the account endpoints give their users\<close>

text \<open>
  The endpoints composed: the session a signup opens serves the endpoints of its user; the global
  key and the keys of clusters open the protected ones, and nothing else does.
\<close>

definition bearer :: "str \<Rightarrow> headers" where
  "bearer token = (\<lambda>h. if h = ''authorization'' then Some (''Bearer '' @ token) else None)"

lemma eq_bearer: "eq_ignore_ascii_case ''Bearer'' ''bearer''"
  by code_simp

lemma split_space_bearer: "split_space (''Bearer '' @ token) = Some (''Bearer'', token)"
  by (simp add: split_space_def)

lemma bearer_token: "trim token = token \<Longrightarrow> token \<noteq> [] \<Longrightarrow> request_bearer_token (bearer token) = Some token"
  by (simp add: request_bearer_token_def bearer_def split_space_bearer [simplified] eq_bearer)

lemma bearer_key: "trim token = token \<Longrightarrow> token \<noteq> [] \<Longrightarrow> request_api_key (bearer token) = Some token"
  using bearer_token [of token] by (simp add: request_api_key_def bearer_def)

lemma authorize_global_iff:
  "authorize_global_api_key hdr cfg = Inr () \<longleftrightarrow> ac_api_key cfg = None \<or> request_api_key hdr = ac_api_key cfg"
  by (auto simp: authorize_global_api_key_def constant_time_eq_iff split: option.splits)

text \<open>
  C21. The protected endpoints open for exactly two kinds of callers: those who present the configured
  global key (or anybody where none is configured), and those who present an API key that is stored,
  not disabled, bound to a cluster and owned by a well-formed user id; a caller without a key or with
  an unknown one is told 401, one whose key has no cluster 403.
\<close>

theorem authorize_request_correct:
  assumes "platform_run sha empty_platform es db" "unat now < 2 ^ 63"
  shows "snd (authorize_request sha now i hdr cfg db) =
     (if ac_api_key cfg = None \<or> request_api_key hdr = ac_api_key cfg then Inr GlobalApiKey
      else case request_api_key hdr of
             None \<Rightarrow> Inl 401
           | Some raw \<Rightarrow>
               (case find (\<lambda>k. ak_key_hash k = sha raw) (api_keys db) of
                  None \<Rightarrow> Inl 401
                | Some k \<Rightarrow>
                    if ak_disabled k then Inl 401
                    else if ak_cluster_id k = None then Inl 403
                    else if \<not> is_safe_user_id (ak_user_id k) then Inl 500
                    else Inr (UserApiKey \<lparr>au_user_id = ak_user_id k, au_key_id = ak_key_id k,
                                au_cluster_id = ak_cluster_id k\<rparr>)))"
proof (cases "ac_api_key cfg = None \<or> request_api_key hdr = ac_api_key cfg \<or> request_api_key hdr = None")
  case True
  then show ?thesis by (auto simp: authorize_request_def authorize_global_iff)
next
  case False
  then obtain raw where raw: "request_api_key hdr = Some raw" by blast
  have keys: "distinct (map ak_key_hash (api_keys db))"
    using platform_run_ok [OF assms(1) platform_ok_empty] by (simp add: platform_ok_def)
  have valid: "is_valid_user_id u = is_safe_user_id u" for u
    by (simp add: is_valid_user_id_def is_safe_user_id_def)
  show ?thesis
  proof (cases "find (\<lambda>k. ak_key_hash k = sha raw) (api_keys db)")
    case None
    then have "authenticate_api_key sha now i raw db = (db, Inr None)"
      by (intro authenticate_none) (auto simp: find_None_iff keys_of_def)
    then show ?thesis using False raw None by (simp add: authorize_request_def authorize_global_iff)
  next
    case (Some k)
    then have k: "k \<in> set (api_keys db)" "ak_key_hash k = sha raw"
      by (auto simp: find_Some_iff)
    have one: "filter (\<lambda>j. ak_key_hash j = sha raw) (api_keys db) = [k]"
      using filter_key_unique [OF keys k(1)] k(2) by simp
    then have keysof: "keys_of (sha raw) db = [key_core k]"
      by (simp add: keys_of_def filter_map comp_def)
    show ?thesis
    proof (cases "ak_disabled k")
      case True
      then have "authenticate_api_key sha now i raw db = (db, Inr None)"
        by (intro authenticate_none) (simp add: keysof)
      then show ?thesis using False raw Some True by (simp add: authorize_request_def authorize_global_iff)
    next
      case enabled: False
      then have "snd (authenticate_api_key sha now i raw db)
          = Inr (Some \<lparr>au_user_id = ak_user_id k, au_key_id = ak_key_id k, au_cluster_id = ak_cluster_id k\<rparr>)"
        using authenticate_some [of sha raw db "key_core k" now i] keysof assms(2) by simp
      then show ?thesis using False raw Some enabled
        by (cases "authenticate_api_key sha now i raw db") (auto simp: authorize_request_def authorize_global_iff valid)
    qed
  qed
qed

lemma authorize_request_correct_witness:
  "snd (authorize_request (\<lambda>x. x) 5 0 (bearer ''ak_secret'') \<lparr>ac_api_key = Some ''op'', ac_trust_proxy = False\<rparr>
     demo_platform) = Inl 403"
proof -
  have "request_api_key (bearer ''ak_secret'') = Some ''ak_secret''"
    by (rule bearer_key) code_simp+
  then show ?thesis
    using authorize_request_correct [OF demo_reachable, of 5 0 "bearer ''ak_secret''"
        "\<lparr>ac_api_key = Some ''op'', ac_trust_proxy = False\<rparr>"]
    by (simp add: demo_platform_def demo_key_def new_api_key_def)
qed

subsection \<open>A new account\<close>

definition visible_ascii :: "char \<Rightarrow> bool" where
  "visible_ascii c \<longleftrightarrow> 33 \<le> code c \<and> code c < 127"

lemma ws_len_visible: "list_all visible_ascii s \<Longrightarrow> ws_len s = 0"
  by (cases s rule: ws_len.cases) (auto simp: visible_ascii_def ws1_def ws2_def ws3_def)

lemma trim_visible: "list_all visible_ascii s \<Longrightarrow> trim s = s"
proof -
  have "list_all visible_ascii s \<Longrightarrow> trim_end s = s"
  proof (induction s)
    case (Cons c s)
    then show ?case using ws_len_visible [of "c # s"] by (subst trim_end.simps) simp
  qed simp
  then show "list_all visible_ascii s \<Longrightarrow> trim s = s"
    by (simp add: trim_def trim_start.simps ws_len_visible)
qed

lemma token_chars_visible: "list_all visible_ascii TOKEN_CHARS"
  by code_simp

lemma trim_token: "set random \<subseteq> set TOKEN_CHARS \<Longrightarrow> list_all visible_ascii p \<Longrightarrow> trim (p @ random) = p @ random"
  using token_chars_visible by (intro trim_visible) (auto simp: list_all_iff)

lemma signup_Inr:
  assumes "platform_signup_handler cfg i now1 now2 rid rtok hash hdr peer name pw s = (s1, Inr (st, tok, user))"
  shows "st = 201 \<and> tok = ''sess_'' @ rtok \<and> (\<exists>db u. create_user now1 rid hash name pw (srv_platform s) = Inr (db, user)
     \<and> u \<in> set (users db) \<and> user = public_user u
     \<and> create_session now2 rtok (u_user_id u) SESSION_TTL_SECONDS db = Inr (srv_platform s1, tok))"
proof -
  obtain L a where a: "check_auth_rate_limit i hdr peer cfg (srv_limiter s) = (L, a)" by fastforce
  then have a': "a = Inr ()" using assms by (cases a) (simp_all add: platform_signup_handler_def)
  obtain db v where c': "create_user now1 rid hash name pw (srv_platform s) = Inr (db, v)"
    using assms a a' by (cases "create_user now1 rid hash name pw (srv_platform s)")
      (auto simp: platform_signup_handler_def Let_def)
  have "open_session now2 rtok 201 v (s\<lparr>srv_limiter := L, srv_platform := db\<rparr>) = (s1, Inr (st, tok, user))"
    using assms a a' c' by (simp add: platform_signup_handler_def Let_def)
  then have v: "v = user" "st = 201" and o: "create_session now2 rtok (pu_user_id user) SESSION_TTL_SECONDS db = Inr (srv_platform s1, tok)"
    by (auto simp: open_session_def split: sum.splits prod.splits)
  note c = c' [unfolded v(1)]
  obtain u where u: "db = srv_platform s\<lparr>users := users (srv_platform s) @ [u]\<rparr>" "user = public_user u"
    using create_user_frame [OF c] by blast
  have "tok = ''sess_'' @ rtok" using create_session_Inr [OF o] by blast
  then show ?thesis using c o u v(2) by (simp add: public_user_def) (use u(2) in force)
qed

text \<open>
  C23. The session a signup returns identifies its user at the account endpoints for thirty days,
  whatever else happens on the server, unless it is logged out; after the logout it identifies nobody.
\<close>

theorem signup_session_serves:
  assumes "platform_run sha empty_platform es0 (srv_platform s)"
    and signup: "platform_signup_handler cfg i now1 now2 rid rtok hash hdr peer name pw s = (s1, Inr (st, tok, user))"
    and "set rtok \<subseteq> set TOKEN_CHARS"
    and "platform_run sha (srv_platform s1) es (srv_platform s2)"
    and "SessionOpened tok \<notin> set es" "SessionClosed tok \<notin> set es" "\<And>n. Purged n \<in> set es \<Longrightarrow> n \<le> t"
  shows "st = 201
    \<and> platform_me_handler t (bearer tok) s2
        = (if unat t < unat now2 + 2592000000 then Inr (200, user) else Inl Unauthorized)
    \<and> snd (platform_logout_handler (bearer tok) s2) = Inr 204
    \<and> platform_me_handler t (bearer tok) (fst (platform_logout_handler (bearer tok) s2)) = Inl Unauthorized"
proof -
  obtain db u where c: "create_user now1 rid hash name pw (srv_platform s) = Inr (db, user)"
    and u: "u \<in> set (users db)" "user = public_user u" and tok: "tok = ''sess_'' @ rtok" "st = 201"
    and o: "create_session now2 rtok (u_user_id u) SESSION_TTL_SECONDS db = Inr (srv_platform s1, tok)"
    using signup_Inr [OF signup] by blast
  have "list_all visible_ascii ''sess_''" by code_simp
  then have "trim tok = tok" "tok \<noteq> []" using trim_token [OF assms(3), of "''sess_''"] tok(1) by simp_all
  then have bearer: "request_bearer_token (bearer tok) = Some tok" by (rule bearer_token)
  have run: "platform_run sha empty_platform (es0 @ [Registered]) db"
    by (rule run_step [OF assms(1) registered [OF c]])
  have "unat SESSION_TTL_SECONDS * 1000 = 2592000000" by (simp add: SESSION_TTL_SECONDS_def)
  with session_lifetime [OF run u(1) o assms(4-7)] show ?thesis
    using u(2) tok(2) bearer
    by (auto simp: platform_me_handler_def session_user_from_headers_def platform_logout_handler_def)
qed

definition demo_server :: server where
  "demo_server = \<lparr>srv_platform = empty_platform, srv_limiter = []\<rparr>"

lemma demo_signup:
  "platform_signup_handler \<lparr>ac_api_key = Some ''op'', ac_trust_proxy = False\<rparr> 0 1000 1000 ''a1b2'' ''t'' (\<lambda>p. p)
      (\<lambda>_. None) None '' Alice'' ''password'' demo_server
    = (demo_server\<lparr>srv_platform := fst (projr (create_session 1000 ''t'' ''usr_a1b2'' SESSION_TTL_SECONDS
          (empty_platform\<lparr>users := [demo_user]\<rparr>))),
        srv_limiter := fst (allow_with 0 ''auth:unknown'' RPS_PER_AUTH BURST_PER_AUTH [])\<rparr>,
       Inr (201, ''sess_t'', public_user demo_user))"
proof -
  have a: "allow_with 0 ''auth:unknown'' RPS_PER_AUTH BURST_PER_AUTH []
      = ([(''auth:unknown'', (bucket_new 0 RPS_PER_AUTH BURST_PER_AUTH)\<lparr>tb_tokens := 4\<rparr>)], True)"
    by (simp add: allow_with_def Let_def try_consume_def refilled_tokens_def bucket_new_def elapsed_secs_def BURST_PER_AUTH_def)
  have "\<exists>db. create_session 1000 ''t'' ''usr_a1b2'' SESSION_TTL_SECONDS (empty_platform\<lparr>users := [demo_user]\<rparr>)
      = Inr (db, ''sess_t'')"
    by (simp add: create_session_def Let_def bind_u64_def SESSION_TTL_SECONDS_def saturating_add_u64_def
      saturating_mul_u64_def empty_platform_def)
  then obtain db where o: "create_session 1000 ''t'' ''usr_a1b2'' SESSION_TTL_SECONDS (empty_platform\<lparr>users := [demo_user]\<rparr>)
      = Inr (db, ''sess_t'')" by blast
  have p: "pu_user_id (public_user demo_user) = ''usr_a1b2''" by (simp add: public_user_def demo_user_def)
  show ?thesis
    using a o p demo_user_created
    by (simp add: platform_signup_handler_def check_auth_rate_limit_def client_address_def open_session_def demo_server_def Let_def)
qed

lemma signup_session_serves_witness:
  "\<exists>s1 :: server. platform_me_handler 5000 (bearer ''sess_t'') s1 = Inr (200, public_user demo_user)
     \<and> platform_me_handler 5000 (bearer ''sess_t'') (fst (platform_logout_handler (bearer ''sess_t'') s1)) = Inl Unauthorized"
proof -
  have "set ''t'' \<subseteq> set TOKEN_CHARS" by (simp add: TOKEN_CHARS_def)
  moreover have "platform_run (\<lambda>x. x) empty_platform [] (srv_platform demo_server)"
    using run_nil by (simp add: demo_server_def)
  ultimately show ?thesis using signup_session_serves [OF _ demo_signup _ run_nil, of "\<lambda>x. x" "[]" 5000] by auto
qed

text \<open>
  C24. A key that a user creates at the key endpoint is stored without a cluster, so every protected
  endpoint refuses it with 403; and the session itself is no key there either: it is refused with 401.
\<close>

theorem self_service_key_refused:
  assumes "platform_run sha empty_platform es (srv_platform s)" "unat now < 2 ^ 63" "ac_api_key cfg = Some g"
    and create: "platform_create_api_key_handler sha t1 t2 rid rkey (bearer tok) name s = (s', Inr (st, pub, key))"
    and "set rkey \<subseteq> set TOKEN_CHARS" "g \<noteq> key"
    and "list_all visible_ascii tok" "tok \<noteq> []" "tok \<noteq> g" "sha tok \<notin> ak_key_hash ` set (api_keys (srv_platform s'))"
  shows "snd (authorize_request sha now i (bearer key) cfg (srv_platform s')) = Inl 403
    \<and> snd (authorize_request sha now i (bearer tok) cfg (srv_platform s')) = Inl 401"
proof -
  obtain uid where c: "create_api_key_for_cluster sha t2 rid rkey uid name None (srv_platform s)
      = Inr (srv_platform s', pub, key)"
    using create by (auto simp: platform_create_api_key_handler_def create_api_key_def split: sum.splits prod.splits)
  then obtain k where k: "api_keys (srv_platform s') = api_keys (srv_platform s) @ [k]" "ak_key_hash k = sha key"
    "\<not> ak_disabled k" "ak_cluster_id k = None" "sha key \<notin> ak_key_hash ` set (api_keys (srv_platform s))"
    and key: "key = ''ak_'' @ rkey"
    unfolding create_key_Inr by (auto simp del: append.simps)
  have run: "platform_run sha empty_platform (es @ [KeyIssued (pk_key_id pub) (sha key)]) (srv_platform s')"
    by (rule run_step [OF assms(1) key_created [OF c]])
  have "list_all visible_ascii ''ak_''" by code_simp
  then have bk: "request_api_key (bearer key) = Some key"
    using trim_token [OF assms(5), of "''ak_''"] key by (intro bearer_key) simp_all
  have bt: "request_api_key (bearer tok) = Some tok"
    by (rule bearer_key [OF trim_visible [OF assms(7)] assms(8)])
  have "find (\<lambda>k. ak_key_hash k = sha key) (api_keys (srv_platform s')) = Some k"
  proof -
    have "find (\<lambda>k. ak_key_hash k = sha key) ks = None" if "sha key \<notin> ak_key_hash ` set ks" for ks :: "api_key_row list"
      unfolding find_None_iff using that by (metis imageI)
    moreover have "find P xs = None \<Longrightarrow> find P (xs @ ys) = find P ys" for P xs and ys :: "api_key_row list"
      by (induction xs) (auto split: if_splits)
    ultimately show ?thesis using k by simp
  qed
  moreover have "find (\<lambda>k. ak_key_hash k = sha tok) (api_keys (srv_platform s')) = None"
    unfolding find_None_iff using assms(10) by (metis imageI)
  ultimately show ?thesis
    using authorize_request_correct [OF run assms(2), of i "bearer key" cfg]
      authorize_request_correct [OF run assms(2), of i "bearer tok" cfg] bk bt k assms(3,6,9) by simp
qed

lemma self_service_key_refused_witness:
  "\<exists>s' :: server. snd (authorize_request (\<lambda>x. x) 5 0 (bearer ''ak_z'') \<lparr>ac_api_key = Some ''op'', ac_trust_proxy = False\<rparr>
        (srv_platform s')) = Inl 403
     \<and> snd (authorize_request (\<lambda>x. x) 5 0 (bearer ''sess_t'') \<lparr>ac_api_key = Some ''op'', ac_trust_proxy = False\<rparr>
        (srv_platform s')) = Inl 401"
proof -
  let ?s = "\<lparr>srv_platform = demo_platform, srv_limiter = []\<rparr>"
  have b: "request_bearer_token (bearer ''sess_t'') = Some ''sess_t''" by (rule bearer_token) code_simp+
  have "resolve_session 2000 ''sess_t'' demo_platform = Some (public_user demo_user)"
    by (simp add: resolve_session_def demo_platform_def demo_session_def demo_user_def)
  then have u: "session_user_from_headers 2000 (bearer ''sess_t'') demo_platform = Inr (public_user demo_user)"
    by (simp add: session_user_from_headers_def b)
  obtain db pub where c: "create_api_key (\<lambda>x. x) 2000 ''k2'' ''z'' ''usr_a1b2'' ''cli'' demo_platform = Inr (db, pub, ''ak_z'')"
    and keys: "map ak_key_hash (api_keys db) = [''ak_secret'', ''ak_z'']"
    by (simp add: create_api_key_def create_api_key_for_cluster_def Let_def bind_u64_def demo_platform_def demo_key_def new_api_key_def)
  have h: "platform_create_api_key_handler (\<lambda>x. x) 2000 2000 ''k2'' ''z'' (bearer ''sess_t'') ''cli'' ?s
      = (?s\<lparr>srv_platform := db\<rparr>, Inr (201, pub, ''ak_z''))"
    using u c by (simp add: platform_create_api_key_handler_def public_user_def demo_user_def)
  have r: "platform_run (\<lambda>x. x) empty_platform
     [Registered, SessionOpened ''sess_t'', KeyIssued (pk_key_id (public_api_key demo_key)) ''ak_secret'']
     (srv_platform ?s)" using demo_reachable by simp
  have side: "set ''z'' \<subseteq> set TOKEN_CHARS" "list_all visible_ascii ''sess_t''"
    "''sess_t'' \<notin> ak_key_hash ` set (api_keys db)"
    using keys by (simp add: TOKEN_CHARS_def, code_simp, simp flip: set_map)
  show ?thesis
    by (rule exI [of _ "?s\<lparr>srv_platform := db\<rparr>"], rule self_service_key_refused [where g = "''op''", OF r _ _ h])
      (use side in \<open>simp_all\<close>)
qed

end
