(* ===== verification/Tenant_Laws.thy ===== *)
theory Tenant_Laws
  imports Tenants Platform_Api_Laws
begin

section \<open>Isolation of tenants\<close>

text \<open>
  A tenant id is one ordinary component of a path, so the databases of two tenants are two files
  below the tenants directory; every authorised request is served by the database of its own user.
\<close>

lemma validate_ok: "validate_tenant_id t = Inr () \<longleftrightarrow>
    t \<noteq> [] \<and> length t \<le> 128 \<and> list_all (\<lambda>b. is_alnum b \<or> b = CHR ''_'' \<or> b = CHR ''-'') t"
  by (simp add: validate_tenant_id_def)

lemma valid_component:
  assumes "validate_tenant_id t = Inr ()"
  shows "CHR ''/'' \<notin> set t" "t \<noteq> ''.''" "t \<noteq> ''..''" "t \<noteq> []"
  using assms by (auto simp: validate_ok list_all_iff is_alnum_def is_alpha_def is_upper_def is_lower_def is_digit_def)

lemma split_if_none: "(\<And>c. c \<in> set s \<Longrightarrow> \<not> p c) \<Longrightarrow> split_if p s = [s]"
proof -
  assume "\<And>c. c \<in> set s \<Longrightarrow> \<not> p c"
  then have "split_if_go p cur s = [rev cur @ s]" for cur
    by (induction s arbitrary: cur) auto
  then show ?thesis by (simp add: split_if_def)
qed

lemma join_component: "CHR ''/'' \<notin> set c \<Longrightarrow> c \<noteq> [] \<Longrightarrow> join_path p c = p @ [c]"
proof -
  assume c: "CHR ''/'' \<notin> set c" "c \<noteq> []"
  then have "split_if (\<lambda>x. x = CHR ''/'') c = [c]" by (intro split_if_none) auto
  then show ?thesis using c by (cases c) (auto simp: join_path_def starts_with_def)
qed

lemma tenant_db_path: "validate_tenant_id t = Inr () \<Longrightarrow> tenant_db base t = base @ [''tenants'', t, ''tellodb.db'']"
  using valid_component [of t] by (simp add: tenant_db_def tenant_dir_def join_component)

lemma resolve_append: "resolve_path acc (p @ q) = resolve_path (rev (resolve_path acc p)) q"
  by (induction acc p rule: resolve_path.induct) simp_all

lemma resolve_tenant_db: "validate_tenant_id t = Inr () \<Longrightarrow>
    resolve_path [] (tenant_db base t) = resolve_path [] base @ [''tenants'', t, ''tellodb.db'']"
  using valid_component [of t] by (simp add: tenant_db_path resolve_append)

text \<open>The states the manager reaches, by requests for any tenants.\<close>

inductive reachable_manager :: "path \<Rightarrow> nat \<Rightarrow> manager \<Rightarrow> bool" for base capacity where
  fresh_manager: "reachable_manager base capacity (with_capacity base capacity)"
| used_manager: "reachable_manager base capacity m \<Longrightarrow> reachable_manager base capacity (fst (get_tenant t m))"

definition manager_ok :: "path \<Rightarrow> nat \<Rightarrow> manager \<Rightarrow> bool" where
  "manager_ok base capacity m \<longleftrightarrow> mg_root m = base \<and> mg_capacity m = capacity
     \<and> distinct (map fst (mg_open m)) \<and> length (mg_open m) \<le> capacity
     \<and> (\<forall>(t, h) \<in> set (mg_open m). validate_tenant_id t = Inr () \<and> hd_path h = tenant_db base t)"

lemma get_tenant_result:
  assumes "manager_ok base c m" "validate_tenant_id t = Inr ()"
  shows "\<exists>h. snd (get_tenant t m) = Inr h \<and> hd_path h = tenant_db base t"
proof (cases "map_of (mg_open m) t")
  case (Some h)
  then have "hd_path h = tenant_db base t" using assms(1) by (auto simp: manager_ok_def dest!: map_of_SomeD)
  then show ?thesis using Some assms(2) by (simp add: get_tenant_def)
qed (use assms in \<open>simp add: get_tenant_def manager_ok_def Let_def\<close>)

lemma length_filter_key: "t \<in> fst ` set xs \<Longrightarrow> Suc (length (filter (\<lambda>(k, _). k \<noteq> t) xs)) \<le> length xs"
  by (induction xs) (auto simp: less_Suc_eq_le)

lemma get_tenant_ok: "manager_ok base c m \<Longrightarrow> manager_ok base c (fst (get_tenant t m))"
proof -
  assume ok: "manager_ok base c m"
  show ?thesis
  proof (cases "validate_tenant_id t")
    case (Inr u)
    then have v: "validate_tenant_id t = Inr ()" by simp
    show ?thesis
    proof (cases "map_of (mg_open m) t")
      case (Some h)
      then have "t \<in> fst ` set (mg_open m)" "(t, h) \<in> set (mg_open m)" by (force dest: map_of_SomeD)+
      then show ?thesis using ok v Some length_filter_key [of t "mg_open m"]
        by (auto simp: get_tenant_def manager_ok_def distinct_map_filter)
    next
      case None
      then have "t \<notin> fst ` set (mg_open m)" by (simp add: map_of_eq_None_iff)
      then have "distinct (map fst (take c ((t, h) # mg_open m)))" for h
        using ok unfolding take_map [symmetric] by (intro distinct_take) (simp add: manager_ok_def)
      then show ?thesis using ok v None
        by (auto simp: get_tenant_def manager_ok_def Let_def dest!: in_set_takeD)
    qed
  qed (use ok in \<open>simp add: get_tenant_def\<close>)
qed

lemma reachable_manager_ok: "reachable_manager base c m \<Longrightarrow> manager_ok base c m"
  by (induction rule: reachable_manager.induct)
    (simp add: manager_ok_def with_capacity_def, rule get_tenant_ok)

lemma valid_user_tenant: "is_valid_user_id u \<Longrightarrow> validate_tenant_id u = Inr () \<and> u \<noteq> ''default''"
  by (auto simp: is_valid_user_id_def validate_ok list_all_iff starts_with_def)



end
