(* ===== verification/Fact_Reads.thy ===== *)
theory Fact_Reads
  imports Lookups Tenants "HOL-Library.Option_ord"
begin

section \<open>Reading facts back\<close>

text \<open>
  Models the reads of \<open>src/storage/repo/facts.rs\<close> (\<open>fact_history\<close>, \<open>fact_versions_for_memories\<close>),
  the endpoints of \<open>src/api/handlers/facts.rs\<close> and the embedded \<open>fact_as_of\<close> of \<open>src/db.rs\<close>.
  A database is looked up by the path of the opened tenant.  Text is ordered by its bytes and NULL
  sorts first, as SQLite does.  A scalar subquery takes the first row it finds in the table.
\<close>

subsection \<open>The history of a fact\<close>

record FactHistoryEntry =
  fh_memory_id :: str
  fh_object :: str
  fh_is_current :: bool
  fh_valid_from_ms :: u64
  fh_valid_to_ms :: "u64 option"
  fh_evidence :: "str list"

definition source_turn :: "store \<Rightarrow> str \<Rightarrow> str" where
  "source_turn db mid =
     (case filter (\<lambda>m. m_memory_id m = mid) (memories db) of
        [] \<Rightarrow> mid | m # _ \<Rightarrow> coalesce (m_parent_memory_id m) mid)"

definition version_order :: "fact_version \<Rightarrow> int option \<times> str" where
  "version_order v = (fv_valid_from v, fv_mid v)"

definition evidence_of :: "store \<Rightarrow> str \<Rightarrow> str \<Rightarrow> str \<Rightarrow> str list" where
  "evidence_of db e k vid =
     map (\<lambda>x. source_turn db (fe_mid x))
       (sort_key (\<lambda>x. (- fe_ts x, fe_mid x))
         (filter (\<lambda>x. fe_entity x = e \<and> fe_key x = k \<and> fe_version x = vid) (evidence (facts db))))"

definition history_entry :: "store \<Rightarrow> fact_version \<Rightarrow> FactHistoryEntry" where
  "history_entry db v =
     \<lparr>fh_memory_id = source_turn db (fv_mid v), fh_object = coalesce (fv_object v) [],
      fh_is_current = (fv_status v = ''current''),
      fh_valid_from_ms = as_u64 (coalesce (fv_valid_from v) 0),
      fh_valid_to_ms = map_option as_u64 (fv_valid_to v),
      fh_evidence = evidence_of db (fv_entity v) (fv_key v) (fv_mid v)\<rparr>"

definition fact_history :: "store \<Rightarrow> str \<Rightarrow> str \<Rightarrow> FactHistoryEntry list" where
  "fact_history db e k =
     map (history_entry db) (sort_key version_order (filter (in_chain k e) (versions (facts db))))"

definition covers :: "u64 \<Rightarrow> FactHistoryEntry \<Rightarrow> bool" where
  "covers as_of v \<longleftrightarrow> fh_valid_from_ms v \<le> as_of
     \<and> (case fh_valid_to_ms v of None \<Rightarrow> True | Some valid_to \<Rightarrow> as_of < valid_to)"

definition fact_as_of :: "store \<Rightarrow> str \<Rightarrow> str \<Rightarrow> u64 \<Rightarrow> FactHistoryEntry option" where
  "fact_as_of db e k as_of = find (covers as_of) (rev (fact_history db e k))"

subsection \<open>The endpoints\<close>

record fact_params =
  fp_entity_id :: "str option"
  fp_fact_key :: str
  fp_as_of_ms :: "u64 option"

record current_fact_response =
  cf_entity_id :: str
  cf_fact_key :: str
  cf_as_of_ms :: "u64 option"
  cf_value :: "str option"
  cf_version :: "FactHistoryEntry option"
  cf_versions :: nat

definition fact_scope ::
  "request_principal \<Rightarrow> str option \<Rightarrow> manager \<Rightarrow> manager \<times> (EngineError + handle \<times> str)" where
  "fact_scope p requested mg =
     (case tenant_store p mg of
        (mg', Inl (InvalidTenantId t)) \<Rightarrow> (mg', Inl (Other t))
      | (mg', Inr h) \<Rightarrow>
          (mg', case requested of
                  None \<Rightarrow> Inl (BadRequest ''entity_id is required'')
                | Some e \<Rightarrow> if trim e = [] then Inl (BadRequest ''entity_id is required'') else Inr (h, e)))"

definition current_fact_handler ::
  "(path \<Rightarrow> store) \<Rightarrow> request_principal \<Rightarrow> fact_params \<Rightarrow> manager
     \<Rightarrow> manager \<times> (EngineError + current_fact_response)" where
  "current_fact_handler dbs p params mg =
     (let (mg', r) = fact_scope p (fp_entity_id params) mg
      in (mg', bind_res r (\<lambda>(h, e).
           let history = fact_history (dbs (hd_path h)) e (fp_fact_key params);
               version = (case fp_as_of_ms params of
                   Some as_of \<Rightarrow> find (covers as_of) (rev history)
                 | None \<Rightarrow> find fh_is_current history)
           in Inr \<lparr>cf_entity_id = e, cf_fact_key = fp_fact_key params, cf_as_of_ms = fp_as_of_ms params,
                   cf_value = map_option fh_object version, cf_version = version,
                   cf_versions = length history\<rparr>)))"

definition fact_history_handler ::
  "(path \<Rightarrow> store) \<Rightarrow> request_principal \<Rightarrow> fact_params \<Rightarrow> manager
     \<Rightarrow> manager \<times> (EngineError + str \<times> str \<times> FactHistoryEntry list)" where
  "fact_history_handler dbs p params mg =
     (let (mg', r) = fact_scope p (fp_entity_id params) mg
      in (mg', bind_res r (\<lambda>(h, e).
           Inr (e, fp_fact_key params, fact_history (dbs (hd_path h)) e (fp_fact_key params)))))"

subsection \<open>The versions of a set of memories\<close>

record FactVersionRow =
  vr_fact_key :: str
  vr_entity_id :: str
  vr_object :: str
  vr_is_current :: bool
  vr_valid_from_ms :: u64
  vr_valid_to_ms :: "u64 option"
  vr_superseded_by :: "str option"
  vr_superseded_at_ms :: "u64 option"
  vr_current_object :: "str option"
  vr_evidence :: "str list"

definition left_join_memories :: "store \<Rightarrow> fact_version list \<Rightarrow> (fact_version \<times> str option) list" where
  "left_join_memories db vs =
     concat (map (\<lambda>v. case filter (\<lambda>m. m_memory_id m = fv_mid v) (memories db) of
                        [] \<Rightarrow> [(v, None)] | ms \<Rightarrow> map (\<lambda>m. (v, m_parent_memory_id m)) ms) vs)"

definition version_row :: "store \<Rightarrow> fact_version \<Rightarrow> FactVersionRow" where
  "version_row db v =
     \<lparr>vr_fact_key = fv_key v, vr_entity_id = fv_entity v, vr_object = coalesce (fv_object v) [],
      vr_is_current = (fv_status v = ''current''),
      vr_valid_from_ms = as_u64 (coalesce (fv_valid_from v) 0),
      vr_valid_to_ms = map_option as_u64 (fv_valid_to v),
      vr_superseded_by = map_option (source_turn db) (fv_superseded_by v),
      vr_superseded_at_ms =
        (case filter (\<lambda>s. fv_key s = fv_key v \<and> Some (fv_mid s) = fv_superseded_by v) (versions (facts db)) of
           [] \<Rightarrow> None | s # _ \<Rightarrow> Some (as_u64 (fv_ts s))),
      vr_current_object =
        (case filter (\<lambda>c. in_chain (fv_key v) (fv_entity v) c \<and> fv_status c = ''current'') (versions (facts db)) of
           [] \<Rightarrow> None | c # _ \<Rightarrow> fv_object c),
      vr_evidence = []\<rparr>"

definition version_query :: "store \<Rightarrow> str list \<Rightarrow> read_error + (str \<times> str \<times> FactVersionRow) list" where
  "version_query db chunk =
     (let params = padded_in_chunk chunk
      in if length params \<noteq> IN_CHUNK then Inl WrongParameterCount
         else Inr (map (\<lambda>(v, parent).
                (if fv_mid v \<in> set chunk then fv_mid v else coalesce parent (fv_mid v), fv_mid v, version_row db v))
              (sort_key (version_order \<circ> fst)
                (filter (\<lambda>(v, parent). fv_mid v \<in> set params \<or> (\<exists>p \<in> set params. parent = Some p))
                  (left_join_memories db (versions (facts db)))))))"

definition version_key :: "str \<times> FactVersionRow \<Rightarrow> str \<times> str \<times> str" where
  "version_key = (\<lambda>(vid, row). (vr_entity_id row, vr_fact_key row, vid))"

definition padded_triples :: "'a list \<Rightarrow> 'a list" where
  "padded_triples c = (if c = [] then [] else take IN_CHUNK (c @ replicate (IN_CHUNK - length c) (last c)))"

definition evidence_query ::
  "store \<Rightarrow> (str \<times> str \<times> str) list \<Rightarrow> read_error + ((str \<times> str \<times> str) \<times> str) list" where
  "evidence_query db params =
     Inr (map (\<lambda>x. ((fe_entity x, fe_key x, fe_version x), source_turn db (fe_mid x)))
            (sort_key (\<lambda>x. (fe_entity x, fe_key x, fe_version x, - fe_ts x, fe_mid x))
              (filter (\<lambda>x. (fe_entity x, fe_key x, fe_version x) \<in> set params) (evidence (facts db)))))"

definition fact_versions_for_memories ::
  "store \<Rightarrow> str list \<Rightarrow> read_error + (str \<rightharpoonup> FactVersionRow)" where
  "fact_versions_for_memories db ids =
     bind_res (in_batches (version_query db) (slice_chunks IN_CHUNK ids)) (\<lambda>rows.
       let rows_by_memory = hash_map_of rows;
           keys = sort (remdups (List.map_filter (\<lambda>i. map_option version_key (rows_by_memory i)) (map fst rows)))
       in bind_res (in_batches (\<lambda>c. evidence_query db (padded_triples c)) (slice_chunks IN_CHUNK keys)) (\<lambda>evs.
            Inr (\<lambda>i. map_option (\<lambda>x. (snd x)\<lparr>vr_evidence :=
                   map snd (filter (\<lambda>(k, _). k = version_key x) evs)\<rparr>) (rows_by_memory i))))"

subsection \<open>As-of reads\<close>

lemma find_unique:
  "v \<in> set xs \<Longrightarrow> \<forall>x \<in> set xs. P x \<longleftrightarrow> x = v \<Longrightarrow> find P xs = Some v"
  by (metis find_None_iff nth_mem option.exhaust find_Some_iff)

lemma find_map_entries: "find P (map f xs) = map_option f (find (P \<circ> f) xs)"
  by (induction xs) auto

lemma find_unique_entry:
  assumes "v \<in> set xs" "\<forall>x \<in> set xs. P (f x) \<longleftrightarrow> x = v"
  shows "find P (map f xs) = Some (f v)" "find P (rev (map f xs)) = Some (f v)"
  using find_unique [of v xs "P \<circ> f"] find_unique [of v "rev xs" "P \<circ> f"] assms
  by (simp_all add: find_map_entries rev_map)

lemma uint_as_u64: "0 \<le> i \<Longrightarrow> in_i64 i \<Longrightarrow> uint (as_u64 i) = i"
  by (simp add: as_u64_def uint_word_of_int_eq take_bit_int_eq_self in_i64_def)

lemma relink_row:
  "relink q vs None = vs \<Longrightarrow> v \<in> set vs \<Longrightarrow> fv_valid_from v = Some (fv_ts v)
     \<and> (\<forall>u. fv_valid_to v = Some u \<longrightarrow> u \<in> fv_ts ` set vs)"
proof (induction vs arbitrary: q)
  case (Cons w ws)
  then have w: "link q w (head_ref ws None) = w" and ws: "relink (Some (fv_mid w)) ws None = ws" by simp_all
  have "fv_valid_from w = Some (fv_ts w)" "fv_valid_to w = map_option snd (head_ref ws None)"
    using link_sel(11,12) [of q w "head_ref ws None"] by (simp_all add: w)
  moreover have "u \<in> fv_ts ` set (w # ws)" if "Some u = map_option snd (head_ref ws None)" for u
    using that by (cases ws) auto
  moreover have "?case" if "v \<in> set ws" using Cons.IH [OF ws that] by simp
  moreover have "v = w \<or> v \<in> set ws" using Cons.prems(2) by simp
  ultimately show ?case by metis
qed simp

lemma covers_valid_at:
  assumes "relink None vs None = vs" "v \<in> set vs" "\<forall>w \<in> set vs. 0 \<le> fv_ts w \<and> in_i64 (fv_ts w)"
  shows "covers p (history_entry db v) \<longleftrightarrow> valid_at (uint p) v"
proof -
  have "0 \<le> u \<and> in_i64 u" if "fv_valid_to v = Some u" for u
    using relink_row [OF assms(1,2)] that assms(3) by auto
  then show ?thesis
    using relink_row [OF assms(1,2)] assms(2,3)
    by (auto simp: covers_def history_entry_def valid_at_def coalesce_def word_le_def word_less_def
      uint_as_u64 split: option.splits)
qed

definition answer_version :: "fact_version list \<Rightarrow> u64 option \<Rightarrow> fact_version option" where
  "answer_version vs as_of =
     (let past = (case as_of of None \<Rightarrow> vs | Some p \<Rightarrow> filter (\<lambda>v. fv_ts v \<le> uint p) vs)
      in if past = [] then None else Some (last past))"

lemma find_none: "\<forall>x \<in> set xs. \<not> P (f x) \<Longrightarrow> find P (map f xs) = None \<and> find P (rev (map f xs)) = None"
  by (auto simp: find_None_iff)

lemma history_answers:
  assumes ok: "fv_ok (versions (facts db))" and pos: "\<forall>v \<in> set (versions (facts db)). 0 \<le> fv_ts v"
  shows "find (covers p) (rev (fact_history db e k))
      = map_option (history_entry db) (answer_version (chain (versions (facts db)) k e) (Some p))"
    and "find fh_is_current (fact_history db e k)
      = map_option (history_entry db) (answer_version (chain (versions (facts db)) k e) None)"
proof -
  let ?t = "versions (facts db)" and ?xs = "sort_key version_order (filter (in_chain k e) (versions (facts db)))"
  let ?c = "chain ?t k e"
  have xs: "set ?xs = set ?c" by simp
  have link: "relink None ?c None = ?c" using ok by (simp add: fv_ok_iff linked_def)
  have ts: "\<forall>w \<in> set ?c. 0 \<le> fv_ts w \<and> in_i64 (fv_ts w)"
    using ok pos by (auto simp: fv_ok_iff fv_wf_def)
  have dist: "distinct ?c" using distinct_mid_chain [of ?t k e] ok by (auto simp: fv_ok_def distinct_map)
  have cov: "covers p (history_entry db v) \<longleftrightarrow> answer_version ?c (Some p) = Some v" if "v \<in> set ?xs" for v
    using that covers_valid_at [OF link _ ts, of v p db] valid_relink [OF link sorted_ts_chain dist, of v "uint p"]
    unfolding xs by (auto simp: answer_version_def Let_def)
  have cur: "fh_is_current (history_entry db v) \<longleftrightarrow> answer_version ?c None = Some v" if "v \<in> set ?xs" for v
  proof -
    have v: "v \<in> set ?c" using that unfolding xs .
    then have ne: "?c \<noteq> []" by (metis empty_iff empty_set)
    have "v \<in> set (filter (\<lambda>v. fv_status v = ''current'') ?c) \<longleftrightarrow> v = last ?c"
      by (subst relink_current [OF ne link]) simp
    with v ne show ?thesis by (auto simp: history_entry_def answer_version_def)
  qed
  have mem: "v \<in> set ?xs" if "answer_version ?c as_of = Some v" for as_of v
    using that unfolding xs answer_version_def Let_def
    by (cases as_of) (auto split: if_splits dest!: last_in_set)
  show "find (covers p) (rev (fact_history db e k)) = map_option (history_entry db) (answer_version ?c (Some p))"
  proof (cases "answer_version ?c (Some p)")
    case None
    then show ?thesis using find_none [of ?xs "covers p" "history_entry db"] cov by (simp add: fact_history_def)
  next
    case (Some v)
    then show ?thesis
      using find_unique_entry(2) [of v ?xs "covers p" "history_entry db"] cov mem [OF Some]
      unfolding fact_history_def by auto
  qed
  show "find fh_is_current (fact_history db e k) = map_option (history_entry db) (answer_version ?c None)"
  proof (cases "answer_version ?c None")
    case None
    then show ?thesis using find_none [of ?xs fh_is_current "history_entry db"] cur by (simp add: fact_history_def)
  next
    case (Some v)
    then show ?thesis
      using find_unique_entry(1) [of v ?xs fh_is_current "history_entry db"] cur mem [OF Some]
      unfolding fact_history_def by auto
  qed
qed

text \<open>
  C5. Reading a fact over the API answers the version that held: without a time the newest
  version of the chain, with one the newest whose event time is not after it, and nothing before
  the fact began; the embedded as-of read agrees, and the response counts every version.
\<close>

theorem as_of_read_correct:
  assumes "tenant_store p mg = (mg', Inr h)" and "trim e \<noteq> []"
    and "fv_ok (versions (facts (dbs (hd_path h))))"
    and "\<forall>v \<in> set (versions (facts (dbs (hd_path h)))). 0 \<le> fv_ts v"
  shows "\<exists>r. current_fact_handler dbs p \<lparr>fp_entity_id = Some e, fp_fact_key = k, fp_as_of_ms = as_of\<rparr> mg = (mg', Inr r)
     \<and> cf_version r = map_option (history_entry (dbs (hd_path h)))
         (answer_version (chain (versions (facts (dbs (hd_path h)))) k e) as_of)
     \<and> cf_value r = map_option (\<lambda>v. coalesce (fv_object v) [])
         (answer_version (chain (versions (facts (dbs (hd_path h)))) k e) as_of)
     \<and> cf_versions r = length (chain (versions (facts (dbs (hd_path h)))) k e)
     \<and> (case as_of of None \<Rightarrow> True | Some i \<Rightarrow> fact_as_of (dbs (hd_path h)) e k i = cf_version r)"
proof -
  let ?db = "dbs (hd_path h)"
  have scope: "fact_scope p (Some e) mg = (mg', Inr (h, e))"
    using assms(1,2) by (simp add: fact_scope_def)
  have "length (fact_history ?db e k) = length (chain (versions (facts ?db)) k e)"
    by (simp add: fact_history_def chain_def)
  moreover have "map_option fh_object (map_option (history_entry ?db) v) = map_option (\<lambda>v. coalesce (fv_object v) []) v" for v
    by (cases v) (simp_all add: history_entry_def)
  ultimately show ?thesis
    using history_answers [OF assms(3,4)]
    by (cases as_of) (simp_all add: current_fact_handler_def scope Let_def fact_as_of_def)
qed

lemma as_of_read_correct_witness:
  "\<exists>r. current_fact_handler (\<lambda>_. empty_store\<lparr>facts := \<lparr>versions = sample_versions, evidence = []\<rparr>\<rparr>) GlobalApiKey
       \<lparr>fp_entity_id = Some ''e'', fp_fact_key = ''u:city'', fp_as_of_ms = Some 20\<rparr> (with_capacity [''data''] 2)
     = (fst (tenant_store GlobalApiKey (with_capacity [''data''] 2)), Inr r) \<and> cf_value r = Some ''Oslo''"
proof -
  let ?mg = "with_capacity [''data''] 2"
  have "snd (tenant_store GlobalApiKey ?mg)
      = Inr \<lparr>hd_serial = 0, hd_path = [''data'', ''tenants'', ''default'', ''tellodb.db'']\<rparr>" by code_simp
  then have h: "tenant_store GlobalApiKey ?mg = (fst (tenant_store GlobalApiKey ?mg),
      Inr \<lparr>hd_serial = 0, hd_path = [''data'', ''tenants'', ''default'', ''tellodb.db'']\<rparr>)"
    by (simp add: prod_eq_iff)
  have e: "trim ''e'' \<noteq> []" by code_simp
  have "answer_version sample_versions (Some 20) = Some (hd sample_versions)"
    "coalesce (fv_object (hd sample_versions)) [] = ''Oslo''"
    by (simp_all add: answer_version_def sample_versions_def coalesce_def)
  then show ?thesis
    using as_of_read_correct [OF h e, of "\<lambda>_. empty_store\<lparr>facts := \<lparr>versions = sample_versions, evidence = []\<rparr>\<rparr>"
        "''u:city''" "Some 20"]
    by (auto simp: sample_versions_ok chain_sample) (auto simp: sample_versions_def)
qed

subsection \<open>The versions of a batch\<close>

text \<open>
  The comment in \<open>fact_versions_for_memories\<close> says that a turn's own version wins over those of
  its derived records.  It does not: the row of a derived record is stored under the same key and
  comes later in the order, so the turn is answered with the derived record's fact.
\<close>

definition shadowed_store :: store where
  "shadowed_store = empty_store
     \<lparr>memories := map (\<lambda>(i, mid, parent). \<lparr>m_rowid = i, m_memory_id = mid, m_entity_id = ''e'', m_content = [],
          m_kind = ''fact'', m_content_hash = [], m_created_at_ms = 10, m_recorded_at_ms = 10,
          m_expires_at_ms = None, m_session_id = [], m_turn_index = 0, m_role = [],
          m_parent_memory_id = parent, m_indexed = 1\<rparr>) [(1, ''t'', None), (2, ''t::c0'', Some ''t'')],
      facts := \<lparr>versions = map (\<lambda>(i, k, mid). \<lparr>fv_rowid = i, fv_key = k, fv_mid = mid, fv_entity = ''e'',
          fv_subject = None, fv_predicate = None, fv_object = Some k, fv_status = ''current'', fv_ts = 10,
          fv_superseded_by = None, fv_supersedes = None, fv_valid_from = Some 10, fv_valid_to = None,
          fv_recorded = 10\<rparr>) [(1, ''city'', ''t''), (2, ''job'', ''t::c0'')], evidence = []\<rparr>\<rparr>"

lemma direct_match_shadowed:
  "case fact_versions_for_memories shadowed_store [''t''] of
     Inl _ \<Rightarrow> False | Inr m \<Rightarrow> map_option vr_fact_key (m ''t'') = Some ''job''"
  by code_simp

end
