(* ===== verification/Vector_Index.thy ===== *)
theory Vector_Index
  imports Lookups "HOL-Library.AList"
begin

section \<open>Vector segments\<close>

text \<open>
  Models \<open>src/vector_index.rs\<close> and the SQLite vector source of \<open>src/storage/tenant.rs\<close>.  The
  type \<open>'f\<close> stands for \<open>f32\<close> without NaN, its order being that of \<open>partial_cmp\<close>; the record
  \<open>float_ops\<close> holds the machine's float operations and the conversions of the \<open>half\<close> crate, so
  that nothing here depends on how they round.  The HNSW graph of the \<open>usearch\<close> crate is a state
  \<open>'h\<close> with the operations of \<open>usearch\<close>; each returns the state it leaves, also when it fails.  Row
  numbers are not truncated to 32 bits.  The locks only serialise the operations and are left out.
\<close>

record 'f float_ops =
  fo_zero :: 'f
  fo_one :: 'f
  fo_epsilon :: 'f
  fo_add :: "'f \<Rightarrow> 'f \<Rightarrow> 'f"
  fo_sub :: "'f \<Rightarrow> 'f \<Rightarrow> 'f"
  fo_mul :: "'f \<Rightarrow> 'f \<Rightarrow> 'f"
  fo_div :: "'f \<Rightarrow> 'f \<Rightarrow> 'f"
  fo_sqrt :: "'f \<Rightarrow> 'f"
  fo_abs :: "'f \<Rightarrow> 'f"
  fo_of_int :: "int \<Rightarrow> 'f"
  fo_round :: "'f \<Rightarrow> int"
  fo_to_f16 :: "'f \<Rightarrow> 16 word"
  fo_of_f16 :: "16 word \<Rightarrow> 'f"
  fo_of_bits :: "u32 \<Rightarrow> 'f"

subsection \<open>Configuration\<close>

datatype Quantization = F32 | F16 | I8 | Binary

definition quantization_parse :: "str \<Rightarrow> str + Quantization" where
  "quantization_parse name =
     (let n = to_ascii_lowercase (trim name)
      in if n = [] \<or> n = ''f32'' then Inr F32
         else if n = ''f16'' then Inr F16
         else if n = ''i8'' then Inr I8
         else if n = ''binary'' \<or> n = ''b1'' then Inr Binary
         else Inl (''unknown TELLODB_VECTOR_QUANT '' @ n))"

fun quantization_name :: "Quantization \<Rightarrow> str" where
  "quantization_name F32 = ''f32''"
| "quantization_name F16 = ''f16''"
| "quantization_name I8 = ''i8''"
| "quantization_name Binary = ''binary''"

definition div_ceil :: "nat \<Rightarrow> nat \<Rightarrow> nat" where
  "div_ceil a b = (a + b - 1) div b"

fun bytes_per_vector :: "Quantization \<Rightarrow> nat \<Rightarrow> nat" where
  "bytes_per_vector F32 dimensions = 4 * dimensions"
| "bytes_per_vector F16 dimensions = 2 * dimensions"
| "bytes_per_vector I8 dimensions = dimensions + 4"
| "bytes_per_vector Binary dimensions = 8 * div_ceil dimensions 64"

record VectorConfig =
  vc_dimensions :: nat
  vc_quantization :: Quantization
  vc_flat_threshold :: nat
  vc_rescore_factor :: nat
  vc_connectivity :: nat
  vc_expansion_add :: nat
  vc_expansion_search :: nat

definition vector_config_new :: "nat \<Rightarrow> VectorConfig" where
  "vector_config_new dimensions =
     \<lparr>vc_dimensions = dimensions, vc_quantization = F32, vc_flat_threshold = 20000,
      vc_rescore_factor = 4, vc_connectivity = 16, vc_expansion_add = 128, vc_expansion_search = 256\<rparr>"

definition from_values ::
  "nat \<Rightarrow> str option \<Rightarrow> nat option \<Rightarrow> nat option \<Rightarrow> nat option \<Rightarrow> nat option \<Rightarrow> nat option
     \<Rightarrow> str + VectorConfig" where
  "from_values dimensions quantization flat_threshold rescore_factor connectivity ef_add ef_search =
     bind_res (quantization_parse (coalesce quantization [])) (\<lambda>q.
       let d = vector_config_new dimensions
       in Inr \<lparr>vc_dimensions = dimensions, vc_quantization = q,
               vc_flat_threshold = coalesce flat_threshold (vc_flat_threshold d),
               vc_rescore_factor = (case rescore_factor of
                   Some f \<Rightarrow> if 1 \<le> f then f else vc_rescore_factor d | None \<Rightarrow> vc_rescore_factor d),
               vc_connectivity = coalesce connectivity (vc_connectivity d),
               vc_expansion_add = coalesce ef_add (vc_expansion_add d),
               vc_expansion_search = coalesce ef_search (vc_expansion_search d)\<rparr>)"

subsection \<open>Vectors\<close>

definition float_sum :: "'f float_ops \<Rightarrow> 'f list \<Rightarrow> 'f" where
  "float_sum fo xs = foldl (fo_add fo) (fo_zero fo) xs"

definition normalized :: "'f::linorder float_ops \<Rightarrow> 'f list \<Rightarrow> 'f list" where
  "normalized fo v =
     (let norm = fo_sqrt fo (float_sum fo (map (\<lambda>x. fo_mul fo x x) v))
      in if fo_epsilon fo < norm then map (\<lambda>x. fo_div fo x norm) v else v)"

function chunks_exact :: "nat \<Rightarrow> 'a list \<Rightarrow> 'a list list" where
  "chunks_exact n xs = (if n = 0 \<or> length xs < n then [] else take n xs # chunks_exact n (drop n xs))"
  by pat_completeness auto
termination by (relation "measure (\<lambda>(_, xs). length xs)") auto

declare chunks_exact.simps [simp del]

definition chunks_remainder :: "nat \<Rightarrow> 'a list \<Rightarrow> 'a list" where
  "chunks_remainder n xs = drop (n * (length xs div n)) xs"

text \<open>Eight running sums, added up at the end, then the remainder.\<close>

definition dot_f32 :: "'f float_ops \<Rightarrow> 'f list \<Rightarrow> 'f list \<Rightarrow> 'f" where
  "dot_f32 fo a b =
     (let tail = float_sum fo (map (\<lambda>(x, y). fo_mul fo x y) (zip (chunks_remainder 8 a) (chunks_remainder 8 b)));
          acc = foldl (\<lambda>acc (ca, cb). map (\<lambda>(s, x, y). fo_add fo s (fo_mul fo x y)) (zip acc (zip ca cb)))
            (replicate 8 (fo_zero fo)) (zip (chunks_exact 8 a) (chunks_exact 8 b))
      in fo_add fo (float_sum fo acc) tail)"

definition dot_i8 :: "8 word list \<Rightarrow> 8 word list \<Rightarrow> 32 word" where
  "dot_i8 a b = sum_list (map (\<lambda>(x, y). scast x * scast y) (zip a b))"

definition clamp_i8 :: "int \<Rightarrow> 8 word" where
  "clamp_i8 i = word_of_int (max (- 127) (min 127 i))"

definition quantize_i8 :: "'f::linorder float_ops \<Rightarrow> 'f list \<Rightarrow> 8 word list \<times> 'f" where
  "quantize_i8 fo v =
     (let m = foldl (\<lambda>m x. max m (fo_abs fo x)) (fo_zero fo) v
      in if m \<le> fo_epsilon fo then (replicate (length v) 0, fo_zero fo)
         else (let scale = fo_div fo m (fo_of_int fo 127)
               in (map (\<lambda>x. clamp_i8 (fo_round fo (fo_div fo x scale))) v, scale)))"

definition sign_bits :: "'f::linorder float_ops \<Rightarrow> 'f list \<Rightarrow> u64 list" where
  "sign_bits fo v =
     foldl (\<lambda>words (i, x). if fo_zero fo < x
              then words[i div 64 := or (words ! (i div 64)) (push_bit (i mod 64) 1)] else words)
       (replicate (div_ceil (length v) 64) 0) (enumerate 0 v)"

definition count_ones :: "u64 \<Rightarrow> nat" where
  "count_ones w = length (filter (bit w) [0..<64])"

subsection \<open>Flat segments\<close>

datatype 'f Codes =
    CF32 "'f list"
  | CF16 "16 word list"
  | CI8 "8 word list" "'f list"
  | CBinary "u64 list"

record 'f FlatSegment =
  fs_dims :: nat
  fs_ids :: "u64 list"
  fs_positions :: "u64 \<rightharpoonup> nat"
  fs_codes :: "'f Codes"

definition flat_new :: "nat \<Rightarrow> Quantization \<Rightarrow> 'f FlatSegment" where
  "flat_new dims quantization =
     \<lparr>fs_dims = dims, fs_ids = [], fs_positions = Map.empty,
      fs_codes = (case quantization of F32 \<Rightarrow> CF32 [] | F16 \<Rightarrow> CF16 [] | I8 \<Rightarrow> CI8 [] [] | Binary \<Rightarrow> CBinary [])\<rparr>"

definition fs_words :: "'f FlatSegment \<Rightarrow> nat" where
  "fs_words seg = div_ceil (fs_dims seg) 64"

text \<open>\<open>data[row * width..(row + 1) * width].copy_from_slice(..)\<close>\<close>

definition set_row :: "nat \<Rightarrow> nat \<Rightarrow> 'a list \<Rightarrow> 'a list \<Rightarrow> 'a list" where
  "set_row width row vs data = take (row * width) data @ vs @ drop ((row + 1) * width) data"

definition get_row :: "nat \<Rightarrow> nat \<Rightarrow> 'a list \<Rightarrow> 'a list" where
  "get_row width row data = take width (drop (row * width) data)"

definition swap_row :: "nat \<Rightarrow> nat \<Rightarrow> nat \<Rightarrow> 'a list \<Rightarrow> 'a list" where
  "swap_row row final width data =
     take (final * width) (if row \<noteq> final then set_row width row (get_row width final data) data else data)"

fun grow_codes :: "'f float_ops \<Rightarrow> nat \<Rightarrow> 'f Codes \<Rightarrow> 'f Codes" where
  "grow_codes fo dims (CF32 data) = CF32 (data @ replicate dims (fo_zero fo))"
| "grow_codes fo dims (CF16 data) = CF16 (data @ replicate dims 0)"
| "grow_codes fo dims (CI8 codes scales) = CI8 (codes @ replicate dims 0) (scales @ [fo_zero fo])"
| "grow_codes fo dims (CBinary data) = CBinary (data @ replicate (div_ceil dims 64) 0)"

fun write_codes :: "'f::linorder float_ops \<Rightarrow> nat \<Rightarrow> nat \<Rightarrow> 'f list \<Rightarrow> 'f Codes \<Rightarrow> 'f Codes" where
  "write_codes fo dims row v (CF32 data) = CF32 (set_row dims row v data)"
| "write_codes fo dims row v (CF16 data) = CF16 (set_row dims row (map (fo_to_f16 fo) v) data)"
| "write_codes fo dims row v (CI8 codes scales) =
     (let (q, scale) = quantize_i8 fo v in CI8 (set_row dims row q codes) (scales[row := scale]))"
| "write_codes fo dims row v (CBinary data) = CBinary (set_row (div_ceil dims 64) row (sign_bits fo v) data)"

fun swap_codes :: "nat \<Rightarrow> nat \<Rightarrow> nat \<Rightarrow> 'f Codes \<Rightarrow> 'f Codes" where
  "swap_codes dims row final (CF32 data) = CF32 (swap_row row final dims data)"
| "swap_codes dims row final (CF16 data) = CF16 (swap_row row final dims data)"
| "swap_codes dims row final (CI8 codes scales) = CI8 (swap_row row final dims codes) (swap_row row final 1 scales)"
| "swap_codes dims row final (CBinary data) = CBinary (swap_row row final (div_ceil dims 64) data)"

definition flat_upsert :: "'f::linorder float_ops \<Rightarrow> u64 \<Rightarrow> 'f list \<Rightarrow> 'f FlatSegment \<Rightarrow> 'f FlatSegment" where
  "flat_upsert fo i vector seg =
     (let v = normalized fo vector;
          (row, seg') = (case fs_positions seg i of
              Some row \<Rightarrow> (row, seg)
            | None \<Rightarrow> (let row = length (fs_ids seg)
                       in (row, seg\<lparr>fs_ids := fs_ids seg @ [i], fs_positions := (fs_positions seg)(i \<mapsto> row),
                                    fs_codes := grow_codes fo (fs_dims seg) (fs_codes seg)\<rparr>)))
      in seg'\<lparr>fs_codes := write_codes fo (fs_dims seg) row v (fs_codes seg')\<rparr>)"

definition flat_remove :: "u64 \<Rightarrow> 'f FlatSegment \<Rightarrow> 'f FlatSegment \<times> bool" where
  "flat_remove i seg =
     (case fs_positions seg i of
        None \<Rightarrow> (seg, False)
      | Some row \<Rightarrow>
          (let positions = (fs_positions seg)(i := None);
               final = length (fs_ids seg) - 1;
               ids = take final ((fs_ids seg)[row := fs_ids seg ! final])
           in (seg\<lparr>fs_ids := ids,
                   fs_positions := (if row \<noteq> final then positions(ids ! row \<mapsto> row) else positions),
                   fs_codes := swap_codes (fs_dims seg) row final (fs_codes seg)\<rparr>, True)))"

text \<open>Best score first, rows of equal score in their order.\<close>

definition sort_desc :: "('a \<Rightarrow> 'k::linorder) \<Rightarrow> 'a list \<Rightarrow> 'a list" where
  "sort_desc f xs = rev (sort_key f (rev xs))"

fun row_scores :: "'f::linorder float_ops \<Rightarrow> nat \<Rightarrow> 'f list \<Rightarrow> 'f Codes \<Rightarrow> 'f list" where
  "row_scores fo dims query (CF32 data) = map (dot_f32 fo query) (chunks_exact dims data)"
| "row_scores fo dims query (CF16 data) = map (\<lambda>v. dot_f32 fo query (map (fo_of_f16 fo) v)) (chunks_exact dims data)"
| "row_scores fo dims query (CI8 codes scales) =
     (let (q, q_scale) = quantize_i8 fo query
      in map (\<lambda>(v, s). fo_mul fo (fo_mul fo (fo_of_int fo (sint (dot_i8 q v))) s) q_scale)
           (zip (chunks_exact dims codes) scales))"
| "row_scores fo dims query (CBinary data) =
     (let q = sign_bits fo query
      in map (\<lambda>v. fo_sub fo (fo_one fo) (fo_div fo (fo_mul fo (fo_of_int fo 2)
               (fo_of_int fo (int (sum_list (map (\<lambda>(a, b). count_ones (xor a b)) (zip v q))))))
               (fo_of_int fo (int dims))))
           (chunks_exact (div_ceil dims 64) data))"

definition flat_scan :: "'f::linorder float_ops \<Rightarrow> 'f list \<Rightarrow> nat \<Rightarrow> 'f FlatSegment \<Rightarrow> (u64 \<times> 'f) list" where
  "flat_scan fo query k seg =
     (if fs_ids seg = [] \<or> k = 0 then []
      else map (\<lambda>(sim, row). (fs_ids seg ! row, sim))
             (take k (sort_desc fst
               (map (\<lambda>(row, sim). (sim, row)) (enumerate 0 (row_scores fo (fs_dims seg) query (fs_codes seg)))))))"

subsection \<open>HNSW segments\<close>

record ('h, 'f) usearch =
  us_new :: "VectorConfig \<Rightarrow> str + 'h"
  us_reserve :: "nat \<Rightarrow> 'h \<Rightarrow> 'h \<times> (str + unit)"
  us_contains :: "u64 \<Rightarrow> 'h \<Rightarrow> bool"
  us_remove :: "u64 \<Rightarrow> 'h \<Rightarrow> 'h \<times> (str + nat)"
  us_add :: "u64 \<Rightarrow> 'f list \<Rightarrow> 'h \<Rightarrow> 'h \<times> (str + unit)"
  us_size :: "'h \<Rightarrow> nat"
  us_capacity :: "'h \<Rightarrow> nat"
  us_search :: "'f list \<Rightarrow> nat \<Rightarrow> 'h \<Rightarrow> str + (u64 \<times> 'f) list"
  us_memory_usage :: "'h \<Rightarrow> nat"

datatype vector_error = DimensionMismatch nat nat | Usearch str | Source read_error

definition usearch_res :: "'h \<times> (str + 'a) \<Rightarrow> 'h \<times> (vector_error + 'a)" where
  "usearch_res = (\<lambda>(h, r). (h, case r of Inl m \<Rightarrow> Inl (Usearch m) | Inr x \<Rightarrow> Inr x))"

definition then_do :: "'s \<times> ('e + 'a) \<Rightarrow> ('s \<Rightarrow> 's \<times> ('e + 'b)) \<Rightarrow> 's \<times> ('e + 'b)" where
  "then_do m f = (case m of (s, Inl e) \<Rightarrow> (s, Inl e) | (s, Inr _) \<Rightarrow> f s)"

definition usize_double :: "nat \<Rightarrow> nat" where
  "usize_double n = min (2 * n) (2 ^ 64 - 1)"

definition hnsw_upsert ::
  "'f::linorder float_ops \<Rightarrow> ('h, 'f) usearch \<Rightarrow> u64 \<Rightarrow> 'f list \<Rightarrow> 'h \<Rightarrow> 'h \<times> (vector_error + unit)" where
  "hnsw_upsert fo us i vector h =
     then_do (if us_contains us i h then usearch_res (us_remove us i h) else (h, Inr 0)) (\<lambda>h.
     then_do (if us_capacity us h < us_size us h + 1
              then usearch_res (us_reserve us (usize_double (max (us_capacity us h) 1024)) h) else (h, Inr ())) (\<lambda>h.
       usearch_res (us_add us i (normalized fo vector) h)))"

fun hnsw_upserts ::
  "'f::linorder float_ops \<Rightarrow> ('h, 'f) usearch \<Rightarrow> (u64 \<times> 'f list) list \<Rightarrow> 'h \<Rightarrow> 'h \<times> (vector_error + unit)" where
  "hnsw_upserts fo us [] h = (h, Inr ())"
| "hnsw_upserts fo us ((i, v) # items) h = then_do (hnsw_upsert fo us i v h) (hnsw_upserts fo us items)"

definition hnsw_build ::
  "'f::linorder float_ops \<Rightarrow> ('h, 'f) usearch \<Rightarrow> VectorConfig \<Rightarrow> (u64 \<times> 'f list) list \<Rightarrow> vector_error + 'h" where
  "hnsw_build fo us cfg rows =
     (case us_new us cfg of
        Inl m \<Rightarrow> Inl (Usearch m)
      | Inr h \<Rightarrow>
          (case then_do (usearch_res (us_reserve us (max (length rows) 1024 * 2) h)) (hnsw_upserts fo us rows) of
             (h', Inl e) \<Rightarrow> Inl e | (h', Inr _) \<Rightarrow> Inr h'))"

definition hnsw_search ::
  "'f::linorder float_ops \<Rightarrow> ('h, 'f) usearch \<Rightarrow> 'f list \<Rightarrow> nat \<Rightarrow> 'h \<Rightarrow> vector_error + (u64 \<times> 'f) list" where
  "hnsw_search fo us query k h =
     (if us_size us h = 0 then Inr []
      else (case us_search us query k h of
              Inl m \<Rightarrow> Inl (Usearch m)
            | Inr ms \<Rightarrow> Inr (map (\<lambda>(i, d). (i, fo_sub fo (fo_one fo) d)) ms)))"

subsection \<open>Sources of vectors\<close>

text \<open>The trait \<open>VectorSource\<close>: what the index asks the durable store.\<close>

record 'f vector_source =
  so_entity_vectors :: "str \<Rightarrow> (u64 \<times> 'f list) list"
  so_entities :: "str list"
  so_vectors_by_id :: "u64 list \<Rightarrow> read_error + (u64 \<rightharpoonup> 'f list)"

definition stored_vector :: "'f float_ops \<Rightarrow> vector_row \<Rightarrow> u64 \<times> 'f list" where
  "stored_vector fo v = (as_u64 (v_vector_id v), map (fo_of_bits fo) (bytes_to_vec_f32 (v_embedding v)))"

definition sqlite_source :: "'f float_ops \<Rightarrow> store \<Rightarrow> 'f vector_source" where
  "sqlite_source fo db =
     \<lparr>so_entity_vectors = (\<lambda>e. map (stored_vector fo)
        (sort_key v_vector_id (filter (\<lambda>v. v_entity_id v = e) (vector_lookup db)))),
      so_entities = sort (remdups (map v_entity_id (vector_lookup db))),
      so_vectors_by_id = (\<lambda>ids. bind_res (chunked_rows v_vector_id (vector_lookup db) (map as_i64 ids))
        (\<lambda>rows. Inr (hash_map_of (map (stored_vector fo) rows))))\<rparr>"

type_synonym 'f memory_source = "(str \<times> (u64 \<times> 'f list) list) list"

definition entity_rows :: "str \<Rightarrow> 'f memory_source \<Rightarrow> (u64 \<times> 'f list) list" where
  "entity_rows e m = coalesce (map_of m e) []"

definition memory_vector_source :: "'f memory_source \<Rightarrow> 'f vector_source" where
  "memory_vector_source m =
     \<lparr>so_entity_vectors = (\<lambda>e. sort_key fst (entity_rows e m)),
      so_entities = sort (map fst (filter (\<lambda>(_, rows). rows \<noteq> []) m)),
      so_vectors_by_id = (\<lambda>ids. Inr (\<lambda>i.
        if i \<in> set ids then find_map (\<lambda>(_, rows). map_of rows i) m else None))\<rparr>"

definition record_insert :: "str \<Rightarrow> (u64 \<times> 'f list) list \<Rightarrow> 'f memory_source \<Rightarrow> 'f memory_source" where
  "record_insert e items m =
     (let m' = map (\<lambda>(name, rows). (name, if name \<noteq> e
                 then filter (\<lambda>(i, _). i \<notin> fst ` set items) rows else rows)) m
      in AList.update e (foldl (\<lambda>rows (i, v). AList.update i v rows) (entity_rows e m') items) m')"

definition record_remove :: "str \<Rightarrow> u64 \<Rightarrow> 'f memory_source \<Rightarrow> 'f memory_source" where
  "record_remove e i m = map (\<lambda>(name, rows). (name, if name = e then AList.delete i rows else rows)) m"

definition record_clear :: "str option \<Rightarrow> 'f memory_source \<Rightarrow> 'f memory_source" where
  "record_clear e m = (case e of Some n \<Rightarrow> AList.delete n m | None \<Rightarrow> [])"

subsection \<open>The index\<close>

datatype ('h, 'f) Segment = Flat "'f FlatSegment" | Hnsw 'h

text \<open>A slot is \<open>None\<close> until its segment is loaded from the source.\<close>

record ('h, 'f) vector_index =
  vi_config :: VectorConfig
  vi_slots :: "str \<rightharpoonup> ('h, 'f) Segment option"

definition index_new :: "VectorConfig \<Rightarrow> ('h, 'f) vector_index" where
  "index_new cfg = \<lparr>vi_config = cfg, vi_slots = Map.empty\<rparr>"

definition set_slot :: "str \<Rightarrow> ('h, 'f) Segment option \<Rightarrow> ('h, 'f) vector_index \<Rightarrow> ('h, 'f) vector_index" where
  "set_slot e s ix = ix\<lparr>vi_slots := (vi_slots ix)(e \<mapsto> s)\<rparr>"

definition slot_segment :: "str \<Rightarrow> ('h, 'f) vector_index \<Rightarrow> ('h, 'f) Segment option" where
  "slot_segment e ix = (case vi_slots ix e of None \<Rightarrow> None | Some s \<Rightarrow> s)"

definition check_dimensions :: "VectorConfig \<Rightarrow> 'f list \<Rightarrow> vector_error + unit" where
  "check_dimensions cfg v =
     (if length v \<noteq> vc_dimensions cfg then Inl (DimensionMismatch (length v) (vc_dimensions cfg)) else Inr ())"

fun check_all :: "VectorConfig \<Rightarrow> (u64 \<times> 'f list) list \<Rightarrow> vector_error + unit" where
  "check_all cfg [] = Inr ()"
| "check_all cfg ((i, v) # items) = bind_res (check_dimensions cfg v) (\<lambda>_. check_all cfg items)"

fun flat_upserts :: "'f::linorder float_ops \<Rightarrow> (u64 \<times> 'f list) list \<Rightarrow> 'f FlatSegment \<Rightarrow> 'f FlatSegment" where
  "flat_upserts fo [] seg = seg"
| "flat_upserts fo ((i, v) # items) seg = flat_upserts fo items (flat_upsert fo i v seg)"

text \<open>The loop of \<open>build_segment\<close> stops at the first vector of a wrong dimension and drops the segment.\<close>

definition build_segment ::
  "'f::linorder float_ops \<Rightarrow> ('h, 'f) usearch \<Rightarrow> VectorConfig \<Rightarrow> (u64 \<times> 'f list) list
     \<Rightarrow> vector_error + ('h, 'f) Segment" where
  "build_segment fo us cfg rows =
     (if vc_flat_threshold cfg < length rows then bind_res (hnsw_build fo us cfg rows) (\<lambda>h. Inr (Hnsw h))
      else bind_res (check_all cfg rows)
             (\<lambda>_. Inr (Flat (flat_upserts fo rows (flat_new (vc_dimensions cfg) (vc_quantization cfg))))))"

definition with_segment ::
  "'f::linorder float_ops \<Rightarrow> ('h, 'f) usearch \<Rightarrow> 'f vector_source \<Rightarrow> str \<Rightarrow> ('h, 'f) vector_index
     \<Rightarrow> ('h, 'f) vector_index \<times> (vector_error + ('h, 'f) Segment)" where
  "with_segment fo us src e ix =
     (case slot_segment e ix of
        Some seg \<Rightarrow> (ix, Inr seg)
      | None \<Rightarrow>
          (case build_segment fo us (vi_config ix) (so_entity_vectors src e) of
             Inl err \<Rightarrow> (set_slot e None ix, Inl err)
           | Inr seg \<Rightarrow> (set_slot e (Some seg) ix, Inr seg)))"

definition insert_batch ::
  "'f::linorder float_ops \<Rightarrow> ('h, 'f) usearch \<Rightarrow> str \<Rightarrow> (u64 \<times> 'f list) list \<Rightarrow> ('h, 'f) vector_index
     \<Rightarrow> ('h, 'f) vector_index \<times> (vector_error + unit)" where
  "insert_batch fo us e items ix =
     (if items = [] then (ix, Inr ())
      else (case check_all (vi_config ix) items of
          Inl err \<Rightarrow> (ix, Inl err)
        | Inr _ \<Rightarrow>
            (case slot_segment e ix of
               None \<Rightarrow> (set_slot e None ix, Inr ())
             | Some (Flat seg) \<Rightarrow>
                 (let seg' = flat_upserts fo items seg
                  in (set_slot e (if vc_flat_threshold (vi_config ix) < length (fs_ids seg')
                                  then None else Some (Flat seg')) ix, Inr ()))
             | Some (Hnsw h) \<Rightarrow>
                 (let (h', r) = hnsw_upserts fo us items h in (set_slot e (Some (Hnsw h')) ix, r)))))"

definition index_remove ::
  "('h, 'f) usearch \<Rightarrow> str \<Rightarrow> u64 \<Rightarrow> ('h, 'f) vector_index \<Rightarrow> ('h, 'f) vector_index \<times> (vector_error + nat)" where
  "index_remove us e i ix =
     (case slot_segment e ix of
        None \<Rightarrow> (set_slot e None ix, Inr 0)
      | Some (Flat seg) \<Rightarrow>
          (let (seg', removed) = flat_remove i seg
           in (set_slot e (Some (Flat seg')) ix, Inr (if removed then 1 else 0)))
      | Some (Hnsw h) \<Rightarrow>
          (let (h', r) = usearch_res (us_remove us i h) in (set_slot e (Some (Hnsw h')) ix, r)))"

definition index_clear :: "str option \<Rightarrow> ('h, 'f) vector_index \<Rightarrow> ('h, 'f) vector_index" where
  "index_clear e ix =
     ix\<lparr>vi_slots := (case e of Some n \<Rightarrow> (vi_slots ix)(n := None) | None \<Rightarrow> Map.empty)\<rparr>"

definition segment_len :: "('h, 'f) usearch \<Rightarrow> ('h, 'f) Segment \<Rightarrow> nat" where
  "segment_len us seg = (case seg of Flat flat \<Rightarrow> length (fs_ids flat) | Hnsw h \<Rightarrow> us_size us h)"

text \<open>A loop that loads the segment of each entity and reads it.\<close>

fun each_segment ::
  "'f::linorder float_ops \<Rightarrow> ('h, 'f) usearch \<Rightarrow> 'f vector_source \<Rightarrow> (('h, 'f) Segment \<Rightarrow> vector_error + 'a list)
     \<Rightarrow> str list \<Rightarrow> ('h, 'f) vector_index \<Rightarrow> ('h, 'f) vector_index \<times> (vector_error + 'a list)" where
  "each_segment fo us src f [] ix = (ix, Inr [])"
| "each_segment fo us src f (e # es) ix =
     (case with_segment fo us src e ix of
        (ix', Inl err) \<Rightarrow> (ix', Inl err)
      | (ix', Inr seg) \<Rightarrow>
          (case f seg of
             Inl err \<Rightarrow> (ix', Inl err)
           | Inr xs \<Rightarrow> (let (ix'', r) = each_segment fo us src f es ix'
                        in (ix'', bind_res r (\<lambda>ys. Inr (xs @ ys))))))"

definition index_len ::
  "'f::linorder float_ops \<Rightarrow> ('h, 'f) usearch \<Rightarrow> 'f vector_source \<Rightarrow> str option \<Rightarrow> ('h, 'f) vector_index
     \<Rightarrow> ('h, 'f) vector_index \<times> (vector_error + nat)" where
  "index_len fo us src e ix =
     (let (ix', r) = each_segment fo us src (\<lambda>seg. Inr [segment_len us seg])
            (case e of Some n \<Rightarrow> [n] | None \<Rightarrow> so_entities src) ix
      in (ix', bind_res r (\<lambda>ns. Inr (sum_list ns))))"

definition candidate_count :: "VectorConfig \<Rightarrow> nat \<Rightarrow> nat" where
  "candidate_count cfg limit =
     (if vc_quantization cfg = F32 then limit else min (limit * vc_rescore_factor cfg) (2 ^ 64 - 1))"

text \<open>The hits of quantised segments are scored again with the stored vectors.\<close>

definition rescore ::
  "'f::linorder float_ops \<Rightarrow> VectorConfig \<Rightarrow> 'f vector_source \<Rightarrow> 'f list \<Rightarrow> (u64 \<times> 'f) list
     \<Rightarrow> vector_error + (u64 \<times> 'f) list" where
  "rescore fo cfg src q hits =
     (if vc_quantization cfg \<noteq> F32 \<and> hits \<noteq> []
      then (case so_vectors_by_id src (map fst hits) of
              Inl err \<Rightarrow> Inl (Source err)
            | Inr full \<Rightarrow> Inr (List.map_filter (\<lambda>(i, _).
                map_option (\<lambda>v. (i, dot_f32 fo q (normalized fo v))) (full i)) hits))
      else Inr hits)"

definition index_search ::
  "'f::linorder float_ops \<Rightarrow> ('h, 'f) usearch \<Rightarrow> 'f vector_source \<Rightarrow> str option \<Rightarrow> 'f list \<Rightarrow> nat
     \<Rightarrow> ('h, 'f) vector_index \<Rightarrow> ('h, 'f) vector_index \<times> (vector_error + (u64 \<times> 'f) list)" where
  "index_search fo us src entity query limit ix =
     (case check_dimensions (vi_config ix) query of
        Inl err \<Rightarrow> (ix, Inl err)
      | Inr _ \<Rightarrow>
          if limit = 0 then (ix, Inr [])
          else (let q = normalized fo query;
                    candidates = candidate_count (vi_config ix) limit;
                    (ix', r) = each_segment fo us src
                      (\<lambda>seg. case seg of Flat flat \<Rightarrow> Inr (flat_scan fo q candidates flat)
                                       | Hnsw h \<Rightarrow> hnsw_search fo us q candidates h)
                      (case entity of Some e \<Rightarrow> [e] | None \<Rightarrow> so_entities src) ix
                in (ix', bind_res r (\<lambda>hits.
                     bind_res (rescore fo (vi_config ix) src q hits) (\<lambda>hits.
                       Inr (map (\<lambda>(i, sim). (i, fo_sub fo (fo_one fo) sim))
                          (take limit (sort_desc snd (sort_key fst hits)))))))))"

end
