(* ===== verification/Lifecycle.thy ===== *)
theory Lifecycle
  imports Complex_Main Names Calendar Vector_Index
begin

section \<open>The lifecycle of a memory\<close>

text \<open>
  Models \<open>src/lifecycle.rs\<close>: how the text and the kind of a memory decide its scores, its class of
  sensitivity and retention, its indexing and its expiry.  The constants are exact rationals; a
  \<open>score_ops\<close> rounds them to floats (\<open>fo_lit\<close>) and does the float arithmetic, so that nothing
  depends on how sums round.  Whether a word begins with an uppercase character is the parameter
  \<open>upper\<close> (the Unicode table of the standard library).
\<close>

subsection \<open>Constants\<close>

definition ADMISSION_WEIGHT_SALIENCE :: rat where
  "ADMISSION_WEIGHT_SALIENCE = 22 / 100"

definition ADMISSION_WEIGHT_NOVELTY :: rat where
  "ADMISSION_WEIGHT_NOVELTY = 12 / 100"

definition ADMISSION_WEIGHT_CONFIDENCE :: rat where
  "ADMISSION_WEIGHT_CONFIDENCE = 18 / 100"

definition ADMISSION_WEIGHT_SPECIFICITY :: rat where
  "ADMISSION_WEIGHT_SPECIFICITY = 16 / 100"

definition ADMISSION_WEIGHT_TEMPORAL :: rat where
  "ADMISSION_WEIGHT_TEMPORAL = 10 / 100"

definition ADMISSION_WEIGHT_UTILITY :: rat where
  "ADMISSION_WEIGHT_UTILITY = 14 / 100"

definition ADMISSION_WEIGHT_STABILITY :: rat where
  "ADMISSION_WEIGHT_STABILITY = 8 / 100"

definition SENSITIVITY_RISK_PUBLIC :: rat where
  "SENSITIVITY_RISK_PUBLIC = 0"

definition SENSITIVITY_RISK_PERSONAL :: rat where
  "SENSITIVITY_RISK_PERSONAL = 4 / 100"

definition SENSITIVITY_RISK_SENSITIVE :: rat where
  "SENSITIVITY_RISK_SENSITIVE = 10 / 100"

definition SENSITIVITY_RISK_RESTRICTED :: rat where
  "SENSITIVITY_RISK_RESTRICTED = 18 / 100"

definition INFERENCE_PENALTY :: rat where
  "INFERENCE_PENALTY = 10 / 100"

definition NOVELTY_TOKEN_THRESHOLD :: nat where
  "NOVELTY_TOKEN_THRESHOLD = 8"

definition NOVELTY_SCORE_LONG :: rat where
  "NOVELTY_SCORE_LONG = 62 / 100"

definition NOVELTY_SCORE_SHORT :: rat where
  "NOVELTY_SCORE_SHORT = 35 / 100"

definition ADMISSION_SCORE_INDEXED :: rat where
  "ADMISSION_SCORE_INDEXED = 50 / 100"

definition ADMISSION_SCORE_ADMITTED :: rat where
  "ADMISSION_SCORE_ADMITTED = 30 / 100"

definition PROMOTE_TO_PROFILE_MIN_STABILITY :: rat where
  "PROMOTE_TO_PROFILE_MIN_STABILITY = 55 / 100"

definition PROMOTE_TO_PROFILE_MIN_CONFIDENCE :: rat where
  "PROMOTE_TO_PROFILE_MIN_CONFIDENCE = 70 / 100"

definition INDEX_VECTOR_MIN_ADMISSION :: rat where
  "INDEX_VECTOR_MIN_ADMISSION = 34 / 100"

definition SALIENCE_DECISION :: rat where
  "SALIENCE_DECISION = 88 / 100"

definition SALIENCE_PREFERENCE :: rat where
  "SALIENCE_PREFERENCE = 78 / 100"

definition SALIENCE_FACT :: rat where
  "SALIENCE_FACT = 72 / 100"

definition SALIENCE_LESSON :: rat where
  "SALIENCE_LESSON = 70 / 100"

definition SALIENCE_SESSION_SUMMARY :: rat where
  "SALIENCE_SESSION_SUMMARY = 56 / 100"

definition SALIENCE_CONVERSATIONAL :: rat where
  "SALIENCE_CONVERSATIONAL = 42 / 100"

definition SALIENCE_KEYWORD_BOOST :: rat where
  "SALIENCE_KEYWORD_BOOST = 35 / 1000"

definition SALIENCE_KEYWORD_BOOST_MAX :: rat where
  "SALIENCE_KEYWORD_BOOST_MAX = 18 / 100"

definition SPECIFICITY_BASE :: rat where
  "SPECIFICITY_BASE = 28 / 100"

definition SPECIFICITY_NUMERIC_BOOST :: rat where
  "SPECIFICITY_NUMERIC_BOOST = 18 / 100"

definition SPECIFICITY_NAMED_ENTITY_BOOST :: rat where
  "SPECIFICITY_NAMED_ENTITY_BOOST = 22 / 100"

definition SPECIFICITY_WORD_BOOST :: rat where
  "SPECIFICITY_WORD_BOOST = 5 / 100"

definition SPECIFICITY_WORD_BOOST_MAX :: rat where
  "SPECIFICITY_WORD_BOOST_MAX = 20 / 100"

definition TEMPORAL_SCORE_WITH_SIGNAL :: rat where
  "TEMPORAL_SCORE_WITH_SIGNAL = 82 / 100"

definition TEMPORAL_SCORE_NO_SIGNAL :: rat where
  "TEMPORAL_SCORE_NO_SIGNAL = 20 / 100"

definition CONFIDENCE_INFERENCE :: rat where
  "CONFIDENCE_INFERENCE = 52 / 100"

definition CONFIDENCE_HIGH :: rat where
  "CONFIDENCE_HIGH = 88 / 100"

definition CONFIDENCE_LESSON :: rat where
  "CONFIDENCE_LESSON = 72 / 100"

definition CONFIDENCE_SESSION_SUMMARY :: rat where
  "CONFIDENCE_SESSION_SUMMARY = 68 / 100"

definition CONFIDENCE_CONVERSATIONAL :: rat where
  "CONFIDENCE_CONVERSATIONAL = 64 / 100"

definition STABILITY_INFERENCE :: rat where
  "STABILITY_INFERENCE = 32 / 100"

definition STABILITY_TEMPORARY :: rat where
  "STABILITY_TEMPORARY = 34 / 100"

definition STABILITY_PERMANENT :: rat where
  "STABILITY_PERMANENT = 78 / 100"

definition STABILITY_LESSON :: rat where
  "STABILITY_LESSON = 62 / 100"

definition STABILITY_SESSION_SUMMARY :: rat where
  "STABILITY_SESSION_SUMMARY = 50 / 100"

definition STABILITY_CONVERSATIONAL :: rat where
  "STABILITY_CONVERSATIONAL = 44 / 100"

definition RETENTION_INFERENCE_STABILITY_MAX :: rat where
  "RETENTION_INFERENCE_STABILITY_MAX = 45 / 100"

definition RETENTION_SALIENCE_MIN :: rat where
  "RETENTION_SALIENCE_MIN = 75 / 100"

definition RETENTION_STABILITY_MIN :: rat where
  "RETENTION_STABILITY_MIN = 72 / 100"

definition UTILITY_HIGH :: rat where
  "UTILITY_HIGH = 72 / 100"

definition UTILITY_FACT :: rat where
  "UTILITY_FACT = 66 / 100"

definition UTILITY_SESSION_SUMMARY :: rat where
  "UTILITY_SESSION_SUMMARY = 48 / 100"

definition UTILITY_CONVERSATIONAL :: rat where
  "UTILITY_CONVERSATIONAL = 38 / 100"

definition UTILITY_KEYWORD_BOOST :: rat where
  "UTILITY_KEYWORD_BOOST = 4 / 100"

definition UTILITY_KEYWORD_BOOST_MAX :: rat where
  "UTILITY_KEYWORD_BOOST_MAX = 18 / 100"

definition EPHEMERAL_INFERENCE_DAYS :: u64 where
  "EPHEMERAL_INFERENCE_DAYS = 30"

definition EPHEMERAL_DIRECT_DAYS :: u64 where
  "EPHEMERAL_DIRECT_DAYS = 14"

definition WORKING_DAYS :: u64 where
  "WORKING_DAYS = 90"

definition EPISODIC_DAYS :: u64 where
  "EPISODIC_DAYS = 730"

definition LIFECYCLE_POLICY_VERSION :: str where
  "LIFECYCLE_POLICY_VERSION = ''lifecycle-v1-deterministic''"

subsection \<open>Data\<close>

datatype SensitivityClass = Public | Personal | Sensitive | Restricted

datatype RetentionClass = Ephemeral | Working | Episodic | LongTerm | Archive | ComplianceSensitive

datatype LifecycleState = Observed | Admitted | Indexed | Expired | Invalidated | Tombstoned

record 'f LifecycleMetadata =
  lm_policy_version :: str
  lm_lifecycle_state :: LifecycleState
  lm_admission_score :: 'f
  lm_salience_score :: 'f
  lm_novelty_score :: 'f
  lm_confidence_score :: 'f
  lm_stability_score :: 'f
  lm_specificity_score :: 'f
  lm_temporal_score :: 'f
  lm_utility_score :: 'f
  lm_sensitivity_class :: SensitivityClass
  lm_retention_class :: RetentionClass
  lm_index_fts :: bool
  lm_index_vector :: bool
  lm_promote_to_profile :: bool
  lm_is_inference :: bool
  lm_expires_at_ms :: "u64 option"
  lm_reasons :: "str list"

record 'f score_ops = "'f float_ops" +
  fo_lit :: "rat \<Rightarrow> 'f"

definition clamp_unit :: "('f::linorder, 'a) score_ops_scheme \<Rightarrow> 'f \<Rightarrow> 'f" where
  "clamp_unit so x = (if x < fo_lit so 0 then fo_lit so 0 else if fo_lit so 1 < x then fo_lit so 1 else x)"

subsection \<open>Scores\<close>

text \<open>Each score comes with the reasons it pushes.\<close>

definition salient_terms :: "str list" where
  "salient_terms =
     [''adopted'', ''married'', ''moved'', ''graduated'', ''started'', ''joined'', ''won'',
      ''lost'', ''diagnosed'', ''allergy'', ''health'', ''family'', ''children'', ''dog'',
      ''pet'', ''job'', ''career'', ''degree'', ''favorite'', ''prefers'', ''decided'', ''plan'',
      ''goal'', ''trip'', ''visited'']"

text \<open>\<open>(hits as f32 * boost).min(most)\<close>\<close>

definition keyword_boost :: "('f::linorder, 'a) score_ops_scheme \<Rightarrow> nat \<Rightarrow> rat \<Rightarrow> rat \<Rightarrow> 'f" where
  "keyword_boost so hits boost most =
     min (fo_mul so (fo_of_int so (int hits)) (fo_lit so boost)) (fo_lit so most)"

fun kind_salience :: "MemoryKind \<Rightarrow> rat" where
  "kind_salience Decision = SALIENCE_DECISION"
| "kind_salience Preference = SALIENCE_PREFERENCE"
| "kind_salience Fact = SALIENCE_FACT"
| "kind_salience Lesson = SALIENCE_LESSON"
| "kind_salience SessionSummary = SALIENCE_SESSION_SUMMARY"
| "kind_salience Conversational = SALIENCE_CONVERSATIONAL"
| "kind_salience SyntheticQuery = SALIENCE_CONVERSATIONAL"

definition salience_score ::
  "('f::linorder, 'a) score_ops_scheme \<Rightarrow> str \<Rightarrow> MemoryKind \<Rightarrow> 'f \<times> str list" where
  "salience_score so lower kind =
     (let score = fo_lit so (kind_salience kind);
          hits = length (filter (contains lower) salient_terms)
      in if 0 < hits
         then (clamp_unit so (fo_add so score (keyword_boost so hits SALIENCE_KEYWORD_BOOST SALIENCE_KEYWORD_BOOST_MAX)),
               [''salient_keyword''])
         else (clamp_unit so score, []))"

definition specific_terms :: "str list" where
  "specific_terms =
     [''because'', ''when'', ''where'', ''with'', ''at'', ''on'', ''in'', ''named'', ''called'',
      ''from'']"

definition has_named_entity :: "(str \<Rightarrow> bool) \<Rightarrow> str \<Rightarrow> bool" where
  "has_named_entity upper text \<longleftrightarrow> list_ex (\<lambda>w. upper w \<and> 2 < length w) (split_whitespace text)"

definition specificity_score ::
  "('f::linorder, 'a) score_ops_scheme \<Rightarrow> (str \<Rightarrow> bool) \<Rightarrow> str \<Rightarrow> str \<Rightarrow> 'f \<times> str list" where
  "specificity_score so upper text lower =
     (let digit = list_ex is_digit text; named = has_named_entity upper text;
          s0 = fo_lit so SPECIFICITY_BASE;
          s1 = (if digit then fo_add so s0 (fo_lit so SPECIFICITY_NUMERIC_BOOST) else s0);
          s2 = (if named then fo_add so s1 (fo_lit so SPECIFICITY_NAMED_ENTITY_BOOST) else s1);
          hits = length (filter (\<lambda>needle. contains lower ('' '' @ needle @ '' '')) specific_terms);
          s3 = fo_add so s2 (keyword_boost so hits SPECIFICITY_WORD_BOOST SPECIFICITY_WORD_BOOST_MAX)
      in (clamp_unit so s3,
          (if digit then [''numeric_or_date_signal''] else []) @ (if named then [''named_entity_signal''] else [])))"

definition relative_terms :: "str list" where
  "relative_terms =
     [''yesterday'', ''today'', ''tomorrow'', ''last '', ''next '', ''before'', ''after'',
      ''recently'', ''year'', ''month'', ''week'']"

definition temporal_score :: "('f, 'a) score_ops_scheme \<Rightarrow> str \<Rightarrow> 'f \<times> str list" where
  "temporal_score so lower =
     (if list_ex (contains lower) MONTHS \<or> list_ex (contains lower) relative_terms
      then (fo_lit so TEMPORAL_SCORE_WITH_SIGNAL, [''temporal_signal''])
      else (fo_lit so TEMPORAL_SCORE_NO_SIGNAL, []))"

definition confidence_for_kind :: "MemoryKind \<Rightarrow> bool \<Rightarrow> rat" where
  "confidence_for_kind kind is_inference =
     (if is_inference then CONFIDENCE_INFERENCE
      else (case kind of
              Fact \<Rightarrow> CONFIDENCE_HIGH | Preference \<Rightarrow> CONFIDENCE_HIGH | Decision \<Rightarrow> CONFIDENCE_HIGH
            | Lesson \<Rightarrow> CONFIDENCE_LESSON
            | SessionSummary \<Rightarrow> CONFIDENCE_SESSION_SUMMARY
            | Conversational \<Rightarrow> CONFIDENCE_CONVERSATIONAL | SyntheticQuery \<Rightarrow> CONFIDENCE_CONVERSATIONAL))"

definition temporary_terms :: "str list" where
  "temporary_terms =
     [''today'', ''currently'', ''right now'', ''lately'', ''recently'', ''this week'',
      ''this month'', ''feeling'', ''mood'']"

definition stability_score ::
  "('f, 'a) score_ops_scheme \<Rightarrow> str \<Rightarrow> MemoryKind \<Rightarrow> bool \<Rightarrow> 'f \<times> str list" where
  "stability_score so lower kind is_inference =
     (if is_inference then (fo_lit so STABILITY_INFERENCE, [''inference_lower_stability''])
      else if list_ex (contains lower) temporary_terms then (fo_lit so STABILITY_TEMPORARY, [''temporary_state''])
      else (fo_lit so (case kind of
              Preference \<Rightarrow> STABILITY_PERMANENT | Decision \<Rightarrow> STABILITY_PERMANENT | Fact \<Rightarrow> STABILITY_PERMANENT
            | Lesson \<Rightarrow> STABILITY_LESSON
            | SessionSummary \<Rightarrow> STABILITY_SESSION_SUMMARY
            | Conversational \<Rightarrow> STABILITY_CONVERSATIONAL | SyntheticQuery \<Rightarrow> STABILITY_CONVERSATIONAL), []))"

definition useful_terms :: "str list" where
  "useful_terms =
     [''favorite'', ''prefers'', ''doesn't like'', ''allergy'', ''health'', ''birthday'',
      ''family'', ''job'', ''career'', ''goal'', ''plan'', ''remember'', ''important'',
      ''decided'', ''lesson'']"

fun kind_utility :: "MemoryKind \<Rightarrow> rat" where
  "kind_utility Preference = UTILITY_HIGH"
| "kind_utility Decision = UTILITY_HIGH"
| "kind_utility Lesson = UTILITY_HIGH"
| "kind_utility Fact = UTILITY_FACT"
| "kind_utility SessionSummary = UTILITY_SESSION_SUMMARY"
| "kind_utility Conversational = UTILITY_CONVERSATIONAL"
| "kind_utility SyntheticQuery = UTILITY_CONVERSATIONAL"

definition utility_score ::
  "('f::linorder, 'a) score_ops_scheme \<Rightarrow> str \<Rightarrow> MemoryKind \<Rightarrow> 'f \<times> str list" where
  "utility_score so lower kind =
     (let hits = length (filter (contains lower) useful_terms)
      in (clamp_unit so (fo_add so (fo_lit so (kind_utility kind))
            (keyword_boost so hits UTILITY_KEYWORD_BOOST UTILITY_KEYWORD_BOOST_MAX)),
          if 0 < hits then [''future_utility_signal''] else []))"

subsection \<open>Classes\<close>

text \<open>\<open>sensitivity_class\<close> returns the class and the reason it pushes.\<close>

definition sensitivity_class :: "str \<Rightarrow> SensitivityClass \<times> str list" where
  "sensitivity_class lower =
     (if list_ex (contains lower) [''password'', ''secret key'', ''api key'', ''token'', ''private key'', ''ssn'',
           ''social security'', ''credit card'']
      then (Restricted, [''restricted_sensitive_signal''])
      else if list_ex (contains lower) [''health'', ''diagnosed'', ''allergy'', ''medical'', ''therapy'', ''salary'',
           ''bank'', ''financial'', ''religion'', ''political'', ''pregnant'']
      then (Sensitive, [''sensitive_signal''])
      else if list_ex (contains lower) [''family'', ''spouse'', ''children'', ''address'', ''lives'', ''birthday'',
           ''relationship'']
      then (Personal, [''personal_signal''])
      else (Public, []))"

definition retention_class ::
  "('f::linorder, 'a) score_ops_scheme \<Rightarrow> MemoryKind \<Rightarrow> SensitivityClass \<Rightarrow> 'f \<Rightarrow> 'f \<Rightarrow> bool \<Rightarrow> RetentionClass" where
  "retention_class so kind sensitivity salience stability is_inference =
     (if sensitivity = Restricted then ComplianceSensitive
      else if is_inference \<and> stability < fo_lit so RETENTION_INFERENCE_STABILITY_MAX then Ephemeral
      else if fo_lit so RETENTION_SALIENCE_MIN \<le> salience \<or> fo_lit so RETENTION_STABILITY_MIN \<le> stability then LongTerm
      else (case kind of
              Preference \<Rightarrow> LongTerm | Decision \<Rightarrow> LongTerm | Fact \<Rightarrow> LongTerm
            | Lesson \<Rightarrow> Archive
            | SessionSummary \<Rightarrow> Episodic | Conversational \<Rightarrow> Episodic | SyntheticQuery \<Rightarrow> Episodic))"

definition DAY_MS :: u64 where
  "DAY_MS = 86400000"

definition expires_at_for :: "RetentionClass \<Rightarrow> u64 \<Rightarrow> bool \<Rightarrow> u64 option" where
  "expires_at_for retention timestamp_ms is_inference =
     (case retention of
        Ephemeral \<Rightarrow> Some (saturating_add_u64 timestamp_ms
          (if is_inference then EPHEMERAL_INFERENCE_DAYS * DAY_MS else EPHEMERAL_DIRECT_DAYS * DAY_MS))
      | Working \<Rightarrow> Some (saturating_add_u64 timestamp_ms (WORKING_DAYS * DAY_MS))
      | Episodic \<Rightarrow> Some (saturating_add_u64 timestamp_ms (EPISODIC_DAYS * DAY_MS))
      | LongTerm \<Rightarrow> None | Archive \<Rightarrow> None | ComplianceSensitive \<Rightarrow> None)"

fun sensitivity_risk :: "SensitivityClass \<Rightarrow> rat" where
  "sensitivity_risk Public = SENSITIVITY_RISK_PUBLIC"
| "sensitivity_risk Personal = SENSITIVITY_RISK_PERSONAL"
| "sensitivity_risk Sensitive = SENSITIVITY_RISK_SENSITIVE"
| "sensitivity_risk Restricted = SENSITIVITY_RISK_RESTRICTED"

text \<open>The weighted sum, from left to right.\<close>

definition admission_score ::
  "('f::linorder, 'a) score_ops_scheme \<Rightarrow> (rat \<times> 'f) list \<Rightarrow> 'f \<Rightarrow> 'f \<Rightarrow> 'f" where
  "admission_score so weighted risk penalty =
     (let products = map (\<lambda>(w, s). fo_mul so (fo_lit so w) s) weighted
      in clamp_unit so (fo_sub so (fo_sub so (foldl (fo_add so) (hd products) (tl products)) risk) penalty))"

definition evaluate_lifecycle ::
  "('f::linorder, 'a) score_ops_scheme \<Rightarrow> (str \<Rightarrow> bool) \<Rightarrow> str \<Rightarrow> MemoryKind \<Rightarrow> u64 \<Rightarrow> 'f option \<Rightarrow> bool
     \<Rightarrow> 'f LifecycleMetadata" where
  "evaluate_lifecycle so upper text kind timestamp_ms confidence_hint is_inference =
     (let lower = to_ascii_lowercase text;
          token_count = length (split_whitespace lower);
          (salience, r1) = salience_score so lower kind;
          (specificity, r2) = specificity_score so upper text lower;
          (temporal, r3) = temporal_score so lower;
          (sensitivity, r4) = sensitivity_class lower;
          confidence = clamp_unit so (case confidence_hint of Some c \<Rightarrow> c
            | None \<Rightarrow> fo_lit so (confidence_for_kind kind is_inference));
          (stability, r5) = stability_score so lower kind is_inference;
          novelty = fo_lit so (if NOVELTY_TOKEN_THRESHOLD \<le> token_count then NOVELTY_SCORE_LONG else NOVELTY_SCORE_SHORT);
          (utility, r6) = utility_score so lower kind;
          admission = admission_score so
            [(ADMISSION_WEIGHT_SALIENCE, salience), (ADMISSION_WEIGHT_NOVELTY, novelty),
             (ADMISSION_WEIGHT_CONFIDENCE, confidence), (ADMISSION_WEIGHT_SPECIFICITY, specificity),
             (ADMISSION_WEIGHT_TEMPORAL, temporal), (ADMISSION_WEIGHT_UTILITY, utility),
             (ADMISSION_WEIGHT_STABILITY, stability)]
            (fo_lit so (sensitivity_risk sensitivity)) (fo_lit so (if is_inference then INFERENCE_PENALTY else 0));
          retention = retention_class so kind sensitivity salience stability is_inference
      in \<lparr>lm_policy_version = LIFECYCLE_POLICY_VERSION,
          lm_lifecycle_state =
            (if fo_lit so ADMISSION_SCORE_INDEXED \<le> admission then Indexed
             else if fo_lit so ADMISSION_SCORE_ADMITTED \<le> admission then Admitted
             else Observed),
          lm_admission_score = admission, lm_salience_score = salience, lm_novelty_score = novelty,
          lm_confidence_score = confidence, lm_stability_score = stability,
          lm_specificity_score = specificity, lm_temporal_score = temporal, lm_utility_score = utility,
          lm_sensitivity_class = sensitivity, lm_retention_class = retention,
          lm_index_fts = True,
          lm_index_vector = (fo_lit so INDEX_VECTOR_MIN_ADMISSION \<le> admission \<and> retention \<noteq> Ephemeral),
          lm_promote_to_profile =
            ((kind = Preference \<or> kind = Decision \<or> kind = Fact)
             \<and> fo_lit so PROMOTE_TO_PROFILE_MIN_STABILITY \<le> stability
             \<and> fo_lit so PROMOTE_TO_PROFILE_MIN_CONFIDENCE \<le> confidence
             \<and> sensitivity \<noteq> Restricted),
          lm_is_inference = is_inference,
          lm_expires_at_ms = expires_at_for retention timestamp_ms is_inference,
          lm_reasons = r1 @ r2 @ r3 @ r4 @ r5 @ r6\<rparr>)"

subsection \<open>What the classification guarantees\<close>

definition in_unit :: "('f::linorder, 'a) score_ops_scheme \<Rightarrow> 'f \<Rightarrow> bool" where
  "in_unit so x \<longleftrightarrow> fo_lit so 0 \<le> x \<and> x \<le> fo_lit so 1"

lemma clamp_in_unit: "mono (fo_lit so) \<Longrightarrow> in_unit so (clamp_unit so x)"
  by (auto simp: in_unit_def clamp_unit_def mono_def not_less)

lemma lit_in_unit: "mono (fo_lit so) \<Longrightarrow> 0 \<le> r \<Longrightarrow> r \<le> 1 \<Longrightarrow> in_unit so (fo_lit so r)"
  by (simp add: in_unit_def mono_def)

lemma computed_scores_in_unit:
  assumes "mono (fo_lit so)"
  shows "in_unit so (fst (salience_score so lower kind))" "in_unit so (fst (specificity_score so upper text lower))"
    "in_unit so (fst (utility_score so lower kind))" "in_unit so (admission_score so ws risk penalty)"
  using clamp_in_unit [OF assms]
  by (simp_all add: salience_score_def specificity_score_def utility_score_def admission_score_def Let_def)

lemma literal_scores_in_unit:
  assumes "mono (fo_lit so)"
  shows "in_unit so (fst (temporal_score so lower))" "in_unit so (fst (stability_score so lower kind inference))"
    "in_unit so (fo_lit so (if NOVELTY_TOKEN_THRESHOLD \<le> n then NOVELTY_SCORE_LONG else NOVELTY_SCORE_SHORT))"
  by (auto intro!: lit_in_unit [OF assms] simp: temporal_score_def stability_score_def
    TEMPORAL_SCORE_WITH_SIGNAL_def TEMPORAL_SCORE_NO_SIGNAL_def STABILITY_INFERENCE_def STABILITY_TEMPORARY_def
    STABILITY_PERMANENT_def STABILITY_LESSON_def STABILITY_SESSION_SUMMARY_def STABILITY_CONVERSATIONAL_def
    NOVELTY_SCORE_LONG_def NOVELTY_SCORE_SHORT_def split: MemoryKind.splits)

lemma le_saturating_add: "t \<le> saturating_add_u64 t d"
  by (simp add: saturating_add_u64_def no_olen_add_nat)

definition life_span :: "u64 \<Rightarrow> nat \<Rightarrow> u64 option" where
  "life_span t days = Some (saturating_add_u64 t (of_nat days * 86400000))"

definition expected_retention :: "MemoryKind \<Rightarrow> SensitivityClass \<Rightarrow> bool \<Rightarrow> RetentionClass set" where
  "expected_retention kind sensitivity inference =
     (if sensitivity = Restricted then {ComplianceSensitive}
      else if inference then {Ephemeral}
      else (case kind of Preference \<Rightarrow> {LongTerm} | Decision \<Rightarrow> {LongTerm} | Fact \<Rightarrow> {LongTerm}
              | Lesson \<Rightarrow> {LongTerm, Archive} | _ \<Rightarrow> {LongTerm, Episodic}))"

text \<open>
  C27. The classification of a memory is sound whatever its text, and however sums of floats
  round: every score lies between 0 and 1; text with credentials is kept as compliance-sensitive,
  never promoted and never expires; an inference is ephemeral, lives thirty days, is not indexed
  as a vector and not promoted; other memories are long-term, archived or episodic (two years) by
  their kind, so that the class \<open>Working\<close> and the fourteen days of directly observed ephemeral
  memories are never used; no memory expires before it was stored.
\<close>

theorem lifecycle_classified:
  assumes "mono (fo_lit so)"
    and "fo_lit so STABILITY_INFERENCE < fo_lit so RETENTION_INFERENCE_STABILITY_MAX"
    and l: "l = evaluate_lifecycle so upper text kind t hint inference"
  shows "(\<forall>x \<in> {lm_admission_score l, lm_salience_score l, lm_novelty_score l, lm_confidence_score l,
        lm_stability_score l, lm_specificity_score l, lm_temporal_score l, lm_utility_score l}. in_unit so x)
     \<and> lm_retention_class l \<in> expected_retention kind (lm_sensitivity_class l) inference
     \<and> lm_expires_at_ms l = (case lm_retention_class l of
          Ephemeral \<Rightarrow> life_span t 30 | Episodic \<Rightarrow> life_span t 730 | _ \<Rightarrow> None)
     \<and> (case lm_expires_at_ms l of None \<Rightarrow> True | Some x \<Rightarrow> t \<le> x)
     \<and> (lm_retention_class l = Ephemeral \<longrightarrow> \<not> lm_index_vector l)
     \<and> (lm_sensitivity_class l = Restricted \<or> inference \<longrightarrow> \<not> lm_promote_to_profile l)
     \<and> lm_index_fts l \<and> lm_lifecycle_state l \<in> {Observed, Admitted, Indexed}"
proof -
  let ?lower = "to_ascii_lowercase text"
  have stab: "fst (stability_score so ?lower kind True) = fo_lit so STABILITY_INFERENCE"
    by (simp add: stability_score_def)
  have "fo_lit so RETENTION_INFERENCE_STABILITY_MAX \<le> fo_lit so PROMOTE_TO_PROFILE_MIN_STABILITY"
    using assms(1) by (simp add: mono_def RETENTION_INFERENCE_STABILITY_MAX_def PROMOTE_TO_PROFILE_MIN_STABILITY_def)
  then have low: "\<not> fo_lit so PROMOTE_TO_PROFILE_MIN_STABILITY \<le> fo_lit so STABILITY_INFERENCE"
    using assms(2) by simp
  have sel: "lm_salience_score l = fst (salience_score so ?lower kind)"
    "lm_specificity_score l = fst (specificity_score so upper text ?lower)"
    "lm_temporal_score l = fst (temporal_score so ?lower)"
    "lm_utility_score l = fst (utility_score so ?lower kind)"
    "lm_stability_score l = fst (stability_score so ?lower kind inference)"
    "\<exists>ws risk penalty. lm_admission_score l = admission_score so ws risk penalty"
    "\<exists>c. lm_confidence_score l = clamp_unit so c"
    "\<exists>n. lm_novelty_score l = fo_lit so (if NOVELTY_TOKEN_THRESHOLD \<le> n then NOVELTY_SCORE_LONG else NOVELTY_SCORE_SHORT)"
    "lm_retention_class l = retention_class so kind (lm_sensitivity_class l) (lm_salience_score l) (lm_stability_score l) inference"
    "lm_expires_at_ms l = expires_at_for (lm_retention_class l) t inference"
    "lm_index_vector l \<longrightarrow> lm_retention_class l \<noteq> Ephemeral"
    "lm_promote_to_profile l \<longrightarrow> fo_lit so PROMOTE_TO_PROFILE_MIN_STABILITY \<le> lm_stability_score l
       \<and> lm_sensitivity_class l \<noteq> Restricted"
    "lm_index_fts l" "lm_lifecycle_state l \<in> {Observed, Admitted, Indexed}"
    unfolding l evaluate_lifecycle_def Let_def by (auto simp: split_beta)
  have unit: "in_unit so (lm_admission_score l)" "in_unit so (lm_confidence_score l)" "in_unit so (lm_novelty_score l)"
    using sel(6-8) computed_scores_in_unit(4) [OF assms(1)] clamp_in_unit [OF assms(1)]
      literal_scores_in_unit(3) [OF assms(1)] by metis+
  have ret: "lm_retention_class l \<in> expected_retention kind (lm_sensitivity_class l) inference"
    using assms(2) stab unfolding sel(5,9)
    by (cases inference; cases kind) (simp_all add: retention_class_def expected_retention_def)
  then have direct: "inference" if "lm_retention_class l = Ephemeral"
    using that by (cases kind; cases inference) (auto simp: expected_retention_def split: if_splits)
  from ret have "lm_retention_class l \<noteq> Working"
    by (cases kind) (auto simp: expected_retention_def split: if_splits)
  then have exp: "lm_expires_at_ms l = (case lm_retention_class l of
      Ephemeral \<Rightarrow> life_span t 30 | Episodic \<Rightarrow> life_span t 730 | _ \<Rightarrow> None)"
    using direct unfolding sel(10)
    by (cases "lm_retention_class l") (simp_all add: expires_at_for_def life_span_def DAY_MS_def
      EPHEMERAL_INFERENCE_DAYS_def EPISODIC_DAYS_def)
  have "case lm_expires_at_ms l of None \<Rightarrow> True | Some x \<Rightarrow> t \<le> x"
    unfolding exp by (cases "lm_retention_class l") (simp_all add: life_span_def le_saturating_add)
  moreover have "lm_sensitivity_class l = Restricted \<or> inference \<longrightarrow> \<not> lm_promote_to_profile l"
    using sel(12) stab low unfolding sel(5) by (cases inference) auto
  ultimately show ?thesis
    using unit ret exp sel(11,13,14) computed_scores_in_unit(1-3) [OF assms(1)] literal_scores_in_unit(1,2) [OF assms(1)]
    unfolding sel(1-5) by blast
qed

text \<open>Exact arithmetic.\<close>

definition rat_scores :: "rat score_ops" where
  "rat_scores =
     \<lparr>fo_zero = 0, fo_one = 1, fo_epsilon = 0, fo_add = (+), fo_sub = (-), fo_mul = (*), fo_div = (/),
      fo_sqrt = (\<lambda>x. x), fo_abs = abs, fo_of_int = of_int, fo_round = floor, fo_to_f16 = (\<lambda>_. 0),
      fo_of_f16 = (\<lambda>_. 0), fo_of_bits = (\<lambda>_. 0), fo_lit = (\<lambda>r. r)\<rparr>"

lemma lifecycle_classified_witness:
  "lm_retention_class (evaluate_lifecycle rat_scores (\<lambda>_. False) ''mypassword'' Fact 5 None False) = ComplianceSensitive
     \<and> lm_expires_at_ms (evaluate_lifecycle rat_scores (\<lambda>_. False) ''mypassword'' Fact 5 None False) = None"
proof -
  let ?l = "evaluate_lifecycle rat_scores (\<lambda>_. False) ''mypassword'' Fact 5 None False"
  have "fst (sensitivity_class (to_ascii_lowercase ''mypassword'')) = Restricted" by code_simp
  then have r: "lm_sensitivity_class ?l = Restricted"
    by (simp add: evaluate_lifecycle_def Let_def split_beta)
  have "mono (fo_lit rat_scores)" "fo_lit rat_scores STABILITY_INFERENCE < fo_lit rat_scores RETENTION_INFERENCE_STABILITY_MAX"
    by (simp_all add: rat_scores_def mono_def STABILITY_INFERENCE_def RETENTION_INFERENCE_STABILITY_MAX_def)
  from lifecycle_classified [OF this refl, of "\<lambda>_. False" "''mypassword''" Fact 5 None False] r
  show ?thesis by (simp add: expected_retention_def)
qed

end
