(* ===== verification/Retention.thy ===== *)
theory Retention
  imports Deletion Lifecycle Platform_Api
begin

section \<open>Retention and administration\<close>

text \<open>
  Models \<open>src/storage/repo/admin.rs\<close>, the writes of \<open>src/storage/repo/prefs.rs\<close> and the reset and
  deletion handlers of \<open>src/api/handlers/system.rs\<close>.  Reading and printing of the lifecycle JSON and
  the clock of a deletion are parameters.
\<close>

subsection \<open>Queues, tombstones and preferences\<close>

text \<open>\<open>LIMIT ?\<close> with a \<open>usize\<close> cast to a signed column: a negative limit is none.\<close>

definition sql_limit :: "u64 \<Rightarrow> 'a list \<Rightarrow> 'a list" where
  "sql_limit limit xs = (if as_i64 limit < 0 then xs else take (nat (as_i64 limit)) xs)"

definition pending_consolidation_tasks :: "u64 \<Rightarrow> store \<Rightarrow> IngestConsolidationTask list" where
  "pending_consolidation_tasks limit db =
     map (\<lambda>q. \<lparr>it_entity_id = q_entity_id q, it_memory_id = q_memory_id q,
                it_timestamp = as_u64 (q_timestamp_ms q), it_textual_content = q_textual_content q\<rparr>)
       (sql_limit limit (sort_key (\<lambda>q. (q_timestamp_ms q, q_memory_id q)) (consolidation_queue db)))"

definition complete_consolidation_task :: "str \<Rightarrow> store \<Rightarrow> store" where
  "complete_consolidation_task mid db =
     db\<lparr>consolidation_queue := sql_delete (\<lambda>q. q_memory_id q = mid) (consolidation_queue db)\<rparr>"

text \<open>The LIMIT counts the rows, also those whose JSON is skipped afterwards.\<close>

definition get_deletion_tombstones_for_target ::
  "(str \<Rightarrow> DeletionTombstone option) \<Rightarrow> str \<Rightarrow> u64 \<Rightarrow> store \<Rightarrow> DeletionTombstone list" where
  "get_deletion_tombstones_for_target from_json mid limit db =
     List.map_filter (\<lambda>t. from_json (t_tombstone_json t))
       (sql_limit limit (filter (\<lambda>t. t_target_memory_id t = mid) (deletion_tombstones db)))"

definition set_preference_memories_batch :: "str \<Rightarrow> (str \<times> u32) list \<Rightarrow> store \<Rightarrow> store" where
  "set_preference_memories_batch entity items db =
     db\<lparr>preferences := foldl (\<lambda>t (mid, strength). sql_replace pref_pk (entity, mid, strength) t) (preferences db) items\<rparr>"

subsection \<open>Clearing and counting\<close>

text \<open>
  Every ordinary and virtual table; \<open>sqlite_sequence\<close> is left, so rowids are not used again.
\<close>

definition clear_all :: "store \<Rightarrow> store" where
  "clear_all db = empty_store\<lparr>memories_seq := memories_seq db\<rparr>"

definition RESET_CONFIRM_PHRASE :: str where
  "RESET_CONFIRM_PHRASE = ''delete-all-data''"

definition reset_handler ::
  "str option \<Rightarrow> store \<Rightarrow> ('h, 'f) vector_index \<Rightarrow> EngineError + store \<times> ('h, 'f) vector_index" where
  "reset_handler confirm db ix =
     (if confirm \<noteq> Some RESET_CONFIRM_PHRASE \<and> confirm \<noteq> Some ''RESET_DATA_DANGEROUS''
      then Inl (BadRequest ''reset confirmation is required'')
      else Inr (clear_all db, index_clear None ix))"

record CoreClusterStats =
  cc_memory_count :: nat
  cc_entity_count :: nat
  cc_fact_count :: nat
  cc_storage_bytes :: u64
  cc_request_count :: nat
  cc_ingest_count :: nat
  cc_query_count :: nat

definition db_stats :: "int \<Rightarrow> int \<Rightarrow> store \<Rightarrow> CoreClusterStats" where
  "db_stats page_count page_size db =
     \<lparr>cc_memory_count = length (memories db),
      cc_entity_count = length (remdups (map m_entity_id (memories db))),
      cc_fact_count = length (filter (\<lambda>v. fv_status v = ''current'') (versions (facts db))),
      cc_storage_bytes = as_u64 (page_count * page_size),
      cc_request_count = 0, cc_ingest_count = 0, cc_query_count = 0\<rparr>"

subsection \<open>Expiry\<close>

text \<open>
  \<open>expire_records\<close>: the cards whose time is over and whose class is short-lived are marked.  A
  card without readable lifecycle is skipped; \<open>to_json\<close> may fail.
\<close>

definition expired_lifecycle :: "'f LifecycleMetadata \<Rightarrow> bool" where
  "expired_lifecycle l \<longleftrightarrow> lm_lifecycle_state l \<noteq> Expired
     \<and> (lm_retention_class l = Ephemeral \<or> lm_retention_class l = Working)"

definition card_expiry ::
  "(str \<Rightarrow> 'f LifecycleMetadata option) \<Rightarrow> ('f LifecycleMetadata \<Rightarrow> str option) \<Rightarrow> u64 \<Rightarrow> card_row \<Rightarrow> (str \<times> str) option" where
  "card_expiry from_json to_json now c =
     (if (case c_expires_at c of None \<Rightarrow> False | Some x \<Rightarrow> as_i64 x \<le> as_i64 now)
      then (case from_json (c_lifecycle c) of
              None \<Rightarrow> None
            | Some l \<Rightarrow> if expired_lifecycle l
                then map_option (Pair (c_card_id c)) (to_json (l\<lparr>lm_lifecycle_state := Expired\<rparr>)) else None)
      else None)"

definition expire_records ::
  "(str \<Rightarrow> 'f LifecycleMetadata option) \<Rightarrow> ('f LifecycleMetadata \<Rightarrow> str option) \<Rightarrow> u64 \<Rightarrow> store \<Rightarrow> store \<times> nat" where
  "expire_records from_json to_json now db =
     (let updates = List.map_filter (card_expiry from_json to_json now) (memory_cards db)
      in (db\<lparr>memory_cards := foldl (\<lambda>t (cid, json). sql_update (\<lambda>c. c_card_id c = cid)
              (\<lambda>c. c\<lparr>c_lifecycle := json, c_updated_at_ms := as_i64 now\<rparr>) t) (memory_cards db) updates\<rparr>,
          length updates))"

definition expired_memories :: "u64 \<Rightarrow> u64 \<Rightarrow> store \<Rightarrow> str list" where
  "expired_memories now limit db =
     map m_memory_id (sql_limit limit (sort_key (\<lambda>m. (coalesce (m_expires_at_ms m) 0, m_rowid m))
       (filter (\<lambda>m. case m_expires_at_ms m of None \<Rightarrow> False | Some x \<Rightarrow> x \<le> as_i64 now) (memories db))))"

fun remove_vectors ::
  "('h, 'f) usearch \<Rightarrow> str \<Rightarrow> u64 list \<Rightarrow> ('h, 'f) vector_index \<Rightarrow> ('h, 'f) vector_index \<times> (vector_error + unit)" where
  "remove_vectors us e [] ix = (ix, Inr ())"
| "remove_vectors us e (i # ids) ix = then_do (index_remove us e i ix) (remove_vectors us e ids)"

text \<open>
  The loop of \<open>purge_expired_memories\<close>.  \<open>delete m db\<close> stands for the call of
  \<open>delete_observation\<close> with its codecs, its clock and the reason \<open>retention_expired\<close>.
\<close>

definition purged_vectors :: "DeletedObservation \<Rightarrow> u64 list" where
  "purged_vectors d = (case do_vector_id d of None \<Rightarrow> [] | Some i \<Rightarrow> [i]) @ do_chunk_vector_ids d"

fun purge_loop ::
  "(str \<Rightarrow> store \<Rightarrow> store \<times> DeletedObservation) \<Rightarrow> ('h, 'f) usearch \<Rightarrow> str list
     \<Rightarrow> store \<Rightarrow> ('h, 'f) vector_index \<Rightarrow> nat \<Rightarrow> store \<times> ('h, 'f) vector_index \<times> (vector_error + nat)" where
  "purge_loop delete us [] db ix n = (db, ix, Inr n)"
| "purge_loop delete us (mid # mids) db ix n =
     (let (db', d) = delete mid db
      in (case remove_vectors us (do_entity_id d) (purged_vectors d) ix of
            (ix', Inl err) \<Rightarrow> (db', ix', Inl err)
          | (ix', Inr _) \<Rightarrow> purge_loop delete us mids db' ix' (n + 1)))"

definition purge_expired_memories ::
  "(DeletionTombstone \<Rightarrow> str) \<Rightarrow> (SessionRouterRecord \<Rightarrow> str) \<Rightarrow> (str \<Rightarrow> SessionRouterRecord option)
     \<Rightarrow> (str \<Rightarrow> json option) \<Rightarrow> (json \<Rightarrow> str) \<Rightarrow> (str \<Rightarrow> u64) \<Rightarrow> ('h, 'f) usearch \<Rightarrow> u64 \<Rightarrow> u64
     \<Rightarrow> store \<Rightarrow> ('h, 'f) vector_index \<Rightarrow> store \<times> ('h, 'f) vector_index \<times> (vector_error + nat)" where
  "purge_expired_memories tomb_json to_json from_json parse print clock us now limit db ix =
     purge_loop (\<lambda>mid. delete_observation tomb_json to_json from_json parse print (clock mid) mid ''retention_expired'')
       us (expired_memories now limit db) db ix 0"

subsection \<open>The deletion endpoint\<close>

text \<open>
  \<open>memory_delete_handler\<close> on the store and the index of the caller's tenant.  An id that is not
  stored is not an error; a vector that cannot be removed is only logged.
\<close>

definition API_DELETE_REASON :: str where
  "API_DELETE_REASON = ''api_delete''"

record MemoryDeleteResponse =
  dr_deleted :: bool
  dr_memory_id :: str
  dr_timestamp :: "u64 option"
  dr_vector_id :: "u64 option"
  dr_tombstone :: "DeletionTombstone option"
  dr_fts_removed :: nat
  dr_graph_edges_removed :: nat

fun drop_vectors :: "('h, 'f) usearch \<Rightarrow> str \<Rightarrow> u64 list \<Rightarrow> ('h, 'f) vector_index \<Rightarrow> ('h, 'f) vector_index" where
  "drop_vectors us e [] ix = ix"
| "drop_vectors us e (i # ids) ix = drop_vectors us e ids (fst (index_remove us e i ix))"

definition memory_delete_handler ::
  "(str \<Rightarrow> str \<Rightarrow> store \<Rightarrow> store \<times> DeletedObservation) \<Rightarrow> ('h, 'f) usearch \<Rightarrow> str \<Rightarrow> str option
     \<Rightarrow> store \<Rightarrow> ('h, 'f) vector_index \<Rightarrow> store \<times> ('h, 'f) vector_index \<times> MemoryDeleteResponse" where
  "memory_delete_handler delete us mid reason db ix =
     (let why = (case reason of None \<Rightarrow> API_DELETE_REASON | Some r \<Rightarrow> if trim r = [] then API_DELETE_REASON else r)
      in case lookup_by_memory_id db mid of
           None \<Rightarrow> (db, ix, \<lparr>dr_deleted = False, dr_memory_id = mid, dr_timestamp = None, dr_vector_id = None,
                     dr_tombstone = None, dr_fts_removed = 0, dr_graph_edges_removed = 0\<rparr>)
         | Some (ts, _) \<Rightarrow>
             (let (db', d) = delete mid why db
              in (db', drop_vectors us (do_entity_id d) (purged_vectors d) ix,
                  \<lparr>dr_deleted = True, dr_memory_id = mid, dr_timestamp = Some ts, dr_vector_id = do_vector_id d,
                   dr_tombstone = do_tombstone d, dr_fts_removed = do_fts_removed d,
                   dr_graph_edges_removed = do_graph_edges_removed d\<rparr>)))"

end
