(* ===== verification/Vector_Index_Laws.thy ===== *)
theory Vector_Index_Laws
  imports Vector_Index
begin

section \<open>Vector segments: what they hold and what a search returns\<close>

text \<open>
  A flat segment is refined to the map from vector ids to encoded rows: its buffers are cut into
  rows, and every operation is an operation on that list of rows.  An index that follows its source
  holds, in every loaded flat segment, exactly the encoded vectors of the entity, so a search over it
  is a search over the source.
\<close>

subsection \<open>Rows of a buffer\<close>

lemma chunks_exact_concat:
  "0 < w \<Longrightarrow> \<forall>r \<in> set rows. length r = w \<Longrightarrow> chunks_exact w (concat rows) = rows"
proof (induction rows)
  case Nil
  then show ?case by (simp add: chunks_exact.simps)
next
  case (Cons r rows)
  then show ?case by (subst chunks_exact.simps) simp
qed

lemma chunks_exact_rows:
  assumes "0 < w" "length data = n * w"
  shows "concat (chunks_exact w data) = data \<and> length (chunks_exact w data) = n
    \<and> (\<forall>r \<in> set (chunks_exact w data). length r = w)"
  using assms(2)
proof (induction n arbitrary: data)
  case 0
  then show ?case using assms(1) by (simp add: chunks_exact.simps)
next
  case (Suc n)
  then have w: "w \<le> length data" and d: "length (drop w data) = n * w" by simp_all
  have eq: "chunks_exact w data = take w data # chunks_exact w (drop w data)"
    using w assms(1) by (subst chunks_exact.simps) simp
  have "length (take w data) = w" using w by simp
  with Suc.IH [OF d] show ?case unfolding eq by (metis append_take_drop_id concat.simps(2) length_Cons set_ConsD)
qed

lemma concat_take_rows: "\<forall>r \<in> set rows. length r = w \<Longrightarrow> take (k * w) (concat rows) = concat (take k rows)"
proof (induction rows arbitrary: k)
  case (Cons r rows)
  then show ?case by (cases k) simp_all
qed simp

lemma concat_drop_rows: "\<forall>r \<in> set rows. length r = w \<Longrightarrow> drop (k * w) (concat rows) = concat (drop k rows)"
proof (induction rows arbitrary: k)
  case (Cons r rows)
  then show ?case by (cases k) simp_all
qed simp

lemma get_row_concat:
  assumes "\<forall>r \<in> set rows. length r = w" "k < length rows"
  shows "get_row w k (concat rows) = rows ! k"
proof -
  have "drop k rows = rows ! k # drop (Suc k) rows" using assms(2) by (simp add: Cons_nth_drop_Suc)
  then show ?thesis using assms by (simp add: get_row_def concat_drop_rows)
qed

lemma set_row_concat:
  assumes "\<forall>r \<in> set rows. length r = w" "k < length rows"
  shows "set_row w k vs (concat rows) = concat (rows[k := vs])"
proof -
  have "drop ((k + 1) * w) (concat rows) = concat (drop (k + 1) rows)" by (rule concat_drop_rows [OF assms(1)])
  then show ?thesis
    using assms by (simp add: set_row_def concat_take_rows upd_conv_take_nth_drop)
qed

lemma swap_row_concat:
  assumes "\<forall>r \<in> set rows. length r = w" "k < length rows" "final = length rows - 1"
  shows "swap_row k final w (concat rows) = concat (take final (rows[k := rows ! final]))"
proof -
  have "\<forall>r \<in> set (rows[k := rows ! final]). length r = w"
    using assms by (metis diff_less gr_implies_not0 length_greater_0_conv less_one list.size(3) nth_mem set_update_subset_insert subsetD insertE)
  then show ?thesis
    using assms by (cases "k = final") (simp_all add: swap_row_def get_row_concat set_row_concat concat_take_rows list_update_same_conv)
qed

text \<open>The same on the rows that the scan cuts out of a buffer.\<close>

lemma chunks_exact_ops:
  assumes w: "0 < w" and n: "length data = n * w"
  shows "length xs = w \<Longrightarrow> chunks_exact w (data @ xs) = chunks_exact w data @ [xs]"
    and "k < n \<Longrightarrow> length xs = w \<Longrightarrow> chunks_exact w (set_row w k xs data) = (chunks_exact w data)[k := xs]"
    and "k < n \<Longrightarrow> chunks_exact w (swap_row k (n - 1) w data)
      = take (n - 1) ((chunks_exact w data)[k := chunks_exact w data ! (n - 1)])"
proof -
  let ?rows = "chunks_exact w data"
  have rows: "data = concat ?rows" "length ?rows = n" "\<forall>r \<in> set ?rows. length r = w"
    using chunks_exact_rows [OF assms] by simp_all
  show "chunks_exact w (data @ xs) = ?rows @ [xs]" if "length xs = w"
    using chunks_exact_concat [of w "?rows @ [xs]"] rows w that by simp
  show "chunks_exact w (set_row w k xs data) = ?rows[k := xs]" if "k < n" "length xs = w"
  proof -
    have "\<forall>r \<in> set (?rows[k := xs]). length r = w"
      using rows(3) that(2) by (metis insertE set_update_subset_insert subsetD)
    moreover have "set_row w k xs data = concat (?rows[k := xs])"
      using set_row_concat [OF rows(3), of k xs] rows that by simp
    ultimately show ?thesis using chunks_exact_concat [OF w, of "?rows[k := xs]"] by simp
  qed
  show "chunks_exact w (swap_row k (n - 1) w data) = take (n - 1) (?rows[k := ?rows ! (n - 1)])" if "k < n"
  proof -
    have "\<forall>r \<in> set (?rows[k := ?rows ! (n - 1)]). length r = w"
      using rows that by (metis diff_less gr_implies_not0 insertE less_one neq0_conv nth_mem set_update_subset_insert subsetD)
    then have "\<forall>r \<in> set (take (n - 1) (?rows[k := ?rows ! (n - 1)])). length r = w" by (meson in_set_takeD)
    moreover have "swap_row k (n - 1) w data = concat (take (n - 1) (?rows[k := ?rows ! (n - 1)]))"
      using swap_row_concat [OF rows(3), of k "n - 1"] rows that by simp
    ultimately show ?thesis
      using chunks_exact_concat [OF w, of "take (n - 1) (?rows[k := ?rows ! (n - 1)])"] by simp
  qed
qed

lemma row_lengths:
  "k < n \<Longrightarrow> length xs = w \<Longrightarrow> length data = n * w \<Longrightarrow> length (set_row w k xs data) = n * w"
  "k < n \<Longrightarrow> length data = n * w \<Longrightarrow> length (swap_row k (n - 1) w data) = (n - 1) * w"
proof -
  show set: "length (set_row w k xs data) = n * w" if "k < n" "length xs = w" "length data = n * w" for k xs
  proof -
    have "k * w + w \<le> n * w" using that(1) by (metis Suc_leI add.commute mult_Suc mult_le_mono1)
    then show ?thesis using that by (simp add: set_row_def)
  qed
  show "length (swap_row k (n - 1) w data) = (n - 1) * w" if "k < n" "length data = n * w"
  proof -
    have "(n - 1) * w \<le> n * w" by simp
    moreover have "length (get_row w (n - 1) data) = w"
      using that by (cases n) (simp_all add: get_row_def)
    ultimately show ?thesis using that set [OF that(1) _ that(2)] by (simp add: swap_row_def)
  qed
qed

subsection \<open>Encoded rows\<close>

fun quant_of :: "'f Codes \<Rightarrow> Quantization" where
  "quant_of (CF32 _) = F32"
| "quant_of (CF16 _) = F16"
| "quant_of (CI8 _ _) = I8"
| "quant_of (CBinary _) = Binary"

text \<open>The shape of the buffers of a segment of \<open>n\<close> rows.\<close>

fun codes_ok :: "nat \<Rightarrow> nat \<Rightarrow> 'f Codes \<Rightarrow> bool" where
  "codes_ok dims n (CF32 data) = (length data = n * dims)"
| "codes_ok dims n (CF16 data) = (length data = n * dims)"
| "codes_ok dims n (CI8 codes scales) = (length codes = n * dims \<and> length scales = n)"
| "codes_ok dims n (CBinary data) = (length data = n * div_ceil dims 64)"

fun code_rows :: "nat \<Rightarrow> 'f Codes \<Rightarrow> 'f Codes list" where
  "code_rows dims (CF32 data) = map CF32 (chunks_exact dims data)"
| "code_rows dims (CF16 data) = map CF16 (chunks_exact dims data)"
| "code_rows dims (CI8 codes scales) = map (\<lambda>(q, s). CI8 q [s]) (zip (chunks_exact dims codes) scales)"
| "code_rows dims (CBinary data) = map CBinary (chunks_exact (div_ceil dims 64) data)"

text \<open>How a vector is held in a row.\<close>

fun encode_row :: "'f::linorder float_ops \<Rightarrow> Quantization \<Rightarrow> 'f list \<Rightarrow> 'f Codes" where
  "encode_row fo F32 v = CF32 v"
| "encode_row fo F16 v = CF16 (map (fo_to_f16 fo) v)"
| "encode_row fo I8 v = (let (q, scale) = quantize_i8 fo v in CI8 q [scale])"
| "encode_row fo Binary v = CBinary (sign_bits fo v)"

lemma div_ceil_pos: "0 < dims \<Longrightarrow> 0 < div_ceil dims 64"
  by (simp add: div_ceil_def div_greater_zero_iff)

lemma length_normalized [simp]: "length (normalized fo v) = length v"
  by (simp add: normalized_def Let_def)

lemma length_quantize_i8 [simp]: "length (fst (quantize_i8 fo v)) = length v"
  by (simp add: quantize_i8_def Let_def)

lemma length_sign_bits [simp]: "length (sign_bits fo v) = div_ceil (length v) 64"
proof -
  have "length (foldl (\<lambda>words (i, x). if fo_zero fo < x
      then words[i div 64 := or (words ! (i div 64)) (push_bit (i mod 64) 1)] else words) ws xs) = length ws"
    for ws :: "u64 list" and xs
    by (induction xs arbitrary: ws) (auto split: prod.splits)
  then show ?thesis by (simp add: sign_bits_def)
qed

lemma length_chunks_exact: "0 < w \<Longrightarrow> length data = n * w \<Longrightarrow> length (chunks_exact w data) = n"
  using chunks_exact_rows by blast

lemma map_zip_update: "map f (zip (xs[k := a]) (ys[k := b])) = (map f (zip xs ys))[k := f (a, b)]"
  using update_zip [of xs ys k "(a, b)"] by (simp add: map_update [symmetric])

lemma length_code_rows: "0 < dims \<Longrightarrow> codes_ok dims n c \<Longrightarrow> length (code_rows dims c) = n"
  by (cases c) (auto simp: length_chunks_exact div_ceil_pos)

lemma grow_rows:
  assumes "0 < dims" "codes_ok dims n c"
  shows "codes_ok dims (Suc n) (grow_codes fo dims c) \<and> quant_of (grow_codes fo dims c) = quant_of c
    \<and> (\<exists>r. code_rows dims (grow_codes fo dims c) = code_rows dims c @ [r])"
proof (cases c)
  case (CF32 data)
  with assms chunks_exact_ops(1) [of dims data n "replicate dims (fo_zero fo)"] show ?thesis by simp
next
  case (CF16 data)
  with assms chunks_exact_ops(1) [of dims data n "replicate dims 0"] show ?thesis by simp
next
  case (CI8 codes scales)
  then have "length (chunks_exact dims codes) = length scales" using assms by (simp add: length_chunks_exact)
  with CI8 assms chunks_exact_ops(1) [of dims codes n "replicate dims 0"] show ?thesis by simp
next
  case (CBinary data)
  with assms div_ceil_pos [OF assms(1)]
    chunks_exact_ops(1) [of "div_ceil dims 64" data n "replicate (div_ceil dims 64) 0"]
  show ?thesis by simp
qed

lemma write_rows:
  assumes "0 < dims" "codes_ok dims n c" "k < n" "length v = dims"
  shows "codes_ok dims n (write_codes fo dims k v c) \<and> quant_of (write_codes fo dims k v c) = quant_of c
    \<and> code_rows dims (write_codes fo dims k v c) = (code_rows dims c)[k := encode_row fo (quant_of c) v]"
proof (cases c)
  case (CI8 codes scales)
  obtain q s where q: "quantize_i8 fo v = (q, s)" by fastforce
  then have len: "length q = dims" using length_quantize_i8 [of fo v] assms(4) by simp
  have "chunks_exact dims (set_row dims k q codes) = (chunks_exact dims codes)[k := q]"
    using CI8 assms len by (intro chunks_exact_ops(2)) auto
  with CI8 assms q len show ?thesis
    by (simp add: row_lengths map_zip_update [where f = "\<lambda>(q, s). CI8 q [s]", simplified])
next
  case (CBinary data)
  have len: "length (sign_bits fo v) = div_ceil dims 64" using assms(4) by simp
  have "chunks_exact (div_ceil dims 64) (set_row (div_ceil dims 64) k (sign_bits fo v) data)
      = (chunks_exact (div_ceil dims 64) data)[k := sign_bits fo v]"
    using CBinary assms len by (intro chunks_exact_ops(2)) (auto simp: div_ceil_pos)
  with CBinary assms len show ?thesis by (simp add: row_lengths map_update)
next
  case (CF32 data)
  with assms chunks_exact_ops(2) [of dims data n k v] show ?thesis by (simp add: row_lengths map_update)
next
  case (CF16 data)
  with assms chunks_exact_ops(2) [of dims data n k "map (fo_to_f16 fo) v"] show ?thesis
    by (simp add: row_lengths map_update)
qed

lemma map_take_update: "map f (take m (xs[k := y])) = take m ((map f xs)[k := f y])"
  by (simp add: take_map map_update [symmetric])

lemma swap_row_single: "k < length xs \<Longrightarrow> n = length xs \<Longrightarrow> swap_row k (n - 1) 1 xs = take (n - 1) (xs[k := xs ! (n - 1)])"
proof -
  assume k: "k < length xs" and n: "n = length xs"
  have one: "concat (map (\<lambda>s. [s]) ys) = ys" for ys :: "'a list" by (induction ys) auto
  have "swap_row k (n - 1) 1 (concat (map (\<lambda>s. [s]) xs))
      = concat (take (n - 1) ((map (\<lambda>s. [s]) xs)[k := map (\<lambda>s. [s]) xs ! (n - 1)]))"
    using k n by (intro swap_row_concat) auto
  also have "\<dots> = concat (map (\<lambda>s. [s]) (take (n - 1) (xs[k := xs ! (n - 1)])))"
    using k n by (simp add: map_take_update del: One_nat_def)
  finally show ?thesis unfolding one .
qed

lemma swap_rows:
  assumes "0 < dims" "codes_ok dims n c" "k < n"
  shows "codes_ok dims (n - 1) (swap_codes dims k (n - 1) c) \<and> quant_of (swap_codes dims k (n - 1) c) = quant_of c
    \<and> code_rows dims (swap_codes dims k (n - 1) c)
      = take (n - 1) ((code_rows dims c)[k := code_rows dims c ! (n - 1)])"
proof (cases c)
  case (CF32 data)
  with assms chunks_exact_ops(3) [of dims data n k] length_chunks_exact [of dims data n] show ?thesis
    by (simp add: row_lengths map_take_update del: One_nat_def)
next
  case (CF16 data)
  with assms chunks_exact_ops(3) [of dims data n k] length_chunks_exact [of dims data n] show ?thesis
    by (simp add: row_lengths map_take_update del: One_nat_def)
next
  case (CBinary data)
  with assms chunks_exact_ops(3) [of "div_ceil dims 64" data n k] length_chunks_exact [of "div_ceil dims 64" data n]
    div_ceil_pos [OF assms(1)]
  show ?thesis by (simp add: row_lengths map_take_update del: One_nat_def)
next
  case (CI8 codes scales)
  let ?c = "chunks_exact dims codes"
  have len: "length ?c = n" "length scales = n" using CI8 assms by (simp_all add: length_chunks_exact)
  have "zip (take (n - 1) (?c[k := ?c ! (n - 1)])) (take (n - 1) (scales[k := scales ! (n - 1)]))
      = take (n - 1) ((zip ?c scales)[k := zip ?c scales ! (n - 1)])"
    using len assms(3) update_zip [of ?c scales k "(?c ! (n - 1), scales ! (n - 1))"]
    by (simp add: take_zip nth_zip)
  moreover have "swap_row k (n - 1) 1 scales = take (n - 1) (scales[k := scales ! (n - 1)])"
    using len assms(3) by (intro swap_row_single) simp_all
  moreover have "chunks_exact dims (swap_row k (n - 1) dims codes) = take (n - 1) (?c[k := ?c ! (n - 1)])"
    using CI8 assms by (intro chunks_exact_ops(3)) auto
  ultimately show ?thesis
    using CI8 assms len unfolding CI8 swap_codes.simps code_rows.simps
    by (simp add: row_lengths map_take_update del: One_nat_def)
qed

subsection \<open>Flat segments\<close>

definition flat_ok :: "nat \<Rightarrow> Quantization \<Rightarrow> 'f FlatSegment \<Rightarrow> bool" where
  "flat_ok dims q seg \<longleftrightarrow> fs_dims seg = dims \<and> quant_of (fs_codes seg) = q
     \<and> codes_ok dims (length (fs_ids seg)) (fs_codes seg)
     \<and> (\<forall>i r. fs_positions seg i = Some r \<longleftrightarrow> r < length (fs_ids seg) \<and> fs_ids seg ! r = i)"

text \<open>The abstraction: the encoded row of every id.\<close>

definition flat_map :: "'f FlatSegment \<Rightarrow> u64 \<rightharpoonup> 'f Codes" where
  "flat_map seg i = map_option (\<lambda>r. code_rows (fs_dims seg) (fs_codes seg) ! r) (fs_positions seg i)"

lemma flat_ok_distinct: "flat_ok dims q seg \<Longrightarrow> distinct (fs_ids seg)"
  unfolding flat_ok_def distinct_conv_nth by (metis option.inject)

lemma flat_positions_None: "flat_ok dims q seg \<Longrightarrow> fs_positions seg i = None \<longleftrightarrow> i \<notin> set (fs_ids seg)"
  unfolding flat_ok_def in_set_conv_nth by (metis not_None_eq)

lemma flat_new_ok: "flat_ok dims q (flat_new dims q) \<and> flat_map (flat_new dims q) = Map.empty"
  by (cases q) (simp_all add: flat_ok_def flat_new_def flat_map_def fun_eq_iff)

lemma flat_write:
  assumes "0 < dims" "flat_ok dims q seg" "fs_positions seg i = Some r" "length v = dims"
  shows "flat_ok dims q (seg\<lparr>fs_codes := write_codes fo dims r v (fs_codes seg)\<rparr>)
    \<and> flat_map (seg\<lparr>fs_codes := write_codes fo dims r v (fs_codes seg)\<rparr>) = (flat_map seg)(i \<mapsto> encode_row fo q v)"
proof -
  let ?c = "fs_codes seg" and ?n = "length (fs_ids seg)"
  have ok: "codes_ok dims ?n ?c" "quant_of ?c = q" "fs_dims seg = dims" and r: "r < ?n"
    using assms by (auto simp: flat_ok_def)
  note w = write_rows [OF assms(1) ok(1) r assms(4), of fo]
  have len: "length (code_rows dims ?c) = ?n" using length_code_rows [OF assms(1) ok(1)] .
  have "r' = r \<longleftrightarrow> j = i" if "fs_positions seg j = Some r'" for j r'
    using that assms(2,3) unfolding flat_ok_def by (metis option.inject)
  then have "flat_map (seg\<lparr>fs_codes := write_codes fo dims r v ?c\<rparr>) j = ((flat_map seg)(i \<mapsto> encode_row fo q v)) j" for j
    using w ok r len assms(3)
    by (cases "fs_positions seg j") (auto simp: flat_map_def nth_list_update)
  with w assms(2) ok show ?thesis by (auto simp: flat_ok_def fun_eq_iff)
qed

lemma flat_upsert_refines:
  assumes "0 < dims" "flat_ok dims q seg" "length v = dims"
  shows "flat_ok dims q (flat_upsert fo i v seg)
    \<and> flat_map (flat_upsert fo i v seg) = (flat_map seg)(i \<mapsto> encode_row fo q (normalized fo v))"
proof (cases "fs_positions seg i")
  case (Some r)
  have "fs_dims seg = dims" using assms(2) by (simp add: flat_ok_def)
  then show ?thesis
    using flat_write [OF assms(1,2) Some, of "normalized fo v" fo] assms(3) Some by (simp add: flat_upsert_def)
next
  case None
  let ?n = "length (fs_ids seg)" and ?c = "fs_codes seg"
  let ?seg = "seg\<lparr>fs_ids := fs_ids seg @ [i], fs_positions := (fs_positions seg)(i \<mapsto> ?n), fs_codes := grow_codes fo dims ?c\<rparr>"
  have d: "fs_dims seg = dims" and c: "codes_ok dims ?n ?c" "quant_of ?c = q" using assms(2) by (simp_all add: flat_ok_def)
  obtain x where g: "codes_ok dims (Suc ?n) (grow_codes fo dims ?c)" "quant_of (grow_codes fo dims ?c) = q"
      "code_rows dims (grow_codes fo dims ?c) = code_rows dims ?c @ [x]"
    using grow_rows [OF assms(1) c(1), of fo] c(2) by auto
  have absent: "i \<notin> set (fs_ids seg)" using flat_positions_None [OF assms(2)] None by simp
  have pos: "fs_positions ?seg j = Some r \<longleftrightarrow> r < Suc ?n \<and> (fs_ids seg @ [i]) ! r = j" for j r
  proof -
    have "r < ?n \<Longrightarrow> fs_ids seg ! r \<noteq> i" using absent by (metis nth_mem)
    then show ?thesis using assms(2) by (auto simp: flat_ok_def nth_append less_Suc_eq)
  qed
  have ok: "flat_ok dims q ?seg" using g d pos by (simp add: flat_ok_def)
  have len: "length (code_rows dims ?c) = ?n" using length_code_rows [OF assms(1) c(1)] .
  have "flat_map ?seg j = flat_map seg j" if "j \<noteq> i" for j
  proof (cases "fs_positions seg j")
    case (Some r)
    then have "r < ?n" using assms(2) by (simp add: flat_ok_def)
    with Some that g(3) d len show ?thesis by (simp add: flat_map_def nth_append)
  qed (use that in \<open>simp add: flat_map_def\<close>)
  then have "(flat_map ?seg)(i \<mapsto> y) = (flat_map seg)(i \<mapsto> y)" for y by (auto simp: fun_eq_iff)
  then show ?thesis
    using flat_write [OF assms(1) ok, of i ?n "normalized fo v" fo] assms(3) None d by (simp add: flat_upsert_def Let_def)
qed

lemma flat_upserts_refines:
  assumes "0 < dims" "flat_ok dims q seg" "\<forall>(i, v) \<in> set items. length v = dims"
  shows "flat_ok dims q (flat_upserts fo items seg) \<and> flat_map (flat_upserts fo items seg)
    = flat_map seg ++ (map_option (encode_row fo q \<circ> normalized fo) \<circ> map_of (rev items))"
  using assms(2,3)
proof (induction items arbitrary: seg)
  case (Cons x items)
  obtain i v where x: "x = (i, v)" by fastforce
  note u = flat_upsert_refines [OF assms(1) Cons.prems(1), of v fo i]
  have "length v = dims" using Cons.prems(2) x by simp
  with Cons.IH [of "flat_upsert fo i v seg"] u Cons.prems(2) show ?case
    by (auto simp: x map_add_def fun_eq_iff split: option.splits)
qed simp

lemma swap_positions:
  assumes pos: "\<And>j k. P j = Some k \<longleftrightarrow> k < length ids \<and> ids ! k = j"
    and r: "r < length ids" "ids ! r = i"
    and ids': "ids' = take (length ids - 1) (ids[r := ids ! (length ids - 1)])"
  shows "(if r \<noteq> length ids - 1 then (P(i := None))(ids' ! r \<mapsto> r) else P(i := None)) j = Some k
    \<longleftrightarrow> k < length ids - 1 \<and> ids' ! k = j"
proof -
  let ?l = "length ids - 1"
  have l: "?l < length ids" using r(1) by simp
  have inj: "k = m" if "k < length ids" "m < length ids" "ids ! k = ids ! m" for k m
    using pos that by (metis option.inject)
  have nth: "ids' ! m = (if m = r then ids ! ?l else ids ! m)" if "m < ?l" for m
    using that r(1) by (simp add: ids' nth_list_update)
  have Pi: "P i = Some r" using pos r by simp
  have pj: "(P(i := None)) j = Some k \<longleftrightarrow> k < length ids \<and> k \<noteq> r \<and> ids ! k = j"
    using pos [of j k] inj [OF _ r(1), of k] r(2) by auto
  show ?thesis
  proof (cases "r = ?l")
    case True
    then show ?thesis using nth [of k] pj by auto
  next
    case False
    then have r': "r < ?l" "ids' ! r = ids ! ?l" using r(1) nth [of r] by auto
    show ?thesis
    proof (cases "j = ids ! ?l")
      case True
      then have "ids' ! k = j \<longleftrightarrow> k = r" if "k < ?l"
        using that r' nth [OF that] inj [OF less_trans [OF that l] l] True by (cases "k = r") auto
      with True False r' show ?thesis by auto
    next
      case j: False
      then have "ids' ! k = j \<longleftrightarrow> k \<noteq> r \<and> ids ! k = j" if "k < ?l"
        using that r' nth [OF that] by (cases "k = r") auto
      moreover have "k < ?l \<longleftrightarrow> k < length ids \<and> k \<noteq> ?l" by auto
      ultimately show ?thesis using False r' pj j by auto
    qed
  qed
qed

lemma flat_remove_refines:
  assumes "0 < dims" "flat_ok dims q seg"
  shows "flat_ok dims q (fst (flat_remove i seg)) \<and> flat_map (fst (flat_remove i seg)) = (flat_map seg)(i := None)
    \<and> (snd (flat_remove i seg) \<longleftrightarrow> i \<in> dom (flat_map seg))"
proof (cases "fs_positions seg i")
  case None
  then show ?thesis using assms(2) by (auto simp: flat_remove_def flat_map_def fun_eq_iff)
next
  case (Some r)
  note Some_r = Some
  let ?ids = "fs_ids seg" and ?n = "length (fs_ids seg)" and ?c = "fs_codes seg"
  let ?ids' = "take (?n - 1) (?ids[r := ?ids ! (?n - 1)])"
  let ?pos = "if r \<noteq> ?n - 1 then ((fs_positions seg)(i := None))(?ids' ! r \<mapsto> r) else (fs_positions seg)(i := None)"
  have d: "fs_dims seg = dims" and c: "codes_ok dims ?n ?c" "quant_of ?c = q"
    and r: "r < ?n" "?ids ! r = i" using assms(2) Some by (auto simp: flat_ok_def)
  note s = swap_rows [OF assms(1) c(1) r(1)]
  have len: "length (code_rows dims ?c) = ?n" using length_code_rows [OF assms(1) c(1)] .
  have eq: "flat_remove i seg = (seg\<lparr>fs_ids := ?ids', fs_positions := ?pos, fs_codes := swap_codes dims r (?n - 1) ?c\<rparr>, True)"
    using Some d by (simp add: flat_remove_def Let_def)
  have pos: "fs_positions seg j = Some k \<longleftrightarrow> k < ?n \<and> ?ids ! k = j" for j k using assms(2) by (simp add: flat_ok_def)
  have pos': "?pos j = Some k \<longleftrightarrow> k < ?n - 1 \<and> ?ids' ! k = j" for j k
    by (rule swap_positions [OF pos r]) simp
  have row: "take (?n - 1) ((code_rows dims ?c)[r := code_rows dims ?c ! (?n - 1)]) ! k
      = code_rows dims ?c ! (if k = r then ?n - 1 else k)" if "k < ?n - 1" for k
    using that r(1) len by (simp add: nth_list_update)
  have map: "map_option (\<lambda>k. code_rows dims (swap_codes dims r (?n - 1) ?c) ! k) (?pos j)
      = (if j = i then None else map_option (\<lambda>k. code_rows dims ?c ! k) (fs_positions seg j))" for j
  proof (cases "?pos j")
    case None
    then have "j \<noteq> i \<Longrightarrow> fs_positions seg j = None" by (auto simp del: One_nat_def split: if_splits)
    with None show ?thesis by (simp del: One_nat_def)
  next
    case (Some k)
    with pos' have k: "k < ?n - 1" "?ids' ! k = j" by blast+
    have nth: "?ids' ! k = (if k = r then ?ids ! (?n - 1) else ?ids ! k)"
      using k(1) r(1) by (simp add: nth_list_update)
    have p: "fs_positions seg j = Some (if k = r then ?n - 1 else k)"
      unfolding pos using k nth by auto
    moreover have "j \<noteq> i" using p k(1) Some_r by (cases "k = r") auto
    ultimately show ?thesis unfolding Some using s row [OF k(1)] by (simp del: One_nat_def)
  qed
  have "flat_map (fst (flat_remove i seg)) = (flat_map seg)(i := None)"
  proof
    fix j
    show "flat_map (fst (flat_remove i seg)) j = ((flat_map seg)(i := None)) j"
      using map [of j] unfolding eq by (simp add: flat_map_def d del: One_nat_def)
  qed
  moreover have "flat_ok dims q (fst (flat_remove i seg))"
    unfolding eq flat_ok_def using d s c(2) pos' r(1) by (simp del: One_nat_def)
  moreover have "i \<in> dom (flat_map seg)" using Some by (auto simp: flat_map_def)
  ultimately show ?thesis unfolding eq by simp
qed

end
