(* ===== verification/Vector_Search.thy ===== *)
theory Vector_Search
  imports Vector_Index_Laws
begin

section \<open>Searching the vectors of an entity\<close>

text \<open>
  The interface \<open>vector_source\<close> is what the index relies on; SQLite and the in-memory source provide
  it.  \<open>vector_run\<close> is the life of an index next to a source that is written first, and
  \<open>coherent\<close> what it keeps.
\<close>

subsection \<open>Sorting by descending score\<close>

lemma sort_key_map_general: "sort_key f (map g xs) = map g (sort_key (f \<circ> g) xs)"
proof -
  have "insort_key f (g x) (map g ys) = map g (insort_key (f \<circ> g) x ys)" for x ys
    by (induction ys) auto
  then show ?thesis by (induction xs) auto
qed

lemma sort_desc_map: "sort_desc f (map g xs) = map g (sort_desc (f \<circ> g) xs)"
  by (simp add: sort_desc_def rev_map sort_key_map_general)

lemma mset_sort_desc [simp]: "mset (sort_desc f xs) = mset xs"
  by (simp add: sort_desc_def)

lemma set_sort_desc [simp]: "set (sort_desc f xs) = set xs"
  by (simp add: sort_desc_def)

lemma length_sort_desc [simp]: "length (sort_desc f xs) = length xs"
  by (simp add: sort_desc_def)

lemma distinct_sort_desc [simp]: "distinct (sort_desc f xs) = distinct xs"
  by (simp add: sort_desc_def)

lemma sorted_sort_desc: "sorted_wrt (\<lambda>a b. f b \<le> f a) (sort_desc f xs)"
  using sorted_sort_key [of f "rev xs"] by (simp add: sort_desc_def sorted_wrt_rev sorted_map)

lemma sorted_take_drop:
  "sorted_wrt P xs \<Longrightarrow> a \<in> set (take k xs) \<Longrightarrow> b \<in> set (drop k xs) \<Longrightarrow> P a b"
  by (metis append_take_drop_id sorted_wrt_append)

subsection \<open>Scanning a flat segment\<close>

fun code_score :: "'f::linorder float_ops \<Rightarrow> nat \<Rightarrow> 'f list \<Rightarrow> 'f Codes \<Rightarrow> 'f" where
  "code_score fo dims query (CF32 v) = dot_f32 fo query v"
| "code_score fo dims query (CF16 v) = dot_f32 fo query (map (fo_of_f16 fo) v)"
| "code_score fo dims query (CI8 v s) =
     fo_mul fo (fo_mul fo (fo_of_int fo (sint (dot_i8 (fst (quantize_i8 fo query)) v))) (hd s)) (snd (quantize_i8 fo query))"
| "code_score fo dims query (CBinary v) =
     fo_sub fo (fo_one fo) (fo_div fo (fo_mul fo (fo_of_int fo 2)
       (fo_of_int fo (int (sum_list (map (\<lambda>(a, b). count_ones (xor a b)) (zip v (sign_bits fo query)))))))
       (fo_of_int fo (int dims)))"

lemma row_scores_eq: "row_scores fo dims query c = map (code_score fo dims query) (code_rows dims c)"
  by (cases c) (auto simp: split_beta Let_def)

lemma flat_scan_eq:
  assumes "0 < dims" "flat_ok dims q seg"
  shows "flat_scan fo query k seg = take k (sort_desc snd
    (zip (fs_ids seg) (map (code_score fo dims query) (code_rows dims (fs_codes seg)))))"
proof -
  let ?sc = "row_scores fo dims query (fs_codes seg)" and ?g = "\<lambda>(sim, row). (fs_ids seg ! row, sim)"
  have len: "length ?sc = length (fs_ids seg)" and d: "fs_dims seg = dims"
    using assms(2) length_code_rows [OF assms(1)] by (auto simp: row_scores_eq flat_ok_def)
  have "map ?g (map (\<lambda>(row, sim). (sim, row)) (enumerate 0 ?sc)) = zip (fs_ids seg) ?sc"
    using len by (intro nth_equalityI) (auto simp: nth_enumerate_eq)
  then have zip: "sort_desc snd (zip (fs_ids seg) ?sc)
      = map ?g (sort_desc fst (map (\<lambda>(row, sim). (sim, row)) (enumerate 0 ?sc)))"
    using sort_desc_map [of snd ?g "map (\<lambda>(row, sim). (sim, row)) (enumerate 0 ?sc)"]
    by (simp add: comp_def split_beta)
  show ?thesis
  proof (cases "fs_ids seg = [] \<or> k = 0")
    case True
    then show ?thesis by (auto simp: flat_scan_def sort_desc_def)
  next
    case False
    then have "flat_scan fo query k seg = take k (sort_desc snd (zip (fs_ids seg) ?sc))"
      using zip d by (simp add: flat_scan_def take_map)
    then show ?thesis by (simp only: row_scores_eq)
  qed
qed

lemma scan_candidates:
  assumes "0 < dims" "flat_ok dims q seg"
    and m: "flat_map seg = map_option enc \<circ> map_of rows" and rows: "distinct (map fst rows)"
  shows "distinct (map fst (flat_scan fo query k seg))
    \<and> set (flat_scan fo query k seg) \<subseteq> (\<lambda>(i, v). (i, code_score fo dims query (enc v))) ` set rows
    \<and> length (flat_scan fo query k seg) = min k (length rows)
    \<and> (\<forall>h \<in> set (flat_scan fo query k seg). \<forall>(i, v) \<in> set rows. i \<notin> fst ` set (flat_scan fo query k seg)
          \<longrightarrow> code_score fo dims query (enc v) \<le> snd h)"
proof -
  let ?z = "zip (fs_ids seg) (map (code_score fo dims query) (code_rows dims (fs_codes seg)))"
  let ?s = "sort_desc snd ?z"
  have len: "length (code_rows dims (fs_codes seg)) = length (fs_ids seg)"
    using assms(2) length_code_rows [OF assms(1)] by (auto simp: flat_ok_def)
  have d: "fs_dims seg = dims" using assms(2) by (simp add: flat_ok_def)
  have fst: "map fst ?z = fs_ids seg" using len by simp
  have dist: "distinct (fs_ids seg)" using flat_ok_distinct [OF assms(2)] .
  have pos: "fs_positions seg i = Some r \<longleftrightarrow> r < length (fs_ids seg) \<and> fs_ids seg ! r = i" for i r
    using assms(2) by (simp add: flat_ok_def)
  have set: "(i, x) \<in> set ?z \<longleftrightarrow> (\<exists>v. map_of rows i = Some v \<and> x = code_score fo dims query (enc v))" for i x
  proof -
    have "(i, x) \<in> set ?z \<longleftrightarrow> (\<exists>r < length (fs_ids seg). fs_ids seg ! r = i
        \<and> x = code_score fo dims query (code_rows dims (fs_codes seg) ! r))"
      using len by (auto simp: set_zip)
    also have "\<dots> \<longleftrightarrow> (\<exists>c. flat_map seg i = Some c \<and> x = code_score fo dims query c)"
      using pos d by (auto simp: flat_map_def)
    finally show ?thesis by (auto simp: m)
  qed
  have zset: "set ?z = (\<lambda>(i, v). (i, code_score fo dims query (enc v))) ` set rows"
    using set rows by (auto simp: map_of_eq_Some_iff split: prod.splits)
  have "length ?z = length rows"
  proof -
    have "set (fs_ids seg) = fst ` set rows" using arg_cong [OF zset, of "image fst"] fst
      by (metis (no_types, lifting) case_prod_beta fst_conv image_cong image_image list.set_map)
    then have "length (fs_ids seg) = card (fst ` set rows)" using dist by (metis distinct_card)
    with rows len show ?thesis by (metis distinct_card length_map length_zip list.set_map min.idem)
  qed
  moreover have le: "snd c \<le> snd h" if "c \<in> set ?z" "h \<in> set (take k ?s)" "fst c \<notin> fst ` set (take k ?s)" for c h
  proof -
    have "c \<in> set ?s" using that(1) by simp
    moreover have "c \<notin> set (take k ?s)" using that(3) by (metis imageI)
    ultimately have "c \<in> set (drop k ?s)" by (metis Un_iff append_take_drop_id set_append)
    from sorted_take_drop [OF sorted_sort_desc that(2) this] show ?thesis .
  qed
  moreover have "distinct (map fst (take k ?s))"
  proof -
    have "mset (map fst ?s) = mset (map fst ?z)" by (metis mset_map mset_sort_desc)
    then have "distinct (map fst ?s)" using dist fst by (metis mset_eq_imp_distinct_iff)
    then show ?thesis by (metis distinct_take take_map)
  qed
  moreover have "set (take k ?s) \<subseteq> set ?z" using set_take_subset [of k ?s] by simp
  moreover have "code_score fo dims query (enc v) \<le> snd h"
    if "(i, v) \<in> set rows" "h \<in> set (take k ?s)" "i \<notin> fst ` set (take k ?s)" for i v h
  proof -
    have "(i, code_score fo dims query (enc v)) \<in> set ?z" unfolding zset using that(1) by (auto intro: rev_image_eqI)
    from le [OF this that(2)] that(3) show ?thesis by simp
  qed
  ultimately show ?thesis
    unfolding flat_scan_eq [OF assms(1,2)] zset [symmetric] by (auto simp del: length_zip)
qed

subsection \<open>Sources\<close>

definition source_ok :: "nat \<Rightarrow> 'f vector_source \<Rightarrow> bool" where
  "source_ok dims src \<longleftrightarrow>
     (\<forall>e. distinct (map fst (so_entity_vectors src e)) \<and> (\<forall>(i, v) \<in> set (so_entity_vectors src e). length v = dims))
     \<and> (\<forall>ids. \<exists>m. so_vectors_by_id src ids = Inr m
          \<and> (\<forall>e i v. (i, v) \<in> set (so_entity_vectors src e) \<and> i \<in> set ids \<longrightarrow> m i = Some v))"

locale vector_source =
  fixes view :: "'s \<Rightarrow> 'f vector_source" and ok :: "'s \<Rightarrow> bool"
  assumes distinct_ids: "ok s \<Longrightarrow> distinct (map fst (so_entity_vectors (view s) e))"
    and entities_nonempty: "ok s \<Longrightarrow> set (so_entities (view s)) = {e. so_entity_vectors (view s) e \<noteq> []}"
    and by_id: "ok s \<Longrightarrow> \<exists>m. so_vectors_by_id (view s) ids = Inr m
          \<and> (\<forall>i v. m i = Some v \<longleftrightarrow> i \<in> set ids \<and> (\<exists>e. (i, v) \<in> set (so_entity_vectors (view s) e)))"
begin

lemma source_ok:
  "ok s \<Longrightarrow> \<forall>e. \<forall>(i, v) \<in> set (so_entity_vectors (view s) e). length v = dims \<Longrightarrow> source_ok dims (view s)"
  unfolding source_ok_def
proof (intro conjI allI)
  fix ids
  assume "ok s"
  from by_id [OF this, of ids] obtain m where "so_vectors_by_id (view s) ids = Inr m"
    "\<forall>i v. m i = Some v \<longleftrightarrow> i \<in> set ids \<and> (\<exists>e. (i, v) \<in> set (so_entity_vectors (view s) e))" by blast
  then show "\<exists>m. so_vectors_by_id (view s) ids = Inr m
      \<and> (\<forall>e i v. (i, v) \<in> set (so_entity_vectors (view s) e) \<and> i \<in> set ids \<longrightarrow> m i = Some v)"
    by (intro exI [of _ m]) blast
qed (simp_all add: distinct_ids)

lemma one_owner:
  "ok s \<Longrightarrow> (i, v) \<in> set (so_entity_vectors (view s) e) \<Longrightarrow> (i, w) \<in> set (so_entity_vectors (view s) e') \<Longrightarrow> v = w"
  using by_id [of s "[i]"] by (metis list.set_intros(1) option.inject)

lemma entity_known: "ok s \<Longrightarrow> (i, v) \<in> set (so_entity_vectors (view s) e) \<Longrightarrow> e \<in> set (so_entities (view s))"
  using entities_nonempty by force

end

definition sqlite_ok :: "store \<Rightarrow> bool" where
  "sqlite_ok db \<longleftrightarrow> distinct (map v_vector_id (vector_lookup db)) \<and> (\<forall>v \<in> set (vector_lookup db). in_i64 (v_vector_id v))"

lemma sqlite_entity_vectors:
  "set (so_entity_vectors (sqlite_source fo db) e) = stored_vector fo ` {v \<in> set (vector_lookup db). v_entity_id v = e}"
  by (simp add: sqlite_source_def)

interpretation sqlite: vector_source "sqlite_source fo" sqlite_ok for fo
proof unfold_locales
  fix db e ids
  assume ok: "sqlite_ok db"
  have inj: "v = w" if "v \<in> set (vector_lookup db)" "w \<in> set (vector_lookup db)"
      "as_u64 (v_vector_id v) = as_u64 (v_vector_id w)" for v w
  proof -
    have "as_i64 (as_u64 (v_vector_id x)) = v_vector_id x" if "x \<in> set (vector_lookup db)" for x
      using ok that by (simp add: sqlite_ok_def)
    with that have "v_vector_id v = v_vector_id w" by metis
    then show ?thesis using ok that(1,2) by (auto simp: sqlite_ok_def distinct_map inj_on_def)
  qed
  let ?rows = "sort_key v_vector_id (filter (\<lambda>v. v_entity_id v = e) (vector_lookup db))"
  have "distinct ?rows" using ok by (simp add: sqlite_ok_def distinct_map)
  moreover have "inj_on (\<lambda>v. as_u64 (v_vector_id v)) (set ?rows)" by (intro inj_onI inj) auto
  ultimately show "distinct (map fst (so_entity_vectors (sqlite_source fo db) e))"
    by (simp add: sqlite_source_def distinct_map stored_vector_def comp_def)
  show "set (so_entities (sqlite_source fo db)) = {e. so_entity_vectors (sqlite_source fo db) e \<noteq> []}"
    by (auto simp: sqlite_source_def sort_key_eq_Nil filter_empty_conv)
  obtain rows where rows: "chunked_rows v_vector_id (vector_lookup db) (map as_i64 ids) = Inr rows"
      "set rows = {v \<in> set (vector_lookup db). v_vector_id v \<in> set (map as_i64 ids)}"
    by (rule chunked_rows_ok)
  let ?m = "hash_map_of (map (stored_vector fo) rows)"
  have wanted: "v_vector_id v \<in> set (map as_i64 ids) \<longleftrightarrow> as_u64 (v_vector_id v) \<in> set ids"
    if "v \<in> set (vector_lookup db)" for v
  proof -
    have "as_i64 (as_u64 (v_vector_id v)) = v_vector_id v" using ok that by (simp add: sqlite_ok_def)
    then show ?thesis by (metis (no_types, lifting) as_u64_as_i64 image_iff list.set_map)
  qed
  have "?m i = Some x \<longleftrightarrow> i \<in> set ids \<and> (\<exists>e. (i, x) \<in> set (so_entity_vectors (sqlite_source fo db) e))" for i x
  proof
    assume "?m i = Some x"
    from hash_map_of_Some [OF this] obtain v where v: "v \<in> set rows" "stored_vector fo v = (i, x)" by auto
    then have "as_u64 (v_vector_id v) = i" by (simp add: stored_vector_def)
    with v rows(2) wanted show "i \<in> set ids \<and> (\<exists>e. (i, x) \<in> set (so_entity_vectors (sqlite_source fo db) e))"
      unfolding sqlite_entity_vectors by (auto intro!: image_eqI [of _ _ v])
  next
    assume "i \<in> set ids \<and> (\<exists>e. (i, x) \<in> set (so_entity_vectors (sqlite_source fo db) e))"
    then obtain v where v: "v \<in> set (vector_lookup db)" "stored_vector fo v = (i, x)" "i \<in> set ids"
      unfolding sqlite_entity_vectors by auto
    then have i: "as_u64 (v_vector_id v) = i" by (simp add: stored_vector_def)
    then have "v \<in> set rows" using v wanted rows(2) by auto
    then have "i \<in> fst ` set (map (stored_vector fo) rows)" using v(2) by force
    then obtain y where y: "?m i = Some y" by (meson hash_map_of_None not_Some_eq)
    from hash_map_of_Some [OF this] obtain w where w: "w \<in> set rows" "stored_vector fo w = (i, y)" by auto
    then have "w = v" using inj [of w v] rows(2) v(1) i by (auto simp: stored_vector_def)
    with w v y show "?m i = Some x" by simp
  qed
  then show "\<exists>m. so_vectors_by_id (sqlite_source fo db) ids = Inr m
      \<and> (\<forall>i v. m i = Some v \<longleftrightarrow> i \<in> set ids \<and> (\<exists>e. (i, v) \<in> set (so_entity_vectors (sqlite_source fo db) e)))"
    using rows(1) by (intro exI [of _ ?m]) (simp add: sqlite_source_def)
qed

definition memory_ok :: "'f memory_source \<Rightarrow> bool" where
  "memory_ok m \<longleftrightarrow> distinct (map fst m) \<and> (\<forall>x \<in> set m. distinct (map fst (snd x)))
     \<and> (\<forall>x \<in> set m. \<forall>y \<in> set m. fst x = fst y \<or> fst ` set (snd x) \<inter> fst ` set (snd y) = {})"

lemma entity_rows_mem: "memory_ok m \<Longrightarrow> x \<in> set (entity_rows e m) \<longleftrightarrow> (\<exists>rows. (e, rows) \<in> set m \<and> x \<in> set rows)"
  by (auto simp: entity_rows_def coalesce_def memory_ok_def split: option.splits dest: map_of_SomeD)

interpretation memory_source: vector_source memory_vector_source memory_ok
proof unfold_locales
  fix m :: "'f memory_source" and e ids
  assume ok: "memory_ok m"
  show "distinct (map fst (so_entity_vectors (memory_vector_source m) e))"
  proof -
    have "distinct (map fst (entity_rows e m))"
      using ok by (auto simp: entity_rows_def coalesce_def memory_ok_def split: option.splits dest!: map_of_SomeD)
    then have "distinct (map fst (sort_key fst (entity_rows e m)))"
      by (metis mset_eq_imp_distinct_iff mset_map mset_sort)
    then show ?thesis by (simp add: memory_vector_source_def)
  qed
  show "set (so_entities (memory_vector_source m)) = {e. so_entity_vectors (memory_vector_source m) e \<noteq> []}"
  proof -
    have "(n, rows) \<in> set m \<longleftrightarrow> map_of m n = Some rows" for n rows
      using ok by (simp add: memory_ok_def)
    moreover have "n \<in> set (so_entities (memory_vector_source m)) \<longleftrightarrow> (\<exists>rows. (n, rows) \<in> set m \<and> rows \<noteq> [])" for n
      by (simp add: memory_vector_source_def image_iff)
    ultimately have "n \<in> set (so_entities (memory_vector_source m)) \<longleftrightarrow> entity_rows n m \<noteq> []" for n
      by (cases "map_of m n") (simp_all add: entity_rows_def coalesce_def)
    then show ?thesis by (auto simp: memory_vector_source_def sort_key_eq_Nil)
  qed
  have find: "find_map (\<lambda>(_, rows). map_of rows i) m = Some v \<longleftrightarrow> (\<exists>e. (i, v) \<in> set (entity_rows e m))" for i v
  proof
    assume "find_map (\<lambda>(_, rows). map_of rows i) m = Some v"
    from find_map_Some [OF this] show "\<exists>e. (i, v) \<in> set (entity_rows e m)"
      unfolding entity_rows_mem [OF ok] by (auto dest: map_of_SomeD)
  next
    assume "\<exists>e. (i, v) \<in> set (entity_rows e m)"
    then obtain e rows where r: "(e, rows) \<in> set m" "(i, v) \<in> set rows" unfolding entity_rows_mem [OF ok] by blast
    then have v: "map_of rows i = Some v" using ok unfolding memory_ok_def by (metis map_of_is_SomeI snd_conv)
    have same: "map_of rows' i = None \<or> map_of rows' i = Some v" if "(e', rows') \<in> set m" for e' rows'
    proof (cases "e' = e")
      case True
      then have "rows' = rows" using ok r that eq_key_imp_eq_value [of m e rows rows'] by (simp add: memory_ok_def)
      with v show ?thesis by simp
    next
      case False
      then have "fst ` set rows' \<inter> fst ` set rows = {}" using ok r(1) that unfolding memory_ok_def by (metis fst_conv snd_conv)
      then have "i \<notin> fst ` set rows'" using r(2) by force
      then show ?thesis by (simp add: map_of_eq_None_iff)
    qed
    show "find_map (\<lambda>(_, rows). map_of rows i) m = Some v"
    proof (cases "find_map (\<lambda>(_, rows). map_of rows i) m")
      case None
      with find_map_None [of "\<lambda>(_, rows). map_of rows i" m] r(1) v show ?thesis by force
    next
      case (Some w)
      from find_map_Some [OF Some] same show ?thesis using Some by fastforce
    qed
  qed
  show "\<exists>mm. so_vectors_by_id (memory_vector_source m) ids = Inr mm
      \<and> (\<forall>i v. mm i = Some v \<longleftrightarrow> i \<in> set ids \<and> (\<exists>e. (i, v) \<in> set (so_entity_vectors (memory_vector_source m) e)))"
    by (simp add: memory_vector_source_def find)
qed

subsection \<open>The life of an index\<close>

definition coherent :: "'f::linorder float_ops \<Rightarrow> VectorConfig \<Rightarrow> 'f vector_source \<Rightarrow> ('h, 'f) vector_index \<Rightarrow> bool" where
  "coherent fo cfg src ix \<longleftrightarrow> source_ok (vc_dimensions cfg) src \<and> vi_config ix = cfg
     \<and> (\<forall>e seg. slot_segment e ix = Some (Flat seg) \<longrightarrow>
          flat_ok (vc_dimensions cfg) (vc_quantization cfg) seg
          \<and> flat_map seg = map_option (encode_row fo (vc_quantization cfg) \<circ> normalized fo)
              \<circ> map_of (so_entity_vectors src e))"

text \<open>The writes to the source that come before the calls of the index.\<close>

definition written :: "nat \<Rightarrow> str \<Rightarrow> (u64 \<times> 'f list) list \<Rightarrow> 'f vector_source \<Rightarrow> 'f vector_source \<Rightarrow> bool" where
  "written dims e items src src' \<longleftrightarrow> source_ok dims src' \<and> (\<forall>(i, v) \<in> set items. length v = dims)
     \<and> (\<forall>n. map_of (so_entity_vectors src' n)
          = (if n = e then map_of (so_entity_vectors src n) ++ map_of (rev items) else map_of (so_entity_vectors src n)))"

definition erased :: "nat \<Rightarrow> str \<Rightarrow> u64 list \<Rightarrow> 'f vector_source \<Rightarrow> 'f vector_source \<Rightarrow> bool" where
  "erased dims e ids src src' \<longleftrightarrow> source_ok dims src'
     \<and> (\<forall>n. map_of (so_entity_vectors src' n)
          = (if n = e then map_of (so_entity_vectors src n) |` (- set ids) else map_of (so_entity_vectors src n)))"

definition index_removes :: "('h, 'f) usearch \<Rightarrow> str \<Rightarrow> u64 list \<Rightarrow> ('h, 'f) vector_index \<Rightarrow> ('h, 'f) vector_index" where
  "index_removes us e ids ix = foldl (\<lambda>ix i. fst (index_remove us e i ix)) ix ids"

inductive vector_run ::
  "'f::linorder float_ops \<Rightarrow> ('h, 'f) usearch \<Rightarrow> VectorConfig \<Rightarrow> 'f vector_source \<Rightarrow> ('h, 'f) vector_index \<Rightarrow> bool"
  for fo us cfg where
  fresh: "source_ok (vc_dimensions cfg) src \<Longrightarrow> vector_run fo us cfg src (index_new cfg)"
| insert: "vector_run fo us cfg src ix \<Longrightarrow> written (vc_dimensions cfg) e items src src'
     \<Longrightarrow> vector_run fo us cfg src' (fst (insert_batch fo us e items ix))"
| remove: "vector_run fo us cfg src ix \<Longrightarrow> erased (vc_dimensions cfg) e ids src src'
     \<Longrightarrow> vector_run fo us cfg src' (index_removes us e ids ix)"
| clear: "vector_run fo us cfg src ix \<Longrightarrow> source_ok (vc_dimensions cfg) src'
     \<Longrightarrow> (\<And>n. entity \<noteq> None \<Longrightarrow> entity \<noteq> Some n \<Longrightarrow> map_of (so_entity_vectors src' n) = map_of (so_entity_vectors src n))
     \<Longrightarrow> vector_run fo us cfg src' (index_clear entity ix)"
| search: "vector_run fo us cfg src ix \<Longrightarrow> vector_run fo us cfg src (fst (index_search fo us src entity query limit ix))"
| len: "vector_run fo us cfg src ix \<Longrightarrow> vector_run fo us cfg src (fst (index_len fo us src entity ix))"

lemma slot_set_slot [simp]: "slot_segment n (set_slot e s ix) = (if n = e then s else slot_segment n ix)"
  by (simp add: slot_segment_def set_slot_def)

lemma set_slot_config [simp]: "vi_config (set_slot e s ix) = vi_config ix"
  by (simp add: set_slot_def)

lemma check_all_ok: "check_all cfg items = Inr () \<longleftrightarrow> (\<forall>(i, v) \<in> set items. length v = vc_dimensions cfg)"
  by (induction cfg items rule: check_all.induct) (auto simp: check_dimensions_def)

lemma coherent_build:
  assumes "0 < vc_dimensions cfg" "source_ok (vc_dimensions cfg) src"
    and "build_segment fo us cfg (so_entity_vectors src e) = Inr (Flat seg)"
  shows "flat_ok (vc_dimensions cfg) (vc_quantization cfg) seg
    \<and> flat_map seg = map_option (encode_row fo (vc_quantization cfg) \<circ> normalized fo) \<circ> map_of (so_entity_vectors src e)"
proof -
  let ?rows = "so_entity_vectors src e"
  have lens: "\<forall>(i, v) \<in> set ?rows. length v = vc_dimensions cfg" and dist: "distinct (map fst ?rows)"
    using assms(2) by (simp_all add: source_ok_def)
  have "seg = flat_upserts fo ?rows (flat_new (vc_dimensions cfg) (vc_quantization cfg))"
    using assms(3) lens check_all_ok [of cfg ?rows]
    by (auto simp: build_segment_def bind_res_eq_Inr split: if_splits)
  moreover have "map_of (rev ?rows) = map_of ?rows"
  proof
    fix n
    have "map_of (rev ?rows) n = Some v \<longleftrightarrow> map_of ?rows n = Some v" for v
      using dist by (simp add: rev_map [symmetric])
    then show "map_of (rev ?rows) n = map_of ?rows n" by (metis not_None_eq)
  qed
  ultimately show ?thesis
    using flat_upserts_refines [OF assms(1) conjunct1 [OF flat_new_ok] lens, of "vc_quantization cfg" fo]
    by (simp add: flat_new_ok)
qed

lemma coherent_with_segment:
  assumes "0 < vc_dimensions cfg" "coherent fo cfg src ix"
  shows "coherent fo cfg src (fst (with_segment fo us src e ix))
    \<and> (\<forall>seg. snd (with_segment fo us src e ix) = Inr seg \<longrightarrow> slot_segment e (fst (with_segment fo us src e ix)) = Some seg)"
proof (cases "slot_segment e ix")
  case (Some seg)
  with assms show ?thesis by (simp add: with_segment_def)
next
  case None
  have cfg: "vi_config ix = cfg" "source_ok (vc_dimensions cfg) src" using assms(2) by (simp_all add: coherent_def)
  show ?thesis
  proof (cases "build_segment fo us cfg (so_entity_vectors src e)")
    case (Inl err)
    with None cfg assms(2) show ?thesis by (auto simp: with_segment_def coherent_def)
  next
    case (Inr seg)
    then show ?thesis
      using None cfg assms(2) coherent_build [OF assms(1) cfg(2), of fo us e]
      by (auto simp: with_segment_def coherent_def)
  qed
qed

lemma coherent_each_segment:
  "0 < vc_dimensions cfg \<Longrightarrow> coherent fo cfg src ix \<Longrightarrow> coherent fo cfg src (fst (each_segment fo us src f es ix))"
proof (induction es arbitrary: ix)
  case (Cons e es)
  note c = conjunct1 [OF coherent_with_segment [OF Cons.prems, of us e]]
  show ?case
  proof (cases "with_segment fo us src e ix")
    case (Pair ix' r)
    with c have "coherent fo cfg src ix'" by simp
    with Pair Cons.IH [OF Cons.prems(1) this] show ?thesis
      by (cases r; cases "f (projr r)") (auto simp: split_beta)
  qed
qed simp

lemma coherent_insert_batch:
  assumes "0 < vc_dimensions cfg" "coherent fo cfg src ix" "written (vc_dimensions cfg) e items src src'"
  shows "coherent fo cfg src' (fst (insert_batch fo us e items ix))"
proof -
  have cfg: "vi_config ix = cfg" and src': "source_ok (vc_dimensions cfg) src'"
    and lens: "\<forall>(i, v) \<in> set items. length v = vc_dimensions cfg"
    and maps: "map_of (so_entity_vectors src' n) = (if n = e then map_of (so_entity_vectors src n) ++ map_of (rev items)
      else map_of (so_entity_vectors src n))" for n
    using assms(2,3) by (simp_all add: coherent_def written_def)
  have all: "check_all cfg items = Inr ()" using lens by (simp add: check_all_ok)
  let ?enc = "encode_row fo (vc_quantization cfg) \<circ> normalized fo"
  have upserts: "flat_ok (vc_dimensions cfg) (vc_quantization cfg) (flat_upserts fo items seg)
      \<and> flat_map (flat_upserts fo items seg) = map_option ?enc \<circ> map_of (so_entity_vectors src' e)"
    if "slot_segment e ix = Some (Flat seg)" for seg
  proof -
    have "flat_ok (vc_dimensions cfg) (vc_quantization cfg) seg" "flat_map seg = map_option ?enc \<circ> map_of (so_entity_vectors src e)"
      using assms(2) that by (auto simp: coherent_def)
    with flat_upserts_refines [OF assms(1) this(1) lens, of fo] show ?thesis
      by (auto simp: maps map_add_def fun_eq_iff split: option.splits)
  qed
  show ?thesis
  proof (cases "items = []")
    case True
    with assms(2) cfg src' maps show ?thesis by (auto simp: insert_batch_def coherent_def)
  next
    case False
    show ?thesis
    proof (cases "slot_segment e ix")
      case None
      with False all cfg src' maps assms(2) show ?thesis by (auto simp: insert_batch_def coherent_def)
    next
      case (Some s)
      show ?thesis
      proof (cases s)
        case (Flat seg)
        with False all cfg src' maps assms(2) Some upserts [of seg] show ?thesis
          by (auto simp: insert_batch_def coherent_def Let_def split: if_splits)
      next
        case (Hnsw h)
        with False all cfg src' maps assms(2) Some show ?thesis
          by (auto simp: insert_batch_def coherent_def split_beta split: if_splits)
      qed
    qed
  qed
qed

text \<open>What the loaded flat segments hold, by entity.\<close>

definition mirrors ::
  "'f::linorder float_ops \<Rightarrow> VectorConfig \<Rightarrow> (str \<Rightarrow> u64 \<rightharpoonup> 'f list) \<Rightarrow> ('h, 'f) vector_index \<Rightarrow> bool" where
  "mirrors fo cfg M ix \<longleftrightarrow> vi_config ix = cfg \<and> (\<forall>e seg. slot_segment e ix = Some (Flat seg) \<longrightarrow>
     flat_ok (vc_dimensions cfg) (vc_quantization cfg) seg
     \<and> flat_map seg = map_option (encode_row fo (vc_quantization cfg) \<circ> normalized fo) \<circ> M e)"

lemma coherent_mirrors:
  "coherent fo cfg src ix \<longleftrightarrow> source_ok (vc_dimensions cfg) src \<and> mirrors fo cfg (\<lambda>e. map_of (so_entity_vectors src e)) ix"
  by (simp add: coherent_def mirrors_def)

lemma mirrors_remove:
  assumes "0 < vc_dimensions cfg" "mirrors fo cfg M ix"
  shows "mirrors fo cfg (M(e := (M e)(i := None))) (fst (index_remove us e i ix))"
proof (cases "slot_segment e ix")
  case None
  with assms(2) show ?thesis by (auto simp: index_remove_def mirrors_def)
next
  case (Some s)
  show ?thesis
  proof (cases s)
    case (Flat seg)
    have "flat_ok (vc_dimensions cfg) (vc_quantization cfg) seg"
        "flat_map seg = map_option (encode_row fo (vc_quantization cfg) \<circ> normalized fo) \<circ> M e"
      using assms(2) Some Flat by (auto simp: mirrors_def)
    with flat_remove_refines [OF assms(1) this(1), of i]
    have "flat_ok (vc_dimensions cfg) (vc_quantization cfg) (fst (flat_remove i seg))
        \<and> flat_map (fst (flat_remove i seg))
          = map_option (encode_row fo (vc_quantization cfg) \<circ> normalized fo) \<circ> (M e)(i := None)"
      by (auto simp: fun_eq_iff)
    with Flat assms(2) Some show ?thesis
      by (auto simp: index_remove_def mirrors_def split_beta split: if_splits)
  next
    case (Hnsw h)
    with assms(2) Some show ?thesis
      by (auto simp: index_remove_def mirrors_def split_beta split: if_splits)
  qed
qed

lemma mirrors_removes:
  "0 < vc_dimensions cfg \<Longrightarrow> mirrors fo cfg M ix \<Longrightarrow> mirrors fo cfg (M(e := M e |` (- set ids))) (index_removes us e ids ix)"
proof (induction ids arbitrary: ix M)
  case (Cons i ids)
  let ?M = "M(e := (M e)(i := None))"
  have eq: "?M(e := ?M e |` (- set ids)) = M(e := M e |` (- set (i # ids)))"
    by (auto simp: restrict_map_def fun_eq_iff)
  have "index_removes us e (i # ids) ix = index_removes us e ids (fst (index_remove us e i ix))"
    by (simp add: index_removes_def)
  with Cons.IH [OF Cons.prems(1) mirrors_remove [OF Cons.prems, of e i us], unfolded eq] show ?case by simp
qed (simp add: index_removes_def restrict_map_def)

lemma coherent_remove:
  assumes "0 < vc_dimensions cfg" "coherent fo cfg src ix" "erased (vc_dimensions cfg) e ids src src'"
  shows "coherent fo cfg src' (index_removes us e ids ix)"
proof -
  have "(\<lambda>n. map_of (so_entity_vectors src' n)) = (\<lambda>n. map_of (so_entity_vectors src n))
      (e := map_of (so_entity_vectors src e) |` (- set ids))"
    using assms(3) by (auto simp: erased_def)
  with assms mirrors_removes [OF assms(1), of fo "\<lambda>n. map_of (so_entity_vectors src n)" ix e ids us] show ?thesis
    by (simp add: coherent_mirrors erased_def)
qed

lemma index_search_config:
  "0 < vc_dimensions cfg \<Longrightarrow> coherent fo cfg src ix \<Longrightarrow> coherent fo cfg src (fst (index_search fo us src entity query limit ix))"
  by (auto simp: index_search_def Let_def split_beta split: sum.splits intro: coherent_each_segment)

lemma run_coherent:
  assumes "vector_run fo us cfg src ix" "0 < vc_dimensions cfg"
  shows "coherent fo cfg src ix"
  using assms(1)
proof induction
  case (fresh src)
  then show ?case by (simp add: coherent_def index_new_def slot_segment_def)
next
  case (insert src ix e items src')
  then show ?case using coherent_insert_batch [OF assms(2)] by blast
next
  case (remove src ix e ids src')
  then show ?case using coherent_remove [OF assms(2)] by blast
next
  case (clear src ix src' entity)
  then show ?case
    by (cases entity) (auto simp: coherent_def index_clear_def slot_segment_def)
next
  case (search src ix entity query limit)
  then show ?case using index_search_config [OF assms(2)] by blast
next
  case (len src ix entity)
  then show ?case using coherent_each_segment [OF assms(2)] by (simp add: index_len_def split_beta)
qed

subsection \<open>What a search returns\<close>

text \<open>The exact similarity of a query and a stored vector.\<close>

definition similarity :: "'f::linorder float_ops \<Rightarrow> 'f vector_source \<Rightarrow> str \<Rightarrow> 'f list \<Rightarrow> u64 \<Rightarrow> 'f" where
  "similarity fo src e query i =
     dot_f32 fo (normalized fo query) (normalized fo (the (map_of (so_entity_vectors src e) i)))"

lemma map_filter_all: "\<forall>x \<in> set xs. f x = Some (g x) \<Longrightarrow> List.map_filter f xs = map g xs"
  by (induction xs) (auto simp: List.map_filter_simps)

lemma rescored_hits:
  assumes "source_ok dims src"
    and "set hits \<subseteq> (\<lambda>(i, v). (i, h v)) ` set (so_entity_vectors src e)"
    and "so_vectors_by_id src (map fst hits) = Inr full"
  shows "List.map_filter (\<lambda>(i, _). map_option (\<lambda>v. (i, dot_f32 fo (normalized fo query) (normalized fo v))) (full i)) hits
    = map (\<lambda>i. (i, similarity fo src e query i)) (map fst hits)"
proof -
  have dist: "distinct (map fst (so_entity_vectors src e))" using assms(1) by (simp add: source_ok_def)
  have full: "(i, v) \<in> set (so_entity_vectors src e) \<Longrightarrow> i \<in> set (map fst hits) \<Longrightarrow> full i = Some v" for i v
    using assms(1,3) unfolding source_ok_def by (metis Inr_inject)
  have "(\<lambda>(i, _). map_option (\<lambda>v. (i, dot_f32 fo (normalized fo query) (normalized fo v))) (full i)) x
      = Some (fst x, similarity fo src e query (fst x))" if x: "x \<in> set hits" for x
  proof -
    obtain v where v: "(fst x, v) \<in> set (so_entity_vectors src e)" using assms(2) x by auto
    moreover have "fst x \<in> set (map fst hits)" using x by simp
    ultimately show ?thesis using full dist by (simp add: similarity_def split_beta)
  qed
  then show ?thesis
    using map_filter_all [of hits _ "\<lambda>x. (fst x, similarity fo src e query (fst x))"] by (simp add: comp_def)
qed

lemma exact_scores:
  assumes "distinct (map fst (so_entity_vectors src e))"
    and "set hits \<subseteq> (\<lambda>(i, v). (i, dot_f32 fo (normalized fo query) (normalized fo v))) ` set (so_entity_vectors src e)"
  shows "hits = map (\<lambda>i. (i, similarity fo src e query i)) (map fst hits)"
proof -
  have "x = (fst x, similarity fo src e query (fst x))" if "x \<in> set hits" for x
    using that assms by (auto simp: similarity_def)
  then show ?thesis by (simp add: map_idI)
qed

lemma final_order:
  fixes S :: "u64 \<Rightarrow> 'f::linorder"
  assumes "distinct ids"
  shows "\<exists>os. take limit (sort_desc snd (sort_key fst (map (\<lambda>i. (i, S i)) ids))) = map (\<lambda>i. (i, S i)) os
     \<and> distinct os \<and> set os \<subseteq> set ids \<and> length os = min limit (length ids)
     \<and> sorted_wrt (\<lambda>i j. S j \<le> S i) os \<and> (\<forall>i \<in> set os. \<forall>j \<in> set ids - set os. S j \<le> S i)"
proof -
  let ?s = "sort_desc S (sort_key (\<lambda>i. i) ids)"
  have eq: "sort_desc snd (sort_key fst (map (\<lambda>i. (i, S i)) ids)) = map (\<lambda>i. (i, S i)) ?s"
    by (simp add: sort_key_map_general sort_desc_map comp_def)
  have s: "distinct ?s" "set ?s = set ids" "length ?s = length ids" "sorted_wrt (\<lambda>i j. S j \<le> S i) ?s"
    using assms sorted_sort_desc [of S "sort_key (\<lambda>i. i) ids"] by simp_all
  have "S j \<le> S i" if "i \<in> set (take limit ?s)" "j \<in> set ids - set (take limit ?s)" for i j
  proof -
    have "j \<in> set (drop limit ?s)" using that(2) s(2) by (metis Diff_iff Un_iff append_take_drop_id set_append)
    from sorted_take_drop [OF s(4) that(1) this] show ?thesis .
  qed
  then show ?thesis
    using s by (intro exI [of _ "take limit ?s"])
      (auto simp: eq take_map sorted_wrt_take dest: in_set_takeD)
qed


text \<open>
  C19. Every loaded flat segment of a reachable index is well-formed and mirrors its source: the ids
  are those stored for the entity, each once, \<open>positions\<close> is their inverse, the buffers hold exactly
  one row of the configured width per id, and the row of an id encodes its stored vector.
\<close>

theorem segments_well_formed:
  assumes "vector_run fo us cfg src ix" and "0 < vc_dimensions cfg"
    and "slot_segment e ix = Some (Flat seg)"
  shows "distinct (fs_ids seg) \<and> set (fs_ids seg) = fst ` set (so_entity_vectors src e)
     \<and> (\<forall>i r. fs_positions seg i = Some r \<longleftrightarrow> r < length (fs_ids seg) \<and> fs_ids seg ! r = i)
     \<and> fs_dims seg = vc_dimensions cfg \<and> quant_of (fs_codes seg) = vc_quantization cfg
     \<and> codes_ok (vc_dimensions cfg) (length (fs_ids seg)) (fs_codes seg)
     \<and> flat_map seg = map_option (encode_row fo (vc_quantization cfg) \<circ> normalized fo) \<circ> map_of (so_entity_vectors src e)"
proof -
  have seg: "flat_ok (vc_dimensions cfg) (vc_quantization cfg) seg"
      "flat_map seg = map_option (encode_row fo (vc_quantization cfg) \<circ> normalized fo) \<circ> map_of (so_entity_vectors src e)"
    using run_coherent [OF assms(1,2)] assms(3) by (auto simp: coherent_def)
  have "i \<in> set (fs_ids seg) \<longleftrightarrow> i \<in> fst ` set (so_entity_vectors src e)" for i
  proof -
    have "i \<in> set (fs_ids seg) \<longleftrightarrow> flat_map seg i \<noteq> None"
      using flat_positions_None [OF seg(1), of i] by (simp add: flat_map_def)
    also have "\<dots> \<longleftrightarrow> map_of (so_entity_vectors src e) i \<noteq> None" by (simp add: seg(2))
    finally show ?thesis by (metis map_of_eq_None_iff)
  qed
  with seg flat_ok_distinct [OF seg(1)] show ?thesis by (auto simp: flat_ok_def)
qed

text \<open>Exact integer arithmetic, and a graph library that is never asked.\<close>

definition int_floats :: "int float_ops" where
  "int_floats =
     \<lparr>fo_zero = 0, fo_one = 1, fo_epsilon = 0, fo_add = (+), fo_sub = (-), fo_mul = (*), fo_div = (div),
      fo_sqrt = (\<lambda>x. int (length (filter (\<lambda>s. s * s \<le> nat x) [1..<Suc (nat x)]))), fo_abs = abs,
      fo_of_int = (\<lambda>i. i), fo_round = (\<lambda>i. i), fo_to_f16 = word_of_int, fo_of_f16 = sint, fo_of_bits = sint\<rparr>"

definition no_usearch :: "(unit, int) usearch" where
  "no_usearch =
     \<lparr>us_new = (\<lambda>_. Inl ''none''), us_reserve = (\<lambda>_ h. (h, Inr ())), us_contains = (\<lambda>_ _. False),
      us_remove = (\<lambda>_ h. (h, Inr 0)), us_add = (\<lambda>_ _ h. (h, Inr ())), us_size = (\<lambda>_. 0), us_capacity = (\<lambda>_. 0),
      us_search = (\<lambda>_ _ _. Inr []), us_memory_usage = (\<lambda>_. 0)\<rparr>"

definition sample_vectors :: "int memory_source" where
  "sample_vectors = [(''e'', [(1, [1, 0]), (2, [0, 1])])]"

definition sample_index :: "(unit, int) vector_index" where
  "sample_index = fst (index_search int_floats no_usearch (memory_vector_source sample_vectors) (Some ''e'') [0, 1] 1
     (index_new (vector_config_new 2)))"

lemma sample_source_ok: "source_ok 2 (memory_vector_source sample_vectors)"
  by (rule memory_source.source_ok) (auto simp: memory_ok_def sample_vectors_def memory_vector_source_def entity_rows_def
    coalesce_def)

lemma sample_fresh:
  "vector_run int_floats no_usearch (vector_config_new 2) (memory_vector_source sample_vectors) (index_new (vector_config_new 2))"
  by (rule vector_run.fresh) (simp add: vector_config_new_def sample_source_ok)

lemma sample_run: "vector_run int_floats no_usearch (vector_config_new 2) (memory_vector_source sample_vectors) sample_index"
  unfolding sample_index_def by (rule vector_run.search [OF sample_fresh])

lemma sample_slot: "\<exists>seg. slot_segment ''e'' sample_index = Some (Flat seg)"
  by (simp add: sample_index_def index_search_def check_dimensions_def index_new_def vector_config_new_def
    with_segment_def slot_segment_def set_slot_def build_segment_def memory_vector_source_def sample_vectors_def
    entity_rows_def coalesce_def Let_def)


lemma segments_well_formed_witness:
  "\<exists>seg. slot_segment ''e'' sample_index = Some (Flat seg) \<and> distinct (fs_ids seg) \<and> set (fs_ids seg) = {1, 2}"
proof -
  obtain seg where seg: "slot_segment ''e'' sample_index = Some (Flat seg)" using sample_slot by blast
  have "fst ` set (so_entity_vectors (memory_vector_source sample_vectors) ''e'') = {1, 2}"
    by (simp add: memory_vector_source_def sample_vectors_def entity_rows_def coalesce_def)
  with segments_well_formed [OF sample_run _ seg] seg show ?thesis by (auto simp: vector_config_new_def)
qed

end
