(* ===== verification/Retention_Laws.thy ===== *)
theory Retention_Laws
  imports Retention Deletion_Laws Vector_Search
begin

section \<open>Purging expired memories\<close>

text \<open>
  A purge deletes the families of the expired memories one after the other.  The invariant
  \<open>purge_ok\<close> is what each deletion needs of the tables; the step lemma says that the vectors that
  a deletion reports are exactly those it has deleted, so that the index follows the tables.
\<close>

subsection \<open>Sources that lose vectors\<close>

definition purge_ok :: "'f::linorder float_ops \<Rightarrow> nat \<Rightarrow> store \<Rightarrow> bool" where
  "purge_ok fo dims db \<longleftrightarrow>
     distinct (map v_memory_id (vector_lookup db))
     \<and> v_memory_id ` set (vector_lookup db) \<subseteq> m_memory_id ` set (memories db)
     \<and> distinct (map m_memory_id (memories db))
     \<and> (\<forall>v \<in> set (vector_lookup db). \<forall>m \<in> set (memories db).
          in_family (m_memory_id m) (v_memory_id v) \<longrightarrow> v_entity_id v = m_entity_id m)
     \<and> sqlite_ok db \<and> (\<forall>v \<in> set (vector_lookup db). length (snd (stored_vector fo v)) = dims)
     \<and> fv_ok (versions (facts db))"

lemma sqlite_map_of:
  assumes "sqlite_ok db"
  shows "map_of (so_entity_vectors (sqlite_source fo db) e) i = Some x
     \<longleftrightarrow> (\<exists>v \<in> set (vector_lookup db). v_entity_id v = e \<and> stored_vector fo v = (i, x))"
  unfolding map_of_eq_Some_iff [OF sqlite.distinct_ids [OF assms]] sqlite_entity_vectors by force

lemma sqlite_vector_inj:
  assumes "sqlite_ok db" "v \<in> set (vector_lookup db)" "w \<in> set (vector_lookup db)"
    and "as_u64 (v_vector_id v) = as_u64 (v_vector_id w)"
  shows "v = w"
proof -
  have "as_i64 (as_u64 (v_vector_id x)) = v_vector_id x" if "x \<in> set (vector_lookup db)" for x
    using assms(1) that by (simp add: sqlite_ok_def)
  with assms(2-4) have "v_vector_id v = v_vector_id w" by metis
  with assms(1-3) show ?thesis by (auto simp: sqlite_ok_def distinct_map inj_on_def)
qed

lemma option_eqI: "(\<And>x. a = Some x \<longleftrightarrow> b = Some x) \<Longrightarrow> a = b"
  by (cases a; cases b) auto

lemma sqlite_erased:
  assumes ok: "sqlite_ok db" and dims: "\<forall>v \<in> set (vector_lookup db). length (snd (stored_vector fo v)) = dims"
    and db': "vector_lookup db' = filter (\<lambda>v. \<not> P v) (vector_lookup db)"
    and ids: "set ids = (\<lambda>v. as_u64 (v_vector_id v)) ` {v \<in> set (vector_lookup db). P v}"
    and one: "\<forall>v \<in> set (vector_lookup db). P v \<longrightarrow> v_entity_id v = e"
  shows "erased dims e ids (sqlite_source fo db) (sqlite_source fo db')"
proof -
  have ok': "sqlite_ok db'"
    using ok by (auto simp: sqlite_ok_def db' distinct_map inj_on_def)
  have "\<forall>e. \<forall>(i, v) \<in> set (so_entity_vectors (sqlite_source fo db') e). length v = dims"
    using dims unfolding sqlite_entity_vectors db' by (fastforce dest: arg_cong [where f = snd])
  then have src: "source_ok dims (sqlite_source fo db')" by (rule sqlite.source_ok [OF ok'])
  have gone: "as_u64 (v_vector_id v) \<in> set ids \<longleftrightarrow> P v" if "v \<in> set (vector_lookup db)" for v
    using that sqlite_vector_inj [OF ok that] unfolding ids by (auto simp: image_iff)
  have "map_of (so_entity_vectors (sqlite_source fo db') n) i
      = (if n = e then map_of (so_entity_vectors (sqlite_source fo db) n) |` (- set ids)
         else map_of (so_entity_vectors (sqlite_source fo db) n)) i" for n i
  proof (rule option_eqI)
    fix x
    have id: "as_u64 (v_vector_id v) = i" if "stored_vector fo v = (i, x)" for v
      using that by (simp add: stored_vector_def)
    have R: "(if n = e then map_of (so_entity_vectors (sqlite_source fo db) n) |` (- set ids)
         else map_of (so_entity_vectors (sqlite_source fo db) n)) i = Some x
       \<longleftrightarrow> map_of (so_entity_vectors (sqlite_source fo db) n) i = Some x \<and> (n = e \<longrightarrow> i \<notin> set ids)"
      by (auto simp: restrict_map_def)
    show "(map_of (so_entity_vectors (sqlite_source fo db') n) i = Some x)
      = ((if n = e then map_of (so_entity_vectors (sqlite_source fo db) n) |` (- set ids)
         else map_of (so_entity_vectors (sqlite_source fo db) n)) i = Some x)"
      unfolding R sqlite_map_of [OF ok] sqlite_map_of [OF ok'] db'
      using gone one id by fastforce
  qed
  with src show ?thesis by (auto simp: erased_def fun_eq_iff)
qed

subsection \<open>One deletion\<close>

lemma delete_observation_result:
  "do_entity_id (snd (delete_observation tomb tj fj parse print now mid reason db))
     = (case row_of m_memory_id (memories db) mid of None \<Rightarrow> [] | Some m \<Rightarrow> m_entity_id m)"
  "do_vector_id (snd (delete_observation tomb tj fj parse print now mid reason db))
     = map_option as_u64 (map_option v_vector_id (row_of v_memory_id (vector_lookup db) mid))"
  "do_chunk_vector_ids (snd (delete_observation tomb tj fj parse print now mid reason db))
     = List.map_filter (\<lambda>(_, v). map_option as_u64 v)
         (derived_chunks mid (delete_self mid (write_tombstone tomb now mid reason db)))"
  unfolding delete_observation_def Let_def by (simp_all add: split_beta)

lemma derived_chunk_vectors:
  assumes "v_memory_id ` set (vector_lookup db) \<subseteq> m_memory_id ` set (memories db)"
  shows "set (List.map_filter (\<lambda>(_, v). map_option as_u64 v)
       (derived_chunks mid (delete_self mid (write_tombstone tomb now mid reason db))))
     = (\<lambda>v. as_u64 (v_vector_id v)) ` {v \<in> set (vector_lookup db). starts_with (v_memory_id v) (family_prefix mid)}"
    (is "?L = ?R")
proof -
  have prefix: "\<not> starts_with mid (family_prefix mid)"
    by (simp add: starts_with_iff family_prefix_def SEPARATOR_def)
  let ?db = "delete_self mid (write_tombstone tomb now mid reason db)"
  have ms: "memories ?db = filter (\<lambda>m. m_memory_id m \<noteq> mid) (memories db)"
    and vs: "vector_lookup ?db = filter (\<lambda>v. v_memory_id v \<noteq> mid) (vector_lookup db)"
    by (simp_all add: delete_self_def write_tombstone_def sql_delete_def)
  have one: "set (List.map_filter (\<lambda>(_, v). map_option as_u64 v)
      (case filter (\<lambda>v. v_memory_id v = m_memory_id m) (vector_lookup ?db) of
         [] \<Rightarrow> [(m_memory_id m, None)] | vs \<Rightarrow> map (\<lambda>v. (m_memory_id m, Some (v_vector_id v))) vs))
    = (\<lambda>v. as_u64 (v_vector_id v)) ` {v \<in> set (vector_lookup ?db). v_memory_id v = m_memory_id m}" for m :: memory_row
  proof -
    have M: "set (List.map_filter (\<lambda>(_, v). map_option as_u64 v) (map (\<lambda>v. (i, Some (v_vector_id v))) ws))
      = (\<lambda>v. as_u64 (v_vector_id v)) ` set ws" for i :: str and ws :: "vector_row list"
      by (induction ws) (simp_all add: List.map_filter_simps)
    have "set (List.map_filter (\<lambda>(_, v). map_option as_u64 v)
        (case ws of [] \<Rightarrow> [(i, None)] | vs \<Rightarrow> map (\<lambda>v. (i, Some (v_vector_id v))) vs))
      = (\<lambda>v. as_u64 (v_vector_id v)) ` set ws" for i :: str and ws :: "vector_row list"
      using M [of i ws] by (cases ws) (simp_all add: List.map_filter_simps)
    then show ?thesis by simp
  qed
  have concat: "set (List.map_filter f (concat xss)) = (\<Union>xs \<in> set xss. set (List.map_filter f xs))"
    for f :: "str \<times> int option \<Rightarrow> u64 option" and xss
    by (auto simp: set_map_filter)
  have "?L = (\<Union>m \<in> set (filter (\<lambda>m. starts_with (m_memory_id m) (family_prefix mid)) (memories ?db)).
      (\<lambda>v. as_u64 (v_vector_id v)) ` {v \<in> set (vector_lookup ?db). v_memory_id v = m_memory_id m})"
    unfolding derived_chunks_def concat set_map image_image one by simp
  also have "\<dots> = (\<lambda>v. as_u64 (v_vector_id v)) ` {v \<in> set (vector_lookup ?db).
      \<exists>m \<in> set (memories ?db). starts_with (m_memory_id m) (family_prefix mid) \<and> v_memory_id v = m_memory_id m}"
    by auto
  also have "{v \<in> set (vector_lookup ?db).
      \<exists>m \<in> set (memories ?db). starts_with (m_memory_id m) (family_prefix mid) \<and> v_memory_id v = m_memory_id m}
    = {v \<in> set (vector_lookup db). starts_with (v_memory_id v) (family_prefix mid)}"
  proof -
    have "(\<exists>m \<in> set (memories ?db). starts_with (m_memory_id m) (family_prefix mid) \<and> v_memory_id v = m_memory_id m)
      \<and> v_memory_id v \<noteq> mid \<longleftrightarrow> starts_with (v_memory_id v) (family_prefix mid)"
      if v: "v \<in> set (vector_lookup db)" for v
    proof -
      from v assms obtain m where "m \<in> set (memories db)" "m_memory_id m = v_memory_id v" by (metis imageE image_subset_iff)
      then show ?thesis using prefix unfolding ms by (auto intro!: bexI [of _ m])
    qed
    then show ?thesis unfolding vs by auto
  qed
  finally show ?thesis .
qed

lemma purged_vectors_set:
  assumes "purge_ok fo dims db"
    and "d = snd (delete_observation tomb tj fj parse print now mid reason db)"
  shows "set (purged_vectors d) = (\<lambda>v. as_u64 (v_vector_id v)) ` {v \<in> set (vector_lookup db). in_family mid (v_memory_id v)}"
proof -
  have dist: "distinct (map v_memory_id (vector_lookup db))"
    and own: "v_memory_id ` set (vector_lookup db) \<subseteq> m_memory_id ` set (memories db)"
    using assms(1) by (simp_all add: purge_ok_def)
  have self: "set (case do_vector_id d of None \<Rightarrow> [] | Some i \<Rightarrow> [i])
      = (\<lambda>v. as_u64 (v_vector_id v)) ` {v \<in> set (vector_lookup db). v_memory_id v = mid}"
  proof (cases "row_of v_memory_id (vector_lookup db) mid")
    case None
    then have "{v \<in> set (vector_lookup db). v_memory_id v = mid} = {}"
      by (auto simp: row_of_def find_None_iff)
    with None show ?thesis by (simp add: assms(2) delete_observation_result)
  next
    case (Some v)
    then have "{v \<in> set (vector_lookup db). v_memory_id v = mid} = {v}"
      using dist row_of_Some [OF Some] by (auto simp: distinct_map inj_on_def)
    with Some show ?thesis by (simp add: assms(2) delete_observation_result)
  qed
  have "{v \<in> set (vector_lookup db). in_family mid (v_memory_id v)}
      = {v \<in> set (vector_lookup db). v_memory_id v = mid}
        \<union> {v \<in> set (vector_lookup db). starts_with (v_memory_id v) (family_prefix mid)}"
    by (auto simp: in_family_def)
  then show ?thesis
    using self derived_chunk_vectors [OF own, of mid tomb now reason]
    by (simp add: purged_vectors_def image_Un) (simp add: assms(2) delete_observation_result)
qed

text \<open>An id whose row is gone has no family left.\<close>

definition owned :: "store \<Rightarrow> str \<Rightarrow> bool" where
  "owned db mid \<longleftrightarrow> mid \<in> m_memory_id ` set (memories db)
     \<or> (\<forall>m \<in> set (memories db). \<not> in_family mid (m_memory_id m))"

lemma purge_step:
  assumes ok: "purge_ok fo dims db" and mid: "owned db mid"
    and del: "delete_observation tomb tj fj parse print now mid reason db = (db', d)"
  shows "deleted_from mid db db'" "purge_ok fo dims db'"
    and "erased dims (do_entity_id d) (purged_vectors d) (sqlite_source fo db) (sqlite_source fo db')"
    and "owned db i \<Longrightarrow> owned db' i"
proof -
  have db': "db' = fst (delete_observation tomb tj fj parse print now mid reason db)"
    and d: "d = snd (delete_observation tomb tj fj parse print now mid reason db)"
    using del by simp_all
  have own: "v_memory_id ` set (vector_lookup db) \<subseteq> m_memory_id ` set (memories db)"
    and fam: "\<forall>v \<in> set (vector_lookup db). \<forall>m \<in> set (memories db).
          in_family (m_memory_id m) (v_memory_id v) \<longrightarrow> v_entity_id v = m_entity_id m"
    and sq: "sqlite_ok db" and dims: "\<forall>v \<in> set (vector_lookup db). length (snd (stored_vector fo v)) = dims"
    and fv: "fv_ok (versions (facts db))" and dist: "distinct (map m_memory_id (memories db))"
    using ok by (simp_all add: purge_ok_def)
  show gone: "deleted_from mid db db'"
    unfolding db' by (rule delete_observation_tables [OF own])
  then have ms: "memories db' = filter (\<lambda>m. \<not> in_family mid (m_memory_id m)) (memories db)"
    and vs: "vector_lookup db' = filter (\<lambda>v. \<not> in_family mid (v_memory_id v)) (vector_lookup db)"
    and fvs: "versions (facts db') = deleted_versions mid (versions (facts db))"
    by (simp_all add: deleted_from_def Let_def)
  show "purge_ok fo dims db'"
    using ok deleted_versions_laws(1) [OF fv]
    unfolding purge_ok_def sqlite_ok_def ms vs fvs
    by (auto simp: distinct_map inj_on_def)
  show "owned db' i" if "owned db i"
    using that in_family_trans [of mid i] unfolding owned_def ms by (auto simp: image_iff)
  have ent: "v_entity_id v = do_entity_id d" if v: "v \<in> set (vector_lookup db)" "in_family mid (v_memory_id v)" for v
  proof -
    from v(1) own obtain m' where "m' \<in> set (memories db)" "m_memory_id m' = v_memory_id v" by force
    with mid v(2) obtain m where m: "m \<in> set (memories db)" "m_memory_id m = mid"
      unfolding owned_def by force
    then have "row_of m_memory_id (memories db) mid = Some m"
      using row_of_unique [OF dist m(1)] by simp
    then show ?thesis using fam v m by (simp add: d delete_observation_result)
  qed
  show "erased dims (do_entity_id d) (purged_vectors d) (sqlite_source fo db) (sqlite_source fo db')"
    by (rule sqlite_erased [OF sq dims vs purged_vectors_set [OF ok d]]) (use ent in blast)
qed

subsection \<open>The loop\<close>

lemma remove_vectors_ok:
  "remove_vectors us e ids ix = (ix', Inr u) \<Longrightarrow> ix' = index_removes us e ids ix"
  by (induction ids arbitrary: ix)
    (auto simp: then_do_def index_removes_def split_beta split: sum.splits prod.splits)

definition flat_only :: "('h, 'f) vector_index \<Rightarrow> bool" where
  "flat_only ix \<longleftrightarrow> (\<forall>e h. slot_segment e ix \<noteq> Some (Hnsw h))"

lemma index_remove_flat:
  assumes "flat_only ix"
  shows "\<exists>ix' n. index_remove us e i ix = (ix', Inr n) \<and> flat_only ix'"
proof (cases "slot_segment e ix")
  case None
  with assms show ?thesis by (auto simp: index_remove_def flat_only_def)
next
  case (Some s)
  then show ?thesis
    using assms by (cases s) (auto simp: index_remove_def flat_only_def split_beta)
qed

lemma remove_vectors_flat:
  "flat_only ix \<Longrightarrow> \<exists>ix'. remove_vectors us e ids ix = (ix', Inr ()) \<and> flat_only ix'"
proof (induction ids arbitrary: ix)
  case (Cons i ids)
  obtain ix' n where 1: "index_remove us e i ix = (ix', Inr n)" and 2: "flat_only ix'"
    using index_remove_flat [OF Cons.prems] by blast
  from Cons.IH [OF 2] 1 show ?case by (simp add: then_do_def)
qed simp

definition outside :: "str list \<Rightarrow> str \<Rightarrow> bool" where
  "outside ids x \<longleftrightarrow> (\<forall>i \<in> set ids. \<not> in_family i x)"

definition purged_from :: "str list \<Rightarrow> store \<Rightarrow> store \<Rightarrow> bool" where
  "purged_from ids db db' \<longleftrightarrow>
     memories db' = filter (\<lambda>m. outside ids (m_memory_id m)) (memories db)
     \<and> vector_lookup db' = filter (\<lambda>v. outside ids (v_memory_id v)) (vector_lookup db)
     \<and> memory_cards db' = filter (\<lambda>c. outside ids (c_card_id c) \<and> c_source_memory_id c \<notin> set ids) (memory_cards db)
     \<and> preferences db' = filter (\<lambda>(_, m, _). outside ids m) (preferences db)
     \<and> consolidation_queue db' = filter (\<lambda>q. outside ids (q_memory_id q)) (consolidation_queue db)
     \<and> fv_ok (versions (facts db'))
     \<and> (\<forall>k e. history (versions (facts db')) k e = filter (\<lambda>(i, _). outside ids i) (history (versions (facts db)) k e))"

lemma purged_from_Nil: "purge_ok fo dims db \<Longrightarrow> purged_from [] db db"
  by (auto simp: purged_from_def outside_def purge_ok_def)

lemma purged_from_Cons:
  assumes "deleted_from i db db1" "fv_ok (versions (facts db))" "purged_from ids db1 db'"
  shows "purged_from (i # ids) db db'"
proof -
  have "history (versions (facts db1)) k e = filter (\<lambda>(x, _). \<not> in_family i x) (history (versions (facts db)) k e)" for k e
    using assms(1) deleted_versions_laws(2) [OF assms(2)] by (simp add: deleted_from_def Let_def)
  with assms(1,3) show ?thesis
    unfolding purged_from_def deleted_from_def Let_def
    by (auto simp: outside_def filter_filter split_beta intro!: filter_cong)
qed

lemma purge_loop_run:
  assumes "0 < vc_dimensions cfg"
    and step: "\<And>mid db. delete mid db = delete_observation tomb tj fj parse print (clock mid) mid reason db"
  shows "purge_ok fo (vc_dimensions cfg) db \<Longrightarrow> vector_run fo us cfg (sqlite_source fo db) ix \<Longrightarrow>
     \<forall>i \<in> set ids. owned db i \<Longrightarrow> purge_loop delete us ids db ix n = (db', ix', Inr k) \<Longrightarrow>
     k = n + length ids \<and> purged_from ids db db' \<and> vector_run fo us cfg (sqlite_source fo db') ix'"
proof (induction ids arbitrary: db ix n)
  case Nil
  then show ?case using purged_from_Nil by simp
next
  case (Cons mid ids)
  obtain db1 d where del: "delete mid db = (db1, d)" by (cases "delete mid db")
  note one = purge_step [OF Cons.prems(1) _ del [unfolded step]]
  have mid: "owned db mid" using Cons.prems(3) by simp
  obtain ix1 where ix1: "remove_vectors us (do_entity_id d) (purged_vectors d) ix = (ix1, Inr ())"
      "purge_loop delete us ids db1 ix1 (n + 1) = (db', ix', Inr k)"
    using Cons.prems(4) del by (auto split: prod.splits sum.splits)
  have run: "vector_run fo us cfg (sqlite_source fo db1) ix1"
    using vector_run.remove [OF Cons.prems(2) one(3) [OF mid]] remove_vectors_ok [OF ix1(1)] by simp
  have "\<forall>i \<in> set ids. owned db1 i" using Cons.prems(3) one(4) [OF mid] by simp
  from Cons.IH [OF one(2) [OF mid] run this ix1(2)] one(1) [OF mid] Cons.prems(1)
  show ?case by (auto simp: purge_ok_def intro: purged_from_Cons)
qed

lemma purge_loop_flat: "flat_only ix \<Longrightarrow> \<exists>db' ix' k. purge_loop delete us ids db ix n = (db', ix', Inr k)"
proof (induction ids arbitrary: db ix n)
  case (Cons mid ids)
  obtain db1 d where del: "delete mid db = (db1, d)" by (cases "delete mid db")
  obtain ix1 where "remove_vectors us (do_entity_id d) (purged_vectors d) ix = (ix1, Inr ())" "flat_only ix1"
    using remove_vectors_flat [OF Cons.prems] by blast
  with Cons.IH [of ix1 db1 "n + 1"] del show ?case by simp
qed simp

subsection \<open>Purging\<close>

lemma set_expired:
  "set (expired_memories now limit db) \<subseteq> m_memory_id ` set (memories db)"
proof -
  have "set (sql_limit limit xs) \<subseteq> set xs" for xs :: "memory_row list"
    by (auto simp: sql_limit_def dest: in_set_takeD)
  then show ?thesis unfolding expired_memories_def by fastforce
qed

definition expired_at :: "u64 \<Rightarrow> memory_row \<Rightarrow> bool" where
  "expired_at now m \<longleftrightarrow> (case m_expires_at_ms m of None \<Rightarrow> False | Some x \<Rightarrow> x \<le> as_i64 now)"

lemma all_expired:
  assumes "length (filter (expired_at now) (memories db)) \<le> unat limit" "unat limit < 2 ^ 63"
  shows "set (expired_memories now limit db) = m_memory_id ` {m \<in> set (memories db). expired_at now m}"
proof -
  have "int (unat limit) < int (2 ^ 63)" using assms(2) by (simp only: of_nat_less_iff)
  then have "as_i64 (as_u64 (int (unat limit))) = int (unat limit)"
    using uint_ge_0 [of limit] by (intro as_i64_as_u64) (auto simp: in_i64_def intro: order_trans [where y = 0])
  moreover have "as_u64 (int (unat limit)) = limit" by (simp add: as_u64_def)
  ultimately have limit: "as_i64 limit = int (unat limit)" by simp
  have "sql_limit limit xs = xs" if "length xs \<le> unat limit" for xs :: "memory_row list"
    using that by (simp add: sql_limit_def limit)
  then show ?thesis
    using assms(1) unfolding expired_memories_def expired_at_def [symmetric] by simp
qed


definition sample_bytes :: str where
  "sample_bytes = le_bytes 1 @ le_bytes 0 @ []"

lemma length_sample_bytes: "length (bytes_to_vec_f32 sample_bytes) = 2"
  by (simp only: sample_bytes_def bytes_le_bytes) simp

definition purge_sample :: store where
  "purge_sample = sample_store
     \<lparr>memories := [(sample_memory 1 ''m1'')\<lparr>m_expires_at_ms := Some 100\<rparr>, sample_memory 2 ''m1::chunk::0'',
        sample_memory 3 ''m2''],
      vector_lookup := [\<lparr>v_vector_id = 2, v_memory_id = ''m1::chunk::0'', v_entity_id = ''e'', v_timestamp_ms = 10,
        v_embedding = sample_bytes\<rparr>]\<rparr>"

lemma purge_sample_ok: "purge_ok int_floats 2 purge_sample"
proof -
  have "fv_ok (versions (facts purge_sample))"
    using sample_store_ok(2) by (simp add: purge_sample_def sample_store_def)
  moreover have "sqlite_ok purge_sample" by (simp add: sqlite_ok_def purge_sample_def in_i64_def)
  moreover have "\<forall>v \<in> set (vector_lookup purge_sample). length (snd (stored_vector int_floats v)) = 2"
    by (simp add: purge_sample_def stored_vector_def length_sample_bytes)
  ultimately show ?thesis
    by (simp add: purge_ok_def) (simp add: purge_sample_def sample_memory_def)
qed

lemma purge_sample_run:
  "vector_run int_floats no_usearch (vector_config_new 2) (sqlite_source int_floats purge_sample)
     (index_new (vector_config_new 2))"
proof (rule vector_run.fresh)
  have "sqlite_ok purge_sample" "\<forall>v \<in> set (vector_lookup purge_sample). length (snd (stored_vector int_floats v)) = 2"
    using purge_sample_ok by (simp_all add: purge_ok_def)
  then show "source_ok (vc_dimensions (vector_config_new 2)) (sqlite_source int_floats purge_sample)"
    by (intro sqlite.source_ok) (auto simp: vector_config_new_def sqlite_entity_vectors dest: arg_cong [where f = snd])
qed


end
