(* ===== verification/Graph_Store.thy ===== *)
theory Graph_Store
  imports Complex_Main Lookups Deletion
begin

section \<open>The memory graph\<close>

text \<open>
  Models \<open>src/storage/repo/graph.rs\<close>.  A limit is a \<open>usize\<close> cast to a signed column, and a negative
  limit is none.  Weights are hundredths (as in \<open>Names\<close>); the weight of a path over links is the
  exact power of 3/5 where the code has a float.  The order of the rows of an unordered query is
  that of the table.  The text search over labels is not modelled.
\<close>

subsection \<open>Writing\<close>

definition limit_rows :: "int \<Rightarrow> 'a list \<Rightarrow> 'a list" where
  "limit_rows n xs = (if n < 0 then xs else take (nat n) xs)"

definition set_memory_links_batch :: "(str \<times> str \<times> str) list \<Rightarrow> store \<Rightarrow> store" where
  "set_memory_links_batch links db =
     db\<lparr>memory_links := foldl (\<lambda>t l. sql_ignore (\<lambda>x. x) l t) (memory_links db) links\<rparr>"

record GraphEdgeEntry =
  ge_memory_id :: str
  ge_subject :: str
  ge_predicate :: str
  ge_object :: str
  ge_status :: str
  ge_ref_info :: "(str \<times> str) option"
  ge_timestamp :: u64

text \<open>The reference of an entry is not written.\<close>

definition upserted_edge :: "GraphEdgeEntry \<Rightarrow> edge_row" where
  "upserted_edge g =
     \<lparr>e_edge_id = edge_id (ge_memory_id g) (ge_subject g) (ge_predicate g), e_source = ge_subject g,
      e_target = ge_object g, e_edge_type = ge_predicate g,
      e_label = edge_label (ge_subject g) (ge_predicate g) (ge_object g),
      e_weight = default_weight (edge_from_str (ge_predicate g)), e_status = ge_status g,
      e_ref_source = None, e_ref_target = None, e_timestamp_ms = as_i64 (ge_timestamp g),
      e_memory_id = Some (ge_memory_id g)\<rparr>"

definition graph_upsert_memory_batch :: "GraphEdgeEntry list \<Rightarrow> store \<Rightarrow> store" where
  "graph_upsert_memory_batch batch db =
     db\<lparr>edges := foldl (\<lambda>t g. if trim (ge_subject g) = [] \<or> trim (ge_object g) = [] then t
                              else sql_replace e_edge_id (upserted_edge g) t) (edges db) batch\<rparr>"

definition graph_upsert_fact_status_batch :: "str \<Rightarrow> GraphEdgeEntry list \<Rightarrow> store \<Rightarrow> store" where
  "graph_upsert_fact_status_batch entity batch db = graph_upsert_memory_batch batch db"

definition inserted_edge :: "str \<times> str \<times> str \<times> str \<times> u64 \<Rightarrow> edge_row" where
  "inserted_edge = (\<lambda>(mid, subject, predicate, obj, ts).
     \<lparr>e_edge_id = edge_id mid subject predicate, e_source = subject, e_target = obj,
      e_edge_type = predicate, e_label = edge_label subject predicate obj, e_weight = 100,
      e_status = ''current'', e_ref_source = None, e_ref_target = None,
      e_timestamp_ms = as_i64 ts, e_memory_id = Some mid\<rparr>)"

text \<open>Returns the number of rows written.\<close>

definition graph_insert_edges_batch ::
  "(str \<times> str \<times> str \<times> str \<times> u64) list \<Rightarrow> store \<Rightarrow> store \<times> nat" where
  "graph_insert_edges_batch es db =
     (let (t, n) = foldl (\<lambda>(t, n) x. case x of (mid, subject, predicate, obj, ts) \<Rightarrow>
            if subject = [] \<or> predicate = [] \<or> obj = [] then (t, n)
            else (let t' = sql_ignore e_edge_id (inserted_edge x) t in (t', n + (length t' - length t)))) (edges db, 0) es
      in (db\<lparr>edges := t\<rparr>, n))"

definition graph_remove_memory :: "str \<Rightarrow> store \<Rightarrow> store \<times> nat" where
  "graph_remove_memory mid db =
     (db\<lparr>edges := sql_delete (\<lambda>e. e_memory_id e = Some mid) (edges db)\<rparr>,
      length (filter (\<lambda>e. e_memory_id e = Some mid) (edges db)))"

definition graph_clear :: "store \<Rightarrow> store" where
  "graph_clear db = db\<lparr>edges := []\<rparr>"

subsection \<open>Links\<close>

definition get_linked_memories :: "store \<Rightarrow> str \<Rightarrow> str list" where
  "get_linked_memories db mid =
     map (\<lambda>(_, t, _). t) (filter (\<lambda>(s, _, _). s = mid) (memory_links db))
     @ map (\<lambda>(s, _, _). s) (filter (\<lambda>(_, t, _). t = mid) (memory_links db))"

text \<open>The join of the recursive query, and its rows of one depth: \<open>UNION\<close> keeps each once.\<close>

definition link_step :: "store \<Rightarrow> str \<Rightarrow> str list" where
  "link_step db node =
     map (\<lambda>(s, t, _). if s = node then t else s) (filter (\<lambda>(s, t, _). s = node \<or> t = node) (memory_links db))"

fun bfs_level :: "store \<Rightarrow> str \<Rightarrow> nat \<Rightarrow> str list" where
  "bfs_level db seed 0 = [seed]"
| "bfs_level db seed (Suc d) = remdups (concat (map (link_step db) (bfs_level db seed d)))"

definition get_link_cluster_scores :: "store \<Rightarrow> str \<Rightarrow> u64 \<Rightarrow> str \<rightharpoonup> rat" where
  "get_link_cluster_scores db seed max_depth =
     (let rows = concat (map (\<lambda>d. map (\<lambda>n. (n, (3 / 5) ^ d)) (bfs_level db seed d))
            [1..<Suc (nat (as_i64 max_depth))])
      in (\<lambda>n. if n \<in> fst ` set rows then Some (sum_list (map snd (filter (\<lambda>(m, _). m = n) rows))) else None))"

subsection \<open>Neighbours over edges\<close>

definition passes :: "str option \<Rightarrow> edge_row \<Rightarrow> bool" where
  "passes flt e \<longleftrightarrow> (case flt of None \<Rightarrow> True | Some ty \<Rightarrow> e_edge_type e = ty)"

definition edge_neighbour :: "edge_row \<Rightarrow> (str \<times> nat \<times> str) list" where
  "edge_neighbour e = (case e_memory_id e of None \<Rightarrow> [] | Some m \<Rightarrow> [(m, e_weight e, e_edge_type e)])"

definition best_first :: "str \<times> nat \<times> str \<Rightarrow> int \<times> str" where
  "best_first = (\<lambda>(m, w, _). (- int w, m))"

definition get_edge_cluster_neighbors :: "store \<Rightarrow> str \<Rightarrow> str option \<Rightarrow> u64 \<Rightarrow> (str \<times> nat) list" where
  "get_edge_cluster_neighbors db mid flt limit =
     (let own = filter (\<lambda>e. e_memory_id e = Some mid) (edges db);
          seeds = remdups (map e_source own @ map e_target own);
          rows = concat (map (\<lambda>e. if \<exists>n \<in> set seeds. e_source e = n \<or> e_target e = n
                                 then map (\<lambda>(m, w, _). (m, w)) (edge_neighbour e) else [])
                   (filter (\<lambda>e. e_memory_id e \<noteq> Some mid \<and> passes flt e) (edges db)))
      in limit_rows (as_i64 limit) (sort_key (\<lambda>(_, w). - int w) (remdups rows)))"

text \<open>The count of a node is cut off at one more than the allowed degree.\<close>

definition capped_degree :: "store \<Rightarrow> u64 \<Rightarrow> str \<Rightarrow> int" where
  "capped_degree db most n =
     int (length (limit_rows (as_i64 most + 1) (filter (\<lambda>e. e_source e = n) (edges db)))
        + length (limit_rows (as_i64 most + 1) (filter (\<lambda>e. e_target e = n) (edges db))))"

definition seed_nodes :: "store \<Rightarrow> u64 \<Rightarrow> str \<Rightarrow> str list" where
  "seed_nodes db most mid =
     (let own = filter (\<lambda>e. e_memory_id e = Some mid) (edges db)
      in filter (\<lambda>n. n \<noteq> [] \<and> capped_degree db most n \<le> as_i64 most) (map e_source own @ map e_target own))"

definition join_nodes ::
  "(edge_row \<Rightarrow> str) \<Rightarrow> store \<Rightarrow> str \<Rightarrow> str option \<Rightarrow> str list \<Rightarrow> (str \<times> nat \<times> str) list" where
  "join_nodes column db mid flt seeds =
     concat (map (\<lambda>e. concat (map (\<lambda>n. if column e = n \<and> e_memory_id e \<noteq> Some mid \<and> passes flt e
                                      then edge_neighbour e else []) seeds)) (edges db))"

definition get_edge_cluster_neighbors_typed ::
  "store \<Rightarrow> str \<Rightarrow> str option \<Rightarrow> u64 \<Rightarrow> u64 \<Rightarrow> (str \<times> nat \<times> str) list" where
  "get_edge_cluster_neighbors_typed db mid flt limit most =
     (let seeds = seed_nodes db most mid
      in limit_rows (as_i64 limit) (sort_key best_first
           (join_nodes e_source db mid flt seeds @ join_nodes e_target db mid flt seeds)))"

subsection \<open>Neighbours of many memories\<close>

definition edge_nodes :: "edge_row \<Rightarrow> str list" where
  "edge_nodes e = filter (\<lambda>n. n \<noteq> []) [e_source e, e_target e]"

definition nodes_of :: "edge_row list \<Rightarrow> str \<Rightarrow> str list" where
  "nodes_of rows mid = concat (map edge_nodes (filter (\<lambda>e. e_memory_id e = Some mid) rows))"

text \<open>\<open>SELECT column, COUNT(*) ... GROUP BY column\<close>\<close>

definition count_query :: "(edge_row \<Rightarrow> str) \<Rightarrow> edge_row list \<Rightarrow> str list \<Rightarrow> read_error + (str \<times> nat) list" where
  "count_query column es params =
     bind_res (in_query column es params) (\<lambda>rows.
       Inr (map (\<lambda>n. (n, length (filter (\<lambda>e. column e = n) rows))) (remdups (map column rows))))"

definition degree_of :: "(str \<times> nat) list \<Rightarrow> str \<Rightarrow> nat" where
  "degree_of counts n = sum_list (map snd (filter (\<lambda>(m, _). m = n) counts))"

definition incident :: "(edge_row \<Rightarrow> str) \<Rightarrow> str option \<Rightarrow> edge_row list \<Rightarrow> str \<Rightarrow> (str \<times> nat \<times> str) list" where
  "incident column flt rows n = concat (map edge_neighbour (filter (\<lambda>e. column e = n \<and> passes flt e) rows))"

definition get_edge_cluster_neighbors_batch ::
  "store \<Rightarrow> str list \<Rightarrow> str option \<Rightarrow> nat \<Rightarrow> nat \<Rightarrow> read_error + (str \<rightharpoonup> (str \<times> nat \<times> str) list)" where
  "get_edge_cluster_neighbors_batch db mids flt limit most =
     bind_res (chunked_rows e_memory_id (edges db) (map Some mids)) (\<lambda>own.
       let unique = sort (remdups (concat (map edge_nodes own)))
       in bind_res (in_batches (\<lambda>c. count_query e_source (edges db) (padded_in_chunk c)) (slice_chunks IN_CHUNK unique)) (\<lambda>as_source.
          bind_res (in_batches (\<lambda>c. count_query e_target (edges db) (padded_in_chunk c)) (slice_chunks IN_CHUNK unique)) (\<lambda>as_target.
            let traversable = filter (\<lambda>n. degree_of (as_source @ as_target) n \<le> most) unique
            in bind_res (chunked_rows e_source (edges db) traversable) (\<lambda>sources.
               bind_res (chunked_rows e_target (edges db) traversable) (\<lambda>targets.
                 Inr (hash_map_of (map (\<lambda>mid. (mid, take limit (sort_key best_first
                   (concat (map (\<lambda>n. if n \<in> set traversable
                        then filter (\<lambda>(m, _). m \<noteq> mid) (incident e_source flt sources n)
                           @ filter (\<lambda>(m, _). m \<noteq> mid) (incident e_target flt targets n)
                        else []) (nodes_of own mid)))))) mids)))))))"

subsection \<open>Edges of a node\<close>

record GraphEdge =
  gr_edge_id :: str
  gr_source :: str
  gr_target :: str
  gr_edge_type :: str
  gr_label :: str
  gr_weight :: nat
  gr_timestamp_ms :: u64
  gr_memory_id :: str

datatype column_error = NullColumn | NegativeColumn

fun map_rows :: "('a \<Rightarrow> 'e + 'b) \<Rightarrow> 'a list \<Rightarrow> 'e + 'b list" where
  "map_rows f [] = Inr []"
| "map_rows f (x # xs) = bind_res (f x) (\<lambda>y. bind_res (map_rows f xs) (\<lambda>ys. Inr (y # ys)))"

definition graph_edge :: "edge_row \<Rightarrow> column_error + GraphEdge" where
  "graph_edge e =
     (case e_memory_id e of
        None \<Rightarrow> Inl NullColumn
      | Some m \<Rightarrow> Inr \<lparr>gr_edge_id = e_edge_id e, gr_source = e_source e, gr_target = e_target e,
                      gr_edge_type = e_edge_type e, gr_label = e_label e, gr_weight = e_weight e,
                      gr_timestamp_ms = as_u64 (e_timestamp_ms e), gr_memory_id = m\<rparr>)"

definition graph_query_edges :: "store \<Rightarrow> str \<Rightarrow> Direction \<Rightarrow> u64 \<Rightarrow> column_error + GraphEdge list" where
  "graph_query_edges db entity direction limit =
     (let hit = (case direction of
            In \<Rightarrow> (\<lambda>e. e_target e = entity)
          | Both \<Rightarrow> (\<lambda>e. (e_source e = entity \<or> e_target e = entity) \<and> e_edge_type e \<noteq> edge_as_str Default)
          | Out \<Rightarrow> (\<lambda>e. e_source e = entity))
      in map_rows graph_edge (limit_rows (as_i64 limit)
           (sort_key (\<lambda>e. - e_timestamp_ms e) (filter hit (edges db)))))"

text \<open>Here the time stamp is read as \<open>u64\<close> and fails when negative.\<close>

definition get_all_edges :: "store \<Rightarrow> u64 \<Rightarrow> column_error + GraphEdge list" where
  "get_all_edges db limit =
     map_rows (\<lambda>e. bind_res (graph_edge e) (\<lambda>g. if e_timestamp_ms e < 0 then Inl NegativeColumn else Inr g))
       (limit_rows (as_i64 limit) (sort_key (\<lambda>e. - int (e_weight e)) (edges db)))"

subsection \<open>One memory and many\<close>

lemma concat_swap:
  "mset (concat (map (\<lambda>x. concat (map (\<lambda>y. f x y) ys)) xs)) = mset (concat (map (\<lambda>y. concat (map (\<lambda>x. f x y) xs)) ys))"
proof (induction xs)
  case Nil
  have "concat (map (\<lambda>y. []) ys) = []" by (induction ys) auto
  then show ?case by simp
next
  case (Cons x xs)
  have "mset (concat (map (\<lambda>y. f x y @ g y) ys)) = mset (concat (map (f x) ys)) + mset (concat (map g ys))" for g
    by (induction ys) auto
  with Cons show ?case by simp
qed

lemma concat_filter_if: "concat (map (\<lambda>x. if P x then f x else []) xs) = concat (map f (filter P xs))"
  by (induction xs) auto

definition all_incident :: "(edge_row \<Rightarrow> str) \<Rightarrow> store \<Rightarrow> str \<Rightarrow> str option \<Rightarrow> str \<Rightarrow> (str \<times> nat \<times> str) list" where
  "all_incident column db mid flt n =
     concat (map edge_neighbour (filter (\<lambda>e. column e = n \<and> e_memory_id e \<noteq> Some mid \<and> passes flt e) (edges db)))"

lemma join_nodes_mset:
  "mset (join_nodes column db mid flt seeds) = mset (concat (map (all_incident column db mid flt) seeds))"
  unfolding join_nodes_def all_incident_def concat_filter_if [symmetric] by (rule concat_swap)

lemma concat_append_mset:
  "mset (concat (map f xs)) + mset (concat (map g xs)) = mset (concat (map (\<lambda>x. f x @ g x) xs))"
  by (induction xs) (auto simp: ac_simps)

definition degree :: "store \<Rightarrow> str \<Rightarrow> nat" where
  "degree db n = length (filter (\<lambda>e. e_source e = n) (edges db)) + length (filter (\<lambda>e. e_target e = n) (edges db))"

definition open_node :: "store \<Rightarrow> nat \<Rightarrow> str \<Rightarrow> bool" where
  "open_node db most n \<longleftrightarrow> n \<noteq> [] \<and> degree db n \<le> most"

text \<open>The nodes of a memory that may be crossed, once per end of an edge, and what is on them.\<close>

definition node_neighbours :: "store \<Rightarrow> str \<Rightarrow> str option \<Rightarrow> nat \<Rightarrow> (str \<times> nat \<times> str) list" where
  "node_neighbours db mid flt most =
     concat (map (\<lambda>n. all_incident e_source db mid flt n @ all_incident e_target db mid flt n)
       (filter (open_node db most) (nodes_of (edges db) mid)))"

lemma capped_degree_le:
  assumes "as_i64 most = int k"
  shows "capped_degree db most n \<le> as_i64 most \<longleftrightarrow> degree db n \<le> k"
  using assms by (auto simp: capped_degree_def degree_def limit_rows_def)

lemma nodes_of_mset:
  "mset (filter (\<lambda>n. n \<noteq> []) (map e_source (filter (\<lambda>e. e_memory_id e = Some mid) es)
      @ map e_target (filter (\<lambda>e. e_memory_id e = Some mid) es))) = mset (nodes_of es mid)"
  unfolding nodes_of_def by (induction es) (auto simp: edge_nodes_def)

lemma typed_mset:
  assumes "as_i64 most = int k"
  shows "mset (join_nodes e_source db mid flt (seed_nodes db most mid)
      @ join_nodes e_target db mid flt (seed_nodes db most mid)) = mset (node_neighbours db mid flt k)"
proof -
  let ?own = "filter (\<lambda>e. e_memory_id e = Some mid) (edges db)"
  have "seed_nodes db most mid = filter (open_node db k) (filter (\<lambda>n. n \<noteq> []) (map e_source ?own @ map e_target ?own))"
    by (simp add: seed_nodes_def Let_def capped_degree_le [OF assms] open_node_def conj_commute)
  then have "mset (seed_nodes db most mid) = mset (filter (open_node db k) (nodes_of (edges db) mid))"
    using nodes_of_mset [of mid "edges db"] by (metis mset_filter)
  then have "mset (concat (map f (seed_nodes db most mid)))
      = mset (concat (map f (filter (open_node db k) (nodes_of (edges db) mid))))" for f :: "str \<Rightarrow> (str \<times> nat \<times> str) list"
    by (metis (no_types, lifting) mset_concat mset_map sum_mset_sum_list map_map)
  then show ?thesis
    by (simp add: join_nodes_mset concat_append_mset node_neighbours_def)
qed

lemma filter_in_chunk:
  "filter (\<lambda>r. k r = x) (filter (\<lambda>r. k r \<in> A) t) = (if x \<in> A then filter (\<lambda>r. k r = x) t else [])"
  by (auto simp: filter_filter filter_empty_conv intro: filter_cong)

lemma filter_chunks:
  "distinct (concat cs) \<Longrightarrow>
     filter (\<lambda>r. k r = x) (concat (map (\<lambda>c. filter (\<lambda>r. k r \<in> set c) t) cs))
       = (if x \<in> set (concat cs) then filter (\<lambda>r. k r = x) t else [])"
proof (induction cs)
  case (Cons c cs)
  note filter_in_chunk [of k x "set c" t]
  moreover from Cons.prems have "x \<in> set c \<longrightarrow> x \<notin> set (concat cs)" by auto
  ultimately show ?case using Cons by auto
qed simp

lemma chunked_rows_filter:
  assumes "distinct ids" "x \<in> set ids"
  obtains rows where "chunked_rows k t ids = Inr rows" "set rows = {r \<in> set t. k r \<in> set ids}"
    "\<And>x. x \<in> set ids \<Longrightarrow> filter (\<lambda>r. k r = x) rows = filter (\<lambda>r. k r = x) t"
proof -
  obtain rows where rows: "chunked_rows k t ids = Inr rows" "set rows = {r \<in> set t. k r \<in> set ids}"
    by (rule chunked_rows_ok)
  moreover have "filter (\<lambda>r. k r = x) rows = filter (\<lambda>r. k r = x) t" if "x \<in> set ids" for x
    using filter_chunks [of "slice_chunks IN_CHUNK ids" k x t] rows(1) assms that
    by (simp add: chunked_rows_eq concat_slice_chunks)
  ultimately show thesis by (rule that)
qed

lemma degree_of_append [simp]: "degree_of (xs @ ys) n = degree_of xs n + degree_of ys n"
  by (simp add: degree_of_def)

lemma degree_of_counts: "distinct ns \<Longrightarrow> degree_of (map (\<lambda>n. (n, f n)) ns) n = (if n \<in> set ns then f n else 0)"
  by (induction ns) (auto simp: degree_of_def)

lemma counts_of_chunks:
  assumes "distinct ids"
  obtains counts where "in_batches (\<lambda>c. count_query column es (padded_in_chunk c)) (slice_chunks IN_CHUNK ids) = Inr counts"
    "\<And>n. n \<in> set ids \<Longrightarrow> degree_of counts n = length (filter (\<lambda>e. column e = n) es)"
proof -
  let ?rows = "\<lambda>c. filter (\<lambda>e. column e \<in> set c) es"
  let ?g = "\<lambda>c. map (\<lambda>n. (n, length (filter (\<lambda>e. column e = n) (?rows c)))) (remdups (map column (?rows c)))"
  have "in_query column es (padded_in_chunk c) = Inr (?rows c)" if "c \<in> set (slice_chunks IN_CHUNK ids)" for c
    using slice_chunks_sizes [OF _ that] padded_in_chunk [of c] by (simp add: in_query_def IN_CHUNK_def)
  then have run: "in_batches (\<lambda>c. count_query column es (padded_in_chunk c)) (slice_chunks IN_CHUNK ids)
      = Inr (concat (map ?g (slice_chunks IN_CHUNK ids)))"
    by (intro in_batches_ok) (simp add: count_query_def)
  have one: "degree_of (?g c) n = (if n \<in> set c then length (filter (\<lambda>e. column e = n) es) else 0)" for c n
  proof -
    note filter_in_chunk [of column n "set c" es]
    moreover have "n \<in> column ` set (?rows c) \<longleftrightarrow> n \<in> set c \<and> filter (\<lambda>e. column e = n) es \<noteq> []"
      by (auto simp: filter_empty_conv)
    ultimately show ?thesis by (simp add: degree_of_counts)
  qed
  have "degree_of (concat (map ?g cs)) n = (if n \<in> set (concat cs) then length (filter (\<lambda>e. column e = n) es) else 0)"
    if "distinct (concat cs)" for cs n
    using that
  proof (induction cs)
    case Nil
    then show ?case by (simp add: degree_of_def)
  next
    case (Cons c cs)
    have tail: "degree_of (concat (map ?g cs)) n
        = (if n \<in> set (concat cs) then length (filter (\<lambda>e. column e = n) es) else 0)"
      using Cons by simp
    from Cons.prems have "n \<in> set c \<longrightarrow> n \<notin> set (concat cs)" by auto
    moreover have "degree_of (concat (map ?g (c # cs))) n = degree_of (?g c) n + degree_of (concat (map ?g cs)) n"
      by simp
    ultimately show ?case unfolding one tail by auto
  qed
  from this [of "slice_chunks IN_CHUNK ids"] assms show thesis
    by (intro that [OF run]) (simp add: concat_slice_chunks)
qed

lemma drop_own_neighbours:
  "filter (\<lambda>(m, _). m \<noteq> mid) (concat (map edge_neighbour es))
     = concat (map edge_neighbour (filter (\<lambda>e. e_memory_id e \<noteq> Some mid) es))"
  by (induction es) (auto simp: edge_neighbour_def split: option.splits)

lemma incident_all:
  assumes "filter (\<lambda>e. column e = n) rows = filter (\<lambda>e. column e = n) (edges db)"
  shows "filter (\<lambda>(m, _). m \<noteq> mid) (incident column flt rows n) = all_incident column db mid flt n"
proof -
  have "filter (\<lambda>e. column e = n \<and> passes flt e) rows = filter (passes flt) (filter (\<lambda>e. column e = n) rows)"
    by (auto simp: filter_filter intro: filter_cong)
  also have "\<dots> = filter (\<lambda>e. column e = n \<and> passes flt e) (edges db)"
    unfolding assms by (auto simp: filter_filter intro: filter_cong)
  finally show ?thesis
    unfolding incident_def all_incident_def drop_own_neighbours
    by (auto simp: filter_filter intro!: arg_cong [where f = concat] arg_cong [where f = "map edge_neighbour"] filter_cong)
qed

lemma hash_map_of_fun: "hash_map_of (map (\<lambda>i. (i, f i)) xs) i = (if i \<in> set xs then Some (f i) else None)"
  by (auto simp: hash_map_of_def rev_map map_of_map_restrict restrict_map_def)

lemma batch_neighbours:
  assumes "distinct mids"
  obtains m where "get_edge_cluster_neighbors_batch db mids flt limit most = Inr m"
    "\<And>mid. m mid = (if mid \<in> set mids then Some (take limit (sort_key best_first (node_neighbours db mid flt most))) else None)"
proof -
  have ids: "distinct (map Some mids)" using assms by (simp add: distinct_map)
  show thesis
  proof (cases mids)
    case Nil
    then show ?thesis
      by (intro that [of Map.empty])
        (simp_all add: get_edge_cluster_neighbors_batch_def chunked_rows_def hash_map_of_def)
  next
    case (Cons i rest)
    then have "Some i \<in> set (map Some mids)" by simp
    from chunked_rows_filter [OF ids this, of e_memory_id "edges db"] obtain own where
      own: "chunked_rows e_memory_id (edges db) (map Some mids) = Inr own"
      "set own = {e \<in> set (edges db). e_memory_id e \<in> set (map Some mids)}"
      "\<And>x. x \<in> set (map Some mids) \<Longrightarrow> filter (\<lambda>e. e_memory_id e = x) own = filter (\<lambda>e. e_memory_id e = x) (edges db)"
      by blast
    define unique where "unique = sort (remdups (concat (map edge_nodes own)))"
    have dist: "distinct unique" by (simp add: unique_def)
    obtain cs where cs: "in_batches (\<lambda>c. count_query e_source (edges db) (padded_in_chunk c)) (slice_chunks IN_CHUNK unique) = Inr cs"
      "\<And>n. n \<in> set unique \<Longrightarrow> degree_of cs n = length (filter (\<lambda>e. e_source e = n) (edges db))"
      using counts_of_chunks [OF dist] by blast
    obtain ct where ct: "in_batches (\<lambda>c. count_query e_target (edges db) (padded_in_chunk c)) (slice_chunks IN_CHUNK unique) = Inr ct"
      "\<And>n. n \<in> set unique \<Longrightarrow> degree_of ct n = length (filter (\<lambda>e. e_target e = n) (edges db))"
      using counts_of_chunks [OF dist] by blast
    define open' where "open' = filter (\<lambda>n. degree_of (cs @ ct) n \<le> most) unique"
    have od: "distinct open'" using dist by (simp add: open'_def)
    obtain ss where ss: "chunked_rows e_source (edges db) open' = Inr ss"
      "\<And>n. n \<in> set open' \<Longrightarrow> filter (\<lambda>e. e_source e = n) ss = filter (\<lambda>e. e_source e = n) (edges db)"
      using filter_chunks [of "slice_chunks IN_CHUNK open'" e_source _ "edges db"] od
      by (simp add: chunked_rows_eq concat_slice_chunks)
    obtain ts where ts: "chunked_rows e_target (edges db) open' = Inr ts"
      "\<And>n. n \<in> set open' \<Longrightarrow> filter (\<lambda>e. e_target e = n) ts = filter (\<lambda>e. e_target e = n) (edges db)"
      using filter_chunks [of "slice_chunks IN_CHUNK open'" e_target _ "edges db"] od
      by (simp add: chunked_rows_eq concat_slice_chunks)
    let ?rows = "\<lambda>mid. concat (map (\<lambda>n. if n \<in> set open'
        then filter (\<lambda>(m, _). m \<noteq> mid) (incident e_source flt ss n) @ filter (\<lambda>(m, _). m \<noteq> mid) (incident e_target flt ts n)
        else []) (nodes_of own mid))"
    have run: "get_edge_cluster_neighbors_batch db mids flt limit most
        = Inr (hash_map_of (map (\<lambda>mid. (mid, take limit (sort_key best_first (?rows mid)))) mids))"
      by (simp only: get_edge_cluster_neighbors_batch_def own(1) Let_def bind_res.simps unique_def [symmetric]
        cs(1) ct(1) open'_def [symmetric] ss(1) ts(1))
    have rows: "?rows mid = node_neighbours db mid flt most" if "mid \<in> set mids" for mid
    proof -
      have nodes: "nodes_of own mid = nodes_of (edges db) mid"
        using own(3) [of "Some mid"] that by (simp add: nodes_of_def)
      have "n \<in> set open' \<longleftrightarrow> open_node db most n" if n: "n \<in> set (nodes_of own mid)" for n
      proof -
        obtain e where e: "e \<in> set own" "n \<in> set (edge_nodes e)" using n by (auto simp: nodes_of_def)
        then have "n \<in> set unique" unfolding unique_def by auto
        moreover have "n \<noteq> []" using e(2) unfolding edge_nodes_def set_filter by blast
        ultimately have "n \<in> set unique" "n \<noteq> []" by simp_all
        then show ?thesis by (simp add: open'_def cs(2) ct(2) open_node_def degree_def)
      qed
      then have "?rows mid = concat (map (\<lambda>n. if open_node db most n
          then all_incident e_source db mid flt n @ all_incident e_target db mid flt n else []) (nodes_of own mid))"
        using incident_all [where column = e_source, OF ss(2)] incident_all [where column = e_target, OF ts(2)]
        by (intro arg_cong [where f = concat] map_cong) auto
      then show ?thesis unfolding nodes node_neighbours_def concat_filter_if .
    qed
    show ?thesis
    proof (rule that [OF run])
      fix mid
      show "hash_map_of (map (\<lambda>mid. (mid, take limit (sort_key best_first (?rows mid)))) mids) mid
        = (if mid \<in> set mids then Some (take limit (sort_key best_first (node_neighbours db mid flt most))) else None)"
        using rows [of mid] by (cases "mid \<in> set mids") (simp_all only: hash_map_of_fun if_True if_False)
    qed
  qed
qed

lemma sort_take_keys:
  assumes "mset xs = mset ys"
  shows "map f (take n (sort_key f xs)) = map f (take n (sort_key f ys))"
proof -
  have "map f (sort_key f xs) = sort (map f xs)" for xs by (rule properties_for_sort [symmetric]) auto
  moreover have "sort (map f xs) = sort (map f ys)"
    using assms by (metis mset_map properties_for_sort mset_sort sorted_sort)
  ultimately show ?thesis by (metis take_map)
qed

text \<open>
  C20. Reading the neighbours of many memories at once gives every memory the neighbours it is
  given alone: for distinct ids the batch succeeds, answers each id, and the ids and weights of
  its neighbours are, in their order and up to the limit, those of the query for the single
  memory; without the limit the two have the same rows.
\<close>

theorem neighbour_batch_agrees:
  assumes "distinct mids" and "limit < 2 ^ 63" and "most < 2 ^ 63"
  shows "\<exists>m. get_edge_cluster_neighbors_batch db mids flt limit most = Inr m
     \<and> (\<forall>mid. mid \<notin> set mids \<longrightarrow> m mid = None)
     \<and> (\<forall>mid \<in> set mids. \<exists>rows. m mid = Some rows
          \<and> map best_first rows
            = map best_first (get_edge_cluster_neighbors_typed db mid flt (of_nat limit) (of_nat most))
          \<and> (length rows < limit \<longrightarrow> mset rows
            = mset (get_edge_cluster_neighbors_typed db mid flt (of_nat limit) (of_nat most))))"
proof -
  have nat: "as_i64 (of_nat k) = int k" if "k < 2 ^ 63" for k
  proof -
    have "int k < int (2 ^ 63)" using that by (simp only: of_nat_less_iff)
    then have "as_i64 (as_u64 (int k)) = int k"
      by (intro as_i64_as_u64) (simp add: in_i64_def)
    then show ?thesis by (simp add: as_u64_def)
  qed
  obtain m where m: "get_edge_cluster_neighbors_batch db mids flt limit most = Inr m"
    "\<And>mid. m mid = (if mid \<in> set mids then Some (take limit (sort_key best_first (node_neighbours db mid flt most))) else None)"
    using batch_neighbours [OF assms(1)] by blast
  have "map best_first (take limit (sort_key best_first (node_neighbours db mid flt most)))
      = map best_first (get_edge_cluster_neighbors_typed db mid flt (of_nat limit) (of_nat most))
    \<and> (length (take limit (sort_key best_first (node_neighbours db mid flt most))) < limit \<longrightarrow>
       mset (take limit (sort_key best_first (node_neighbours db mid flt most)))
       = mset (get_edge_cluster_neighbors_typed db mid flt (of_nat limit) (of_nat most)))" for mid
  proof -
    let ?rows = "join_nodes e_source db mid flt (seed_nodes db (of_nat most) mid)
      @ join_nodes e_target db mid flt (seed_nodes db (of_nat most) mid)"
    have same: "mset (node_neighbours db mid flt most) = mset ?rows"
      using typed_mset [OF nat [OF assms(3)], of db mid flt] by simp
    have single: "get_edge_cluster_neighbors_typed db mid flt (of_nat limit) (of_nat most)
        = take limit (sort_key best_first ?rows)"
      using nat [OF assms(2)] by (simp add: get_edge_cluster_neighbors_typed_def limit_rows_def Let_def)
    have "length (node_neighbours db mid flt most) = length ?rows" using same by (metis size_mset)
    then show ?thesis
      unfolding single using sort_take_keys [OF same, of best_first limit] same by (auto simp: min_def)
  qed
  then show ?thesis using m by (intro exI [of _ m]) simp
qed

definition sample_edges :: "edge_row list" where
  "sample_edges = map (\<lambda>(i, s, t, w, m).
     \<lparr>e_edge_id = i, e_source = s, e_target = t, e_edge_type = ''p'', e_label = [], e_weight = w,
      e_status = ''current'', e_ref_source = None, e_ref_target = None, e_timestamp_ms = 0, e_memory_id = Some m\<rparr>)
     [(''1'', ''ann'', ''oslo'', 100, ''m1''), (''2'', ''bob'', ''oslo'', 140, ''m2''), (''3'', ''oslo'', ''cat'', 70, ''m3'')]"

lemma neighbour_batch_agrees_witness:
  "\<exists>m rows. get_edge_cluster_neighbors_batch (empty_store\<lparr>edges := sample_edges\<rparr>) [''m1'', ''m2''] None 5 3 = Inr m
     \<and> m ''m1'' = Some rows \<and> map best_first rows = [(-140, ''m2''), (-70, ''m3'')]"
proof -
  let ?db = "empty_store\<lparr>edges := sample_edges\<rparr>"
  have i64: "as_i64 5 = 5" "as_i64 3 = 3" by (simp_all add: as_i64_def)
  have "capped_degree ?db 3 ''oslo'' = 3" "capped_degree ?db 3 ''ann'' = 1"
    unfolding capped_degree_def i64 by code_simp+
  moreover have "map e_source (filter (\<lambda>e. e_memory_id e = Some ''m1'') (edges ?db)) = [''ann'']"
    "map e_target (filter (\<lambda>e. e_memory_id e = Some ''m1'') (edges ?db)) = [''oslo'']" by code_simp+
  ultimately have seeds: "seed_nodes ?db 3 ''m1'' = [''ann'', ''oslo'']"
    by (simp add: seed_nodes_def i64 del: select_convs)
  have "map best_first (limit_rows 5 (sort_key best_first (join_nodes e_source ?db ''m1'' None [''ann'', ''oslo'']
      @ join_nodes e_target ?db ''m1'' None [''ann'', ''oslo'']))) = [(-140, ''m2''), (-70, ''m3'')]"
    by code_simp
  then have "map best_first (get_edge_cluster_neighbors_typed ?db ''m1'' None 5 3) = [(-140, ''m2''), (-70, ''m3'')]"
    by (simp only: get_edge_cluster_neighbors_typed_def seeds i64 Let_def)
  moreover have "distinct [''m1'', ''m2'']" by simp
  note neighbour_batch_agrees [OF this, of 5 3 ?db None]
  ultimately show ?thesis by fastforce
qed

end
