(* ===== verification/Texts.thy ===== *)
theory Texts
  imports Names Router "HOL-Library.Char_ord" "HOL-Library.List_Lexorder"
begin

section \<open>Normalised texts\<close>

text \<open>
  Models \<open>src/core/text.rs\<close> and \<open>src/fts.rs\<close>.  Whether a character is alphanumeric is the parameter
  \<open>alnum\<close> on its UTF-8 encoding (the Unicode table of the standard library).
\<close>

definition MIN_SALIENT_TOKEN_LEN :: nat where
  "MIN_SALIENT_TOKEN_LEN = 3"

definition MIN_PHRASE_LEN :: nat where
  "MIN_PHRASE_LEN = 2"

subsection \<open>The text of the index\<close>

lemma trim_start_length: "length (trim_start s) \<le> length s"
proof (induction s rule: trim_start.induct)
  case (1 s)
  show ?case
  proof (cases "ws_len s = 0")
    case True
    then show ?thesis by (subst trim_start.simps) simp
  next
    case False
    then have "length (trim_start (drop (ws_len s) s)) \<le> length (drop (ws_len s) s)" by (rule 1)
    then have "length (trim_start (drop (ws_len s) s)) \<le> length s" by simp
    then show ?thesis using False by (subst trim_start.simps) simp
  qed
qed

lemma trim_end_length: "length (trim_end s) \<le> length s"
proof (induction s rule: trim_end.induct)
  case (1 s)
  show ?case
  proof (cases "s = []")
    case False
    show ?thesis
    proof (cases "ws_len s = 0")
      case True
      then show ?thesis using False 1(1) by (subst trim_end.simps) (cases s; simp)
    next
      case w: False
      then have "length (trim_end (drop (ws_len s) s)) \<le> length (drop (ws_len s) s)"
        using False 1(2) by simp
      then show ?thesis using False w ws_len_le [of s]
        by (subst trim_end.simps) (auto simp: Let_def min_def)
    qed
  qed simp
qed

lemma trim_length: "length (trim s) \<le> length s"
  unfolding trim_def by (rule order_trans [OF trim_end_length trim_start_length])

lemma trimmed_iff: "trim s = s \<longleftrightarrow> ws_len s = 0 \<and> trim_end s = s"
proof
  assume t: "trim s = s"
  show "ws_len s = 0 \<and> trim_end s = s"
  proof (cases "ws_len s = 0")
    case True
    then have "trim_start s = s" by (subst trim_start.simps) simp
    then show ?thesis using t True by (simp add: trim_def)
  next
    case False
    have "length s \<le> length (trim_start s)"
      using t trim_end_length [of "trim_start s"] by (simp add: trim_def)
    also have "\<dots> = length (trim_start (drop (ws_len s) s))" using False by (subst trim_start.simps) simp
    also have "\<dots> \<le> length s - ws_len s" using trim_start_length [of "drop (ws_len s) s"] by simp
    finally show ?thesis using False ws_len_le [of s] by linarith
  qed
next
  assume "ws_len s = 0 \<and> trim_end s = s"
  then show "trim s = s" by (simp add: trim_def trim_start.simps [of s])
qed

text \<open>The loop that drops the bracketed headers at the start.\<close>

function drop_headers :: "str \<Rightarrow> str" where
  "drop_headers rest =
     (if \<not> starts_with rest ''['' then rest
      else (case find_char (CHR '']'') rest of
              None \<Rightarrow> rest
            | Some i \<Rightarrow> drop_headers (trim_start (drop (i + 1) rest))))"
  by pat_completeness auto
termination
proof (relation "measure length")
  fix rest :: str and i
  assume "find_char (CHR '']'') rest = Some i"
  then have "i < length rest" by (rule find_char_bound)
  then show "(trim_start (drop (i + 1) rest), rest) \<in> measure length"
    using trim_start_length [of "drop (i + 1) rest"] by simp
qed simp

declare drop_headers.simps [simp del]

definition content_for_index :: "str \<Rightarrow> str" where
  "content_for_index t = (let rest = drop_headers (trim t) in if rest = [] then t else rest)"

definition index_text_for :: "MemoryKind \<Rightarrow> str \<Rightarrow> str option" where
  "index_text_for kind content = (if kind \<noteq> SyntheticQuery then Some (content_for_index content) else None)"

subsection \<open>Tokens\<close>

definition normalize_fact_text :: "str \<Rightarrow> str" where
  "normalize_fact_text t = join '' '' (split_whitespace t)"

definition normalize_alpha_tokens :: "str \<Rightarrow> str list" where
  "normalize_alpha_tokens t = filter (\<lambda>token. token \<noteq> []) (split_if (\<lambda>c. \<not> is_alnum c) (to_ascii_lowercase t))"

definition has_token :: "str list \<Rightarrow> str \<Rightarrow> bool" where
  "has_token tokens needle = list_ex (\<lambda>token. token = needle) tokens"

definition singularize_token :: "str \<Rightarrow> str" where
  "singularize_token t =
     (let token = to_ascii_lowercase t
      in if 3 < length token \<and> ends_with token ''ies'' then take (length token - 3) token @ ''y''
         else if 2 < length token \<and> ends_with token ''s'' \<and> \<not> ends_with token ''ss'' then take (length token - 1) token
         else token)"

text \<open>The filter remembers the keys it has let through.\<close>

fun dedupe_values :: "str set \<Rightarrow> str list \<Rightarrow> str list" where
  "dedupe_values seen [] = []"
| "dedupe_values seen (v # vs) =
     (let key = to_ascii_lowercase (trim v)
      in if key = [] \<or> key \<in> seen then dedupe_values seen vs
         else v # dedupe_values (insert key seen) vs)"

definition dedupe_preserve_order :: "str list \<Rightarrow> str list" where
  "dedupe_preserve_order values = dedupe_values {} values"

definition low_signal_keywords :: "str list" where
  "low_signal_keywords =
     [''what'', ''when'', ''where'', ''who'', ''why'', ''how'', ''would'', ''could'', ''should'',
      ''did'', ''does'', ''do'', ''is'', ''are'', ''was'', ''were'', ''be'', ''been'', ''being'',
      ''likely'', ''might'', ''will'', ''can'', ''have'', ''has'', ''had'', ''the'', ''this'',
      ''that'', ''these'', ''those'', ''their'', ''there'', ''them'', ''they'', ''his'', ''her'',
      ''him'', ''she'', ''you'', ''your'', ''our'', ''for'', ''from'', ''with'', ''than'',
      ''then'', ''kind'', ''kinds'', ''type'', ''types'', ''really'', ''still'', ''just'',
      ''some'', ''many'', ''more'', ''very'', ''also'', ''about'', ''around'', ''into'', ''over'',
      ''under'', ''after'', ''before'', ''today'', ''tomorrow'', ''yesterday'', ''thing'',
      ''things'', ''people'', ''person'', ''went'', ''going'', ''got'', ''make'', ''made'',
      ''take'', ''took'', ''doing'', ''done'', ''want'', ''wanted'', ''joined'', ''started'',
      ''looking'', ''working'']"

definition is_low_signal_keyword :: "str \<Rightarrow> bool" where
  "is_low_signal_keyword token \<longleftrightarrow> token \<in> set low_signal_keywords"

text \<open>The characters of a string, as their encodings.\<close>

definition utf8_width :: "char \<Rightarrow> nat" where
  "utf8_width c = (if code c < 128 then 1 else if code c < 224 then 2 else if code c < 240 then 3 else 4)"

function utf8_chars :: "str \<Rightarrow> str list" where
  "utf8_chars [] = []"
| "utf8_chars (c # s) = (c # take (utf8_width c - 1) s) # utf8_chars (drop (utf8_width c - 1) s)"
  by pat_completeness auto
termination by (relation "measure length") auto

fun split_chars :: "(str \<Rightarrow> bool) \<Rightarrow> str \<Rightarrow> str list \<Rightarrow> str list" where
  "split_chars p cur [] = [cur]"
| "split_chars p cur (c # cs) = (if p c then cur # split_chars p [] cs else split_chars p (cur @ c) cs)"

definition tokenize_for_similarity :: "(str \<Rightarrow> bool) \<Rightarrow> str \<Rightarrow> str list" where
  "tokenize_for_similarity alnum t =
     map to_ascii_lowercase (filter (\<lambda>s. s \<noteq> [] \<and> 1 < length s)
       (split_chars (\<lambda>c. \<not> alnum c) [] (utf8_chars t)))"

subsection \<open>Salient terms and named phrases\<close>

text \<open>The counts of a \<open>HashMap\<close>, ranked by count and then by token, so that its order is lost.\<close>

definition rank_tokens :: "str list \<Rightarrow> str list" where
  "rank_tokens tokens = sort_key (\<lambda>t. (- int (count_list tokens t), t)) (remdups tokens)"

definition extract_salient_terms :: "(str \<Rightarrow> bool) \<Rightarrow> str \<Rightarrow> nat \<Rightarrow> str list" where
  "extract_salient_terms alnum t limit =
     take limit (rank_tokens
       (filter (\<lambda>token. \<not> is_low_signal_keyword token \<and> MIN_SALIENT_TOKEN_LEN \<le> length token)
         (map singularize_token (tokenize_for_similarity alnum t))))"

text \<open>The state of the loop: the phrase being read and the phrases found.\<close>

definition phrase_step :: "str list \<times> str list \<Rightarrow> str \<Rightarrow> str list \<times> str list" where
  "phrase_step = (\<lambda>(current, phrases) raw_word.
     (let word = trim_matches (\<lambda>c. \<not> is_alnum c \<and> c \<noteq> CHR 0x27 \<and> c \<noteq> CHR ''-'') raw_word
      in if word = [] then (current, phrases)
         else if is_upper (hd word) \<and> list_ex is_lower word then (current @ [word], phrases)
         else if current \<noteq> [] then ([], phrases @ [join '' '' current])
         else (current, phrases)))"

definition line_phrases :: "str \<Rightarrow> str list" where
  "line_phrases line =
     (let (current, phrases) = foldl phrase_step ([], []) (split_whitespace line)
      in if current \<noteq> [] then phrases @ [join '' '' current] else phrases)"

definition extract_named_phrases :: "str list \<Rightarrow> str list" where
  "extract_named_phrases ls =
     dedupe_preserve_order (filter (\<lambda>phrase. MIN_PHRASE_LEN < length phrase) (concat (map line_phrases ls)))"

end
