(* ===== verification/Dialogue.thy ===== *)
theory Dialogue
  imports Texts Datetime
begin

section \<open>Dialogues in ingested texts\<close>

text \<open>
  Models \<open>src/api/ingest/dialogue.rs\<close> (its header reader is in \<open>Datetime\<close>): the messages of a
  conversation are read from lines such as \<open>user: hello\<close> and from JSON.  The JSON parser is a
  parameter; a JSON object is the list of its entries with distinct keys in the order of the map,
  and a number is kept as its text.
\<close>

datatype json =
    JNull | JBool bool | JNumber str | JString str | JArray "json list" | JObject "(str \<times> json) list"

subsection \<open>Characters at the ends\<close>

definition trim_start_chars :: "(str \<Rightarrow> bool) \<Rightarrow> str \<Rightarrow> str" where
  "trim_start_chars p s = concat (dropWhile p (utf8_chars s))"

definition trim_chars :: "(str \<Rightarrow> bool) \<Rightarrow> str \<Rightarrow> str" where
  "trim_chars p s = concat (rev (dropWhile p (rev (dropWhile p (utf8_chars s)))))"

text \<open>The bullet is the only character of the sets outside ASCII.\<close>

definition bullet :: str where
  "bullet = [CHR 0xE2, CHR 0x80, CHR 0xA2]"

definition label_margin :: "str list" where
  "label_margin = [[CHR 0x22], [CHR 0x27], ''['', '']'', ''-'', ''*'', bullet, '' '']"

definition line_margin :: "str list" where
  "line_margin = [''-'', ''*'', bullet, ''>'', '' '']"

text \<open>\<open>split_once\<close>: the text before and after the first occurrence.\<close>

fun split_once :: "str \<Rightarrow> str \<Rightarrow> (str \<times> str) option" where
  "split_once sep [] = (if sep = [] then Some ([], []) else None)"
| "split_once sep (c # s) =
     (if starts_with (c # s) sep then Some ([], drop (length sep) (c # s))
      else map_option (\<lambda>(a, b). (c # a, b)) (split_once sep s))"

subsection \<open>Speakers and lines\<close>

definition normalize_speaker_label :: "str \<Rightarrow> str option" where
  "normalize_speaker_label label =
     (let cleaned = trim_chars (\<lambda>c. c \<in> set label_margin) (trim label);
          lower = to_ascii_lowercase cleaned
      in if cleaned = [] then None
         else if lower \<in> set [''system'', ''session id'', ''session date'', ''session focus'', ''window turns'']
           \<or> starts_with lower ''session '' \<or> starts_with lower ''window '' then None
         else Some cleaned)"

definition strip_leading_bracketed_prefixes :: "str \<Rightarrow> str" where
  "strip_leading_bracketed_prefixes t = drop_headers (trim t)"

definition separators :: "str list" where
  "separators = ['':'', ''=>'', '' - '']"

definition parse_role_prefixed_line :: "str \<Rightarrow> (str \<times> str) option" where
  "parse_role_prefixed_line line =
     (let trimmed = trim_start_chars (\<lambda>c. c \<in> set line_margin) (trim line)
      in if trimmed = [] \<or> (starts_with trimmed ''['' \<and> ends_with trimmed '']'') then None
         else find_map (\<lambda>separator.
           case split_once separator trimmed of
             None \<Rightarrow> None
           | Some (role, content) \<Rightarrow>
               (case normalize_speaker_label role of
                  None \<Rightarrow> None
                | Some speaker \<Rightarrow>
                    (let cleaned = normalize_fact_text (trim (strip_leading_bracketed_prefixes content))
                     in if cleaned \<noteq> [] then Some (speaker, cleaned) else None)))
           separators)"

subsection \<open>Messages in JSON\<close>

definition nonempty_text :: "str \<Rightarrow> str option" where
  "nonempty_text t = (let normalized = normalize_fact_text t in if normalized \<noteq> [] then Some normalized else None)"

fun value_to_text :: "json \<Rightarrow> str option"
  and item_texts :: "json list \<Rightarrow> str list"
  and field_text :: "str \<Rightarrow> (str \<times> json) list \<Rightarrow> str option" where
  "value_to_text (JString t) = nonempty_text t"
| "value_to_text (JArray items) = nonempty_text (join '' '' (item_texts items))"
| "value_to_text (JObject m) =
     (case field_text ''text'' m of Some t \<Rightarrow> Some t | None \<Rightarrow> field_text ''content'' m)"
| "value_to_text _ = None"
| "item_texts [] = []"
| "item_texts (v # vs) = (case value_to_text v of None \<Rightarrow> item_texts vs | Some t \<Rightarrow> t # item_texts vs)"
| "field_text k [] = None"
| "field_text k ((k', v) # m) = (if k' = k then value_to_text v else field_text k m)"

definition own_message :: "(str \<times> json) list \<Rightarrow> (str \<times> str) list" where
  "own_message m =
     (case map_of m ''role'' of
        Some (JString role) \<Rightarrow>
          (case normalize_speaker_label role of
             None \<Rightarrow> []
           | Some speaker \<Rightarrow>
               (case field_text ''content'' m of
                  None \<Rightarrow> []
                | Some t \<Rightarrow>
                    (let cleaned = normalize_fact_text (strip_leading_bracketed_prefixes t)
                     in if cleaned \<noteq> [] then [(speaker, cleaned)] else [])))
      | _ \<Rightarrow> [])"

fun collect_dialogue_messages_from_json :: "json \<Rightarrow> (str \<times> str) list"
  and collect_items :: "json list \<Rightarrow> (str \<times> str) list"
  and collect_values :: "(str \<times> json) list \<Rightarrow> (str \<times> str) list" where
  "collect_dialogue_messages_from_json (JArray items) = collect_items items"
| "collect_dialogue_messages_from_json (JObject m) = own_message m @ collect_values m"
| "collect_dialogue_messages_from_json _ = []"
| "collect_items [] = []"
| "collect_items (v # vs) = collect_dialogue_messages_from_json v @ collect_items vs"
| "collect_values [] = []"
| "collect_values ((_, v) # m) = collect_dialogue_messages_from_json v @ collect_values m"

subsection \<open>The messages of a text\<close>

definition message_key :: "str \<times> str \<Rightarrow> str" where
  "message_key = (\<lambda>(speaker, message). speaker @ [CHR 0x1F] @ message)"

fun unseen :: "('a \<Rightarrow> 'k) \<Rightarrow> 'k set \<Rightarrow> 'a list \<Rightarrow> 'a list" where
  "unseen key seen [] = []"
| "unseen key seen (x # xs) =
     (if key x \<in> seen then unseen key seen xs else x # unseen key (insert (key x) seen) xs)"

definition extract_dialogue_messages :: "(str \<Rightarrow> json option) \<Rightarrow> str \<Rightarrow> (str \<times> str) list" where
  "extract_dialogue_messages from_str t =
     (let from_json = (case from_str t of None \<Rightarrow> [] | Some v \<Rightarrow> collect_dialogue_messages_from_json v);
          from_lines = List.map_filter parse_role_prefixed_line (lines t)
      in unseen message_key {} (filter (\<lambda>(_, message). message \<noteq> []) (from_json @ from_lines)))"

definition is_fact_like_message :: "str \<Rightarrow> bool" where
  "is_fact_like_message t =
     (let lower = '' '' @ to_ascii_lowercase t @ '' ''
      in list_ex (contains lower)
           ['' i '', '' my '', '' me '', '' i'' @ [CHR 0x27] @ ''m '', '' i'' @ [CHR 0x27], '' we '', '' our ''])"

definition said :: "str \<times> str \<Rightarrow> str" where
  "said = (\<lambda>(speaker, line). speaker @ '': '' @ line)"

definition extract_companion_texts :: "(str \<Rightarrow> json option) \<Rightarrow> str \<Rightarrow> str option \<times> str list" where
  "extract_companion_texts from_str t =
     (let dialogue_lines = extract_dialogue_messages from_str t
      in (if dialogue_lines = [] then None
          else Some (''Session gist: '' @ join '' | '' (map said (take 3 dialogue_lines))),
          map said (take 2 (filter (\<lambda>(_, line). is_fact_like_message line) dialogue_lines))))"

subsection \<open>Reading a line back\<close>

lemma concat_utf8_chars [simp]: "concat (utf8_chars s) = s"
  by (induction s rule: utf8_chars.induct) simp_all

lemma ws_colon: "\<not> ws2 a CHR '':''" "\<not> ws3 a CHR '':'' c" "\<not> ws3 a b CHR '':''"
  by (simp_all add: ws2_def ws3_def)

lemma ws_len_before_colon: "ws_len (a @ CHR '':'' # r) = ws_len a"
proof (cases a rule: ws_len.cases)
  case 1
  then show ?thesis by (cases "CHR '':'' # r" rule: ws_len.cases) (simp_all add: ws_colon ws1_def ws2_def ws3_def)
next
  case (2 x)
  then show ?thesis by (cases r) (simp_all add: ws_colon)
qed (simp_all add: ws_colon)

lemma trim_end_before_colon:
  "trim_end (CHR '':'' # r) \<noteq> [] \<Longrightarrow> trim_end (a @ CHR '':'' # r) = a @ trim_end (CHR '':'' # r)"
proof (induction "length a" arbitrary: a rule: less_induct)
  case less
  show ?case
  proof (cases a)
    case (Cons x xs)
    show ?thesis
    proof (cases "ws_len a = 0")
      case True
      then show ?thesis using less Cons
        by (subst trim_end.simps) (simp add: ws_len_before_colon [of a r, unfolded Cons append_Cons])
    next
      case False
      have le: "ws_len a \<le> length a" by (rule ws_len_le)
      have "trim_end (drop (ws_len a) a @ CHR '':'' # r) = drop (ws_len a) a @ trim_end (CHR '':'' # r)"
        using less False Cons by simp
      then show ?thesis using False le less(2)
        by (subst trim_end.simps) (simp add: ws_len_before_colon Let_def)
    qed
  qed simp
qed

lemma trim_end_after_colon:
  assumes "trim line = line" "line \<noteq> []"
  shows "trim_end ('': '' @ line) = '': '' @ line"
proof -
  have l: "ws_len line = 0" "trim_end line = line" using assms(1) by (simp_all add: trimmed_iff)
  have "ws_len ('' '' @ line) = 1" "ws_len ('': '' @ line) = 0"
    by (cases line rule: ws_len.cases; simp add: ws1_def ws2_def ws3_def)+
  then show ?thesis using l assms(2)
    by (simp add: trim_end.simps [of "CHR '':'' # CHR '' '' # line"] trim_end.simps [of "CHR '' '' # line"])
qed

lemma trim_labelled:
  assumes "trim speaker = speaker" "speaker \<noteq> []" "trim line = line" "line \<noteq> []"
  shows "trim (said (speaker, line)) = said (speaker, line)"
proof -
  have "trim_end (speaker @ CHR '':'' # '' '' @ line) = speaker @ '': '' @ line"
    using trim_end_before_colon [of "'' '' @ line" speaker] trim_end_after_colon [OF assms(3,4)] by simp
  moreover have "ws_len (speaker @ CHR '':'' # '' '' @ line) = 0"
    using assms(1) by (simp only: trimmed_iff ws_len_before_colon)
  ultimately show ?thesis by (simp add: trimmed_iff said_def)
qed

lemma split_once_colon: "CHR '':'' \<notin> set a \<Longrightarrow> split_once '':'' (a @ '':'' @ r) = Some (a, r)"
  by (induction a) (auto simp: starts_with_def)

lemma hd_utf8_chars: "s \<noteq> [] \<Longrightarrow> utf8_chars s \<noteq> [] \<and> (\<exists>r. s = hd (utf8_chars s) @ r \<and> hd (utf8_chars s) \<noteq> [])"
  by (cases s) (auto intro: exI [of _ "drop (utf8_width (hd s) - 1) (tl s)"])

lemma trim_chars_id:
  assumes "trim_chars p s = s" "s \<noteq> []" shows "\<not> p (hd (utf8_chars s))"
proof
  assume p: "p (hd (utf8_chars s))"
  obtain c r where c: "utf8_chars s = c # r" "c \<noteq> []" using hd_utf8_chars [OF assms(2)] by (cases "utf8_chars s") auto
  have tot: "length (concat (dropWhile p xs)) \<le> length (concat xs)" for xs
    by (induction xs) auto
  have "length (trim_chars p s) \<le> length (concat (dropWhile p (utf8_chars s)))"
    using tot [of "rev (dropWhile p (utf8_chars s))"]
    by (simp add: trim_chars_def length_concat rev_map [symmetric] sum_list_rev)
  also have "\<dots> \<le> length (concat r)" using p c tot [of r] by simp
  also have "\<dots> < length (concat (utf8_chars s))" using c by simp
  finally show False using assms(1) by simp
qed

lemma label_first:
  assumes "normalize_speaker_label speaker = Some speaker" "trim speaker = speaker"
  shows "speaker \<noteq> [] \<and> hd (utf8_chars speaker) \<notin> set label_margin"
proof -
  have "trim_chars (\<lambda>c. c \<in> set label_margin) speaker = speaker" "speaker \<noteq> []"
    using assms by (auto simp: normalize_speaker_label_def Let_def split: if_splits)
  then show ?thesis using trim_chars_id by blast
qed

lemma no_margin:
  assumes "speaker = c # s" "hd (utf8_chars speaker) \<notin> set label_margin" "c \<noteq> CHR ''>''"
  shows "hd (utf8_chars (speaker @ CHR '':'' # r)) \<notin> set line_margin" and "c \<noteq> CHR ''[''"
proof -
  have w: "utf8_width CHR 0x2D = 1" "utf8_width CHR 0x2A = 1" "utf8_width CHR 0x20 = 1"
    "utf8_width CHR 0x5B = 1" "utf8_width CHR 0xE2 = 3"
    by (simp_all add: utf8_width_def)
  show "c \<noteq> CHR ''[''" using assms w by (auto simp: label_margin_def)
  have "c # take (utf8_width c - 1) (s @ CHR '':'' # r) \<noteq> bullet"
  proof
    assume b: "c # take (utf8_width c - 1) (s @ CHR '':'' # r) = bullet"
    then have c: "c = CHR 0xE2" by (simp add: bullet_def)
    with b w have "take 2 (s @ CHR '':'' # r) = [CHR 0x80, CHR 0xA2]" by (simp add: bullet_def)
    then have "take 2 s = [CHR 0x80, CHR 0xA2]"
      by (cases s; cases "tl s") (auto simp: numeral_2_eq_2)
    then show False using assms c w by (simp add: label_margin_def bullet_def)
  qed
  moreover have "c \<noteq> CHR 0x2D" "c \<noteq> CHR 0x2A" "c \<noteq> CHR 0x20"
    using assms w by (auto simp: label_margin_def)
  ultimately show "hd (utf8_chars (speaker @ CHR '':'' # r)) \<notin> set line_margin"
    using assms(1,3) by (auto simp: line_margin_def)
qed

text \<open>
  C38. A message written as a line, the speaker, a colon and the text, is read back as that speaker and
  that text, when the speaker is a label the reader accepts as it is and has no colon and the text is
  normalised and opens no bracket.
\<close>

theorem labelled_line_round_trip:
  assumes "normalize_speaker_label speaker = Some speaker" "trim speaker = speaker"
    and "CHR '':'' \<notin> set speaker" "hd speaker \<noteq> CHR ''>''"
    and "normalize_fact_text line = line" "trim line = line" "line \<noteq> []" "hd line \<noteq> CHR ''[''"
  shows "parse_role_prefixed_line (said (speaker, line)) = Some (speaker, line)"
proof -
  from label_first [OF assms(1,2)] obtain c s where c: "speaker = c # s"
    and m: "hd (utf8_chars speaker) \<notin> set label_margin" by (cases speaker) auto
  have edges: "hd (utf8_chars (speaker @ '': '' @ line)) \<notin> set line_margin" "c \<noteq> CHR ''[''"
    using no_margin(1) [OF c m, of "'' '' @ line"] no_margin(2) [OF c m] assms(4) c by simp_all
  let ?P = "\<lambda>c. c \<in> set line_margin"
  have "dropWhile ?P (utf8_chars (speaker @ '': '' @ line)) = utf8_chars (speaker @ '': '' @ line)"
    using edges(1) by (cases "utf8_chars (speaker @ '': '' @ line)") simp_all
  then have kept: "trim_start_chars ?P (speaker @ '': '' @ line) = speaker @ '': '' @ line"
    by (simp add: trim_start_chars_def)
  have "trim (said (speaker, line)) = speaker @ '': '' @ line"
    using trim_labelled [OF assms(2) _ assms(6,7)] c by (simp add: said_def)
  moreover have "split_once '':'' (speaker @ '': '' @ line) = Some (speaker, '' '' @ line)"
    using split_once_colon [OF assms(3), of "'' '' @ line"] by simp
  moreover have "trim ('' '' @ line) = line"
  proof -
    have "ws_len ('' '' @ line) = 1" by (cases line rule: ws_len.cases; simp add: ws1_def)
    then have "trim_start ('' '' @ line) = trim_start line" by (subst trim_start.simps) simp
    then show ?thesis using assms(6) by (simp add: trim_def)
  qed
  moreover have "drop_headers line = line"
    using assms(7,8) by (subst drop_headers.simps) (cases line; simp add: starts_with_def)
  ultimately show ?thesis
    using kept assms(1,5,6,7) edges(2) c
    by (simp add: parse_role_prefixed_line_def separators_def strip_leading_bracketed_prefixes_def Let_def starts_with_def)
qed

theorem labelled_line_round_trip_witness:
  "parse_role_prefixed_line (said (''user'', ''I like tea'')) = Some (''user'', ''I like tea'')"
proof (rule labelled_line_round_trip)
  show "normalize_speaker_label ''user'' = Some ''user''" by code_simp
  show "trim ''user'' = ''user''" by code_simp
  show "normalize_fact_text ''I like tea'' = ''I like tea''" by code_simp
  show "trim ''I like tea'' = ''I like tea''" by code_simp
qed simp_all

end
