(* ===== verification/Chunking.thy ===== *)
theory Chunking
  imports Texts Memory_Id
begin

section \<open>Chunks of an ingested payload\<close>

text \<open>
  Models \<open>src/api/ingest/chunking.rs\<close>: a text is cut at the boundaries its content type has
  (headings, definitions, header lines, sentences) and the parts are packed up to a size.
  Lengths are in bytes.  A confidence is the bit pattern of its \<open>f32\<close>.
\<close>

record IngestPayload =
  p_entity_id :: str
  p_memory_id :: str
  p_timestamp :: u64
  p_session_id :: "str option"
  p_turn_index :: "u32 option"
  p_role :: "str option"
  p_textual_content :: str
  p_relations :: "(str \<times> str \<times> str) list"
  p_kind :: "str option"
  p_fact_key :: "str option"
  p_source_memory_id :: "str option"
  p_index_semantic :: "bool option"
  p_enable_semantic_dedup :: "bool option"
  p_enable_consolidation :: "bool option"
  p_enable_mining :: "bool option"
  p_content_type :: "str option"
  p_fact_operation :: "str option"
  p_fact_confidence :: "u32 option"
  p_fact_subject :: "str option"
  p_fact_predicate :: "str option"
  p_fact_object :: "str option"
  p_visual_description :: "str option"
  p_visual_query :: "str option"

text \<open>\<open>Default::default()\<close>.\<close>

definition empty_payload :: IngestPayload where
  "empty_payload =
     \<lparr>p_entity_id = [], p_memory_id = [], p_timestamp = 0, p_session_id = None, p_turn_index = None,
      p_role = None, p_textual_content = [], p_relations = [], p_kind = None, p_fact_key = None,
      p_source_memory_id = None, p_index_semantic = None, p_enable_semantic_dedup = None,
      p_enable_consolidation = None, p_enable_mining = None, p_content_type = None,
      p_fact_operation = None, p_fact_confidence = None, p_fact_subject = None,
      p_fact_predicate = None, p_fact_object = None, p_visual_description = None,
      p_visual_query = None\<rparr>"

subsection \<open>Packing lines up to a size\<close>

definition nl :: str where
  "nl = [CHR 0x0A]"

text \<open>The loop of \<open>split_by_char_limit\<close>; \<open>current\<close> is the chunk being filled.\<close>

fun limit_loop :: "nat \<Rightarrow> str \<Rightarrow> str list \<Rightarrow> str list" where
  "limit_loop max_chars current [] = (if trim current \<noteq> [] then [trim current] else [])"
| "limit_loop max_chars current (line # ls) =
     (let needs_new = current \<noteq> [] \<and> max_chars < length current + length line + 1;
          kept = (if needs_new then [] else current)
      in (if needs_new then [trim current] else [])
           @ limit_loop max_chars ((if kept \<noteq> [] then kept @ nl else kept) @ line) ls)"

definition split_by_char_limit :: "str list \<Rightarrow> nat \<Rightarrow> str list" where
  "split_by_char_limit ls max_chars = limit_loop max_chars [] ls"

subsection \<open>Blocks of lines\<close>

text \<open>The loop that \<open>chunk_markdown\<close>, \<open>chunk_code\<close> and \<open>chunk_email\<close> share: a boundary line opens a block.\<close>

fun block_loop :: "(str \<Rightarrow> bool) \<Rightarrow> str list \<Rightarrow> str list \<Rightarrow> str list" where
  "block_loop boundary current [] = (if current \<noteq> [] then [join nl current] else [])"
| "block_loop boundary current (line # ls) =
     (if boundary line \<and> current \<noteq> [] then join nl current # block_loop boundary [line] ls
      else block_loop boundary (current @ [line]) ls)"

definition heading :: "str \<Rightarrow> bool" where
  "heading line \<longleftrightarrow> starts_with (trim_start line) ''#''"

definition boundary_prefixes :: "str list" where
  "boundary_prefixes = [''fn '', ''pub fn '', ''def '', ''class '', ''function '', ''impl '']"

definition code_boundary :: "str \<Rightarrow> bool" where
  "code_boundary line \<longleftrightarrow> list_ex (starts_with (trim_start line)) boundary_prefixes"

definition email_boundary :: "str \<Rightarrow> bool" where
  "email_boundary line \<longleftrightarrow> list_ex (starts_with (to_ascii_lowercase line)) [''from:'', ''subject:'', ''to:'', ''date:'']"

definition chunk_markdown :: "str \<Rightarrow> str list" where
  "chunk_markdown t =
     (let sections = block_loop heading [] (lines t)
      in if sections = [] then [t] else concat (map (\<lambda>s. split_by_char_limit (lines s) 1100) sections))"

definition chunk_code :: "str \<Rightarrow> str list" where
  "chunk_code t =
     (let blocks = block_loop code_boundary [] (lines t)
      in if blocks = [] then [t] else concat (map (\<lambda>b. split_by_char_limit (lines b) 1200) blocks))"

definition chunk_email :: "str \<Rightarrow> str list" where
  "chunk_email t =
     (let messages = block_loop email_boundary [] (lines t) in if messages = [] then [t] else messages)"

definition chunk_table_like :: "str \<Rightarrow> str list" where
  "chunk_table_like t = (let ls = lines t in if length ls \<le> 24 then [t] else split_by_char_limit ls 1400)"

subsection \<open>Sentences\<close>

definition sentences :: "str \<Rightarrow> str list" where
  "sentences t =
     filter (\<lambda>s. s \<noteq> []) (map trim (split_if (\<lambda>c. c \<in> set [CHR ''.'', CHR ''!'', CHR ''?'', CHR 0x0A]) t))"

fun sentence_loop :: "str \<Rightarrow> str list \<Rightarrow> str list" where
  "sentence_loop current [] = (if trim current \<noteq> [] then [trim current] else [])"
| "sentence_loop current (sentence # ss) =
     (let candidate_len = (if current = [] then length sentence else length current + 2 + length sentence);
          needs_new = current \<noteq> [] \<and> 900 < candidate_len;
          kept = (if needs_new then [] else current)
      in (if needs_new then [trim current] else [])
           @ sentence_loop ((if kept \<noteq> [] then kept @ ''. '' else kept) @ sentence) ss)"

definition chunk_plain_or_chat :: "str \<Rightarrow> str list" where
  "chunk_plain_or_chat t = (let ss = sentences t in if ss = [] then [t] else sentence_loop [] ss)"

subsection \<open>The expansion of a payload\<close>

definition infer_content_type :: "IngestPayload \<Rightarrow> str" where
  "infer_content_type p =
     (case p_content_type p of
        Some ct \<Rightarrow> to_ascii_lowercase (trim ct)
      | None \<Rightarrow>
          (let t = p_textual_content p; lower = to_ascii_lowercase t
           in if contains lower ''```'' \<or> contains lower ''fn '' \<or> contains lower ''class '' then ''code''
              else if list_ex heading (lines t) then ''markdown''
              else if contains lower ''from:'' \<and> contains lower ''subject:'' then ''email''
              else if list_ex (\<lambda>line. contains line ''|'' \<or> contains line '','') (take 8 (lines t)) then ''table''
              else if contains lower ''user:'' \<or> contains lower ''assistant:'' then ''chat''
              else ''plain''))"

definition build_chunk_memory_id :: "IngestPayload \<Rightarrow> nat \<Rightarrow> str" where
  "build_chunk_memory_id p idx = derived_from (p_memory_id p) (''c'' @ show_nat idx)"

definition chunks_of :: "IngestPayload \<Rightarrow> str list" where
  "chunks_of p =
     (let content_type = infer_content_type p; t = p_textual_content p
      in if content_type = ''markdown'' then chunk_markdown t
         else if content_type = ''code'' then chunk_code t
         else if content_type = ''email'' then chunk_email t
         else if content_type = ''table'' then chunk_table_like t
         else chunk_plain_or_chat t)"

definition expand_payload_for_content_type :: "IngestPayload \<Rightarrow> IngestPayload list" where
  "expand_payload_for_content_type p =
     (let chunks = chunks_of p
      in if length chunks \<le> 1 then [p]
         else map (\<lambda>(idx, chunk). p\<lparr>p_textual_content := chunk, p_source_memory_id := Some (p_memory_id p),
                                     p_memory_id := build_chunk_memory_id p idx\<rparr>)
                (enumerate 0 chunks))"

subsection \<open>Packing keeps the lines and their order\<close>

definition packed :: "str list \<Rightarrow> str" where
  "packed ls = trim (join nl ls)"

text \<open>A group whose text is blank may be dropped, but only at the end.\<close>

definition packs :: "str list list \<Rightarrow> str list \<Rightarrow> bool" where
  "packs gs cs \<longleftrightarrow> cs = map packed gs \<or> (gs \<noteq> [] \<and> packed (last gs) = [] \<and> cs = map packed (butlast gs))"

definition fill :: "str list \<Rightarrow> str" where
  "fill ls = join nl (dropWhile (\<lambda>l. l = []) ls)"

lemma trim_start_newline: "trim_start (nl @ s) = trim_start s"
proof -
  have "ws_len (nl @ s) = 1" by (cases s rule: ws_len.cases) (simp_all add: nl_def ws1_def)
  then show ?thesis by (subst trim_start.simps) (simp add: nl_def)
qed

lemma packed_fill: "packed ls = trim (fill ls)"
proof (induction ls)
  case Nil
  then show ?case by (simp add: packed_def fill_def)
next
  case (Cons l ls)
  show ?case
  proof (cases "l = [] \<and> ls \<noteq> []")
    case True
    then have "packed (l # ls) = trim (nl @ join nl ls)" by (simp add: packed_def join_Cons)
    also have "\<dots> = packed ls" by (simp add: packed_def trim_def trim_start_newline)
    finally show ?thesis using Cons True by (simp add: fill_def)
  qed (auto simp: packed_def fill_def)
qed

lemma fill_snoc: "fill (ls @ [l]) = (if fill ls \<noteq> [] then fill ls @ nl else fill ls) @ l"
proof -
  have join_snoc: "join nl (xs @ [l]) = join nl xs @ nl @ l" if "xs \<noteq> []" for xs
    using that by (cases xs) (simp_all add: join_def)
  show ?thesis
  proof (cases "dropWhile (\<lambda>l. l = []) ls")
    case Nil
    then have "\<forall>x \<in> set ls. x = []" by (simp add: dropWhile_eq_Nil_conv)
    then have last_only: "dropWhile (\<lambda>l. l = []) (ls @ [l]) = (if l = [] then [] else [l])"
      by (simp add: dropWhile_append2)
    show ?thesis unfolding fill_def Nil last_only by simp
  next
    case (Cons x xs)
    have "dropWhile (\<lambda>l. l = []) ls \<noteq> []" using Cons by simp
    then have "x \<noteq> []" using hd_dropWhile [of "\<lambda>l. l = []" ls] Cons by (metis list.sel(1))
    have more: "dropWhile (\<lambda>l. l = []) (ls @ [l]) = (x # xs) @ [l]"
      using Cons dropWhile_eq_Nil_conv [of "\<lambda>l. l = []" ls] by (simp only: dropWhile_append Cons) auto
    have "join nl (x # xs) \<noteq> []" using \<open>x \<noteq> []\<close> by (simp add: join_def)
    moreover have "join nl ((x # xs) @ [l]) = join nl (x # xs) @ nl @ l" by (rule join_snoc) simp
    ultimately show ?thesis unfolding fill_def Cons more
      by (simp only: simp_thms if_True not_False_eq_True append_assoc)
  qed
qed

lemma fill_Nil [simp]: "fill [] = []"
  by (simp add: fill_def)

lemma packs_Cons: "packs gs cs \<Longrightarrow> gs \<noteq> [] \<or> cs = [] \<Longrightarrow> packs (g # gs) (packed g # cs)"
  by (auto simp: packs_def)

lemma limit_loop_packs:
  "\<exists>gs. concat gs = g @ ls \<and> [] \<notin> set gs \<and> packs gs (limit_loop m (fill g) ls)"
proof (induction ls arbitrary: g)
  case Nil
  show ?case
  proof (cases "g = []")
    case True
    then show ?thesis by (intro exI [of _ "[]"]) (simp add: packs_def)
  next
    case False
    have "packs [g] (limit_loop m (fill g) [])"
      by (simp add: packs_def packed_fill)
    then show ?thesis using False by (intro exI [of _ "[g]"]) simp
  qed
next
  case (Cons l ls)
  show ?case
  proof (cases "fill g \<noteq> [] \<and> m < length (fill g) + length l + 1")
    case True
    obtain gs where gs: "concat gs = [l] @ ls" "[] \<notin> set gs" "packs gs (limit_loop m (fill [l]) ls)"
      using Cons.IH [of "[l]"] by blast
    have "limit_loop m (fill g) (l # ls) = packed g # limit_loop m (fill [l]) ls"
      using True fill_snoc [of "[]" l] by (simp add: packed_fill Let_def)
    moreover have "packs (g # gs) (packed g # limit_loop m (fill [l]) ls)"
      using gs by (intro packs_Cons) auto
    moreover have "g \<noteq> []" using True by (auto simp: fill_def)
    ultimately show ?thesis
      using gs by (intro exI [of _ "g # gs"]) simp
  next
    case False
    then have "limit_loop m (fill g) (l # ls) = limit_loop m (fill (g @ [l])) ls"
      by (auto simp: fill_snoc Let_def)
    then show ?thesis using Cons.IH [of "g @ [l]"] by simp
  qed
qed

subsection \<open>Sizes\<close>

lemma limit_loop_sizes:
  assumes "c \<in> set (limit_loop m cur ls)"
    and "length cur \<le> m \<or> (\<exists>l \<in> set seen. length cur \<le> length l)"
  shows "length c \<le> m \<or> (\<exists>l \<in> set (seen @ ls). length c \<le> length l)"
  using assms
proof (induction ls arbitrary: cur seen)
  case Nil
  then show ?case using trim_length [of cur] by (auto split: if_splits intro: order_trans)
next
  case (Cons l ls)
  let ?new = "cur \<noteq> [] \<and> m < length cur + length l + 1"
  consider "c = trim cur" | (rest) "c \<in> set (limit_loop m ((if ?new \<or> cur = [] then [] else cur @ nl) @ l) ls)"
    using Cons.prems(1) by (auto simp: Let_def split: if_splits)
  then show ?case
  proof cases
    case 1
    then show ?thesis using trim_length [of cur] Cons.prems(2) by (auto intro: order_trans)
  next
    case rest
    have "length ((if ?new \<or> cur = [] then [] else cur @ nl) @ l) \<le> m
        \<or> (\<exists>x \<in> set (seen @ [l]). length ((if ?new \<or> cur = [] then [] else cur @ nl) @ l) \<le> length x)"
      by (auto simp: nl_def)
    from Cons.IH [OF rest this] show ?thesis by simp
  qed
qed

subsection \<open>Identifiers of chunks\<close>

lemma component_chunk: "component (from_component (''c'' @ show_nat i)) = ''c'' @ show_nat i"
proof -
  obtain d ds where d: "show_nat i = d # ds" "is_digit d"
    using show_nat_nonempty [of i] show_nat_digits [of _ i] by (cases "show_nat i") auto
  have strip: "strip_prefix (''c'' @ show_nat i) ''c'' = Some (show_nat i)"
    by (simp add: strip_prefix_def starts_with_def)
  show ?thesis
  proof (cases "parse_unsigned 32 (show_nat i)")
    case None
    have "CHR ''a'' \<noteq> d" "CHR ''q'' \<noteq> d" using d(2) by (auto simp: is_digit_def)
    then show ?thesis using None strip d(1)
      by (auto simp: from_component_def starts_with_def)
  next
    case (Some n)
    then have "n = i" "n < 2 ^ 32"
      using parse_unsigned_bound [OF Some] by (auto simp: parse_unsigned_def parse_dec_def parse_digits_show_nat split: if_splits option.splits)
    then have "unat (of_nat n :: u32) = i" by (simp add: unat_of_nat)
    moreover have "from_component (''c'' @ show_nat i) = Chunk (of_nat n)"
      using strip Some by (simp add: from_component_def)
    ultimately show ?thesis by simp
  qed
qed

lemma show_nat_inject [simp]: "show_nat a = show_nat b \<longleftrightarrow> a = b"
  using parse_digits_show_nat [of a] parse_digits_show_nat [of b] by (metis option.inject)

lemma escape_digits: "\<forall>c \<in> set s. is_digit c \<Longrightarrow> escape_component s = s"
  by (induction s) auto

lemma chunk_memory_id: "build_chunk_memory_id p i = p_memory_id p @ ''::c'' @ show_nat i"
proof -
  have "escape_component (''c'' @ show_nat i) = ''c'' @ show_nat i"
    using escape_digits [of "show_nat i"] show_nat_digits by simp
  then show ?thesis
    unfolding build_chunk_memory_id_def derived_from_eq component_chunk
    by (simp add: SEPARATOR_def)
qed

subsection \<open>Properties\<close>

text \<open>
  C14. Packing cuts the lines into consecutive groups, none of them empty, and gives the trimmed text of
  each group, only a blank last one left out: no line is lost, repeated or moved.  A chunk is longer
  than the limit only when a single line is.
\<close>

theorem packing_keeps_lines:
  "(\<exists>groups. concat groups = ls \<and> [] \<notin> set groups \<and> packs groups (split_by_char_limit ls max_chars))
   \<and> list_all (\<lambda>chunk. length chunk \<le> max_chars \<or> list_ex (\<lambda>line. length chunk \<le> length line) ls)
       (split_by_char_limit ls max_chars)"
proof
  show "\<exists>groups. concat groups = ls \<and> [] \<notin> set groups \<and> packs groups (split_by_char_limit ls max_chars)"
    using limit_loop_packs [of "[]" ls max_chars] by (simp add: split_by_char_limit_def)
  show "list_all (\<lambda>chunk. length chunk \<le> max_chars \<or> list_ex (\<lambda>line. length chunk \<le> length line) ls)
       (split_by_char_limit ls max_chars)"
    using limit_loop_sizes [of _ max_chars "[]" ls "[]"]
    by (auto simp: split_by_char_limit_def list_all_iff list_ex_iff)
qed

text \<open>
  C15. A payload is kept as it is or replaced by its chunks in order: each has the text of one chunk and
  points to the payload, its identifier extends the payload's by the number of the chunk, and nothing
  else differs; the identifiers are distinct and in the payload's family.
\<close>

theorem expansion_numbers_chunks:
  "let out = expand_payload_for_content_type p
   in out = (if length (chunks_of p) \<le> 1 then [p]
             else map (\<lambda>i. p\<lparr>p_textual_content := chunks_of p ! i, p_source_memory_id := Some (p_memory_id p),
                                p_memory_id := p_memory_id p @ ''::c'' @ show_nat i\<rparr>) [0..<length (chunks_of p)])
      \<and> distinct (map p_memory_id out) \<and> list_all (\<lambda>q. in_family (p_memory_id p) (p_memory_id q)) out"
proof -
  let ?cs = "chunks_of p"
  let ?f = "\<lambda>i. p\<lparr>p_textual_content := ?cs ! i, p_source_memory_id := Some (p_memory_id p),
                    p_memory_id := p_memory_id p @ ''::c'' @ show_nat i\<rparr>"
  have "map (\<lambda>(idx, chunk). p\<lparr>p_textual_content := chunk, p_source_memory_id := Some (p_memory_id p),
            p_memory_id := build_chunk_memory_id p idx\<rparr>) (enumerate 0 ?cs) = map ?f [0..<length ?cs]"
    by (rule nth_equalityI) (simp_all add: nth_enumerate_eq chunk_memory_id)
  then have out: "expand_payload_for_content_type p
      = (if length ?cs \<le> 1 then [p] else map ?f [0..<length ?cs])"
    by (simp add: expand_payload_for_content_type_def Let_def)
  have "distinct (map p_memory_id (map ?f [0..<length ?cs]))"
    by (simp add: distinct_map inj_on_def comp_def)
  moreover have "in_family (p_memory_id p) (p_memory_id p @ ''::c'' @ show_nat i)" for i
    using in_family_derived [of "p_memory_id p"] chunk_memory_id [of p i] by (simp add: build_chunk_memory_id_def) (metis (no_types))
  ultimately show ?thesis unfolding Let_def out by (simp add: list_all_iff)
qed

end
