(* ===== verification/Claims.thy ===== *)
theory Claims
  imports Dialogue Chunking
begin

section \<open>Facts read off a text by rules\<close>

text \<open>
  Models \<open>src/api/ingest/fact.rs\<close> and the rule tier of \<open>src/extract.rs\<close>.  A strength or confidence is
  the bit pattern of an \<open>f32\<close>; the patterns that occur are of non-negative numbers, whose order is
  that of the patterns.
\<close>

subsection \<open>Keys of facts\<close>

definition is_numericish :: "str \<Rightarrow> bool" where
  "is_numericish token \<longleftrightarrow> token \<noteq> [] \<and> list_all (\<lambda>c. is_digit c \<or> c \<in> set ''$.,%'') token"

definition DROP :: "str list" where
  "DROP = [''my'', ''the'', ''a'', ''an'', ''to'', ''of'', ''for'', ''and'', ''new'', ''current'', ''daily'',
     ''local'', ''now'', ''currently'', ''really'', ''very'', ''just'', ''that'', ''this'']"

definition sanitize_key_parts :: "str list \<Rightarrow> str option" where
  "sanitize_key_parts parts =
     (let cleaned = filter (\<lambda>part. part \<notin> set DROP)
            (filter (\<lambda>part. \<not> list_all is_digit part)
              (filter (\<lambda>part. part \<noteq> [])
                (map (trim_matches (\<lambda>c. \<not> is_alnum c)) (filter (\<lambda>part. part \<noteq> []) parts))))
      in if cleaned = [] then None else Some (join ''_'' cleaned))"

definition sanitize_key_parts_owned :: "str list \<Rightarrow> str option" where
  "sanitize_key_parts_owned parts = sanitize_key_parts parts"

definition build_contextual_key :: "str list \<Rightarrow> str list \<Rightarrow> str option \<Rightarrow> str option" where
  "build_contextual_key context_parts base suffix =
     sanitize_key_parts_owned
       (context_parts
        @ map (\<lambda>(idx, token). if idx + 1 = length base then singularize_token token else token) (enumerate 0 base)
        @ (case suffix of None \<Rightarrow> [] | Some s \<Rightarrow> [s]))"

fun position :: "('a \<Rightarrow> bool) \<Rightarrow> 'a list \<Rightarrow> nat option" where
  "position p [] = None"
| "position p (x # xs) = (if p x then Some 0 else map_option Suc (position p xs))"

definition attribute_verbs :: "str list" where
  "attribute_verbs = [''is'', ''was'', ''are'', ''were'', ''takes'', ''take'', ''costs'', ''cost'', ''equals'',
     ''measures'', ''lasts'', ''lasted'', ''called'', ''named'', ''uses'', ''use'', ''prefers'', ''prefer'']"

definition extract_my_attribute_key_from_tokens :: "str list \<Rightarrow> str option" where
  "extract_my_attribute_key_from_tokens tokens =
     (case position (\<lambda>t. t = ''my'') tokens of
        None \<Rightarrow> None
      | Some my_index \<Rightarrow>
          (case position (\<lambda>t. t \<in> set attribute_verbs) (drop (my_index + 1) tokens) of
             None \<Rightarrow> None
           | Some verb \<Rightarrow> if verb = 0 then None
               else build_contextual_key [] (take verb (drop (my_index + 1) tokens)) None))"

fun have_loop :: "str option \<Rightarrow> str list \<Rightarrow> str list \<Rightarrow> bool \<Rightarrow> str list \<Rightarrow> str option" where
  "have_loop suffix base ctx reading_context [] =
     (if base = [] then None else build_contextual_key ctx base suffix)"
| "have_loop suffix base ctx reading_context (token # tokens) =
     (if token \<in> set [''called'', ''named'', ''titled''] then build_contextual_key ctx base (Some ''name'')
      else if token \<in> set [''on'', ''at'', ''in'', ''for'', ''with''] \<and> base \<noteq> []
        then have_loop suffix base ctx True tokens
      else if token \<in> set [''is'', ''was'', ''are'', ''were'', ''that'', ''which'']
        then (if base = [] then None else build_contextual_key ctx base suffix)
      else if is_numericish token then have_loop suffix base ctx reading_context tokens
      else if reading_context then have_loop suffix base (ctx @ [token]) True tokens
      else have_loop suffix (base @ [token]) ctx False tokens)"

definition extract_i_have_attribute_key :: "str list \<Rightarrow> str option" where
  "extract_i_have_attribute_key tokens =
     (case position (\<lambda>t. t = ''i'') tokens of
        None \<Rightarrow> None
      | Some i_index \<Rightarrow>
          (case position (\<lambda>t. t \<in> set [''have'', ''has'', ''had'', ''own'', ''owned'', ''keep'', ''kept''])
                  (drop (i_index + 1) tokens) of
             None \<Rightarrow> None
           | Some have \<Rightarrow>
               (let after = drop (have + 1) (drop (i_index + 1) tokens);
                    rest = dropWhile (\<lambda>t. is_numericish t
                      \<or> t \<in> set [''a'', ''an'', ''the'', ''my'', ''now'', ''currently'']) after;
                    suffix = (if list_ex is_numericish after then Some ''count'' else None)
                in if rest = [] then None else have_loop suffix [] [] False rest)))"

definition extract_spend_price_key :: "str list \<Rightarrow> str option" where
  "extract_spend_price_key tokens =
     (case position (\<lambda>t. t \<in> set [''spent'', ''paid'', ''cost'']) tokens of
        None \<Rightarrow> None
      | Some spend_index \<Rightarrow>
          (case position (\<lambda>t. t = ''on'') (drop (spend_index + 1) tokens) of
             None \<Rightarrow> None
           | Some on \<Rightarrow>
               (let base = filter (\<lambda>t. \<not> is_numericish t) (drop (on + 1) (drop (spend_index + 1) tokens))
                in if base = [] then None else build_contextual_key [] base (Some ''price''))))"

definition begins :: "str list \<Rightarrow> str list \<Rightarrow> bool" where
  "begins rest p \<longleftrightarrow> take (length p) rest = p"

definition extract_identity_or_location_key :: "str list \<Rightarrow> str option" where
  "extract_identity_or_location_key tokens =
     (case position (\<lambda>t. t = ''i'') tokens of
        None \<Rightarrow> None
      | Some i_index \<Rightarrow>
          (let rest = drop (i_index + 1) tokens
           in if list_ex (begins rest) [[''live'', ''in''], [''moved'', ''to'']] then Some ''residence''
              else if begins rest [''work'', ''at''] then Some ''employer''
              else if list_ex (begins rest) [[''work'', ''as''], [''am'', ''a''], [''am'', ''an'']]
                then Some ''occupation''
              else if list_ex (begins rest) [[''study'', ''at''], [''studied'', ''at''], [''graduated'', ''from'']]
                then Some ''school''
              else None))"

definition or_else :: "'a option \<Rightarrow> 'a option \<Rightarrow> 'a option" where
  "or_else a b = (case a of None \<Rightarrow> b | Some x \<Rightarrow> Some x)"

definition infer_fact_key_with_profile :: "str \<Rightarrow> Profile \<Rightarrow> str option" where
  "infer_fact_key_with_profile t profile =
     (let normalized = to_ascii_lowercase (trim
            (case strip_prefix (trim t) ''User fact:'' of Some r \<Rightarrow> r | None \<Rightarrow> t));
          tokens = normalize_alpha_tokens normalized;
          has = has_token tokens;
          tuned = benchmark_tuned_rules profile
      in if normalized = [] then None
         else if list_ex (contains normalized) [''married'', ''single'', ''divorced'', ''engaged'', ''dating'']
           then Some ''relationship_status''
         else if (has ''children'' \<or> has ''child'' \<or> has ''kids'' \<or> has ''kid'')
             \<and> (has ''have'' \<or> has ''has'' \<or> has ''had'') then Some ''children_count''
         else if has ''nickname'' \<or> has ''called'' then Some ''nickname''
         else if has ''research'' \<or> has ''researched'' then Some ''research_topic''
         else if has ''certificate'' \<or> has ''certified'' then Some ''certificate''
         else if has ''team'' \<and> (has ''favorite'' \<or> has ''support'') then Some ''favorite_team''
         else if has ''hobby'' \<or> has ''hobbies'' then Some ''hobbies''
         else if has ''bought'' \<or> has ''buy'' \<or> has ''purchased'' \<or> has ''acquired'' \<or> (has ''got'' \<and> has ''new'')
           then Some ''purchase''
         else if has ''recipe'' then Some ''recipe''
         else if has ''karate'' \<or> has ''judo'' \<or> has ''taekwondo'' \<or> contains normalized ''martial art''
           then Some ''martial_arts''
         else if has ''graduated'' \<and> has ''degree'' then Some ''degree''
         else if tuned \<and> (contains normalized ''last name before'' \<or> contains normalized ''old name'')
           then Some ''previous_last_name''
         else if contains normalized ''previous occupation'' then Some ''previous_occupation''
         else if tuned \<and> has ''commute'' \<and> (has ''take'' \<or> has ''takes'') then Some ''commute_duration''
         else if tuned \<and> contains normalized ''internet plan'' \<and> (has ''mbps'' \<or> has ''speed'' \<or> has ''upgraded'')
           then Some ''internet_plan_speed''
         else if tuned \<and> has ''spotify'' \<and> (has ''playlist'' \<or> has ''playlists'')
             \<and> (has ''created'' \<or> has ''called'' \<or> has ''named'') then Some ''spotify_playlist_name''
         else or_else (extract_spend_price_key tokens) (or_else (extract_i_have_attribute_key tokens)
                (or_else (extract_identity_or_location_key tokens) (extract_my_attribute_key_from_tokens tokens))))"

definition infer_fact_key :: "str \<Rightarrow> str option" where
  "infer_fact_key t = infer_fact_key_with_profile t Generic"

subsection \<open>Claims\<close>

definition split_atomic_claims :: "str \<Rightarrow> str list" where
  "split_atomic_claims t =
     filter (\<lambda>part. 12 \<le> length part)
       (map (\<lambda>part. normalize_fact_text (strip_leading_bracketed_prefixes part))
         (split_if (\<lambda>c. c \<in> set ''.!?;'') t))"

definition relation_words :: "str list" where
  "relation_words = [''volunteer'', ''work'', ''worked'', ''works'', ''study'', ''studied'', ''lives'', ''live'',
     ''likes'', ''loves'', ''prefers'', ''prefer'', ''enjoys'', ''joined'', ''went'', ''visited'', ''watched'',
     ''bought'', ''started'', ''finished'', ''won'', ''plays'', ''played'', ''learned'', ''teaches'', ''taught'',
     ''plans'', ''planned'', ''wants'', ''wanted'', ''has'', ''have'', ''had'', ''is'', ''was'', ''are'', ''were'']"

definition personal_words :: "str list" where
  "personal_words = ['' i '', '' my '', '' me '', '' we '', '' our '', '' he '', '' she '', '' his '', '' her '', '' they '']"

definition is_high_signal_atomic_claim :: "str \<Rightarrow> bool" where
  "is_high_signal_atomic_claim t =
     (let lower = to_ascii_lowercase t;
          temporal = extract_temporal_terms t \<noteq> [];
          named = extract_named_phrases [t] \<noteq> [];
          relation_like = list_ex (contains lower) relation_words;
          personal_signal = list_ex (contains ('' '' @ lower @ '' '')) personal_words
      in (temporal \<or> named \<or> personal_signal) \<and> relation_like)"

subsection \<open>Signals\<close>

definition weighted_phrases :: "(str \<times> u32) list" where
  "weighted_phrases =
     [(''love '', 0x3F800000), (''loves '', 0x3F800000), (''favorite'', 0x3F733333), (''prefer '', 0x3F666666),
      (''prefers '', 0x3F666666), (''enjoy '', 0x3F4CCCCD), (''enjoys '', 0x3F4CCCCD), (''like '', 0x3F333333),
      (''likes '', 0x3F333333), (''hate '', 0x3F59999A), (''hates '', 0x3F59999A), (''avoid '', 0x3F4CCCCD),
      (''avoids '', 0x3F4CCCCD)]"

definition predicate_strength :: "str \<Rightarrow> u32" where
  "predicate_strength pred =
     (if pred \<in> set [''love'', ''loves'', ''favorite''] then 0x3F800000
      else if pred \<in> set [''prefer'', ''prefers''] then 0x3F666666
      else if pred \<in> set [''enjoy'', ''enjoys'', ''likes'', ''like''] then 0x3F4CCCCD
      else if pred \<in> set [''hate'', ''hates'', ''avoid'', ''avoids'', ''dislikes''] then 0x3F59999A
      else 0)"

definition preference_signal_strength :: "str \<Rightarrow> (str \<times> str \<times> str) list \<Rightarrow> u32 option" where
  "preference_signal_strength t relations =
     (let lower = to_ascii_lowercase t;
          by_phrase = foldl (\<lambda>s (phrase, weight). if contains lower phrase then max s weight else s) 0 weighted_phrases;
          strength = foldl (\<lambda>s (_, predicate, _). max s (predicate_strength (to_ascii_lowercase (trim predicate))))
                       by_phrase relations
      in if 0 < strength then Some strength else None)"

definition reference_patterns :: "str list" where
  "reference_patterns = [''remember when '', ''remember that time '', ''last time we '', ''back in '',
     ''that time at '', ''that trip when '']"

text \<open>The lower-case copy has the same length, so its positions are positions of the text.\<close>

definition extract_retrospective_reference_query :: "str \<Rightarrow> str option" where
  "extract_retrospective_reference_query t =
     find_map (\<lambda>pattern.
       case split_once pattern (to_ascii_lowercase t) of
         None \<Rightarrow> None
       | Some (before, _) \<Rightarrow>
           (let rest = trim (drop (length before + length pattern) t);
                candidate = trim (hd (split_if (\<lambda>c. c \<in> set ''.!?'') rest))
            in if 12 \<le> length candidate then Some candidate else None))
       reference_patterns"

subsection \<open>The rule extractor\<close>

record ExtractedFact =
  x_subject :: str
  x_speaker :: str
  x_predicate :: "str option"
  x_object :: str
  x_fact_key :: "str option"
  x_confidence :: u32
  x_is_preference :: bool

record ExtractCtx =
  xc_entity_id :: str
  xc_timestamp_ms :: u64
  xc_relations :: "(str \<times> str \<times> str) list"

record RuleExtractor =
  re_max_facts :: nat
  re_heuristics :: Profile

definition rule_extractor_default :: RuleExtractor where
  "rule_extractor_default = \<lparr>re_max_facts = 4, re_heuristics = Generic\<rparr>"

definition claim_lines :: "(str \<Rightarrow> json option) \<Rightarrow> str \<Rightarrow> (str \<times> str) list" where
  "claim_lines from_str t =
     (let dialogue = extract_dialogue_messages from_str t
      in if dialogue = []
         then map (\<lambda>line. (''memory'', line)) (filter (\<lambda>line. \<not> starts_with (trim_start line) ''['') (lines t))
         else dialogue)"

definition extracted_fact :: "Profile \<Rightarrow> ExtractCtx \<Rightarrow> str \<Rightarrow> str \<Rightarrow> ExtractedFact" where
  "extracted_fact heuristics ctx speaker claim =
     \<lparr>x_subject = (if eq_ignore_ascii_case speaker ''memory'' then xc_entity_id ctx else speaker),
      x_speaker = speaker, x_predicate = None, x_object = claim,
      x_fact_key = infer_fact_key_with_profile claim heuristics, x_confidence = 0x3F666666,
      x_is_preference = preference_signal_strength claim (xc_relations ctx) \<noteq> None\<rparr>"

text \<open>The two loops over lines and claims, with the facts that may still be added.\<close>

fun extract_loop :: "(str \<Rightarrow> str \<Rightarrow> 'a) \<Rightarrow> nat \<Rightarrow> str set \<Rightarrow> (str \<times> str) list \<Rightarrow> 'a list" where
  "extract_loop mk left seen [] = []"
| "extract_loop mk left seen ((speaker, claim) # cs) =
     (let key = to_ascii_lowercase speaker @ ''|'' @ to_ascii_lowercase claim
      in if \<not> is_high_signal_atomic_claim claim \<or> key \<in> seen then extract_loop mk left seen cs
         else if left = 0 then []
         else mk speaker claim # extract_loop mk (left - 1) (insert key seen) cs)"

definition rule_extract :: "(str \<Rightarrow> json option) \<Rightarrow> RuleExtractor \<Rightarrow> str \<Rightarrow> ExtractCtx \<Rightarrow> ExtractedFact list" where
  "rule_extract from_str r t ctx =
     extract_loop (extracted_fact (re_heuristics r) ctx) (re_max_facts r) {}
       (concat (map (\<lambda>(speaker, line). map (\<lambda>claim. (speaker, claim)) (split_atomic_claims line))
         (claim_lines from_str t)))"

definition card_payload :: "IngestPayload \<Rightarrow> nat \<Rightarrow> ExtractedFact \<Rightarrow> IngestPayload" where
  "card_payload p card_idx f =
     empty_payload\<lparr>p_entity_id := p_entity_id p,
       p_memory_id := derived_from (p_memory_id p) (''card'' @ show_nat card_idx),
       p_timestamp := p_timestamp p,
       p_textual_content :=
         (if eq_ignore_ascii_case (x_speaker f) ''memory'' then ''Atomic memory card: '' @ x_object f
          else ''Atomic memory card: '' @ x_speaker f @ '' said '' @ x_object f),
       p_relations := p_relations p,
       p_kind := Some (if x_is_preference f then ''preference'' else ''fact''),
       p_fact_key := x_fact_key f, p_source_memory_id := Some (p_memory_id p),
       p_index_semantic := Some True, p_enable_semantic_dedup := Some True,
       p_enable_consolidation := Some False, p_content_type := p_content_type p,
       p_fact_operation := Some ''derive'', p_fact_confidence := Some (x_confidence f),
       p_fact_subject := Some (x_subject f), p_fact_predicate := x_predicate f,
       p_fact_object := Some (x_object f)\<rparr>"

definition build_cards_from_facts :: "IngestPayload \<Rightarrow> ExtractedFact list \<Rightarrow> IngestPayload list" where
  "build_cards_from_facts p facts = map (\<lambda>(card_idx, f). card_payload p card_idx f) (enumerate 0 facts)"

definition build_atomic_memory_card_payloads ::
  "(str \<Rightarrow> ExtractCtx \<Rightarrow> ExtractedFact list) \<Rightarrow> IngestPayload \<Rightarrow> IngestPayload list" where
  "build_atomic_memory_card_payloads extractor p =
     build_cards_from_facts p (extractor (p_textual_content p)
       \<lparr>xc_entity_id = p_entity_id p, xc_timestamp_ms = p_timestamp p, xc_relations = p_relations p\<rparr>)"

subsection \<open>Keys are slugs\<close>

definition slug_char :: "char \<Rightarrow> bool" where
  "slug_char c \<longleftrightarrow> is_alnum c \<and> \<not> is_upper c"

abbreviation slug :: "str \<Rightarrow> bool" where
  "slug t \<equiv> \<forall>c \<in> set t. slug_char c"

definition key_shaped :: "str \<Rightarrow> bool" where
  "key_shaped k \<longleftrightarrow> k \<noteq> [] \<and> list_all (\<lambda>c. slug_char c \<or> c = CHR ''_'') k"

lemma not_upper_lower_char: "\<not> is_upper (lower_char c)"
  using code_lower_char [of c] by (auto simp: is_upper_def)

lemma split_if_go_chars:
  "t \<in> set (split_if_go p cur s) \<Longrightarrow> c \<in> set t \<Longrightarrow> c \<in> set cur \<or> (c \<in> set s \<and> \<not> p c)"
proof (induction p cur s arbitrary: t rule: split_if_go.induct)
  case (2 p cur x s)
  show ?case
  proof (cases "p x")
    case True
    then show ?thesis using 2(1) [OF True, of t] 2(3,4) by auto
  next
    case False
    then show ?thesis using 2(2) [OF False, of t] 2(3,4) by auto
  qed
qed simp

lemma slug_tokens:
  assumes "t \<in> set (normalize_alpha_tokens s)" shows "slug t"
proof
  fix c assume "c \<in> set t"
  with assms have "c \<in> set (to_ascii_lowercase s)" "is_alnum c"
    using split_if_go_chars [of t "\<lambda>c. \<not> is_alnum c" "[]" "to_ascii_lowercase s" c]
    by (auto simp: normalize_alpha_tokens_def split_if_def)
  then show "slug_char c" by (auto simp: slug_char_def to_ascii_lowercase_def not_upper_lower_char)
qed

lemma slug_lowercase: "slug t \<Longrightarrow> to_ascii_lowercase t = t"
  unfolding to_ascii_lowercase_def by (rule map_idI) (simp add: slug_char_def lower_char_def)

lemma slug_singularize: "slug t \<Longrightarrow> slug (singularize_token t)"
  by (auto simp: singularize_token_def Let_def slug_lowercase slug_char_def is_alnum_def is_alpha_def is_lower_def is_upper_def
      dest: in_set_takeD)

lemma slug_trim_matches: "slug t \<Longrightarrow> slug (trim_matches p t)"
  unfolding trim_matches_def by (metis set_dropWhileD set_rev)

lemma join_chars: "c \<in> set (join sep ps) \<Longrightarrow> c \<in> set sep \<or> (\<exists>p \<in> set ps. c \<in> set p)"
  by (cases ps) (auto simp: join_def split: if_splits)

lemma sanitize_key_shaped:
  assumes "sanitize_key_parts_owned parts = Some k" "\<forall>p \<in> set parts. slug p"
  shows "key_shaped k"
proof -
  let ?parts = "filter (\<lambda>part. part \<noteq> []) (map (trim_matches (\<lambda>c. \<not> is_alnum c)) (filter (\<lambda>part. part \<noteq> []) parts))"
  define ps where "ps = filter (\<lambda>part. part \<notin> set DROP) (filter (\<lambda>part. \<not> list_all is_digit part) ?parts)"
  have ps: "k = join ''_'' ps" "ps \<noteq> []"
    using assms(1) unfolding sanitize_key_parts_owned_def sanitize_key_parts_def Let_def ps_def [symmetric]
    by (simp_all split: if_splits)
  have sub: "set ps \<subseteq> set ?parts" by (auto simp: ps_def)
  have nonempty: "\<forall>p \<in> set ps. p \<noteq> []" using sub by auto
  have chars: "\<forall>p \<in> set ps. slug p"
  proof
    fix p assume "p \<in> set ps"
    then obtain q where q: "q \<in> set parts" "p = trim_matches (\<lambda>c. \<not> is_alnum c) q" using sub by auto
    have "slug (trim_matches (\<lambda>c. \<not> is_alnum c) q)" by (rule slug_trim_matches) (use q assms(2) in blast)
    then show "slug p" by (simp only: q)
  qed
  have "k \<noteq> []" using ps(1,2) nonempty by (cases ps) (auto simp: join_def)
  then show ?thesis using ps(1) chars join_chars [of _ "''_''" ps] by (auto simp: key_shaped_def list_all_iff)
qed

lemma slug_words: "slug ''name''" "slug ''count''" "slug ''price''"
  by (simp_all add: slug_char_def is_alnum_def is_alpha_def is_lower_def is_upper_def)

lemma contextual_key_shaped:
  assumes "build_contextual_key ctx base suffix = Some k"
    and "\<forall>t \<in> set ctx. slug t" "\<forall>t \<in> set base. slug t" "\<forall>s. suffix = Some s \<longrightarrow> slug s"
  shows "key_shaped k"
proof (rule sanitize_key_shaped)
  show "sanitize_key_parts_owned (ctx @ map (\<lambda>(idx, token). if idx + 1 = length base then singularize_token token else token)
      (enumerate 0 base) @ (case suffix of None \<Rightarrow> [] | Some s \<Rightarrow> [s])) = Some k"
    using assms(1) by (simp add: build_contextual_key_def)
  have "\<forall>t \<in> set (map (\<lambda>(idx, token). if idx + 1 = length base then singularize_token token else token)
      (enumerate 0 base)). slug t"
  proof
    fix t assume "t \<in> set (map (\<lambda>(idx, token). if idx + 1 = length base then singularize_token token else token)
      (enumerate 0 base))"
    then obtain idx token where it: "(idx, token) \<in> set (enumerate 0 base)"
        "t = (if idx + 1 = length base then singularize_token token else token)" by auto
    have "token \<in> set base" using it(1) by (auto simp: in_set_enumerate_eq)
    then have "slug token" using assms(3) by blast
    then have "slug (singularize_token token)" by (rule slug_singularize)
    moreover have "t = singularize_token token \<or> t = token" using it(2) by (simp split: if_splits)
    ultimately show "slug t" using \<open>slug token\<close> by (elim disjE) (simp_all only:)
  qed
  moreover have "\<forall>t \<in> set (case suffix of None \<Rightarrow> [] | Some s \<Rightarrow> [s]). slug t"
    using assms(4) by (cases suffix) simp_all
  ultimately show "\<forall>t \<in> set (ctx @ map (\<lambda>(idx, token). if idx + 1 = length base then singularize_token token else token)
      (enumerate 0 base) @ (case suffix of None \<Rightarrow> [] | Some s \<Rightarrow> [s])). slug t"
    using assms(2) by (simp only: set_append ball_Un simp_thms)
qed

lemma have_loop_key:
  assumes "have_loop suffix base ctx r tokens = Some k"
    and "\<forall>t \<in> set base \<union> set ctx \<union> set tokens. slug t" "\<forall>s. suffix = Some s \<longrightarrow> slug s"
  shows "key_shaped k"
  using assms
proof (induction suffix base ctx r tokens rule: have_loop.induct)
  case (1 suffix base ctx r)
  then show ?case by (auto split: if_splits intro: contextual_key_shaped)
next
  case (2 suffix base ctx r token tokens)
  have name: "build_contextual_key ctx base (Some ''name'') = Some k \<Longrightarrow> key_shaped k"
    by (rule contextual_key_shaped) (use 2(6) slug_words in auto)
  have stop: "build_contextual_key ctx base suffix = Some k \<Longrightarrow> key_shaped k"
    by (rule contextual_key_shaped) (use 2(6,7) in auto)
  have "\<forall>t \<in> set base \<union> set ctx \<union> set tokens. slug t"
    "\<forall>t \<in> set base \<union> set (ctx @ [token]) \<union> set tokens. slug t"
    "\<forall>t \<in> set (base @ [token]) \<union> set ctx \<union> set tokens. slug t"
    using 2(6) by auto
  with 2 name stop show ?case by (auto split: if_splits)
qed

lemma slug_drop: "\<forall>t \<in> set ts. slug t \<Longrightarrow> \<forall>t \<in> set (drop n ts). slug t"
  by (auto dest: in_set_dropD)

lemma my_attribute_key:
  assumes "extract_my_attribute_key_from_tokens ts = Some k" "\<forall>t \<in> set ts. slug t"
  shows "key_shaped k"
proof -
  obtain i v where "build_contextual_key [] (take v (drop (i + 1) ts)) None = Some k"
    using assms(1) by (auto simp: extract_my_attribute_key_from_tokens_def split: option.splits if_splits)
  then show ?thesis
    by (rule contextual_key_shaped) (use slug_drop [OF assms(2), of "i + 1"] in \<open>auto dest: in_set_takeD\<close>)
qed

lemma spend_key:
  assumes "extract_spend_price_key ts = Some k" "\<forall>t \<in> set ts. slug t"
  shows "key_shaped k"
proof -
  obtain i j where "build_contextual_key [] (filter (\<lambda>t. \<not> is_numericish t) (drop (j + 1) (drop (i + 1) ts))) (Some ''price'') = Some k"
    using assms(1) by (auto simp: extract_spend_price_key_def Let_def split: option.splits if_splits)
  then show ?thesis
    by (rule contextual_key_shaped) (use slug_drop [OF slug_drop [OF assms(2)], of "j + 1" "i + 1"] slug_words in auto)
qed

lemma have_key:
  assumes "extract_i_have_attribute_key ts = Some k" "\<forall>t \<in> set ts. slug t"
  shows "key_shaped k"
proof -
  obtain i where i: "position (\<lambda>t. t = ''i'') ts = Some i"
    using assms(1) by (simp add: extract_i_have_attribute_key_def split: option.splits)
  obtain j where j: "position (\<lambda>t. t \<in> set [''have'', ''has'', ''had'', ''own'', ''owned'', ''keep'', ''kept''])
      (drop (i + 1) ts) = Some j"
    using assms(1) by (simp add: extract_i_have_attribute_key_def i split: option.splits)
  let ?after = "drop (j + 1) (drop (i + 1) ts)"
  let ?rest = "dropWhile (\<lambda>t. is_numericish t \<or> t \<in> set [''a'', ''an'', ''the'', ''my'', ''now'', ''currently'']) ?after"
  let ?suffix = "if list_ex is_numericish ?after then Some ''count'' else None"
  have h: "have_loop ?suffix [] [] False ?rest = Some k"
    using assms(1) unfolding extract_i_have_attribute_key_def i j Let_def option.case by (metis option.distinct(1))
  have "\<forall>t \<in> set ?rest. slug t"
    using slug_drop [OF slug_drop [OF assms(2)], of "j + 1" "i + 1"] set_dropWhileD [of _ _ ?after] by blast
  then show ?thesis
    by (intro have_loop_key [OF h]) (use slug_words in \<open>auto split: if_splits\<close>)
qed

lemma identity_key: "extract_identity_or_location_key ts = Some k \<Longrightarrow> key_shaped k"
  by (auto simp: extract_identity_or_location_key_def key_shaped_def slug_char_def is_alnum_def is_alpha_def
      is_lower_def is_upper_def Let_def split: option.splits if_splits)

lemma fixed_keys:
  "list_all key_shaped [''relationship_status'', ''children_count'', ''nickname'', ''research_topic'', ''certificate'',
     ''favorite_team'', ''hobbies'', ''purchase'', ''recipe'', ''martial_arts'', ''degree'', ''previous_last_name'',
     ''previous_occupation'', ''commute_duration'', ''internet_plan_speed'', ''spotify_playlist_name'']"
  by (simp add: key_shaped_def slug_char_def is_alnum_def is_alpha_def is_lower_def is_upper_def)

subsection \<open>Properties\<close>

text \<open>
  C39. A key inferred for a fact is a slug: not empty, and only lower-case letters, digits and
  underscores, whatever the text and the profile.
\<close>

theorem inferred_key_is_slug:
  assumes "infer_fact_key_with_profile t profile = Some k"
  shows "key_shaped k"
proof -
  let ?n = "to_ascii_lowercase (trim (case strip_prefix (trim t) ''User fact:'' of Some r \<Rightarrow> r | None \<Rightarrow> t))"
  let ?ts = "normalize_alpha_tokens ?n"
  have ts: "\<forall>x \<in> set ?ts. slug x" using slug_tokens by blast
  have dynamic: "or_else (extract_spend_price_key ?ts) (or_else (extract_i_have_attribute_key ?ts)
      (or_else (extract_identity_or_location_key ?ts) (extract_my_attribute_key_from_tokens ?ts))) = Some k
      \<Longrightarrow> key_shaped k"
    using spend_key [OF _ ts] have_key [OF _ ts] identity_key my_attribute_key [OF _ ts]
    by (auto simp: or_else_def split: option.splits)
  show ?thesis
    using assms fixed_keys dynamic unfolding infer_fact_key_with_profile_def Let_def
    by (simp only: list.pred_inject split: if_splits) (simp_all only: option.inject option.distinct)
qed

theorem inferred_key_is_slug_witness:
  "infer_fact_key_with_profile ''my cat is Tom'' Generic = Some ''cat'' \<and> key_shaped ''cat''"
proof -
  have "infer_fact_key_with_profile ''my cat is Tom'' Generic = Some ''cat''" by code_simp
  with inferred_key_is_slug [OF this] show ?thesis by blast
qed

lemma extract_loop_facts:
  "let out = extract_loop Pair left seen cs
   in length out \<le> left \<and> set out \<subseteq> set cs \<and> list_all (\<lambda>(speaker, claim). is_high_signal_atomic_claim claim) out
      \<and> (let keys = map (\<lambda>(speaker, claim). to_ascii_lowercase speaker @ ''|'' @ to_ascii_lowercase claim) out
         in distinct keys \<and> set keys \<inter> seen = {})"
proof (induction "Pair :: str \<Rightarrow> str \<Rightarrow> str \<times> str" left seen cs rule: extract_loop.induct)
  case (2 left seen speaker claim cs)
  let ?key = "to_ascii_lowercase speaker @ ''|'' @ to_ascii_lowercase claim"
  show ?case
  proof (cases "\<not> is_high_signal_atomic_claim claim \<or> ?key \<in> seen")
    case True
    then show ?thesis using 2(1) by (auto simp: Let_def)
  next
    case False
    then show ?thesis using 2(2) by (cases left) (auto simp: Let_def)
  qed
qed simp

lemma extract_loop_map: "extract_loop mk left seen cs = map (\<lambda>(s, c). mk s c) (extract_loop Pair left seen cs)"
  by (induction mk left seen cs rule: extract_loop.induct) (simp_all add: Let_def)

lemma claims_long: "c \<in> set (split_atomic_claims line) \<Longrightarrow> 12 \<le> length c"
  by (simp add: split_atomic_claims_def)

text \<open>
  The rule extractor finds at most the configured number of facts, each from a claim of at least
  twelve bytes with a signal word, and no claim twice for one speaker up to case.
\<close>

theorem rule_facts_bounded:
  "let facts = rule_extract from_str r t ctx
   in length facts \<le> re_max_facts r
      \<and> list_all (\<lambda>f. 12 \<le> length (x_object f) \<and> is_high_signal_atomic_claim (x_object f)
           \<and> x_fact_key f = infer_fact_key_with_profile (x_object f) (re_heuristics r)) facts
      \<and> distinct (map (\<lambda>f. to_ascii_lowercase (x_speaker f) @ ''|'' @ to_ascii_lowercase (x_object f)) facts)
      \<and> set (map (\<lambda>f. (x_speaker f, x_object f)) facts)
           \<subseteq> set (concat (map (\<lambda>(speaker, line). map (\<lambda>claim. (speaker, claim)) (split_atomic_claims line))
              (claim_lines from_str t)))"
proof -
  let ?cs = "concat (map (\<lambda>(speaker, line). map (\<lambda>claim. (speaker, claim)) (split_atomic_claims line)) (claim_lines from_str t))"
  let ?out = "extract_loop Pair (re_max_facts r) {} ?cs"
  let ?mk = "\<lambda>(s, c). extracted_fact (re_heuristics r) ctx s c"
  have facts: "rule_extract from_str r t ctx = map ?mk ?out"
    unfolding rule_extract_def by (rule extract_loop_map)
  from extract_loop_facts [of "re_max_facts r" "{}" ?cs]
  have out: "length ?out \<le> re_max_facts r" "set ?out \<subseteq> set ?cs"
      "list_all (\<lambda>(speaker, claim). is_high_signal_atomic_claim claim) ?out"
      "distinct (map (\<lambda>(speaker, claim). to_ascii_lowercase speaker @ ''|'' @ to_ascii_lowercase claim) ?out)"
    by (simp_all add: Let_def)
  then have long: "\<forall>(s, c) \<in> set ?out. 12 \<le> length c" using claims_long by fastforce
  have pairs: "map (\<lambda>f. (x_speaker f, x_object f)) (map ?mk ?out) = ?out"
    by (simp add: comp_def case_prod_unfold extracted_fact_def)
  have keys: "map (\<lambda>f. to_ascii_lowercase (x_speaker f) @ ''|'' @ to_ascii_lowercase (x_object f)) (map ?mk ?out)
      = map (\<lambda>(speaker, claim). to_ascii_lowercase speaker @ ''|'' @ to_ascii_lowercase claim) ?out"
    by (simp add: comp_def case_prod_unfold extracted_fact_def)
  have each: "list_all (\<lambda>f. 12 \<le> length (x_object f) \<and> is_high_signal_atomic_claim (x_object f)
      \<and> x_fact_key f = infer_fact_key_with_profile (x_object f) (re_heuristics r)) (map ?mk ?out)"
    using out(3) long by (auto simp: list_all_iff extracted_fact_def)
  show ?thesis unfolding Let_def facts using out(1,2,4) each by (simp only: pairs keys length_map simp_thms)
qed

end
