(* ===== verification/Companions.thy ===== *)
theory Companions
  imports Claims Features
begin

section \<open>Companion records of a turn\<close>

text \<open>
  Models \<open>src/api/ingest/salient.rs\<close> and \<open>src/api/ingest/companion.rs\<close>: the summaries, keyword
  indexes, facts, cards, events and relations stored beside a turn.  The JSON parser, the table of
  alphanumeric characters and the fact extractor are parameters.
\<close>

subsection \<open>Salient terms\<close>

text \<open>\<open>salient.rs\<close> has variants of its own of the functions of \<open>core/text.rs\<close>.\<close>

definition ingest_named_phrases :: "str list \<Rightarrow> str list" where
  "ingest_named_phrases ls =
     dedupe_values {} (filter (\<lambda>phrase. 2 < length phrase)
       (filter (\<lambda>phrase. phrase \<noteq> []) (map trim (concat (map line_phrases ls)))))"

definition ingest_salient_terms :: "(str \<Rightarrow> bool) \<Rightarrow> str \<Rightarrow> nat \<Rightarrow> str list" where
  "ingest_salient_terms alnum t limit =
     take limit (rank_tokens
       (filter (\<lambda>token. \<not> is_low_signal_keyword token \<and> 4 \<le> length token)
         (map singularize_token (tokenize_for_similarity alnum t))))"

definition take_chars :: "nat \<Rightarrow> str \<Rightarrow> str" where
  "take_chars n s = concat (take n (utf8_chars s))"

definition truncate_for_companion :: "str \<Rightarrow> nat \<Rightarrow> str" where
  "truncate_for_companion t max_chars =
     (let normalized = normalize_fact_text t
      in if length normalized \<le> max_chars then normalized else trim (take_chars max_chars normalized))"

text \<open>The entries of a count map by count, then length, then the text itself.\<close>

definition rank_phrases :: "str list \<Rightarrow> str list" where
  "rank_phrases ps = sort_key (\<lambda>p. (- int (count_list ps p), - int (length p), p)) (remdups ps)"

definition bigrams :: "str list \<Rightarrow> str list" where
  "bigrams tokens =
     map (\<lambda>(l, r). l @ '' '' @ r)
       (filter (\<lambda>(l, r). l \<noteq> r \<and> \<not> is_numericish l \<and> \<not> is_numericish r) (zip tokens (drop 1 tokens)))"

fun add_bigrams :: "str list \<Rightarrow> str set \<Rightarrow> str list \<Rightarrow> str list" where
  "add_bigrams phrases seen [] = phrases"
| "add_bigrams phrases seen (p # ps) =
     (if 10 \<le> length phrases then phrases
      else let lower = to_ascii_lowercase p
           in if lower \<in> seen then add_bigrams phrases seen ps
              else add_bigrams (phrases @ [p]) (insert lower seen) ps)"

fun add_unigrams :: "str list \<Rightarrow> str list \<Rightarrow> str list" where
  "add_unigrams phrases [] = phrases"
| "add_unigrams phrases (token # ts) =
     (if 12 \<le> length phrases then phrases
      else if list_ex (\<lambda>phrase. token \<in> set (split_whitespace (to_ascii_lowercase phrase))) phrases
        then add_unigrams phrases ts
      else add_unigrams (phrases @ [token]) ts)"

definition plain_lines :: "str \<Rightarrow> str list" where
  "plain_lines t =
     filter (\<lambda>line. line \<noteq> []) (map (\<lambda>line. normalize_fact_text (strip_leading_bracketed_prefixes line)) (lines t))"

definition build_keyword_companion_text :: "(str \<Rightarrow> json option) \<Rightarrow> (str \<Rightarrow> bool) \<Rightarrow> str \<Rightarrow> str option" where
  "build_keyword_companion_text from_str alnum t =
     (let dialogue_lines = extract_dialogue_messages from_str t;
          content_lines = (if dialogue_lines = [] then plain_lines t else map snd dialogue_lines)
      in if content_lines = [] then None
         else (let named_phrases = ingest_named_phrases content_lines;
                   tokens = filter (\<lambda>token. \<not> is_low_signal_keyword token)
                     (map singularize_token (tokenize_for_similarity alnum (join '' '' content_lines)));
                   phrases = add_unigrams
                     (add_bigrams named_phrases (set (map to_ascii_lowercase named_phrases)) (rank_phrases (bigrams tokens)))
                     (rank_phrases tokens)
               in if phrases = [] then None else Some (''Session index: '' @ join '' | '' phrases)))"

subsection \<open>Texts of companions\<close>

definition replace_chr :: "char \<Rightarrow> char \<Rightarrow> str \<Rightarrow> str" where
  "replace_chr a b s = map (\<lambda>c. if c = a then b else c) s"

definition build_event_companion_text :: "(str \<Rightarrow> json option) \<Rightarrow> (str \<Rightarrow> bool) \<Rightarrow> IngestPayload \<Rightarrow> str option" where
  "build_event_companion_text from_str alnum p =
     (let t = p_textual_content p;
          dialogue_lines = extract_dialogue_messages from_str t;
          source_lines = (if dialogue_lines = [] then plain_lines t else map said dialogue_lines)
      in if source_lines = [] then None
         else (let time_terms = extract_temporal_terms t;
                   entities = ingest_named_phrases source_lines;
                   salient_terms = ingest_salient_terms alnum t 5;
                   anchor = truncate_for_companion (join '' | '' source_lines) 220
               in if time_terms = [] \<and> entities = [] \<and> salient_terms = [] then None
                  else Some (join '': '' ([''Canonical event memory'']
                    @ (if time_terms \<noteq> [] then [''time '' @ join '', '' time_terms] else [])
                    @ (if entities \<noteq> [] then [''participants '' @ join '', '' (take 4 entities)] else [])
                    @ (if salient_terms \<noteq> [] then [''topics '' @ join '', '' salient_terms] else [])
                    @ [anchor]))))"

definition context_of :: "(str \<Rightarrow> bool) \<Rightarrow> str \<Rightarrow> str \<Rightarrow> str list" where
  "context_of alnum label t =
     (let entities = ingest_named_phrases [t];
          salient = ingest_salient_terms alnum t 3;
          ctx = (if entities \<noteq> [] then [join '', '' (take 2 entities)] else [])
            @ (if salient \<noteq> [] then [join '' '' salient] else [])
      in if ctx \<noteq> [] then [label @ join '' '' ctx] else [])"

definition build_context_header :: "(str \<Rightarrow> bool) \<Rightarrow> str option \<Rightarrow> str option \<Rightarrow> str" where
  "build_context_header alnum prev_text next_text =
     (let parts = (case prev_text of None \<Rightarrow> [] | Some t \<Rightarrow> context_of alnum ''Prior: '' t)
            @ (case next_text of None \<Rightarrow> [] | Some t \<Rightarrow> context_of alnum ''Next: '' t)
      in if parts = [] then [] else ''['' @ join '' | '' parts @ ''] '')"

subsection \<open>The companions\<close>

text \<open>What every companion takes from its source.\<close>

definition companion :: "IngestPayload \<Rightarrow> str \<Rightarrow> str \<Rightarrow> str \<Rightarrow> IngestPayload" where
  "companion p tag kind content =
     empty_payload\<lparr>p_entity_id := p_entity_id p, p_memory_id := derived_from (p_memory_id p) tag,
       p_timestamp := p_timestamp p, p_textual_content := content, p_relations := p_relations p,
       p_kind := Some kind, p_source_memory_id := Some (p_memory_id p),
       p_enable_consolidation := Some False, p_content_type := p_content_type p\<rparr>"

definition relation_companion :: "IngestPayload \<Rightarrow> nat \<times> str \<times> str \<times> str \<Rightarrow> IngestPayload" where
  "relation_companion p = (\<lambda>(idx, subject, predicate, obj).
     (let human_predicate = replace_chr CHR ''_'' CHR '' '' predicate
      in (companion p (''rel'' @ show_nat idx) ''fact''
            (''Canonical relation: '' @ subject @ '' '' @ human_predicate @ '' '' @ obj))
         \<lparr>p_fact_key := Some (''relation_'' @ replace_chr CHR '' '' CHR ''_'' predicate),
          p_index_semantic := Some False, p_enable_semantic_dedup := Some False,
          p_fact_operation := Some ''derive'', p_fact_confidence := Some 0x3F666666,
          p_fact_subject := Some subject, p_fact_predicate := Some human_predicate,
          p_fact_object := Some obj\<rparr>))"

definition build_relation_companion_payloads :: "IngestPayload \<Rightarrow> IngestPayload list" where
  "build_relation_companion_payloads p = map (relation_companion p) (enumerate 0 (p_relations p))"

definition gist_companion :: "IngestPayload \<Rightarrow> str \<Rightarrow> IngestPayload" where
  "gist_companion p gist_text =
     (companion p ''gist'' ''session_summary'' gist_text)
       \<lparr>p_index_semantic := Some True, p_enable_semantic_dedup := Some False\<rparr>"

definition keyword_companion :: "IngestPayload \<Rightarrow> str \<Rightarrow> IngestPayload" where
  "keyword_companion p keyword_text =
     (companion p ''kw'' ''session_summary'' keyword_text)
       \<lparr>p_index_semantic := Some False, p_enable_semantic_dedup := Some False\<rparr>"

definition fact_companion :: "Profile \<Rightarrow> IngestPayload \<Rightarrow> nat \<times> str \<Rightarrow> IngestPayload" where
  "fact_companion profile p = (\<lambda>(idx, fact_text).
     (let fact_key = infer_fact_key_with_profile fact_text profile;
          content = (case fact_key of
              Some slot_key \<Rightarrow> ''Canonical fact about '' @ replace_chr CHR ''_'' CHR '' '' slot_key @ '': '' @ fact_text
            | None \<Rightarrow> ''Canonical fact: '' @ fact_text)
      in (companion p (''fact'' @ show_nat idx) ''fact'' content)
           \<lparr>p_fact_key := fact_key, p_index_semantic := Some True, p_enable_semantic_dedup := Some True,
            p_enable_mining := Some False, p_fact_operation := Some ''derive'',
            p_fact_confidence := Some 0x3F6B851F, p_fact_subject := Some (p_entity_id p),
            p_session_id := p_session_id p, p_turn_index := p_turn_index p, p_role := p_role p\<rparr>))"

definition event_companion :: "IngestPayload \<Rightarrow> str \<Rightarrow> IngestPayload" where
  "event_companion p event_text =
     (companion p ''event'' ''session_summary'' event_text)
       \<lparr>p_index_semantic := Some True, p_enable_semantic_dedup := Some False, p_enable_mining := Some False,
        p_session_id := p_session_id p, p_turn_index := p_turn_index p, p_role := p_role p\<rparr>"

definition in_session :: "IngestPayload \<Rightarrow> bool" where
  "in_session p \<longleftrightarrow> p_session_id p \<noteq> None \<and> p_session_id p \<noteq> Some []"

record mining =
  mn_from_str :: "str \<Rightarrow> json option"
  mn_alnum :: "str \<Rightarrow> bool"
  mn_extractor :: "str \<Rightarrow> ExtractCtx \<Rightarrow> ExtractedFact list"

definition session_companions :: "mining \<Rightarrow> IngestPayload \<Rightarrow> IngestPayload list" where
  "session_companions mn p =
     (let t = p_textual_content p;
          session_focus = extract_bracketed_header_value t ''Session Focus'';
          fallback_gist = fst (extract_companion_texts (mn_from_str mn) t);
          source = (case session_focus of None \<Rightarrow> t | Some focus \<Rightarrow> focus @ nl @ t);
          gist = or_else (map_option (\<lambda>focus. ''Session gist: '' @ focus) session_focus) fallback_gist
      in (case gist of None \<Rightarrow> [] | Some g \<Rightarrow> [gist_companion p g])
         @ (case build_keyword_companion_text (mn_from_str mn) (mn_alnum mn) source of
              None \<Rightarrow> [] | Some k \<Rightarrow> [keyword_companion p k]))"

definition build_companion_payloads_with_profile :: "mining \<Rightarrow> Profile \<Rightarrow> IngestPayload \<Rightarrow> IngestPayload list" where
  "build_companion_payloads_with_profile mn profile p =
     (if \<not> in_session p then []
      else (if (case p_turn_index p of None \<Rightarrow> 0 | Some i \<Rightarrow> i) = 0 then session_companions mn p else [])
        @ map (fact_companion profile p)
            (enumerate 0 (snd (extract_companion_texts (mn_from_str mn) (p_textual_content p))))
        @ build_atomic_memory_card_payloads (mn_extractor mn) p
        @ (case build_event_companion_text (mn_from_str mn) (mn_alnum mn) p of
             None \<Rightarrow> [] | Some e \<Rightarrow> [event_companion p e])
        @ build_relation_companion_payloads p)"

definition build_companion_payloads :: "mining \<Rightarrow> IngestPayload \<Rightarrow> IngestPayload list" where
  "build_companion_payloads mn p = build_companion_payloads_with_profile mn Generic p"

subsection \<open>Identifiers of companions\<close>

definition stems :: "str list" where
  "stems = [''gist'', ''kw'', ''fact'', ''card'', ''event'', ''rel'']"

lemma stem_digits:
  assumes "stem \<in> set stems"
  shows "trim_end_matches is_digit (stem @ show_nat i) = stem" "trim_end_matches is_digit stem = stem"
proof -
  have "dropWhile is_digit (rev (show_nat i) @ rev stem) = dropWhile is_digit (rev stem)"
    by (rule dropWhile_append2) (simp add: show_nat_digits)
  moreover have "dropWhile is_digit (rev stem) = rev stem"
    using assms by (auto simp: stems_def is_digit_def)
  ultimately show "trim_end_matches is_digit (stem @ show_nat i) = stem" "trim_end_matches is_digit stem = stem"
    by (simp_all add: trim_end_matches_def)
qed

lemma escape_plain: "\<forall>c \<in> set s. c \<noteq> CHR ''%'' \<and> c \<noteq> CHR '':'' \<Longrightarrow> escape_component s = s"
  by (induction s) auto

lemma show_nat_plain: "\<forall>c \<in> set (show_nat i). c \<noteq> CHR ''%'' \<and> c \<noteq> CHR '':''"
  using show_nat_digits [of "CHR ''%''" i] show_nat_digits [of "CHR '':''" i] by (auto simp: is_digit_def)

lemma other_tag_spelling:
  assumes "Option.bind (strip_prefix tag ''c'') (parse_unsigned 32) = None" "\<forall>c \<in> set tag. c \<noteq> CHR ''%'' \<and> c \<noteq> CHR '':''"
  shows "derived_from m tag = m @ ''::'' @ tag"
proof -
  have "component (from_component tag) = tag" using assms(1) by (simp add: from_component_def)
  then show ?thesis using escape_plain [OF assms(2)] by (simp add: derived_from_eq SEPARATOR_def)
qed

lemma tag_spelling:
  "derived_from m ''gist'' = m @ ''::gist''" "derived_from m ''kw'' = m @ ''::kw''" "derived_from m ''event'' = m @ ''::event''"
  "derived_from m (''fact'' @ show_nat i) = m @ ''::fact'' @ show_nat i"
  "derived_from m (''card'' @ show_nat i) = m @ ''::card'' @ show_nat i"
  "derived_from m (''rel'' @ show_nat i) = m @ ''::rel'' @ show_nat i"
  using show_nat_plain [of i]
  by (subst other_tag_spelling;
      auto simp: strip_prefix_def starts_with_def parse_unsigned_def parse_dec_def strip_plus_def is_digit_def)+

lemmas tag_spelling_simps = tag_spelling tag_spelling [simplified]

text \<open>The tags of the companions, in order.\<close>

definition tags_shaped :: "str list \<Rightarrow> bool" where
  "tags_shaped tags \<longleftrightarrow> distinct tags \<and> list_all (\<lambda>tag. for_companion_tag tag \<noteq> None) tags"

definition numbered :: "str \<Rightarrow> nat \<Rightarrow> str list" where
  "numbered stem n = map (\<lambda>i. stem @ show_nat i) [0..<n]"

lemma known_stems: "stem \<in> set stems \<Longrightarrow> for_companion_tag (stem @ show_nat i) \<noteq> None \<and> for_companion_tag stem \<noteq> None"
  unfolding for_companion_tag_def Let_def by (simp only: stem_digits) (auto simp: stems_def)

lemma known_tags:
  "for_companion_tag ''gist'' \<noteq> None" "for_companion_tag ''kw'' \<noteq> None" "for_companion_tag ''event'' \<noteq> None"
  "for_companion_tag (''fact'' @ show_nat i) \<noteq> None" "for_companion_tag (''card'' @ show_nat i) \<noteq> None"
  "for_companion_tag (''rel'' @ show_nat i) \<noteq> None"
  using known_stems by (simp_all only: stems_def list.set insert_iff simp_thms)

lemma tags_shaped_all:
  assumes "g = [] \<or> g = [''gist'']" "k = [] \<or> k = [''kw'']" "e = [] \<or> e = [''event'']"
  shows "tags_shaped ((g @ k) @ numbered ''fact'' a @ numbered ''card'' b @ e @ numbered ''rel'' c)"
proof -
  have d: "distinct (numbered stem n)" for stem n
    by (simp add: numbered_def distinct_map inj_on_def)
  have "distinct ((g @ k) @ numbered ''fact'' a @ numbered ''card'' b @ e @ numbered ''rel'' c)"
    using assms d by (auto simp: numbered_def distinct_map inj_on_def)
  moreover have "list_all (\<lambda>tag. for_companion_tag tag \<noteq> None)
      ((g @ k) @ numbered ''fact'' a @ numbered ''card'' b @ e @ numbered ''rel'' c)"
  proof -
    let ?P = "\<lambda>tag. for_companion_tag tag \<noteq> None"
    have n: "list_all ?P (numbered stem n)" if "\<And>i. ?P (stem @ show_nat i)" for stem n
      using that by (simp add: numbered_def list_all_iff)
    have "list_all ?P g" "list_all ?P k" "list_all ?P e"
      using assms known_tags(1-3) by (auto simp only: list.pred_inject)
    then show ?thesis using n [OF known_tags(4)] n [OF known_tags(5)] n [OF known_tags(6)]
      by (simp only: list_all_append simp_thms)
  qed
  ultimately show ?thesis by (simp add: tags_shaped_def)
qed

definition sourced :: "IngestPayload \<Rightarrow> IngestPayload \<Rightarrow> bool" where
  "sourced p c \<longleftrightarrow> p_source_memory_id c = Some (p_memory_id p) \<and> p_entity_id c = p_entity_id p
     \<and> p_timestamp c = p_timestamp p \<and> p_relations c = p_relations p \<and> p_enable_consolidation c = Some False"

definition tagged :: "IngestPayload \<Rightarrow> str list \<Rightarrow> IngestPayload list \<Rightarrow> bool" where
  "tagged p tags cs \<longleftrightarrow> map p_memory_id cs = map (\<lambda>tag. p_memory_id p @ ''::'' @ tag) tags \<and> list_all (sourced p) cs"

lemma tagged_append: "tagged p t1 c1 \<Longrightarrow> tagged p t2 c2 \<Longrightarrow> tagged p (t1 @ t2) (c1 @ c2)"
  by (simp add: tagged_def)

lemma tagged_Nil [simp]: "tagged p [] []"
  by (simp add: tagged_def)

lemma tagged_single:
  "tagged p [''gist''] [gist_companion p g]" "tagged p [''kw''] [keyword_companion p k]"
  "tagged p [''event''] [event_companion p e]"
  by (simp_all add: tagged_def sourced_def gist_companion_def keyword_companion_def event_companion_def
      companion_def tag_spelling_simps)

lemma tagged_numbered:
  assumes "\<And>i x. p_memory_id (f (i, x)) = p_memory_id p @ ''::'' @ stem @ show_nat i" "\<And>i x. sourced p (f (i, x))"
  shows "tagged p (numbered stem (length xs)) (map f (enumerate 0 xs))"
  using assms by (auto simp: tagged_def numbered_def list_all_iff intro!: nth_equalityI simp: nth_enumerate_eq)

lemma tagged_facts: "tagged p (numbered ''fact'' (length xs)) (map (fact_companion profile p) (enumerate 0 xs))"
  by (rule tagged_numbered)
    (simp_all add: fact_companion_def companion_def sourced_def Let_def tag_spelling_simps)

lemma tagged_relations: "tagged p (numbered ''rel'' (length (p_relations p))) (build_relation_companion_payloads p)"
  unfolding build_relation_companion_payloads_def
  by (rule tagged_numbered)
    (auto simp: relation_companion_def companion_def sourced_def Let_def tag_spelling_simps split: prod.split)

lemma tagged_cards: "\<exists>n. tagged p (numbered ''card'' n) (build_atomic_memory_card_payloads x p)"
  unfolding build_atomic_memory_card_payloads_def build_cards_from_facts_def
  by (rule exI, rule tagged_numbered) (simp_all add: card_payload_def sourced_def tag_spelling_simps empty_payload_def)

subsection \<open>Properties\<close>

lemma tagged_session:
  "\<exists>g k. (g = [] \<or> g = [''gist'']) \<and> (k = [] \<or> k = [''kw'']) \<and> tagged p (g @ k) (session_companions mn p)"
proof -
  have one: "\<exists>ts. (ts = [] \<or> ts = [t]) \<and> tagged p ts (case x of None \<Rightarrow> [] | Some v \<Rightarrow> [f v])"
    if "\<And>v. tagged p [t] [f v]" for t f and x :: "str option"
    using that by (cases x) auto
  show ?thesis
    unfolding session_companions_def Let_def
    using one [of "''gist''" "gist_companion p", OF tagged_single(1)] one [of "''kw''" "keyword_companion p", OF tagged_single(2)]
      tagged_append by meson
qed

text \<open>
  C16. A payload outside a session has no companions.  The companions of a turn are tagged with distinct
  tags that each belong to a feature switch; each extends the turn's identifier by its tag, points to
  the turn and keeps its entity, time and relations.
\<close>

theorem companions_tagged:
  "(in_session p \<or> build_companion_payloads_with_profile mn profile p = [])
   \<and> (\<exists>tags. tags_shaped tags \<and> tagged p tags (build_companion_payloads_with_profile mn profile p))"
proof (cases "in_session p")
  case False
  then show ?thesis
    by (intro conjI exI [of _ "[]"]) (simp_all add: build_companion_payloads_with_profile_def tags_shaped_def)
next
  case True
  let ?turn0 = "(case p_turn_index p of None \<Rightarrow> 0 | Some i \<Rightarrow> i) = 0"
  obtain g k where gk: "g = [] \<or> g = [''gist'']" "k = [] \<or> k = [''kw'']"
      "tagged p (g @ k) (if ?turn0 then session_companions mn p else [])"
  proof (cases ?turn0)
    case True
    obtain g k where gk: "g = [] \<or> g = [''gist'']" "k = [] \<or> k = [''kw'']" "tagged p (g @ k) (session_companions mn p)"
      using tagged_session [of p mn] by blast
    show ?thesis by (rule that [OF gk(1,2)]) (use gk(3) True in \<open>simp only: if_True simp_thms\<close>)
  next
    case False
    then show ?thesis using that [of "[]" "[]"] by simp
  qed
  obtain n where n: "tagged p (numbered ''card'' n) (build_atomic_memory_card_payloads (mn_extractor mn) p)"
    using tagged_cards by blast
  obtain e where e: "e = [] \<or> e = [''event'']"
      "tagged p e (case build_event_companion_text (mn_from_str mn) (mn_alnum mn) p of
         None \<Rightarrow> [] | Some e \<Rightarrow> [event_companion p e])"
    using that [of "[]"] that [of "[''event'']"] tagged_single(3) [of p] by (cases "build_event_companion_text (mn_from_str mn) (mn_alnum mn) p") auto
  let ?facts = "snd (extract_companion_texts (mn_from_str mn) (p_textual_content p))"
  let ?tags = "(g @ k) @ numbered ''fact'' (length ?facts) @ numbered ''card'' n @ e
      @ numbered ''rel'' (length (p_relations p))"
  have outside: "(\<not> in_session p) = False" using True by simp
  have "tagged p ?tags (build_companion_payloads_with_profile mn profile p)"
    unfolding build_companion_payloads_with_profile_def outside if_False
    by (intro tagged_append gk(3) tagged_facts n e(2) tagged_relations)
  moreover have "tags_shaped ?tags" by (rule tags_shaped_all [OF gk(1,2) e(1)])
  ultimately show ?thesis using True by blast
qed

end
