(* ===== verification/Embed_Text.thy ===== *)
theory Embed_Text
  imports Companions Store
begin

section \<open>The text that is embedded\<close>

text \<open>
  Models \<open>src/api/ingest/embed_text.rs\<close> and \<open>session_turn_window\<close> of
  \<open>src/storage/repo/sessions.rs\<close>.  Turn numbers are naturals below \<open>2 ^ 32\<close>; a \<open>BTreeMap\<close> is a map
  with the list of its keys.  \<open>hash_order\<close> is the order in which the groups of a \<open>HashMap\<close> are visited.
\<close>

datatype EmbedTextMode = Legacy | Turn | Context

record EmbedTextConfig =
  ec_mode :: EmbedTextMode
  ec_window :: u32

definition is_source_turn :: "IngestPayload \<Rightarrow> bool" where
  "is_source_turn p \<longleftrightarrow> p_kind p \<noteq> Some ''synthetic_query''
     \<and> (case p_source_memory_id p of None \<Rightarrow> True | Some parent \<Rightarrow> p_memory_id p = parent @ ''::c0'')"

definition turn_line :: "str \<Rightarrow> str \<Rightarrow> str" where
  "turn_line role t =
     (let t = trim (content_for_index t) in if role = [] then t else role @ '': '' @ t)"

definition payload_line :: "IngestPayload \<Rightarrow> str" where
  "payload_line p = turn_line (case p_role p of None \<Rightarrow> [] | Some r \<Rightarrow> r) (p_textual_content p)"

definition max_u32 :: nat where
  "max_u32 = 2 ^ 32 - 1"

text \<open>\<open>turns.range(lo..=hi)\<close> is walked in the order of the turns.\<close>

definition window_text :: "(nat \<Rightarrow> str option) \<Rightarrow> nat \<Rightarrow> nat \<Rightarrow> str option" where
  "window_text turns center w =
     (case turns center of
        None \<Rightarrow> None
      | Some current \<Rightarrow>
          (let neighbours = List.map_filter turns
                 (filter (\<lambda>t. t \<noteq> center) [center - w ..< Suc (min (center + w) max_u32)])
           in Some (if neighbours = [] then current
                    else current @ nl @ ''[context] '' @ join '' | '' neighbours)))"

subsection \<open>The stored turns of a session\<close>

definition turn_row :: "str \<Rightarrow> str \<Rightarrow> memory_row \<Rightarrow> bool" where
  "turn_row entity session m \<longleftrightarrow> m_entity_id m = entity \<and> m_session_id m = session
     \<and> (case m_parent_memory_id m of None \<Rightarrow> True | Some parent \<Rightarrow> m_memory_id m = parent @ ''::c0'')"

definition turn_of :: "memory_row \<Rightarrow> nat" where
  "turn_of m = unat (m_turn_index m)"

definition session_turn_window :: "store \<Rightarrow> str \<Rightarrow> str \<Rightarrow> nat \<Rightarrow> nat \<Rightarrow> (str \<times> nat \<times> str \<times> str) list" where
  "session_turn_window db entity session lo hi =
     map (\<lambda>m. (m_memory_id m, turn_of m, m_role m, m_content m))
       (sort_key (\<lambda>m. (turn_of m, m_rowid m))
         (filter (\<lambda>m. turn_row entity session m \<and> lo \<le> turn_of m \<and> turn_of m \<le> hi) (memories db)))"

subsection \<open>Texts of a batch\<close>

record ContextTexts =
  ct_texts :: "str list"
  ct_neighbour_updates :: "(str \<times> str) list"

text \<open>The source turns of the batch that have a session and a turn, with their positions.\<close>

definition session_members :: "IngestPayload list \<Rightarrow> (str \<times> str) \<Rightarrow> (nat \<times> nat) list" where
  "session_members ps = (\<lambda>(entity, session).
     List.map_filter (\<lambda>(idx, p).
       case (p_session_id p, p_turn_index p) of
         (Some s, Some turn) \<Rightarrow>
           if s \<noteq> [] \<and> is_source_turn p \<and> p_entity_id p = entity \<and> s = session then Some (idx, unat turn) else None
       | _ \<Rightarrow> None) (enumerate 0 ps))"

definition session_groups :: "IngestPayload list \<Rightarrow> (str \<times> str) list" where
  "session_groups ps =
     remdups (List.map_filter (\<lambda>p.
       case (p_session_id p, p_turn_index p) of
         (Some s, Some turn) \<Rightarrow> if s \<noteq> [] \<and> is_source_turn p then Some (p_entity_id p, s) else None
       | _ \<Rightarrow> None) ps)"

definition stored_lines :: "(str \<times> nat \<times> str \<times> str) list \<Rightarrow> nat \<Rightarrow> str option" where
  "stored_lines stored = foldl (\<lambda>m (_, turn, role, content). m(turn \<mapsto> turn_line role content)) (\<lambda>_. None) stored"

definition stored_ids :: "(str \<times> nat \<times> str \<times> str) list \<Rightarrow> nat \<Rightarrow> str option" where
  "stored_ids stored = foldl (\<lambda>m (memory_id, turn, _, _). m(turn \<mapsto> memory_id)) (\<lambda>_. None) stored"

definition abs_diff :: "nat \<Rightarrow> nat \<Rightarrow> nat" where
  "abs_diff a b = (if a \<le> b then b - a else a - b)"

text \<open>Lowest and highest turn of the batch, widened by two windows with saturation.\<close>

definition window_bounds :: "nat list \<Rightarrow> nat \<Rightarrow> nat \<times> nat" where
  "window_bounds batch_turns w =
     (let lo = (if batch_turns = [] then 0 else Min (set batch_turns));
          hi = (if batch_turns = [] then 0 else Max (set batch_turns))
      in (lo - 2 * w mod 2 ^ 32, min (hi + 2 * w mod 2 ^ 32) max_u32))"

definition group_stored :: "store \<Rightarrow> IngestPayload list \<Rightarrow> nat \<Rightarrow> str \<times> str \<Rightarrow> (str \<times> nat \<times> str \<times> str) list" where
  "group_stored db ps w = (\<lambda>(entity, session).
     (let (lo, hi) = window_bounds (map snd (session_members ps (entity, session))) w
      in session_turn_window db entity session lo hi))"

text \<open>The batch's version of a turn wins over the stored one.\<close>

definition group_lines :: "store \<Rightarrow> IngestPayload list \<Rightarrow> nat \<Rightarrow> str \<times> str \<Rightarrow> nat \<Rightarrow> str option" where
  "group_lines db ps w key =
     foldl (\<lambda>m (idx, turn). m(turn \<mapsto> payload_line (ps ! idx)))
       (stored_lines (group_stored db ps w key)) (session_members ps key)"

definition group_texts ::
  "store \<Rightarrow> IngestPayload list \<Rightarrow> nat \<Rightarrow> str \<times> str \<Rightarrow> (nat \<times> str option) list \<times> (str \<times> str) list" where
  "group_texts db ps w key =
     (let members = session_members ps key;
          batch_turns = map snd members;
          stored = group_stored db ps w key;
          ls = group_lines db ps w key
      in (map (\<lambda>(idx, turn). (idx, window_text ls turn w)) members,
          List.map_filter (\<lambda>turn.
            if turn \<notin> set batch_turns \<and> list_ex (\<lambda>b. abs_diff turn b \<le> w) batch_turns
            then (case (stored_ids stored turn, window_text ls turn w) of
                    (Some memory_id, Some t) \<Rightarrow> Some (memory_id, t) | _ \<Rightarrow> None)
            else None)
            (sort (remdups (map (\<lambda>(_, turn, _, _). turn) stored)))))"

definition plain_texts :: "IngestPayload list \<Rightarrow> str list" where
  "plain_texts ps = map (\<lambda>p. if is_source_turn p then payload_line p else p_textual_content p) ps"

definition set_texts :: "str list \<Rightarrow> (nat \<times> str option) list \<Rightarrow> str list" where
  "set_texts ts us = foldl (\<lambda>ts (idx, t). case t of None \<Rightarrow> ts | Some t \<Rightarrow> ts[idx := t]) ts us"

definition build_embed_texts ::
  "((str \<times> str) list \<Rightarrow> (str \<times> str) list) \<Rightarrow> store \<Rightarrow> IngestPayload list \<Rightarrow> EmbedTextConfig \<Rightarrow> ContextTexts" where
  "build_embed_texts hash_order db ps config =
     (if ec_mode config \<noteq> Context \<or> ec_window config = 0
      then \<lparr>ct_texts = plain_texts ps, ct_neighbour_updates = []\<rparr>
      else (let groups = map (group_texts db ps (unat (ec_window config))) (hash_order (session_groups ps))
            in \<lparr>ct_texts = set_texts (plain_texts ps) (concat (map fst groups)),
                ct_neighbour_updates = concat (map snd groups)\<rparr>))"

subsection \<open>Windows\<close>

lemma map_filter_cong: "\<forall>x \<in> set xs. f x = g x \<Longrightarrow> List.map_filter f xs = List.map_filter g xs"
  by (induction xs) (simp_all split: option.split)

lemma window_text_cong:
  assumes "center \<le> max_u32" "\<And>t. center - w \<le> t \<Longrightarrow> t \<le> center + w \<Longrightarrow> t \<le> max_u32 \<Longrightarrow> m t = m' t"
  shows "window_text m center w = window_text m' center w"
proof -
  have "List.map_filter m (filter (\<lambda>t. t \<noteq> center) [center - w ..< Suc (min (center + w) max_u32)])
      = List.map_filter m' (filter (\<lambda>t. t \<noteq> center) [center - w ..< Suc (min (center + w) max_u32)])"
    using assms by (intro map_filter_cong) auto
  moreover have "m center = m' center" using assms by simp
  ultimately show ?thesis by (simp only: window_text_def)
qed

subsection \<open>The lines of a session\<close>

definition session_rows :: "store \<Rightarrow> str \<Rightarrow> str \<Rightarrow> memory_row list" where
  "session_rows db entity session = filter (turn_row entity session) (memories db)"

definition by_turn :: "(memory_row \<Rightarrow> str) \<Rightarrow> memory_row list \<Rightarrow> (nat \<times> str) list" where
  "by_turn f rows = map (\<lambda>m. (turn_of m, f m)) rows"

definition row_line :: "memory_row \<Rightarrow> str" where
  "row_line m = turn_line (m_role m) (m_content m)"

definition line_at :: "store \<Rightarrow> str \<Rightarrow> str \<Rightarrow> nat \<Rightarrow> str option" where
  "line_at db entity session = map_of (by_turn row_line (session_rows db entity session))"

lemma foldl_upd: "foldl (\<lambda>m x. m(k x \<mapsto> v x)) m0 xs = m0 ++ map_of (rev (map (\<lambda>x. (k x, v x)) xs))"
  by (induction xs arbitrary: m0) (simp_all add: map_add_def fun_eq_iff split: option.split)

lemma map_of_keys: "map_of (filter (\<lambda>(k, _). P k) xs) t = (if P t then map_of xs t else None)"
  by (induction xs) auto

lemma window_map:
  assumes "distinct (map turn_of (session_rows db e s))"
  shows "map_of (rev (by_turn f (sort_key (\<lambda>m. (turn_of m, m_rowid m))
            (filter (\<lambda>m. turn_row e s m \<and> lo \<le> turn_of m \<and> turn_of m \<le> hi) (memories db))))) t
       = (if lo \<le> t \<and> t \<le> hi then map_of (by_turn f (session_rows db e s)) t else None)"
proof -
  let ?R = "session_rows db e s"
  let ?W = "filter (\<lambda>m. lo \<le> turn_of m \<and> turn_of m \<le> hi) ?R"
  have W: "filter (\<lambda>m. turn_row e s m \<and> lo \<le> turn_of m \<and> turn_of m \<le> hi) (memories db) = ?W"
    by (simp add: session_rows_def conj_commute)
  have keys: "map fst (by_turn f rows) = map turn_of rows" for rows
    by (simp add: by_turn_def)
  have dW: "distinct (map turn_of ?W)" using assms by (rule distinct_map_filter)
  have dS: "distinct (map turn_of (rev (sort_key (\<lambda>m. (turn_of m, m_rowid m)) ?W)))"
    using dW by (simp add: distinct_map rev_map [symmetric])
  have "map_of (rev (by_turn f (sort_key (\<lambda>m. (turn_of m, m_rowid m)) ?W))) = map_of (by_turn f ?W)"
  proof (rule map_of_inject_set [THEN iffD2])
    show "distinct (map fst (rev (by_turn f (sort_key (\<lambda>m. (turn_of m, m_rowid m)) ?W))))"
      using dS by (simp add: by_turn_def rev_map comp_def)
    show "distinct (map fst (by_turn f ?W))" using dW by (simp add: keys)
  qed (simp add: by_turn_def)
  also have "by_turn f ?W = filter (\<lambda>(k, _). lo \<le> k \<and> k \<le> hi) (by_turn f ?R)"
    by (simp add: by_turn_def filter_map comp_def)
  finally show ?thesis unfolding W by (simp only: map_of_keys [of "\<lambda>k. lo \<le> k \<and> k \<le> hi"])
qed

lemma stored_lines_window:
  assumes "distinct (map turn_of (session_rows db e s))"
  shows "stored_lines (session_turn_window db e s lo hi) t = (if lo \<le> t \<and> t \<le> hi then line_at db e s t else None)"
  using window_map [OF assms, of row_line lo hi t] foldl_upd [of turn_of row_line Map.empty]
  by (simp add: stored_lines_def session_turn_window_def foldl_map line_at_def by_turn_def row_line_def)

lemma stored_ids_window:
  assumes "distinct (map turn_of (session_rows db e s))"
  shows "stored_ids (session_turn_window db e s lo hi) t
       = (if lo \<le> t \<and> t \<le> hi then map_of (by_turn m_memory_id (session_rows db e s)) t else None)"
  using window_map [OF assms, of m_memory_id lo hi t] foldl_upd [of turn_of m_memory_id Map.empty]
  by (simp add: stored_ids_def session_turn_window_def foldl_map by_turn_def)

subsection \<open>A batch of one session\<close>

definition payload_turn :: "IngestPayload \<Rightarrow> nat" where
  "payload_turn p = (case p_turn_index p of None \<Rightarrow> 0 | Some t \<Rightarrow> unat t)"

definition session_batch :: "str \<Rightarrow> str \<Rightarrow> IngestPayload list \<Rightarrow> bool" where
  "session_batch e s ps \<longleftrightarrow> s \<noteq> [] \<and> ps \<noteq> []
     \<and> list_all (\<lambda>p. is_source_turn p \<and> p_entity_id p = e \<and> p_session_id p = Some s \<and> p_turn_index p \<noteq> None) ps"

lemma remdups_same: "remdups (replicate n x) = (if n = 0 then [] else [x])"
  by (induction n) simp_all

lemma members_of_batch:
  assumes "session_batch e s ps"
  shows "session_members ps (e, s) = map (\<lambda>(idx, p). (idx, payload_turn p)) (enumerate 0 ps)"
    and "session_groups ps = [(e, s)]"
proof -
  have all: "\<forall>p \<in> set ps. is_source_turn p \<and> p_entity_id p = e \<and> p_session_id p = Some s \<and> p_turn_index p \<noteq> None"
    "s \<noteq> []" "ps \<noteq> []"
    using assms by (simp_all add: session_batch_def list_all_iff)
  have "List.map_filter (\<lambda>(idx, p).
       case (p_session_id p, p_turn_index p) of
         (Some s', Some turn) \<Rightarrow>
           if s' \<noteq> [] \<and> is_source_turn p \<and> p_entity_id p = e \<and> s' = s then Some (idx, unat turn) else None
       | _ \<Rightarrow> None) (enumerate n qs) = map (\<lambda>(idx, p). (idx, payload_turn p)) (enumerate n qs)"
    if "set qs \<subseteq> set ps" for n qs
    using that all by (induction qs arbitrary: n) (auto simp: payload_turn_def)
  from this [of ps 0] show "session_members ps (e, s) = map (\<lambda>(idx, p). (idx, payload_turn p)) (enumerate 0 ps)"
    by (simp add: session_members_def)
  have "List.map_filter (\<lambda>p.
       case (p_session_id p, p_turn_index p) of
         (Some s', Some turn) \<Rightarrow> if s' \<noteq> [] \<and> is_source_turn p then Some (p_entity_id p, s') else None
       | _ \<Rightarrow> None) qs = replicate (length qs) (e, s)"
    if "set qs \<subseteq> set ps" for qs
    using that all by (induction qs) auto
  from this [of ps] show "session_groups ps = [(e, s)]"
    unfolding session_groups_def using all(3) by (simp only: remdups_same subset_refl) simp
qed

text \<open>A row that \<open>commit_ingest\<close> inserts for a payload of the session.\<close>

definition row_for :: "IngestPayload \<Rightarrow> memory_row \<Rightarrow> bool" where
  "row_for p m \<longleftrightarrow> m_memory_id m = p_memory_id p \<and> m_entity_id m = p_entity_id p
     \<and> Some (m_session_id m) = p_session_id p \<and> Some (m_turn_index m) = p_turn_index p
     \<and> m_role m = (case p_role p of None \<Rightarrow> [] | Some r \<Rightarrow> r) \<and> m_content m = p_textual_content p
     \<and> m_parent_memory_id m = p_source_memory_id p"

definition batch_lines :: "IngestPayload list \<Rightarrow> (nat \<times> str) list" where
  "batch_lines ps = map (\<lambda>p. (payload_turn p, payload_line p)) ps"

lemma rows_for_batch:
  assumes "session_batch e s ps" "list_all2 row_for ps rows"
  shows "filter (turn_row e s) rows = rows" and "by_turn row_line rows = batch_lines ps"
    and "map turn_of rows = map payload_turn ps" and "map m_memory_id rows = map p_memory_id ps"
proof -
  have all: "\<forall>p \<in> set ps. is_source_turn p \<and> p_entity_id p = e \<and> p_session_id p = Some s \<and> p_turn_index p \<noteq> None"
    using assms(1) by (simp add: session_batch_def list_all_iff)
  from assms(2) all show "filter (turn_row e s) rows = rows"
    by (induction rule: list_all2_induct) (auto simp: row_for_def turn_row_def is_source_turn_def split: option.splits)
  from assms(2) all show "by_turn row_line rows = batch_lines ps"
    by (induction rule: list_all2_induct)
      (auto simp: row_for_def by_turn_def batch_lines_def row_line_def payload_line_def turn_of_def payload_turn_def
        split: option.splits)
  from assms(2) all show "map turn_of rows = map payload_turn ps"
    by (induction rule: list_all2_induct) (auto simp: row_for_def turn_of_def payload_turn_def split: option.splits)
  from assms(2) show "map m_memory_id rows = map p_memory_id ps"
    by (induction rule: list_all2_induct) (auto simp: row_for_def)
qed

lemma line_at_append:
  assumes "memories db' = memories db @ rows" "session_batch e s ps" "list_all2 row_for ps rows"
    and "distinct (map turn_of (session_rows db' e s))"
  shows "line_at db' e s t = (case map_of (batch_lines ps) t of Some x \<Rightarrow> Some x | None \<Rightarrow> line_at db e s t)"
proof -
  note r = rows_for_batch [OF assms(2,3)]
  have split: "by_turn row_line (session_rows db' e s) = by_turn row_line (session_rows db e s) @ batch_lines ps"
    using r(1,2) by (simp add: session_rows_def assms(1) by_turn_def)
  have apart: "distinct (map fst (by_turn row_line (session_rows db' e s)))"
    using assms(4) by (simp add: by_turn_def comp_def)
  have "map_of (by_turn row_line (session_rows db e s)) t = None" if "map_of (batch_lines ps) t = Some x" for x
  proof (rule ccontr)
    assume "map_of (by_turn row_line (session_rows db e s)) t \<noteq> None"
    then have "t \<in> fst ` set (by_turn row_line (session_rows db e s))" by (simp add: map_of_eq_None_iff)
    moreover have "t \<in> fst ` set (batch_lines ps)" using map_of_SomeD [OF that] by force
    ultimately show False
      using apart unfolding split by auto
  qed
  then show ?thesis unfolding line_at_def split by (auto simp: map_add_def split: option.split)
qed

lemma session_batch_map:
  assumes "distinct (map payload_turn ps)"
  shows "foldl (\<lambda>m (idx, turn). m(turn \<mapsto> payload_line (ps ! idx))) m0 (map (\<lambda>(idx, p). (idx, payload_turn p)) (enumerate 0 ps)) t
       = (case map_of (batch_lines ps) t of Some x \<Rightarrow> Some x | None \<Rightarrow> m0 t)"
proof -
  have members: "map (\<lambda>(idx, p). (payload_turn p, payload_line (ps ! idx))) (enumerate 0 ps) = batch_lines ps"
    by (rule nth_equalityI) (simp_all add: batch_lines_def nth_enumerate_eq)
  have "foldl (\<lambda>m (idx, turn). m(turn \<mapsto> payload_line (ps ! idx))) m0 (map (\<lambda>(idx, p). (idx, payload_turn p)) (enumerate 0 ps))
      = m0 ++ map_of (rev (map (\<lambda>x. (payload_turn (snd x), payload_line (ps ! fst x))) (enumerate 0 ps)))"
    using foldl_upd [of "\<lambda>x. payload_turn (snd x)" "\<lambda>x. payload_line (ps ! fst x)" m0 "enumerate 0 ps"]
    by (simp add: foldl_map case_prod_unfold)
  also have "map (\<lambda>x. (payload_turn (snd x), payload_line (ps ! fst x))) (enumerate 0 ps) = batch_lines ps"
    using members by (simp add: case_prod_unfold)
  also have "map_of (rev (batch_lines ps)) = map_of (batch_lines ps)"
    using assms by (intro map_of_inject_set [THEN iffD2]) (simp_all add: batch_lines_def comp_def rev_map [symmetric])
  finally have eq: "foldl (\<lambda>m (idx, turn). m(turn \<mapsto> payload_line (ps ! idx))) m0
      (map (\<lambda>(idx, p). (idx, payload_turn p)) (enumerate 0 ps)) = m0 ++ map_of (batch_lines ps)" .
  show ?thesis unfolding eq map_add_def by simp
qed

lemma set_texts_enumerate:
  assumes "length ts = length ps"
  shows "set_texts ts (map (\<lambda>(idx, p). (idx, Some (g p))) (enumerate 0 ps)) = map g ps"
proof -
  have "set_texts (pre @ ts) (map (\<lambda>(idx, p). (idx, Some (g p))) (enumerate (length pre) ps)) = pre @ map g ps"
    if "length ts = length ps" for pre ts
    using that
  proof (induction ps arbitrary: pre ts)
    case (Cons p ps)
    then obtain t ts' where t: "ts = t # ts'" by (cases ts) auto
    have "set_texts ((pre @ [g p]) @ ts') (map (\<lambda>(idx, p). (idx, Some (g p))) (enumerate (length (pre @ [g p])) ps))
        = (pre @ [g p]) @ map g ps"
      using Cons t by (intro Cons.IH) simp
    then show ?case by (simp add: set_texts_def t)
  qed (simp add: set_texts_def)
  from this [of ts "[]"] assms show ?thesis by simp
qed

definition remember :: "(str \<Rightarrow> str option) \<Rightarrow> (str \<times> str) list \<Rightarrow> str \<Rightarrow> str option" where
  "remember latest us = foldl (\<lambda>m (memory_id, t). m(memory_id \<mapsto> t)) latest us"

lemma remember_same:
  assumes "\<forall>t. (k, t) \<in> set us \<longrightarrow> t = x" "(k, x) \<in> set us"
  shows "remember latest us k = Some x"
  using assms
proof (induction us rule: rev_induct)
  case (snoc u us)
  obtain k' t where u: "u = (k', t)" by (cases u)
  show ?case
  proof (cases "k' = k")
    case True
    then show ?thesis using snoc.prems u by (simp add: remember_def)
  next
    case False
    have "(k, x) \<in> set us" using snoc.prems(2) u False by simp
    moreover have "\<forall>t. (k, t) \<in> set us \<longrightarrow> t = x" using snoc.prems(1) by simp
    ultimately have "remember latest us k = Some x" by (intro snoc.IH)
    then show ?thesis using False u by (simp add: remember_def)
  qed
qed simp

lemma remember_other: "k \<notin> fst ` set us \<Longrightarrow> remember latest us k = latest k"
  by (induction us arbitrary: latest) (auto simp: remember_def)

subsection \<open>Neighbours\<close>

lemma abs_diff_le: "abs_diff a b \<le> w \<longleftrightarrow> a \<le> b + w \<and> b \<le> a + w"
  by (auto simp: abs_diff_def)

lemma turn_of_max: "turn_of m \<le> max_u32"
  using unat_u32_less [of "m_turn_index m"] by (simp add: turn_of_def max_u32_def)

lemma payload_turn_max: "payload_turn p \<le> max_u32"
proof (cases "p_turn_index p")
  case (Some t)
  then show ?thesis using unat_u32_less [of t] by (simp add: payload_turn_def max_u32_def)
qed (simp add: payload_turn_def)

text \<open>Every turn of the session has the text of its window as its latest embedding text.\<close>

definition texts_current :: "str \<Rightarrow> str \<Rightarrow> nat \<Rightarrow> store \<Rightarrow> (str \<Rightarrow> str option) \<Rightarrow> bool" where
  "texts_current e s w db latest \<longleftrightarrow>
     (\<forall>m \<in> set (session_rows db e s). latest (m_memory_id m) = window_text (line_at db e s) (turn_of m) w)"

text \<open>A batch of one session, its rows and the database after it.\<close>

definition session_step ::
  "str \<Rightarrow> str \<Rightarrow> nat \<Rightarrow> store \<Rightarrow> IngestPayload list \<Rightarrow> memory_row list \<Rightarrow> store \<Rightarrow> bool" where
  "session_step e s w db ps rows db' \<longleftrightarrow>
     session_batch e s ps \<and> 0 < w \<and> w \<le> 4 \<and> memories db' = memories db @ rows \<and> list_all2 row_for ps rows
     \<and> distinct (map turn_of (session_rows db' e s)) \<and> distinct (map m_memory_id (memories db'))"

lemma session_stepD:
  assumes "session_step e s w db ps rows db'"
  shows "session_rows db' e s = session_rows db e s @ rows" "distinct (map turn_of (session_rows db e s))"
    "distinct (map payload_turn ps)" "set (map turn_of (session_rows db e s)) \<inter> payload_turn ` set ps = {}"
    "session_members ps (e, s) = map (\<lambda>(idx, p). (idx, payload_turn p)) (enumerate 0 ps)"
    "map snd (session_members ps (e, s)) = map payload_turn ps"
proof -
  have a: "session_batch e s ps" "memories db' = memories db @ rows" "list_all2 row_for ps rows"
    "distinct (map turn_of (session_rows db' e s))"
    using assms by (simp_all add: session_step_def)
  show rows: "session_rows db' e s = session_rows db e s @ rows"
    using rows_for_batch(1) [OF a(1,3)] a(2) by (simp add: session_rows_def)
  have t: "distinct (map turn_of (session_rows db e s) @ map payload_turn ps)"
    using a(4) rows_for_batch(3) [OF a(1,3)] by (simp add: rows)
  then show "distinct (map turn_of (session_rows db e s))" "distinct (map payload_turn ps)"
    "set (map turn_of (session_rows db e s)) \<inter> payload_turn ` set ps = {}"
    by simp_all
  show m: "session_members ps (e, s) = map (\<lambda>(idx, p). (idx, payload_turn p)) (enumerate 0 ps)"
    by (rule members_of_batch(1) [OF a(1)])
  show "map snd (session_members ps (e, s)) = map payload_turn ps"
    unfolding m by (rule nth_equalityI) (simp_all add: nth_enumerate_eq)
qed

lemma in_bounds:
  assumes "w \<le> 4" "p \<in> set ps" "window_bounds (map payload_turn ps) w = (lo, hi)"
    and "payload_turn p \<le> t + 2 * w" "t \<le> payload_turn p + 2 * w" "t \<le> max_u32"
  shows "lo \<le> t \<and> t \<le> hi"
proof -
  have w: "2 * w mod 2 ^ 32 = 2 * w" using assms(1) by simp
  have "Min (payload_turn ` set ps) \<le> payload_turn p" "payload_turn p \<le> Max (payload_turn ` set ps)" "ps \<noteq> []"
    using assms(2) by auto
  then show ?thesis using assms(3-6) w by (auto simp: window_bounds_def Let_def)
qed

lemma group_lines_near:
  assumes step: "session_step e s w db ps rows db'" and "p \<in> set ps"
    and "payload_turn p \<le> t + 2 * w" "t \<le> payload_turn p + 2 * w" "t \<le> max_u32"
  shows "group_lines db ps w (e, s) t = line_at db' e s t"
proof -
  obtain lo hi where b: "window_bounds (map payload_turn ps) w = (lo, hi)" by fastforce
  have r: "lo \<le> t \<and> t \<le> hi"
    using step by (intro in_bounds [OF _ assms(2) b assms(3-5)]) (simp add: session_step_def)
  have a: "session_batch e s ps" "memories db' = memories db @ rows" "list_all2 row_for ps rows"
    "distinct (map turn_of (session_rows db' e s))"
    using step by (simp_all add: session_step_def)
  note d = session_stepD [OF step]
  have stored: "group_stored db ps w (e, s) = session_turn_window db e s lo hi"
    by (simp add: group_stored_def d(6) b del: map_map)
  show ?thesis
    unfolding group_lines_def stored d(5) session_batch_map [OF d(3)] using r
    by (simp add: stored_lines_window [OF d(2)] line_at_append [OF a(2,1,3,4)] split: option.split)
qed

lemma near_text:
  assumes step: "session_step e s w db ps rows db'" and "p \<in> set ps" "abs_diff t (payload_turn p) \<le> w" "t \<le> max_u32"
  shows "window_text (group_lines db ps w (e, s)) t w = window_text (line_at db' e s) t w"
proof (rule window_text_cong [OF assms(4)])
  fix x assume x: "t - w \<le> x" "x \<le> t + w" "x \<le> max_u32"
  have "payload_turn p \<le> x + 2 * w" "x \<le> payload_turn p + 2 * w"
    using assms(3) x unfolding abs_diff_le by linarith+
  then show "group_lines db ps w (e, s) x = line_at db' e s x"
    by (rule group_lines_near [OF step assms(2) _ _ x(3)])
qed

lemma far_text:
  assumes step: "session_step e s w db ps rows db'" and "\<forall>p \<in> set ps. w < abs_diff t (payload_turn p)" "t \<le> max_u32"
  shows "window_text (line_at db' e s) t w = window_text (line_at db e s) t w"
proof (rule window_text_cong [OF assms(3)])
  fix x assume x: "t - w \<le> x" "x \<le> t + w" "x \<le> max_u32"
  have "x \<notin> payload_turn ` set ps"
    using assms(2) x by (fastforce simp: abs_diff_def split: if_splits)
  then have "map_of (batch_lines ps) x = None"
    by (simp add: map_of_eq_None_iff batch_lines_def image_image)
  moreover have a: "session_batch e s ps" "memories db' = memories db @ rows" "list_all2 row_for ps rows"
    "distinct (map turn_of (session_rows db' e s))"
    using step by (simp_all add: session_step_def)
  ultimately show "line_at db' e s x = line_at db e s x"
    by (simp add: line_at_append [OF a(2,1,3,4)])
qed

subsection \<open>Updates of one step\<close>

text \<open>The neighbour updates are those of the stored turns within a window of the batch.\<close>

lemma map_filter_image: "y \<in> set (List.map_filter f xs) \<longleftrightarrow> (\<exists>x \<in> set xs. f x = Some y)"
  by (induction xs) (auto split: option.splits)

lemma stored_id:
  assumes "distinct (map turn_of (session_rows db e s))"
  shows "stored_ids (session_turn_window db e s lo hi) t = Some i
     \<longleftrightarrow> (\<exists>m \<in> set (session_rows db e s). turn_of m = t \<and> m_memory_id m = i \<and> lo \<le> t \<and> t \<le> hi)"
proof -
  have "distinct (map fst (by_turn m_memory_id (session_rows db e s)))"
    using assms by (simp add: by_turn_def comp_def)
  then have "map_of (by_turn m_memory_id (session_rows db e s)) t = Some i
      \<longleftrightarrow> (t, i) \<in> set (by_turn m_memory_id (session_rows db e s))" by (rule map_of_eq_Some_iff)
  then show ?thesis unfolding stored_ids_window [OF assms] by (auto simp: by_turn_def)
qed

lemma window_turns:
  "set (map (\<lambda>(_, turn, _, _). turn) (session_turn_window db e s lo hi))
   = {turn_of m | m. m \<in> set (session_rows db e s) \<and> lo \<le> turn_of m \<and> turn_of m \<le> hi}"
  by (auto simp: session_turn_window_def session_rows_def image_iff)

lemma neighbour_updates:
  assumes step: "session_step e s w db ps rows db'"
  shows "(i, t) \<in> set (snd (group_texts db ps w (e, s))) \<longleftrightarrow>
     (\<exists>m \<in> set (session_rows db e s). i = m_memory_id m \<and> (\<exists>p \<in> set ps. abs_diff (turn_of m) (payload_turn p) \<le> w)
        \<and> window_text (line_at db' e s) (turn_of m) w = Some t)" (is "?L \<longleftrightarrow> ?R")
proof -
  obtain lo hi where b: "window_bounds (map payload_turn ps) w = (lo, hi)" by fastforce
  note d = session_stepD [OF step]
  have stored: "group_stored db ps w (e, s) = session_turn_window db e s lo hi"
    by (simp add: group_stored_def d(6) b del: map_map)
  have w: "w \<le> 4" using step by (simp add: session_step_def)
  let ?near = "\<lambda>t. \<exists>p \<in> set ps. abs_diff t (payload_turn p) \<le> w"
  have "?L \<longleftrightarrow> (\<exists>turn \<in> {turn_of m | m. m \<in> set (session_rows db e s) \<and> lo \<le> turn_of m \<and> turn_of m \<le> hi}.
      turn \<notin> payload_turn ` set ps \<and> ?near turn
      \<and> stored_ids (session_turn_window db e s lo hi) turn = Some i
      \<and> window_text (group_lines db ps w (e, s)) turn w = Some t)"
    unfolding group_texts_def Let_def snd_conv map_filter_image set_sort set_remdups stored window_turns d(6)
    by (rule bex_cong [OF refl]) (auto simp: list_ex_iff split: option.splits)
  also have "\<dots> \<longleftrightarrow> (\<exists>m \<in> set (session_rows db e s). i = m_memory_id m \<and> lo \<le> turn_of m \<and> turn_of m \<le> hi
      \<and> turn_of m \<notin> payload_turn ` set ps \<and> ?near (turn_of m)
      \<and> window_text (group_lines db ps w (e, s)) (turn_of m) w = Some t)"
    unfolding stored_id [OF d(2)] by (intro iffI; clarify; metis (mono_tags, lifting) mem_Collect_eq)
  also have "\<dots> \<longleftrightarrow> ?R"
  proof (rule bex_cong [OF refl])
    fix m assume m: "m \<in> set (session_rows db e s)"
    have apart: "turn_of m \<notin> payload_turn ` set ps" using d(4) m by auto
    have "lo \<le> turn_of m \<and> turn_of m \<le> hi
        \<and> window_text (group_lines db ps w (e, s)) (turn_of m) w = window_text (line_at db' e s) (turn_of m) w"
      if "p \<in> set ps" "abs_diff (turn_of m) (payload_turn p) \<le> w" for p
      using in_bounds [OF w that(1) b, of "turn_of m"] near_text [OF step that turn_of_max] that(2) turn_of_max [of m]
      by (auto simp: abs_diff_le)
    then show "(i = m_memory_id m \<and> lo \<le> turn_of m \<and> turn_of m \<le> hi \<and> turn_of m \<notin> payload_turn ` set ps
        \<and> ?near (turn_of m) \<and> window_text (group_lines db ps w (e, s)) (turn_of m) w = Some t)
      = (i = m_memory_id m \<and> ?near (turn_of m) \<and> window_text (line_at db' e s) (turn_of m) w = Some t)"
      using apart by (metis (no_types, lifting))
  qed
  finally show ?thesis .
qed

text \<open>The texts of the batch's own turns.\<close>

lemma own_texts:
  assumes step: "session_step e s w db ps rows db'"
  shows "set_texts (plain_texts ps) (fst (group_texts db ps w (e, s)))
       = map (\<lambda>p. the (window_text (line_at db' e s) (payload_turn p) w)) ps"
    and "p \<in> set ps \<Longrightarrow> window_text (line_at db' e s) (payload_turn p) w \<noteq> None"
proof -
  note d = session_stepD [OF step]
  have a: "session_batch e s ps" "memories db' = memories db @ rows" "list_all2 row_for ps rows"
    "distinct (map turn_of (session_rows db' e s))"
    using step by (simp_all add: session_step_def)
  have line: "line_at db' e s (payload_turn p) = Some (payload_line p)" if "p \<in> set ps" for p
  proof -
    have "map_of (batch_lines ps) (payload_turn p) = Some (payload_line p)"
      using d(3) that by (intro map_of_is_SomeI) (auto simp: batch_lines_def comp_def)
    then show ?thesis by (simp add: line_at_append [OF a(2,1,3,4)])
  qed
  then show some: "p \<in> set ps \<Longrightarrow> window_text (line_at db' e s) (payload_turn p) w \<noteq> None" for p
    by (simp add: window_text_def Let_def)
  have near: "window_text (group_lines db ps w (e, s)) (payload_turn p) w = window_text (line_at db' e s) (payload_turn p) w"
    if "p \<in> set ps" for p
    by (rule near_text [OF step that _ payload_turn_max]) (simp add: abs_diff_def)
  have "fst (group_texts db ps w (e, s))
      = map (\<lambda>(idx, p). (idx, Some (the (window_text (line_at db' e s) (payload_turn p) w)))) (enumerate 0 ps)"
    unfolding group_texts_def Let_def fst_conv d(5) using near some
    by (intro nth_equalityI) (simp_all add: nth_enumerate_eq)
  then show "set_texts (plain_texts ps) (fst (group_texts db ps w (e, s)))
      = map (\<lambda>p. the (window_text (line_at db' e s) (payload_turn p) w)) ps"
    by (simp add: set_texts_enumerate plain_texts_def)
qed

lemma window_of_row:
  assumes "m \<in> set (session_rows db e s)" shows "window_text (line_at db e s) (turn_of m) w \<noteq> None"
proof -
  have "turn_of m \<in> fst ` set (by_turn row_line (session_rows db e s))"
    using assms by (force simp: by_turn_def)
  then show ?thesis by (auto simp: window_text_def line_at_def Let_def map_of_eq_None_iff split: option.split)
qed

lemma step_ids:
  assumes "session_step e s w db ps rows db'"
  shows "distinct (map m_memory_id (session_rows db e s) @ map p_memory_id ps)"
proof -
  have db': "memories db' = memories db @ rows" "distinct (map m_memory_id (memories db'))"
    using assms unfolding session_step_def by blast+
  have a: "session_batch e s ps" "list_all2 row_for ps rows"
    using assms by (simp_all add: session_step_def)
  have all: "distinct (map m_memory_id (memories db @ rows))" using db'(2) unfolding db'(1) .
  have "distinct (map m_memory_id (memories db) @ map p_memory_id ps)"
    using all rows_for_batch(4) [OF a(1,2)] by (simp only: map_append)
  then show ?thesis by (auto simp: session_rows_def distinct_map_filter)
qed

lemma own_remembered:
  assumes "distinct (map p_memory_id ps)" "p \<in> set ps"
  shows "remember latest (zip (map p_memory_id ps) (map g ps)) (p_memory_id p) = Some (g p)"
proof (rule remember_same)
  have z: "zip (map p_memory_id ps) (map g ps) = map (\<lambda>p. (p_memory_id p, g p)) ps"
    by (induction ps) simp_all
  show "\<forall>t. (p_memory_id p, t) \<in> set (zip (map p_memory_id ps) (map g ps)) \<longrightarrow> t = g p"
    using assms unfolding z by (auto simp: distinct_map dest: inj_onD)
  show "(p_memory_id p, g p) \<in> set (zip (map p_memory_id ps) (map g ps))"
    using assms(2) unfolding z by auto
qed

lemma step_text_old:
  assumes step: "session_step e s w db ps rows db'" and m: "m \<in> set (session_rows db e s)"
    and before: "latest (m_memory_id m) = window_text (line_at db e s) (turn_of m) w"
  shows "remember latest (snd (group_texts db ps w (e, s))) (m_memory_id m) = window_text (line_at db' e s) (turn_of m) w"
proof (cases "\<exists>p \<in> set ps. abs_diff (turn_of m) (payload_turn p) \<le> w")
  case True
  have "m \<in> set (session_rows db' e s)" using m by (simp add: session_stepD(1) [OF step])
  then obtain t where t: "window_text (line_at db' e s) (turn_of m) w = Some t" using window_of_row by blast
  have "m' = m" if "m' \<in> set (session_rows db e s)" "m_memory_id m' = m_memory_id m" for m'
    using step_ids [OF step] that m by (auto simp: distinct_map dest: inj_onD)
  then have "remember latest (snd (group_texts db ps w (e, s))) (m_memory_id m) = Some t"
    using True m t by (intro remember_same) (auto simp: neighbour_updates [OF step])
  then show ?thesis by (simp add: t)
next
  case False
  have "m' = m" if "m' \<in> set (session_rows db e s)" "m_memory_id m' = m_memory_id m" for m'
    using step_ids [OF step] that m by (auto simp: distinct_map dest: inj_onD)
  then have "m_memory_id m \<notin> fst ` set (snd (group_texts db ps w (e, s)))"
    using False by (auto simp: neighbour_updates [OF step])
  then show ?thesis
    using before far_text [OF step, of "turn_of m"] False turn_of_max
    by (simp add: remember_other not_le)
qed

subsection \<open>Properties\<close>


definition sample_payload :: "u32 \<Rightarrow> str \<Rightarrow> IngestPayload" where
  "sample_payload t content =
     empty_payload\<lparr>p_entity_id := ''e'', p_memory_id := ''e::s::'' @ show_nat (unat t), p_session_id := Some ''s'',
       p_turn_index := Some t, p_textual_content := content\<rparr>"

definition sample_row :: "u32 \<Rightarrow> str \<Rightarrow> memory_row" where
  "sample_row t content =
     \<lparr>m_rowid = 1 + uint t, m_memory_id = ''e::s::'' @ show_nat (unat t), m_entity_id = ''e'', m_content = content,
      m_kind = ''conversational'', m_content_hash = [], m_created_at_ms = 0, m_recorded_at_ms = 0,
      m_expires_at_ms = None, m_session_id = ''s'', m_turn_index = t, m_role = [], m_parent_memory_id = None,
      m_indexed = 0\<rparr>"

lemma sample_step:
  "session_step ''e'' ''s'' 1 (empty_store\<lparr>memories := [sample_row 1 ''b'']\<rparr>) [sample_payload 0 ''a''] [sample_row 0 ''a'']
     (empty_store\<lparr>memories := [sample_row 1 ''b'', sample_row 0 ''a'']\<rparr>)"
  by (simp add: session_step_def session_batch_def row_for_def sample_row_def sample_payload_def empty_payload_def
      is_source_turn_def session_rows_def turn_row_def turn_of_def)


end
