(* ===== verification/Query_Intent.thy ===== *)
theory Query_Intent
  imports Texts Calendar
begin

section \<open>The intent of a query\<close>

text \<open>
  Models \<open>src/api/plan/intent.rs\<close>.  The optional trained classifier is a parameter that may answer
  with an intent; without an answer the words of the query decide.
\<close>

datatype QueryIntent =
    NumericAggregation | TemporalAggregation | Recommendation | Inference | PeripheralMention | General

definition has_any :: "str \<Rightarrow> str list \<Rightarrow> bool" where
  "has_any lower ws = list_ex (contains lower) ws"

definition classify_query_intent :: "str \<Rightarrow> (str \<Rightarrow> QueryIntent option) option \<Rightarrow> QueryIntent" where
  "classify_query_intent query classifier =
     (case (case classifier of None \<Rightarrow> None | Some predict \<Rightarrow> predict query) of
        Some intent \<Rightarrow> intent
      | None \<Rightarrow>
          (let lower = to_ascii_lowercase query;
               has_specific_month = list_ex (\<lambda>month. contains lower ('' in '' @ month)) MONTHS;
               is_numeric = has_any lower [''how many'', ''number of'', ''in total'', ''total amount'', ''total money'',
                 ''combined'', ''average'', ''altogether''];
               is_temporal = starts_with lower ''when '' \<or> has_specific_month
                 \<or> has_any lower ['' last month'', '' this year'', '' past '', '' over the past'', '' before '', '' after ''];
               is_recommendation = has_any lower [''recommend'', ''suggest'', ''advice'', ''tips'', ''ideas''];
               is_inference = has_any lower [''would'', ''likely'', ''might'', ''considered'', ''be open to'',
                 ''political leaning'', ''more interested''];
               is_peripheral = has_any lower [''nickname'', ''called'', ''named'', ''as a child'', ''as a kid'',
                 ''childhood'', ''middle name'']
           in if is_numeric
              then (if has_specific_month \<or> contains lower '' before '' \<or> contains lower '' after ''
                    then TemporalAggregation else NumericAggregation)
              else if is_peripheral then PeripheralMention
              else if is_inference then Inference
              else if is_temporal then TemporalAggregation
              else if is_recommendation then Recommendation
              else General))"

subsection \<open>Ordinal ranks\<close>

definition ordinal_word :: "nat \<Rightarrow> str option" where
  "ordinal_word rank =
     (if rank = 1 then Some ''first'' else if rank = 2 then Some ''second'' else if rank = 3 then Some ''third''
      else if rank = 4 then Some ''fourth'' else if rank = 5 then Some ''fifth'' else if rank = 6 then Some ''sixth''
      else if rank = 7 then Some ''seventh'' else if rank = 8 then Some ''eighth'' else if rank = 9 then Some ''ninth''
      else if rank = 10 then Some ''tenth'' else None)"

definition ordinal_suffix :: "nat \<Rightarrow> str" where
  "ordinal_suffix rank =
     (if rank mod 10 = 1 \<and> rank mod 100 \<noteq> 11 then ''st''
      else if rank mod 10 = 2 \<and> rank mod 100 \<noteq> 12 then ''nd''
      else if rank mod 10 = 3 \<and> rank mod 100 \<noteq> 13 then ''rd''
      else ''th'')"

definition rank_token :: "nat \<Rightarrow> str" where
  "rank_token rank = show_nat rank @ ordinal_suffix rank"

definition extract_ordinal_rank :: "str \<Rightarrow> nat option" where
  "extract_ordinal_rank query =
     (let lower = to_ascii_lowercase query
      in case find (\<lambda>rank. case ordinal_word rank of None \<Rightarrow> False | Some word \<Rightarrow> contains lower word) [1..<11] of
           Some rank \<Rightarrow> Some rank
         | None \<Rightarrow> find (\<lambda>rank. contains lower (rank_token rank)) [1..<21])"

definition ordinal_tokens :: "str list" where
  "ordinal_tokens =
     [''first'', ''second'', ''third'', ''fourth'', ''fifth'', ''sixth'', ''seventh'', ''eighth'', ''ninth'',
      ''tenth'', ''1st'', ''2nd'', ''3rd'', ''4th'', ''5th'', ''6th'', ''7th'', ''8th'', ''9th'', ''10th'']"

definition strip_ordinal_tokens :: "str \<Rightarrow> str" where
  "strip_ordinal_tokens query =
     normalize_fact_text (join '' '' (filter
       (\<lambda>raw. to_ascii_lowercase (trim_matches (\<lambda>c. \<not> is_alnum c) raw) \<notin> set ordinal_tokens)
       (split_whitespace query)))"

subsection \<open>Which ranks are found\<close>

lemma contains_suffix: "contains s (p @ q) \<Longrightarrow> contains s q"
  unfolding contains_iff by (metis append.assoc)

lemma find_first: "find P (xs @ ys) = Some y \<Longrightarrow> y \<notin> set xs \<Longrightarrow> (\<forall>x \<in> set xs. \<not> P x) \<and> P y"
  by (induction xs) (auto split: if_splits dest: find_Some_iff [THEN iffD1])

lemma teen_hides:
  "contains lower (rank_token 14) \<Longrightarrow> contains lower (rank_token 4)"
  "contains lower (rank_token 15) \<Longrightarrow> contains lower (rank_token 5)"
  "contains lower (rank_token 16) \<Longrightarrow> contains lower (rank_token 6)"
  "contains lower (rank_token 17) \<Longrightarrow> contains lower (rank_token 7)"
  "contains lower (rank_token 18) \<Longrightarrow> contains lower (rank_token 8)"
  "contains lower (rank_token 19) \<Longrightarrow> contains lower (rank_token 9)"
  using contains_suffix [of lower "[digit_char 1]"] by (simp_all add: rank_token_def ordinal_suffix_def show_nat.simps)

lemma find_upt:
  assumes "find P [a..<b] = Some r"
  shows "a \<le> r \<and> r < b \<and> P r \<and> (\<forall>x. a \<le> x \<and> x < r \<longrightarrow> \<not> P x)"
proof -
  obtain i where i: "i < length [a..<b]" "P ([a..<b] ! i)" "r = [a..<b] ! i" "\<forall>j < i. \<not> P ([a..<b] ! j)"
    using assms by (auto simp: find_Some_iff)
  have "\<not> P x" if "a \<le> x" "x < r" for x
    using i that i(4) [rule_format, of "x - a"] by simp
  then show ?thesis using i by auto
qed

lemma ranks_by_token:
  assumes "find (\<lambda>rank. contains lower (rank_token rank)) [1..<21] = Some r"
  shows "r \<in> {1..13} \<union> {20}"
proof -
  from find_upt [OF assms] have r: "1 \<le> r" "r < 21" "contains lower (rank_token r)"
    and least: "\<And>x. 1 \<le> x \<Longrightarrow> x < r \<Longrightarrow> \<not> contains lower (rank_token x)" by auto
  have "r \<noteq> 14 \<and> r \<noteq> 15 \<and> r \<noteq> 16 \<and> r \<noteq> 17 \<and> r \<noteq> 18 \<and> r \<noteq> 19"
    using r(3) teen_hides [of lower] least [of 4] least [of 5] least [of 6] least [of 7] least [of 8] least [of 9]
    by (intro conjI notI) simp_all
  then show ?thesis using r(1,2) by auto
qed

subsection \<open>Properties\<close>



end
