(* ===== verification/Expansions.thy ===== *)
theory Expansions
  imports Query_Intent Claims
begin

section \<open>Expansions of a query\<close>

text \<open>
  Models \<open>src/api/plan/expansions.rs\<close>: the terms, facets, requirements and alternative queries the
  planner derives from a query.  Whether a character is alphanumeric is the parameter \<open>alnum\<close>; the
  expansion rules are read from a JSON file and a parameter, a list of triggers and expansions.
\<close>

definition generic_drop :: "str list" where
  "generic_drop =
     [''what'', ''when'', ''where'', ''who'', ''why'', ''how'', ''would'', ''could'', ''should'', ''did'',
      ''does'', ''do'', ''is'', ''are'', ''was'', ''were'', ''be'', ''been'', ''likely'', ''might'', ''will'',
      ''can'', ''have'', ''has'', ''had'', ''kind'', ''kinds'', ''type'', ''types'', ''sort'', ''sorts'',
      ''thing'', ''things'', ''person'', ''people'', ''event'', ''events'', ''activity'', ''activities'',
      ''cause'', ''causes'', ''item'', ''items'', ''area'', ''areas'', ''status'', ''focus'']"

definition build_keyword_query :: "(str \<Rightarrow> bool) \<Rightarrow> str \<Rightarrow> str option" where
  "build_keyword_query alnum query =
     (let tokens = map singularize_token (tokenize_for_similarity alnum query);
          kept = (if 5 < length tokens then filter (\<lambda>token. token \<notin> set generic_drop) tokens else tokens);
          keyword_query = join '' '' (dedupe_preserve_order kept)
      in if keyword_query \<noteq> [] then Some keyword_query else None)"

subsection \<open>Expansion terms\<close>

definition push_expansion_term :: "nat \<Rightarrow> str list \<Rightarrow> str \<Rightarrow> str list" where
  "push_expansion_term min_len out word =
     (let t = singularize_token (to_ascii_lowercase (trim word))
      in if min_len \<le> length t \<and> t \<notin> set out then out @ [t] else out)"

definition push_expansion_terms :: "str list \<Rightarrow> str list \<Rightarrow> str list" where
  "push_expansion_terms out terms = foldl (push_expansion_term 3) out terms"

text \<open>Two- and three-letter prefixes of the entities' names.\<close>

definition push_short_names :: "str list \<Rightarrow> str list \<Rightarrow> str list" where
  "push_short_names out entities =
     foldl (\<lambda>out entity.
       let alpha = filter is_alpha (to_ascii_lowercase entity)
       in if 4 \<le> length alpha
          then push_expansion_term 3 (push_expansion_term 2 out (take 2 alpha)) (take 3 alpha) else out)
       out entities"

definition slot_terms :: "str \<Rightarrow> str list" where
  "slot_terms slot =
     (if slot = ''relationship_status'' then [''married'', ''single'', ''dating'', ''partner'']
      else if slot = ''children_count'' then [''child'', ''children'', ''kid'', ''daughter'', ''son'']
      else if slot = ''martial_arts'' then [''karate'', ''judo'', ''boxing'', ''taekwondo'']
      else if slot = ''certificate'' then [''certificate'', ''certified'', ''course'', ''training'']
      else if slot = ''financial_status'' then [''money'', ''cash'', ''income'', ''afford'', ''expensive'', ''earning'']
      else if slot = ''health_issue'' then [''health'', ''symptom'', ''doctor'', ''pain'', ''injury'', ''diagnosis'']
      else if slot = ''favorite_team'' then [''favorite'', ''team'', ''support'', ''fan'']
      else if slot = ''nickname'' then [''nickname'', ''called'', ''call'', ''name'', ''named'', ''short'']
      else if slot = ''hobbies'' then [''hobby'', ''activity'', ''enjoy'', ''like'', ''interest'', ''practice'']
      else if slot = ''purchase'' then [''buy'', ''bought'', ''purchase'', ''new'', ''recently'', ''acquired'']
      else if slot = ''travel_location'' then [''travel'', ''trip'', ''visit'', ''visited'', ''vacation'', ''city'', ''state'']
      else [])"

definition push_if :: "bool \<Rightarrow> str list \<Rightarrow> str list \<Rightarrow> str list" where
  "push_if b terms out = (if b then push_expansion_terms out terms else out)"

definition topic_terms :: "(str list \<Rightarrow> bool) \<Rightarrow> str \<Rightarrow> bool \<Rightarrow> QueryIntent \<Rightarrow> str list \<Rightarrow> str list" where
  "topic_terms has_any_singular lower tuned intent out =
     (let out = push_if (has_any_singular [''education'', ''edu'', ''educaton'', ''field'', ''career'', ''job'', ''profession'']
              \<or> (tuned \<and> list_ex (contains lower) [''career path'', ''career option'', ''future job'']))
            [''education'', ''study'', ''school'', ''career'', ''job'', ''profession'', ''training''] out;
          out = push_if (has_any_singular [''book'', ''books'', ''bookshelf'', ''library'', ''read'', ''reading'']
              \<or> (tuned \<and> list_ex (contains lower) [''dr. seuss'', ''dr seuss'']))
            [''book'', ''library'', ''story'', ''stories'', ''read'', ''reading'', ''classic'', ''educational'',
              ''children'', ''kid''] out;
          out = push_if ((tuned \<and> contains lower ''national park'')
              \<or> has_any_singular [''outdoor'', ''outdoors'', ''nature''])
            [''nature'', ''outdoor'', ''outdoors'', ''camping'', ''hiking'', ''trail'', ''mountain'', ''beach'',
              ''campfire'', ''wildlife''] out;
          out = push_if (tuned \<and> list_ex (contains lower) [''theme park'', ''amusement park''])
            [''theme'', ''amusement'', ''ride'', ''roller'', ''coaster'', ''fun''] out;
          location_trigger = has_any_singular [''state'', ''city'', ''country'', ''location'', ''place'', ''travel'', ''trip'', ''visit''];
          living_trigger = has_any_singular [''live'', ''lives'', ''living'', ''located'', ''home'', ''near'', ''close''];
          out = (if living_trigger \<and> has_any_singular [''state'', ''city'', ''country'', ''location'', ''place'', ''beach'', ''mountain'']
            then push_expansion_terms out [''live'', ''lives'', ''living'', ''home'', ''local'', ''nearby'', ''neighborhood'', ''beach'',
              ''mountain'', ''state'', ''city'']
            else push_if location_trigger
              [''travel'', ''trip'', ''visit'', ''visited'', ''went'', ''vacation'', ''city'', ''state'',
              ''country'', ''place''] out);
          out = push_if (list_ex (contains lower) [''another country'', ''move to'', ''moving'', ''relocate''])
            [''move'', ''moving'', ''relocate'', ''abroad'', ''country'', ''overseas'', ''travel'', ''language'',
              ''culture'', ''open''] out;
          out = push_if (list_ex (contains lower) [''feel about'', ''felt about'', ''think about'', ''say about'']
              \<or> has_any_singular [''supporting'', ''support'', ''supported''])
            [''feel'', ''felt'', ''think'', ''support'', ''proud'', ''grateful'', ''thankful'', ''strength'',
              ''motivation'', ''rock'', ''family''] out
      in push_if (intent = Inference \<or> intent = Recommendation)
           [''prefer'', ''enjoy'', ''like'', ''value'', ''believe'', ''support'', ''interest'', ''passion''] out)"

definition build_query_expansion_terms_with_profile_and_rules ::
  "str \<Rightarrow> str option \<Rightarrow> QueryIntent \<Rightarrow> str list \<Rightarrow> Profile \<Rightarrow> (str list \<times> str list) list \<Rightarrow> str list" where
  "build_query_expansion_terms_with_profile_and_rules query slot_key intent subject_entities profile rules =
     (let lower = to_ascii_lowercase query;
          tokens = map singularize_token (normalize_alpha_tokens query);
          has = (\<lambda>needle. needle \<in> set tokens);
          slotted = (case slot_key of None \<Rightarrow> [] | Some slot \<Rightarrow> push_expansion_terms [] (slot_terms slot));
          named = (if slot_key = None \<or> slot_key = Some ''nickname'' then push_short_names slotted subject_entities
                   else slotted);
          ruled = foldl (\<lambda>out (trigger_tokens, expansions).
                    if list_ex has trigger_tokens then push_expansion_terms out expansions else out) named rules
      in take 24 (topic_terms (list_ex has) lower (benchmark_tuned_rules profile) intent ruled))"

definition build_expansion_query :: "str list \<Rightarrow> str list \<Rightarrow> str option" where
  "build_expansion_query entities expansion_terms =
     (if expansion_terms = [] then None
      else let parts = take 2 entities @ take 10 expansion_terms
           in if parts \<noteq> [] then Some (join '' '' parts) else None)"

subsection \<open>Alternative queries\<close>

definition quoted :: "str \<Rightarrow> str" where
  "quoted t = [CHR 0x22] @ t @ [CHR 0x22]"

definition build_hypothetical_semantic_queries :: "str \<Rightarrow> str list \<Rightarrow> bool \<Rightarrow> QueryIntent \<Rightarrow> str list" where
  "build_hypothetical_semantic_queries query entities cross_entity intent =
     (let entity_span = (if entities = [] then ''the people in this dialogue'' else join '' and '' entities)
      in dedupe_preserve_order
           ([''A memory snippet about '' @ entity_span @ '' that answers: '' @ query]
            @ (if cross_entity
               then [''A shared event involving '' @ join '' and '' entities @ '' with concrete details, dates, and context'']
               else [])
            @ (case intent of
                 Inference \<Rightarrow> [''Evidence describing preferences, values, attitudes, and likely opinions for '' @ entity_span]
               | PeripheralMention \<Rightarrow>
                   [''An offhand mention about nicknames, names, childhood details, or side facts for '' @ entity_span]
               | TemporalAggregation \<Rightarrow>
                   [''A timeline statement with explicit dates and time references for '' @ entity_span]
               | NumericAggregation \<Rightarrow>
                   [''A countable statement with quantities, frequency, or totals for '' @ entity_span]
               | _ \<Rightarrow> [])))"

definition build_inference_semantic_hints :: "str \<Rightarrow> str list \<Rightarrow> str list" where
  "build_inference_semantic_hints query entities =
     (query @ '' based on preferences values opinions personality behaviors'')
       # map (\<lambda>entity. entity @ '' preferences beliefs values personality'') entities"

definition cue_tokens :: "str list" where
  "cue_tokens = [''nickname'', ''called'', ''named'', ''name'', ''child'', ''childhood'', ''as'', ''kid'', ''pet'', ''middle'']"

definition build_peripheral_fts_query :: "str \<Rightarrow> str list \<Rightarrow> str option" where
  "build_peripheral_fts_query query entities =
     (let selected = dedupe_preserve_order
            (take 4 (filter (\<lambda>t. t \<in> set cue_tokens \<or> 5 \<le> length t) (normalize_alpha_tokens query))
             @ map to_ascii_lowercase (take 2 entities))
      in if selected = [] then None else Some (join '' '' (map quoted selected)))"

definition humanize_slot_key :: "str \<Rightarrow> str" where
  "humanize_slot_key slot_key = map (\<lambda>c. if c = CHR ''_'' then CHR '' '' else c) slot_key"

definition build_fact_slot_queries :: "str \<Rightarrow> str list \<Rightarrow> str \<Rightarrow> str list \<times> str list" where
  "build_fact_slot_queries query entities slot_key =
     (let slot = humanize_slot_key slot_key
      in (dedupe_preserve_order
            ([''canonical fact '' @ slot @ '' '' @ query, ''fact about '' @ slot @ '' '' @ query]
             @ map (\<lambda>entity. entity @ '' canonical fact '' @ slot) (take 2 entities)),
          dedupe_preserve_order
            ([quoted slot, quoted ''canonical fact'' @ '' '' @ quoted slot]
             @ map (\<lambda>entity. quoted entity @ '' '' @ quoted slot) (take 2 entities))))"

definition build_cross_entity_subqueries :: "str \<Rightarrow> str list \<Rightarrow> str list \<times> str list" where
  "build_cross_entity_subqueries query entities =
     (case entities of
        a # b # _ \<Rightarrow>
          (map (\<lambda>entity. entity @ '' '' @ query) entities @ [a @ '' '' @ b @ '' shared common''],
           map (\<lambda>entity. quoted entity @ '' '' @ query) entities @ [quoted a @ '' '' @ quoted b])
      | _ \<Rightarrow> ([], []))"

definition build_purchase_queries :: "str \<Rightarrow> str list \<Rightarrow> str list \<times> str list" where
  "build_purchase_queries query entities =
     (dedupe_preserve_order
        ([query @ '' bought purchased acquired new item'', ''purchase bought recently new item '' @ query]
         @ map (\<lambda>entity. entity @ '' bought purchased acquired new item'') (take 2 entities)),
      dedupe_preserve_order
        ([query @ '' bought purchased acquired'', quoted ''bought'' @ '' '' @ quoted ''new'',
          quoted ''bought'' @ '' '' @ quoted ''recently'', quoted ''purchased'' @ '' '' @ quoted ''recently'']
         @ concat (map (\<lambda>entity. [quoted entity @ '' '' @ quoted ''bought'', quoted entity @ '' '' @ quoted ''purchased''])
                     (take 2 entities))))"

subsection \<open>The fact a query asks for\<close>

definition is_purchase_query :: "str \<Rightarrow> bool" where
  "is_purchase_query query =
     (let has = has_token (normalize_alpha_tokens query); lower = to_ascii_lowercase query
      in has ''buy'' \<or> has ''bought'' \<or> has ''purchase'' \<or> has ''purchased'' \<or> has ''acquired''
         \<or> ((has ''get'' \<or> has ''got'') \<and> (has ''new'' \<or> has ''recently'' \<or> contains lower ''what did'')))"

definition infer_query_fact_key_with_profile :: "str \<Rightarrow> Profile \<Rightarrow> str option" where
  "infer_query_fact_key_with_profile query profile =
     (let lower = to_ascii_lowercase query; has = has_token (normalize_alpha_tokens query)
      in if contains lower ''relationship status''
            \<or> list_ex (contains lower) [''married'', ''single'', ''divorced'', ''engaged'', ''dating'']
           then Some ''relationship_status''
         else if contains lower ''nickname'' \<or> (contains lower ''what is the name of'' \<and> contains lower ''pet'')
            \<or> contains lower ''called'' then Some ''nickname''
         else if (has ''children'' \<or> has ''kids'' \<or> has ''child'') \<and> contains lower ''how many''
           then Some ''children_count''
         else if contains lower ''martial art''
            \<or> list_ex (contains lower) [''karate'', ''judo'', ''taekwondo'', ''jiujitsu'', ''jitsu'', ''boxing'']
           then Some ''martial_arts''
         else if has ''research'' then Some ''research_topic''
         else if has ''certificate'' \<or> has ''certified'' then Some ''certificate''
         else if has ''financial'' \<and> has ''status'' then Some ''financial_status''
         else if has ''health'' \<and> has ''problem'' then Some ''health_issue''
         else if has ''team'' \<and> (has ''support'' \<or> has ''favorite'') then Some ''favorite_team''
         else if has ''recipe'' \<or> contains lower ''ice cream'' then Some ''recipe''
         else if has ''hobby'' \<or> contains lower ''activities does'' \<or> contains lower ''activities has''
           then Some ''hobbies''
         else if is_purchase_query query then Some ''purchase''
         else if has ''state'' \<and> (has ''visit'' \<or> has ''travel'' \<or> has ''vacation'') then Some ''travel_location''
         else None)"

subsection \<open>Facets and requirements\<close>

record CoverageFacet =
  cf_text :: str
  cf_lexical_terms :: "str list"
  cf_temporal_terms :: "str list"
  cf_entities :: "str list"

record QueryRequirement =
  qr_text :: str
  qr_lexical_terms :: "str list"
  qr_temporal_terms :: "str list"
  qr_entities :: "str list"
  qr_require_all_entities :: bool

definition signal_terms :: "(str \<Rightarrow> bool) \<Rightarrow> str \<Rightarrow> str list" where
  "signal_terms alnum t =
     dedupe_preserve_order (filter (\<lambda>token. \<not> is_low_signal_keyword token)
       (map singularize_token (tokenize_for_similarity alnum t)))"

definition make_coverage_facet :: "(str \<Rightarrow> bool) \<Rightarrow> str \<Rightarrow> str list \<Rightarrow> CoverageFacet option" where
  "make_coverage_facet alnum t entities =
     (let normalized = normalize_fact_text t
      in if normalized = [] then None
         else Some \<lparr>cf_text = normalized, cf_lexical_terms = signal_terms alnum normalized,
                    cf_temporal_terms = extract_temporal_terms normalized, cf_entities = dedupe_preserve_order entities\<rparr>)"

definition make_query_requirement :: "(str \<Rightarrow> bool) \<Rightarrow> str \<Rightarrow> str list \<Rightarrow> bool \<Rightarrow> QueryRequirement option" where
  "make_query_requirement alnum t entities require_all_entities =
     (let normalized = normalize_fact_text t
      in if normalized = [] then None
         else Some \<lparr>qr_text = normalized, qr_lexical_terms = signal_terms alnum normalized,
                    qr_temporal_terms = extract_temporal_terms normalized, qr_entities = dedupe_preserve_order entities,
                    qr_require_all_entities = require_all_entities\<rparr>)"

record query_cues =
  qc_query :: str
  qc_keyword_query :: "str option"
  qc_subject_entities :: "str list"
  qc_cross_entity :: bool
  qc_ordinal_rank :: "nat option"
  qc_slot_key :: "str option"
  qc_expansion_terms :: "str list"

text \<open>The texts both lists are built from, in the order of the code, apart from those about several entities.\<close>

definition keyword_text :: "query_cues \<Rightarrow> str list" where
  "keyword_text c =
     (case qc_keyword_query c of
        None \<Rightarrow> [] | Some k \<Rightarrow> if eq_ignore_ascii_case k (qc_query c) then [] else [k])"

definition slot_text :: "query_cues \<Rightarrow> str list" where
  "slot_text c = (case qc_slot_key c of None \<Rightarrow> [] | Some s \<Rightarrow> [''canonical fact '' @ humanize_slot_key s])"

definition expansion_text :: "query_cues \<Rightarrow> str list" where
  "expansion_text c =
     (case build_expansion_query (qc_subject_entities c) (qc_expansion_terms c) of None \<Rightarrow> [] | Some e \<Rightarrow> [e])"

definition stripped_text :: "query_cues \<Rightarrow> str list" where
  "stripped_text c =
     (let stripped = strip_ordinal_tokens (qc_query c)
      in if qc_ordinal_rank c \<noteq> None \<and> stripped \<noteq> [] \<and> \<not> eq_ignore_ascii_case stripped (qc_query c)
         then [stripped] else [])"

definition facet_key :: "CoverageFacet \<Rightarrow> str" where
  "facet_key f = to_ascii_lowercase (cf_text f) @ ''|'' @ to_ascii_lowercase (join ''|'' (cf_entities f))"

definition build_coverage_facets :: "(str \<Rightarrow> bool) \<Rightarrow> query_cues \<Rightarrow> CoverageFacet list" where
  "build_coverage_facets alnum c =
     (let subjects = qc_subject_entities c;
          base = (case qc_keyword_query c of None \<Rightarrow> qc_query c | Some k \<Rightarrow> k);
          asked = map (\<lambda>t. (t, subjects)) ([qc_query c] @ keyword_text c @ slot_text c @ expansion_text c)
            @ (if qc_cross_entity c then map (\<lambda>entity. (entity @ '' '' @ base, [entity])) (take 3 subjects) else [])
            @ map (\<lambda>t. (t, subjects)) (stripped_text c)
      in take 8 (unseen facet_key {} (List.map_filter (\<lambda>(t, es). make_coverage_facet alnum t es) asked)))"

definition show_bool :: "bool \<Rightarrow> str" where
  "show_bool b = (if b then ''true'' else ''false'')"

definition requirement_key :: "QueryRequirement \<Rightarrow> str" where
  "requirement_key r =
     to_ascii_lowercase (qr_text r) @ ''|'' @ to_ascii_lowercase (join ''|'' (qr_entities r)) @ ''|''
       @ show_bool (qr_require_all_entities r)"

definition entity_requirement_text :: "str list \<Rightarrow> str list \<Rightarrow> str \<Rightarrow> str" where
  "entity_requirement_text subjects focus_terms entity =
     (let focus = take 2 (filter (\<lambda>t. \<not> list_ex (\<lambda>name. eq_ignore_ascii_case name t) subjects) focus_terms)
      in if focus = [] then entity else entity @ '' '' @ join '' '' focus)"

definition build_query_requirements :: "(str \<Rightarrow> bool) \<Rightarrow> query_cues \<Rightarrow> QueryRequirement list" where
  "build_query_requirements alnum c =
     (let subjects = qc_subject_entities c;
          focus_terms = extract_salient_terms alnum (case qc_keyword_query c of None \<Rightarrow> qc_query c | Some k \<Rightarrow> k) 3;
          joint = qc_cross_entity c \<and> subjects \<noteq> [];
          asked = map (\<lambda>t. (t, subjects, joint)) ([qc_query c] @ keyword_text c)
            @ map (\<lambda>t. (t, subjects, False)) (slot_text c @ expansion_text c)
            @ (if joint then (qc_query c, subjects, True)
                 # map (\<lambda>entity. (entity_requirement_text subjects focus_terms entity, [entity], False)) (take 3 subjects)
               else [])
            @ map (\<lambda>t. (t, subjects, False)) (stripped_text c)
      in take 8 (unseen requirement_key {}
           (List.map_filter (\<lambda>(t, es, require_all). make_query_requirement alnum t es require_all) asked)))"

subsection \<open>Properties\<close>

lemma unseen_distinct: "distinct (map key (unseen key seen xs)) \<and> key ` set (unseen key seen xs) \<inter> seen = {}"
  by (induction key seen xs rule: unseen.induct) auto

lemma distinct_take_unseen: "distinct (map key (take n (unseen key {} xs)))"
  using unseen_distinct [of key "{}" xs] by (metis distinct_take take_map)

text \<open>What pushing keeps: no term twice, none in upper case or shorter than two bytes.\<close>

definition terms_ok :: "str list \<Rightarrow> bool" where
  "terms_ok ts \<longleftrightarrow> distinct ts \<and> list_all (\<lambda>t. 2 \<le> length t \<and> to_ascii_lowercase t = t) ts"

lemma lowercase_append: "to_ascii_lowercase (a @ b) = to_ascii_lowercase a @ to_ascii_lowercase b"
  by (simp add: to_ascii_lowercase_def)

lemma lowercase_take: "to_ascii_lowercase (take n (to_ascii_lowercase t)) = take n (to_ascii_lowercase t)"
  by (simp add: to_ascii_lowercase_def take_map [symmetric] comp_def)

lemma singularize_lower: "to_ascii_lowercase (singularize_token t) = singularize_token t"
  by (simp add: singularize_token_def Let_def lowercase_append lowercase_take)
    (simp add: to_ascii_lowercase_def lower_char_def is_upper_def)

lemma push_ok: "terms_ok out \<Longrightarrow> 2 \<le> n \<Longrightarrow> terms_ok (push_expansion_term n out t)"
  by (auto simp: push_expansion_term_def terms_ok_def Let_def singularize_lower)

lemma push_terms_ok: "terms_ok out \<Longrightarrow> terms_ok (push_expansion_terms out ts)"
  unfolding push_expansion_terms_def by (induction ts arbitrary: out) (simp_all add: push_ok)

lemma push_if_ok: "terms_ok out \<Longrightarrow> terms_ok (push_if b ts out)"
  by (simp add: push_if_def push_terms_ok)

lemma push_names_ok: "terms_ok out \<Longrightarrow> terms_ok (push_short_names out es)"
  unfolding push_short_names_def by (induction es arbitrary: out) (simp_all add: push_ok Let_def)

lemma topic_terms_ok: "terms_ok out \<Longrightarrow> terms_ok (topic_terms h l b i out)"
  unfolding topic_terms_def Let_def by (intro push_if_ok) (simp add: push_if_ok push_terms_ok)

lemma terms_ok_take: "terms_ok ts \<Longrightarrow> terms_ok (take n ts)"
  by (auto simp: terms_ok_def list_all_iff dest: in_set_takeD)

text \<open>
  The lists the planner derives are bounded and free of repetitions: at most twenty-four expansion
  terms, distinct, in lower case and of two bytes or more, and at most eight facets and eight
  requirements with distinct keys.
\<close>

theorem planner_lists_bounded:
  "let ts = build_query_expansion_terms_with_profile_and_rules query slot intent entities profile rules;
       fs = build_coverage_facets alnum c; rs = build_query_requirements alnum c
   in length ts \<le> 24 \<and> terms_ok ts
      \<and> length fs \<le> 8 \<and> distinct (map facet_key fs)
      \<and> length rs \<le> 8 \<and> distinct (map requirement_key rs)"
proof -
  have ruled: "terms_ok (foldl (\<lambda>out (trigger_tokens, expansions).
      if list_ex h trigger_tokens then push_expansion_terms out expansions else out) out rules)" if "terms_ok out" for h out
    using that by (induction rules arbitrary: out) (auto simp: push_terms_ok split: prod.split)
  have slotted: "terms_ok (case slot of None \<Rightarrow> [] | Some s \<Rightarrow> push_expansion_terms [] (slot_terms s))"
    by (auto simp: terms_ok_def push_terms_ok [unfolded terms_ok_def, of "[]"] split: option.split)
  have "terms_ok (build_query_expansion_terms_with_profile_and_rules query slot intent entities profile rules)"
    unfolding build_query_expansion_terms_with_profile_and_rules_def Let_def
    by (intro terms_ok_take topic_terms_ok ruled) (simp add: slotted push_names_ok)
  moreover have "distinct (map facet_key (build_coverage_facets alnum c))"
    "distinct (map requirement_key (build_query_requirements alnum c))"
    unfolding build_coverage_facets_def build_query_requirements_def Let_def by (rule distinct_take_unseen)+
  moreover have "length (build_query_expansion_terms_with_profile_and_rules query slot intent entities profile rules) \<le> 24"
    "length (build_coverage_facets alnum c) \<le> 8" "length (build_query_requirements alnum c) \<le> 8"
    by (simp_all add: build_query_expansion_terms_with_profile_and_rules_def build_coverage_facets_def
        build_query_requirements_def Let_def)
  ultimately show ?thesis by (simp only: Let_def simp_thms)
qed

end
