(* ===== verification/Query_Plan.thy ===== *)
theory Query_Plan
  imports Expansions
begin

section \<open>The plan of a query\<close>

text \<open>
  Models \<open>src/api/plan/builder.rs\<close>, \<open>src/api/plan/rewrite.rs\<close> and the functions of
  \<open>src/api/plan/scoring.rs\<close> that read the query alone.  The classifier, the table of alphanumeric
  characters, the Unicode lower case of \<open>str::to_lowercase\<close> and the expansion rules are parameters.
\<close>

subsection \<open>Who the query is about\<close>

definition apostrophe_s :: str where
  "apostrophe_s = [CHR 0x27, CHR ''s'']"

definition s_apostrophe :: str where
  "s_apostrophe = [CHR ''s'', CHR 0x27]"

definition normalize_subject_entity_phrase :: "str \<Rightarrow> str" where
  "normalize_subject_entity_phrase phrase =
     (let normalized = trim_matches (\<lambda>c. \<not> is_alnum c \<and> c \<noteq> CHR 0x27 \<and> c \<noteq> CHR '' '') (trim phrase);
          lower = to_ascii_lowercase normalized
      in trim (if ends_with lower apostrophe_s then take (length normalized - 2) normalized
               else if ends_with lower s_apostrophe then take (length normalized - 1) normalized
               else normalized))"

definition subject_stop :: "str list" where
  "subject_stop =
     [''what'', ''when'', ''where'', ''who'', ''why'', ''how'', ''which'', ''would'', ''could'', ''should'',
      ''did'', ''does'', ''is'', ''are'', ''was'', ''were'', ''can'', ''will'', ''might'', ''likely'',
      ''both'', ''and'', ''or'', ''the'', ''a'', ''an'', ''of'', ''in'', ''on'', ''for'', ''to'', ''with'',
      ''from'']"

definition extract_subject_entities :: "str \<Rightarrow> str list" where
  "extract_subject_entities query =
     dedupe_preserve_order
       (filter (\<lambda>phrase. let tokens = normalize_alpha_tokens phrase in tokens \<noteq> [] \<and> length tokens \<le> 2)
         (filter (\<lambda>phrase. to_ascii_lowercase phrase \<notin> set subject_stop)
           (filter (\<lambda>phrase. phrase \<noteq> [])
             (map normalize_subject_entity_phrase (extract_named_phrases [query])))))"

subsection \<open>What the query prefers\<close>

definition coverage_starts :: "str list" where
  "coverage_starts =
     [''what items'', ''what activities'', ''what places'', ''what locations'', ''which locations'',
      ''which places'', ''which cities'', ''which states'', ''which countries'', ''what kinds'',
      ''what kind of'', ''what types'', ''what type of'', ''what attributes'', ''what hobbies'',
      ''what problems'', ''what events'', ''what projects'', ''what recipes'', ''what classes'',
      ''what shared'', ''where has'', ''where have'', ''who are'', ''which of'']"

definition coverage_cues :: "str list" where
  "coverage_cues =
     ['' both '', '' and '', '' shared '', '' in common'', '' has '', '' have '', '' have been '', '' does '',
      '' do '', '' besides '', '' other than '', '' over time'', '' across'', '' different '']"

definition list_nouns :: "str list" where
  "list_nouns =
     [''activities'', ''places'', ''locations'', ''cities'', ''states'', ''countries'', ''items'',
      ''attributes'', ''hobbies'', ''problems'', ''events'', ''classes'', ''projects'', ''pets'', ''dogs'',
      ''friends'', ''family members'', ''volunteering'']"

definition is_coverage_style_query :: "str \<Rightarrow> bool" where
  "is_coverage_style_query query =
     (let lower = to_ascii_lowercase query
      in list_ex (starts_with lower) coverage_starts
         \<or> (list_ex (contains lower) coverage_cues \<and> list_ex (contains lower) list_nouns))"

definition query_prefers_distilled :: "str \<Rightarrow> bool" where
  "query_prefers_distilled query =
     (let lower = to_ascii_lowercase query; tokens = normalize_alpha_tokens query
      in contains lower ''in common''
         \<or> list_ex (has_token tokens) [''both'', ''why'', ''might'', ''would'', ''considered'', ''future'']
         \<or> list_ex (has_token tokens) [''causes'', ''activities'', ''events'', ''areas'', ''items'', ''names'', ''people'',
              ''focus'', ''many'', ''likely'', ''infer'', ''inference'', ''prefer'', ''preference''])"

definition query_prefers_episodic :: "str \<Rightarrow> bool" where
  "query_prefers_episodic query =
     (let lower = to_ascii_lowercase query; tokens = normalize_alpha_tokens query
      in \<not> query_prefers_distilled query
         \<and> (list_ex (starts_with lower) [''when '', ''where '', ''who '', ''what did '', ''what was '', ''what is '',
               ''how many '', ''which '']
            \<or> list_ex (has_token tokens) [''photo'', ''shared'', ''made'', ''watched'', ''went'', ''happened'']))"

definition PAST :: "str list" where
  "PAST =
     ['' used to '', '' before '', '' previously '', '' as of '', '' back in '', '' last year '',
      '' originally '', '' at first '', '' formerly '']"

definition CURRENT :: "str list" where
  "CURRENT =
     ['' currently '', '' current '', '' right now '', '' now '', '' these days '', '' at present '',
      '' at the moment '', '' latest '', '' most recent '', '' nowadays '', '' still '', '' anymore '']"

definition query_prefers_latest :: "str \<Rightarrow> bool" where
  "query_prefers_latest query =
     (let lower = '' '' @ map (\<lambda>c. if c \<in> set ''?.,!'' then CHR '' '' else c) (to_ascii_lowercase query) @ '' ''
      in \<not> list_ex (contains lower) PAST \<and> list_ex (contains lower) CURRENT)"

subsection \<open>The plan\<close>

record QueryPlan =
  qp_semantic_queries :: "str list"
  qp_fts_queries :: "str list"
  qp_coverage_facets :: "CoverageFacet list"
  qp_requirements :: "QueryRequirement list"
  qp_prefer_distilled :: bool
  qp_prefer_episodic :: bool
  qp_temporal_terms :: "str list"
  qp_lexical_terms :: "str list"
  qp_intent :: QueryIntent
  qp_subject_entities :: "str list"
  qp_cross_entity :: bool
  qp_needs_decomposition :: bool
  qp_coverage_mode :: bool
  qp_ordinal_rank :: "nat option"
  qp_fact_key :: "str option"
  qp_prefers_latest :: bool

definition multi_hop_cue :: "str \<Rightarrow> bool" where
  "multi_hop_cue lower =
     list_ex (contains lower) ['' both '', '' and '', '' shared '', '' share '', '' in common'', '' compare'', '' similar'', '' same '']"

definition question_words :: "str \<Rightarrow> bool" where
  "question_words lower = list_ex (contains lower) ['' would '', '' could '', '' why '', '' how '']"

text \<open>The semantic and the lexical queries, in the order they are pushed.\<close>

definition ordinal_queries :: "str \<Rightarrow> nat option \<Rightarrow> str list \<times> str list" where
  "ordinal_queries query ordinal_rank =
     (case ordinal_rank of
        None \<Rightarrow> ([], [])
      | Some rank \<Rightarrow>
          (let stripped = strip_ordinal_tokens query;
               asked = (if stripped \<noteq> [] \<and> \<not> eq_ignore_ascii_case stripped query then [stripped] else [])
           in (asked, asked @ (case ordinal_word rank of None \<Rightarrow> [] | Some word \<Rightarrow> [quoted word]))))"

definition option_list :: "'a option \<Rightarrow> 'a list" where
  "option_list x = (case x of None \<Rightarrow> [] | Some y \<Rightarrow> [y])"

definition plan_queries :: "query_cues \<Rightarrow> QueryIntent \<Rightarrow> str list \<times> str list" where
  "plan_queries c intent =
     (let query = qc_query c;
          entities = qc_subject_entities c;
          both = option_list (qc_keyword_query c) @ option_list (build_expansion_query entities (qc_expansion_terms c));
          (slot_semantic, slot_fts) = (case qc_slot_key c of
              None \<Rightarrow> ([], []) | Some slot_key \<Rightarrow> build_fact_slot_queries query entities slot_key);
          (ordinal_semantic, ordinal_fts) = ordinal_queries query (qc_ordinal_rank c);
          (cross_semantic, cross_fts) =
            (if qc_cross_entity c then build_cross_entity_subqueries query entities else ([], []));
          hints = (if intent = Inference then build_inference_semantic_hints query entities else []);
          peripheral = (if intent = PeripheralMention then option_list (build_peripheral_fts_query query entities) else []);
          (purchase_semantic, purchase_fts) =
            (if is_purchase_query query then build_purchase_queries query entities else ([], []))
      in ([query] @ both @ slot_semantic
            @ build_hypothetical_semantic_queries query entities (qc_cross_entity c) intent
            @ ordinal_semantic @ cross_semantic @ hints @ purchase_semantic,
          [query] @ both @ slot_fts @ ordinal_fts @ cross_fts @ peripheral @ purchase_fts))"

definition build_query_plan_with_profile_and_rules ::
  "(str \<Rightarrow> bool) \<Rightarrow> str \<Rightarrow> (str \<Rightarrow> QueryIntent option) option \<Rightarrow> Profile \<Rightarrow> (str list \<times> str list) list \<Rightarrow> QueryPlan" where
  "build_query_plan_with_profile_and_rules alnum query classifier profile rules =
     (let lower = to_ascii_lowercase query;
          keyword_query = build_keyword_query alnum query;
          subject_entities = extract_subject_entities query;
          ordinal_rank = extract_ordinal_rank query;
          inferred_intent = classify_query_intent query classifier;
          slot_key = infer_query_fact_key_with_profile query profile;
          expansion_terms = build_query_expansion_terms_with_profile_and_rules query slot_key inferred_intent
            subject_entities profile rules;
          cross_entity = (2 \<le> length subject_entities \<and> multi_hop_cue lower);
          c = \<lparr>qc_query = query, qc_keyword_query = keyword_query, qc_subject_entities = subject_entities,
               qc_cross_entity = cross_entity, qc_ordinal_rank = ordinal_rank, qc_slot_key = slot_key,
               qc_expansion_terms = expansion_terms\<rparr>;
          (semantic_queries, fts_queries) = plan_queries c inferred_intent
      in \<lparr>qp_semantic_queries = dedupe_preserve_order semantic_queries,
          qp_fts_queries = dedupe_preserve_order fts_queries,
          qp_coverage_facets = build_coverage_facets alnum c,
          qp_requirements = build_query_requirements alnum c,
          qp_prefer_distilled = query_prefers_distilled query,
          qp_prefer_episodic = query_prefers_episodic query,
          qp_temporal_terms = extract_temporal_terms query,
          qp_lexical_terms = dedupe_preserve_order
            (filter (\<lambda>token. \<not> is_low_signal_keyword token \<and> 3 \<le> length token)
               (map singularize_token (tokenize_for_similarity alnum query)) @ expansion_terms),
          qp_intent = inferred_intent, qp_subject_entities = subject_entities, qp_cross_entity = cross_entity,
          qp_needs_decomposition = (cross_entity \<or> inferred_intent = Inference
            \<or> inferred_intent = TemporalAggregation \<or> question_words lower),
          qp_coverage_mode = (is_coverage_style_query query \<or> cross_entity
            \<or> inferred_intent = NumericAggregation \<or> inferred_intent = TemporalAggregation),
          qp_ordinal_rank = ordinal_rank, qp_fact_key = slot_key, qp_prefers_latest = query_prefers_latest query\<rparr>)"

definition build_query_plan_with_profile ::
  "(str list \<times> str list) list \<Rightarrow> (str \<Rightarrow> bool) \<Rightarrow> str \<Rightarrow> (str \<Rightarrow> QueryIntent option) option \<Rightarrow> Profile \<Rightarrow> QueryPlan" where
  "build_query_plan_with_profile builtin alnum query classifier profile =
     build_query_plan_with_profile_and_rules alnum query classifier profile builtin"

definition build_query_plan ::
  "(str list \<times> str list) list \<Rightarrow> (str \<Rightarrow> bool) \<Rightarrow> str \<Rightarrow> (str \<Rightarrow> QueryIntent option) option \<Rightarrow> QueryPlan" where
  "build_query_plan builtin alnum query classifier = build_query_plan_with_profile builtin alnum query classifier Generic"

subsection \<open>Rewriting for retrieval\<close>

definition advice_prefixes :: "str list" where
  "advice_prefixes =
     [''any tips for'', ''any tips on'', ''any suggestions for'', ''any suggestions on'', ''any advice for'',
      ''any advice on'', ''any ideas for'', ''any ideas on'', ''any recommendations for'',
      ''any recommendations on'', ''can you recommend'', ''can you suggest'', ''could you recommend'',
      ''could you suggest'', ''do you have any tips'', ''do you have any suggestions'',
      ''do you have any advice'', ''do you have any ideas'', ''do you think it would be'',
      ''do you think i should'', ''what should i'', ''what would you suggest'', ''how can i find'',
      ''how can i get'', ''how can i improve'', ''i'' @ [CHR 0x27] @ ''ve been having trouble with'',
      ''i'' @ [CHR 0x27] @ ''ve been struggling with'', ''i'' @ [CHR 0x27] @ ''ve been thinking about'',
      ''i was thinking about'', ''i'' @ [CHR 0x27] @ ''m thinking about'', ''i'' @ [CHR 0x27] @ ''m planning'',
      ''i am planning'', ''i'' @ [CHR 0x27] @ ''m trying to decide'']"

definition advice_suffixes :: "str list" where
  "advice_suffixes =
     [''any tips?'', ''any tips.'', ''any advice?'', ''any advice.'', ''any suggestions?'',
      ''any suggestions.'', ''any ideas?'', ''any ideas.'', ''any recommendations?'', ''any recommendations.'',
      ''do you have any tips?'', ''what do you think?'', ''any thoughts?'', ''what should i do?'']"

fun replace_all :: "str \<Rightarrow> str \<Rightarrow> str \<Rightarrow> str" where
  "replace_all p r [] = []"
| "replace_all p r (c # s) =
     (if p \<noteq> [] \<and> starts_with (c # s) p then r @ replace_all p r (drop (length p - 1) s)
      else c # replace_all p r s)"

definition trim_start_matches :: "(char \<Rightarrow> bool) \<Rightarrow> str \<Rightarrow> str" where
  "trim_start_matches p s = dropWhile p s"

definition how_many_rest :: "str \<Rightarrow> str" where
  "how_many_rest q =
     trim (trim_end_matches (\<lambda>c. c = CHR ''?'')
       (foldl (\<lambda>t p. replace_all p '' '' t) (drop 9 q)
          ['' did I '', '' have I '', '' do I '', '' am I '', '' did i '', '' have i '', '' do i '']))"

definition duration_words :: "str list" where
  "duration_words = [''how'', ''many'', ''long'', ''days'', ''weeks'', ''did'', ''it'', ''take'', ''for'', ''after'', ''i'',
     ''me'', ''my'', ''was'', ''were'', ''have'', ''spend'', ''spent'', ''in'', ''a'', ''an'', ''the'']"

definition rewrite_query_for_retrieval :: "(str \<Rightarrow> str) \<Rightarrow> str \<Rightarrow> str" where
  "rewrite_query_for_retrieval to_lowercase query =
     (let q = trim query; ql = to_lowercase q;
          by_prefix = find_map (\<lambda>p.
            if starts_with ql p
            then (let cleaned = trim_end_matches (\<lambda>c. c \<in> set ''?.'') (trim_start_matches (\<lambda>c. c \<in> set '', '') (drop (length p) q))
                  in if cleaned \<noteq> [] then Some cleaned else None)
            else None) advice_prefixes;
          by_suffix = find_map (\<lambda>s.
            if ends_with ql s
            then (let trimmed = trim_end_matches (\<lambda>c. c \<in> set ''.,'') (trim (take (length q - length s) q))
                  in if trimmed \<noteq> [] then Some trimmed else None)
            else None) advice_suffixes
      in case by_prefix of
           Some r \<Rightarrow> r
         | None \<Rightarrow>
             (case by_suffix of
                Some r \<Rightarrow> r
              | None \<Rightarrow>
                  if starts_with ql ''how many '' \<and> how_many_rest q \<noteq> [] then how_many_rest q
                  else if starts_with ql ''how long'' \<or> starts_with ql ''how many days'' \<or> starts_with ql ''how many weeks''
                  then (let nouns = join '' '' (filter (\<lambda>w. to_lowercase w \<notin> set duration_words) (split_whitespace q));
                            nouns_clean = trim (trim_end_matches (\<lambda>c. c = CHR ''?'') nouns)
                        in if 4 < length nouns_clean then nouns_clean else q)
                  else q))"

subsection \<open>A hypothetical answer\<close>

definition possessive_stop :: "str list" where
  "possessive_stop =
     [''like'', ''likes'', ''enjoy'', ''enjoys'', ''love'', ''loves'', ''have'', ''has'', ''had'', ''did'',
      ''does'', ''do'', ''is'', ''are'', ''was'', ''were'', ''would'', ''could'', ''should'', ''to'', ''for'',
      ''about'', ''as'', ''in'', ''on'', ''with'', ''from'', ''during'', ''when'', ''where'', ''why'', ''how'']"

text \<open>The outer option tells whether the loop returned: a first entity without a possessive ends it.\<close>

definition possessive_of :: "str \<Rightarrow> str \<Rightarrow> str option option" where
  "possessive_of q entity =
     (case split_once (to_ascii_lowercase entity) (to_ascii_lowercase q) of
        None \<Rightarrow> None
      | Some (before, _) \<Rightarrow>
          (let after = trim_start (drop (length before + length entity) q)
           in case or_else (strip_prefix after apostrophe_s) (strip_prefix after s_apostrophe) of
                None \<Rightarrow> Some None
              | Some possessive_tail \<Rightarrow>
                  (let words = take 3 (takeWhile (\<lambda>word. word \<notin> set possessive_stop)
                         (map singularize_token (normalize_alpha_tokens possessive_tail)))
                   in if words \<noteq> [] then Some (Some (entity @ '' '' @ join '' '' words)) else None)))"

definition extract_possessive_subject_phrase :: "str \<Rightarrow> str list \<Rightarrow> str option" where
  "extract_possessive_subject_phrase q entities =
     (case find_map (possessive_of q) entities of None \<Rightarrow> None | Some r \<Rightarrow> r)"

definition up_to :: "(str \<Rightarrow> bool) \<Rightarrow> nat \<Rightarrow> str list \<Rightarrow> str" where
  "up_to p extra words =
     join '' '' (take (case position p words of None \<Rightarrow> 2 | Some i \<Rightarrow> i + extra) words)"

definition extract_subject_from_what_query :: "str \<Rightarrow> str" where
  "extract_subject_from_what_query q =
     (let lower = to_ascii_lowercase q
      in case strip_prefix lower ''what do '' of
           Some rest \<Rightarrow> up_to (\<lambda>w. w \<in> set [''like'', ''enjoy'', ''love'', ''have'', ''own'']) 0 (split_whitespace rest)
         | None \<Rightarrow>
             (case strip_prefix lower ''what is '' of
                Some rest \<Rightarrow> up_to (\<lambda>w. ends_with w apostrophe_s \<or> ends_with w s_apostrophe) 1 (split_whitespace rest)
              | None \<Rightarrow> []))"

definition extract_object_noun :: "str \<Rightarrow> str" where
  "extract_object_noun q =
     (case split_once ''favorite'' (to_ascii_lowercase q) of
        None \<Rightarrow> []
      | Some (before, _) \<Rightarrow> join '' '' (take 3 (split_whitespace (trim (drop (length before + 8) q)))))"

text \<open>The subject named in most branches: a possessive phrase, else up to two entities.\<close>

definition subject_or :: "str option \<Rightarrow> str \<Rightarrow> str list \<Rightarrow> str option" where
  "subject_or possessive sep entities =
     or_else possessive (if entities \<noteq> [] then Some (join sep (take 2 entities)) else None)"

definition lexical_keywords :: "nat \<Rightarrow> QueryPlan \<Rightarrow> str" where
  "lexical_keywords n plan = join '' '' (take n (qp_lexical_terms plan))"

definition what_hyde :: "str \<Rightarrow> str \<Rightarrow> QueryPlan \<Rightarrow> str option \<Rightarrow> str option" where
  "what_hyde lower q plan possessive =
     (let entities = qp_subject_entities plan;
          liked = (case possessive of Some s \<Rightarrow> s | None \<Rightarrow>
              if entities = [] then extract_subject_from_what_query q else join '' and '' (take 2 entities));
          preferred = (case possessive of Some s \<Rightarrow> s | None \<Rightarrow>
              if entities \<noteq> [] then hd entities else extract_subject_from_what_query q)
      in if (contains lower '' like'' \<or> contains lower '' enjoy'' \<or> contains lower '' love'') \<and> liked \<noteq> []
         then Some (liked @ '' likes enjoys activities hobbies interests sports'')
         else if (contains lower ''favorite'' \<or> contains lower ''prefer'') \<and> preferred \<noteq> []
         then Some (preferred @ '' favorite preferred '' @ extract_object_noun q)
         else if (contains lower '' does '' \<or> contains lower '' did '') \<and> subject_or possessive '' '' entities \<noteq> None
         then map_option (\<lambda>s. s @ '' '' @ lexical_keywords 4 plan) (subject_or possessive '' '' entities)
         else if (contains lower ''attribute'' \<or> contains lower ''describe'' \<or> contains lower ''type of'') \<and> entities \<noteq> []
         then Some (join '' and '' (take 2 entities) @ '' is known for '' @ lexical_keywords 3 plan)
         else None)"

definition build_hyde_query :: "str \<Rightarrow> QueryPlan \<Rightarrow> str option" where
  "build_hyde_query query plan =
     (let lower = to_ascii_lowercase query;
          q = trim_end_matches (\<lambda>c. c = CHR ''?'') (trim query);
          entities = qp_subject_entities plan;
          possessive = extract_possessive_subject_phrase q entities;
          subject = subject_or possessive '' '' entities;
          what = (if starts_with lower ''what '' then what_hyde lower q plan possessive else None)
      in if what \<noteq> None then what
         else if starts_with lower ''how many '' \<and> subject \<noteq> None
         then map_option (\<lambda>s. s @ '' has '' @ lexical_keywords 3 plan) subject
         else if starts_with lower ''how long'' \<and> subject \<noteq> None
         then map_option (\<lambda>s. s @ '' for years since '' @ lexical_keywords 3 plan) subject
         else if starts_with lower ''when '' \<and> subject \<noteq> None
         then map_option (\<lambda>s. s @ '' '' @ lexical_keywords 4 plan @ '' date time'') (subject_or possessive '' and '' entities)
         else if (starts_with lower ''would '' \<or> starts_with lower ''could '' \<or> contains lower ''likely'') \<and> subject \<noteq> None
         then map_option (\<lambda>s. s @ '' enjoys prefers interested in '' @ lexical_keywords 4 plan) subject
         else None)"


text \<open>
  A first mentioned entity without a possessive ends the search: the question mark operator inside
  the loop returns from the function where the surrounding branches continue with the next entity.
\<close>

lemma possessive_search_gives_up:
  "extract_possessive_subject_phrase (''Did Ann like Melanie'' @ apostrophe_s @ '' pets'') [''Ann'', ''Melanie''] = None"
  "extract_possessive_subject_phrase (''Did Ann like Melanie'' @ apostrophe_s @ '' pets'') [''Melanie'', ''Ann''] = Some ''Melanie pet''"
  by code_simp+

subsection \<open>What the plan promises\<close>

lemma dedupe_values_keys:
  "distinct (map (\<lambda>v. to_ascii_lowercase (trim v)) (dedupe_values seen vs))
   \<and> (\<forall>v \<in> set (dedupe_values seen vs). trim v \<noteq> [] \<and> to_ascii_lowercase (trim v) \<notin> seen)"
proof (induction seen vs rule: dedupe_values.induct)
  case (2 seen v vs)
  define key where "key = to_ascii_lowercase (trim v)"
  show ?case
  proof (cases "key = [] \<or> key \<in> seen")
    case True
    then have "dedupe_values seen (v # vs) = dedupe_values seen vs" by (simp add: key_def Let_def)
    then show ?thesis using 2 True key_def by metis
  next
    case False
    then have step: "dedupe_values seen (v # vs) = v # dedupe_values (insert key seen) vs" by (simp add: key_def Let_def)
    have rest: "distinct (map (\<lambda>v. to_ascii_lowercase (trim v)) (dedupe_values (insert key seen) vs))
        \<and> (\<forall>w \<in> set (dedupe_values (insert key seen) vs). trim w \<noteq> [] \<and> to_ascii_lowercase (trim w) \<notin> insert key seen)"
      using 2(2) [OF key_def False] .
    have "trim v \<noteq> []" using False by (auto simp: key_def)
    then show ?thesis unfolding step using rest False by (auto simp: key_def)
  qed
qed simp

lemma dedupe_hd:
  "trim v \<noteq> [] \<Longrightarrow> \<exists>r. dedupe_preserve_order (v # vs) = v # r"
  by (simp add: dedupe_preserve_order_def Let_def)

lemma plan_queries_hd:
  "\<exists>s f. plan_queries c i = (qc_query c # s, qc_query c # f)"
  by (simp add: plan_queries_def Let_def split: prod.split)

text \<open>
  C17. The plan of a query that is not blank asks the query itself first, in the semantic and in the
  lexical list; no list asks the same text twice, whatever its case and the blanks around it, and none
  asks a blank text.  The plan of a query about several entities at once is decomposed and covered.
\<close>

theorem plan_asks_query_first:
  assumes nonblank: "trim query \<noteq> []"
    and plan_def: "plan = build_query_plan_with_profile_and_rules alnum query classifier profile rules"
  shows "(\<exists>r. qp_semantic_queries plan = query # r) \<and> (\<exists>r. qp_fts_queries plan = query # r)
    \<and> (\<forall>qs \<in> {qp_semantic_queries plan, qp_fts_queries plan, qp_lexical_terms plan, qp_subject_entities plan}.
          distinct (map (\<lambda>v. to_ascii_lowercase (trim v)) qs) \<and> (\<forall>v \<in> set qs. trim v \<noteq> []))
    \<and> (qp_cross_entity plan \<longrightarrow> 2 \<le> length (qp_subject_entities plan) \<and> qp_needs_decomposition plan \<and> qp_coverage_mode plan)"
proof -
  have lists: "\<exists>c i xs. qc_query c = query \<and> qp_semantic_queries plan = dedupe_preserve_order (fst (plan_queries c i))
      \<and> qp_fts_queries plan = dedupe_preserve_order (snd (plan_queries c i))
      \<and> qp_lexical_terms plan = dedupe_preserve_order xs"
    unfolding plan_def build_query_plan_with_profile_and_rules_def Let_def split_beta
    by (intro exI conjI) (auto intro: refl)
  have entities: "qp_subject_entities plan = extract_subject_entities query"
    and cross: "qp_cross_entity plan \<longrightarrow> 2 \<le> length (qp_subject_entities plan) \<and> qp_needs_decomposition plan \<and> qp_coverage_mode plan"
    by (simp_all add: plan_def build_query_plan_with_profile_and_rules_def Let_def split_beta)
  have keys: "distinct (map (\<lambda>v. to_ascii_lowercase (trim v)) (dedupe_preserve_order vs))
      \<and> (\<forall>v \<in> set (dedupe_preserve_order vs). trim v \<noteq> [])" for vs
    using dedupe_values_keys [of "{}" vs] by (simp add: dedupe_preserve_order_def)
  obtain c i xs where l: "qc_query c = query" "qp_semantic_queries plan = dedupe_preserve_order (fst (plan_queries c i))"
      "qp_fts_queries plan = dedupe_preserve_order (snd (plan_queries c i))" "qp_lexical_terms plan = dedupe_preserve_order xs"
    using lists by blast
  obtain s f where "plan_queries c i = (query # s, query # f)" using plan_queries_hd [of c i] l(1) by blast
  then have hds: "(\<exists>r. qp_semantic_queries plan = query # r) \<and> (\<exists>r. qp_fts_queries plan = query # r)"
    using dedupe_hd [OF nonblank] l(2,3) by simp
  have dist: "\<forall>qs \<in> {qp_semantic_queries plan, qp_fts_queries plan, qp_lexical_terms plan, qp_subject_entities plan}.
      distinct (map (\<lambda>v. to_ascii_lowercase (trim v)) qs) \<and> (\<forall>v \<in> set qs. trim v \<noteq> [])"
    using keys l entities by (simp add: extract_subject_entities_def)
  show ?thesis using hds dist cross by blast
qed

lemma blank_free: "trim ''Where does Ann live?'' \<noteq> []"
  by code_simp

theorem plan_asks_query_first_witness:
  "\<exists>r. qp_semantic_queries (build_query_plan_with_profile_and_rules (list_all is_alnum) ''Where does Ann live?'' None Generic []) =
       ''Where does Ann live?'' # r"
  using plan_asks_query_first [OF _ refl, of "''Where does Ann live?''" "list_all is_alnum" None Generic "[]"]
  by (metis blank_free)

end
