(* ===== verification/Session_Scoring.thy ===== *)
theory Session_Scoring
  imports Complex_Main Query_Plan Vector_Search Memory_Id
begin

section \<open>Scores of the retrieved memories\<close>

text \<open>
  Models the scoring functions of \<open>src/api/plan/scoring.rs\<close> and the types of
  \<open>src/api/plan/types.rs\<close> they share.  A float is a value of a type \<open>'f\<close> that has the four arithmetic
  operations and a linear order, and no law of arithmetic: the theorems hold however sums round.  NaN
  is left out.  The record \<open>f32_ops\<close> holds what is not an operation: the literals, the conversion from
  \<open>usize\<close>, the least float \<open>f32::MIN\<close>, the parser and the rounding of floats.
\<close>

record 'f f32_ops =
  f_lit :: "rat \<Rightarrow> 'f"
  f_usize :: "nat \<Rightarrow> 'f"
  f_lowest :: 'f
  f_parse :: "str \<Rightarrow> 'f option"
  f_round :: "'f \<Rightarrow> nat"

definition f_clamp :: "'f::linorder \<Rightarrow> 'f \<Rightarrow> 'f \<Rightarrow> 'f" where
  "f_clamp lo hi x = (if x < lo then lo else if hi < x then hi else x)"

subsection \<open>Types\<close>

datatype QueryModality = Semantic | Lexical

record 'f QueryAdaptiveProfile =
  ap_semantic_scale :: 'f
  ap_lexical_scale :: 'f
  ap_route_sessions :: "str set"
  ap_route_strength :: 'f

record 'f FourSignalWeights =
  fw_semantic :: 'f
  fw_temporal :: 'f
  fw_confidence :: 'f
  fw_graph :: 'f

definition weights_of :: "'f f32_ops \<Rightarrow> rat \<times> rat \<times> rat \<times> rat \<Rightarrow> 'f FourSignalWeights" where
  "weights_of F = (\<lambda>(a, b, c, d).
     \<lparr>fw_semantic = f_lit F a, fw_temporal = f_lit F b, fw_confidence = f_lit F c, fw_graph = f_lit F d\<rparr>)"

fun for_intent :: "'f f32_ops \<Rightarrow> QueryIntent \<Rightarrow> 'f FourSignalWeights" where
  "for_intent F NumericAggregation = weights_of F (0.35, 0.30, 0.20, 0.15)"
| "for_intent F TemporalAggregation = weights_of F (0.20, 0.50, 0.15, 0.15)"
| "for_intent F Recommendation = weights_of F (0.40, 0.10, 0.30, 0.20)"
| "for_intent F Inference = weights_of F (0.30, 0.15, 0.30, 0.25)"
| "for_intent F PeripheralMention = weights_of F (0.25, 0.20, 0.25, 0.30)"
| "for_intent F General = weights_of F (0.50, 0.20, 0.15, 0.15)"

text \<open>Runs of digits and points that parse as a float.\<close>

fun numeric_runs :: "'f f32_ops \<Rightarrow> str \<Rightarrow> str \<Rightarrow> 'f list" where
  "numeric_runs F current [] =
     (if current \<noteq> [] then option_list (f_parse F current) else [])"
| "numeric_runs F current (ch # s) =
     (if is_digit ch \<or> ch = CHR ''.'' then numeric_runs F (current @ [ch]) s
      else if current \<noteq> [] then option_list (f_parse F current) @ numeric_runs F [] s
      else numeric_runs F [] s)"

definition extract_numeric_tokens :: "'f f32_ops \<Rightarrow> str \<Rightarrow> 'f list" where
  "extract_numeric_tokens F t = numeric_runs F [] t"

record 'f ScorableObservation =
  sc_lower :: str
  sc_tokens :: "str list"
  sc_temporal_terms :: "str list"
  sc_entities :: "str list"
  sc_numeric_tokens :: "'f list"

definition scorable_new :: "'f f32_ops \<Rightarrow> str \<Rightarrow> 'f ScorableObservation" where
  "scorable_new F t =
     \<lparr>sc_lower = to_ascii_lowercase t, sc_tokens = normalize_alpha_tokens t,
      sc_temporal_terms = extract_temporal_terms t, sc_entities = extract_named_phrases [t],
      sc_numeric_tokens = extract_numeric_tokens F t\<rparr>"

subsection \<open>Weights of the lanes\<close>

definition scaled :: "'f::times f32_ops \<Rightarrow> bool \<Rightarrow> rat \<Rightarrow> 'f \<Rightarrow> 'f" where
  "scaled F b r x = (if b then x * f_lit F r else x)"

definition build_query_adaptive_profile ::
  "'f::{plus,minus,times,inverse,linorder} f32_ops \<Rightarrow> QueryPlan \<Rightarrow> 'f QueryAdaptiveProfile" where
  "build_query_adaptive_profile F plan =
     (let lexical_density = f_clamp (f_lit F 0) (f_lit F 1) (f_usize F (length (qp_lexical_terms plan)) / f_lit F 10);
          intent = qp_intent plan;
          has_numeric_cues = (intent = NumericAggregation \<or> intent = TemporalAggregation);
          has_entity_like = list_ex (\<lambda>e. 6 \<le> length e) (qp_subject_entities plan);
          semantic_scale = scaled F has_entity_like 1.06 (scaled F (intent = Inference) 1.12
            (scaled F (intent = PeripheralMention) 0.86 (scaled F (intent = Recommendation) 1.18
            (scaled F has_numeric_cues 0.92 (f_lit F 1)))));
          lexical_scale = scaled F (f_lit F 0.6 < lexical_density) 1.08 (scaled F (intent = Inference) 1.06
            (scaled F (intent = PeripheralMention) 1.34 (scaled F (intent = Recommendation) 0.90
            (scaled F has_numeric_cues 1.18 (f_lit F 1)))))
      in \<lparr>ap_semantic_scale = f_clamp (f_lit F 0.6) (f_lit F 1.6) semantic_scale,
          ap_lexical_scale = f_clamp (f_lit F 0.6) (f_lit F 1.6) lexical_scale,
          ap_route_sessions = {}, ap_route_strength = f_lit F 0\<rparr>)"

definition fuse_four_signals :: "'f::{plus,times} \<Rightarrow> 'f \<Rightarrow> 'f \<Rightarrow> 'f \<Rightarrow> 'f FourSignalWeights \<Rightarrow> 'f" where
  "fuse_four_signals semantic temporal confidence graph weights =
     semantic * fw_semantic weights + temporal * fw_temporal weights
     + confidence * fw_confidence weights + graph * fw_graph weights"

definition variant_base :: "nat \<Rightarrow> rat" where
  "variant_base index = (if index = 0 then 1 else if index = 1 then 0.74 else if index = 2 then 0.60 else 0.50)"

fun variant_multiplier :: "QueryIntent \<Rightarrow> QueryModality \<Rightarrow> rat" where
  "variant_multiplier NumericAggregation Lexical = 1.20"
| "variant_multiplier NumericAggregation Semantic = 0.88"
| "variant_multiplier TemporalAggregation Lexical = 1.10"
| "variant_multiplier TemporalAggregation Semantic = 0.94"
| "variant_multiplier Recommendation Semantic = 1.15"
| "variant_multiplier Recommendation Lexical = 0.86"
| "variant_multiplier Inference Semantic = 1.14"
| "variant_multiplier Inference Lexical = 1.04"
| "variant_multiplier PeripheralMention Semantic = 0.82"
| "variant_multiplier PeripheralMention Lexical = 1.35"
| "variant_multiplier General Semantic = 1"
| "variant_multiplier General Lexical = 1"

definition query_variant_weight :: "'f::times f32_ops \<Rightarrow> nat \<Rightarrow> QueryModality \<Rightarrow> QueryIntent \<Rightarrow> 'f" where
  "query_variant_weight F index modality intent =
     f_lit F (variant_base index) * f_lit F (variant_multiplier intent modality)"

definition adaptive_rrf_k :: "QueryPlan \<Rightarrow> nat" where
  "adaptive_rrf_k plan =
     (if qp_cross_entity plan \<or> qp_ordinal_rank plan \<noteq> None then 45
      else case qp_intent plan of
        PeripheralMention \<Rightarrow> 40 | Inference \<Rightarrow> 50 | TemporalAggregation \<Rightarrow> 55 | NumericAggregation \<Rightarrow> 55
      | Recommendation \<Rightarrow> 60 | General \<Rightarrow> 60)"

subsection \<open>Bonuses of a single memory\<close>

definition routed_session_from_memory_id :: "str \<Rightarrow> str option" where
  "routed_session_from_memory_id memory_id =
     (case memory_id_parse memory_id of
        Inl _ \<Rightarrow> None | Inr m \<Rightarrow> if mi_structured m then Some (mi_session m) else None)"

definition numeric_signal_bonus ::
  "'f::{plus,linorder} f32_ops \<Rightarrow> str \<Rightarrow> 'f list \<Rightarrow> QueryIntent \<Rightarrow> 'f" where
  "numeric_signal_bonus F lower nums intent =
     (if intent \<noteq> NumericAggregation \<and> intent \<noteq> TemporalAggregation then f_lit F 0
      else if nums = [] then f_lit F (- 0.01)
      else (let b0 = f_lit F 0.03;
                b1 = (if list_ex (contains lower) [''total'', ''combined'', ''in total'', ''average'']
                      then b0 + f_lit F 0.02 else b0)
            in if list_ex (\<lambda>v. f_lit F 1000 < v) nums \<and> contains lower ''$'' then b1 + f_lit F 0.01 else b1))"

definition temporal_consistency_adjustment ::
  "'f::{plus,minus,times,inverse,linorder} f32_ops \<Rightarrow> MemoryKind \<Rightarrow> u64 \<Rightarrow> u64 \<Rightarrow> QueryIntent \<Rightarrow> 'f" where
  "temporal_consistency_adjustment F kind created_at_ms now_ms intent =
     (let age_days = f_usize F (unat (saturating_sub_u64 now_ms created_at_ms)) / (f_lit F 1000 * f_lit F 86400);
          d0 = f_lit F 0;
          d1 = (if intent = TemporalAggregation
                then (if age_days \<le> f_lit F 45 then d0 + f_lit F 0.025
                      else if f_lit F 365 < age_days then d0 - f_lit F 0.03 else d0)
                else d0)
      in if intent = NumericAggregation \<and> kind = Fact
         then (if age_days \<le> f_lit F 180 then d1 + f_lit F 0.02
               else if f_lit F 730 < age_days then d1 - f_lit F 0.025 else d1)
         else d1)"

fun distilled_kind_bonus :: "MemoryKind \<Rightarrow> rat" where
  "distilled_kind_bonus Fact = 0.12"
| "distilled_kind_bonus SessionSummary = 0.08"
| "distilled_kind_bonus Lesson = 0.04"
| "distilled_kind_bonus _ = 0"

fun episodic_kind_bonus :: "MemoryKind \<Rightarrow> rat" where
  "episodic_kind_bonus Conversational = 0.08"
| "episodic_kind_bonus SyntheticQuery = 0.08"
| "episodic_kind_bonus Fact = - 0.06"
| "episodic_kind_bonus SessionSummary = - 0.14"
| "episodic_kind_bonus Lesson = - 0.05"
| "episodic_kind_bonus Decision = - 0.02"
| "episodic_kind_bonus Preference = - 0.02"

fun inference_kind_bonus :: "MemoryKind \<Rightarrow> rat" where
  "inference_kind_bonus Fact = 0.07"
| "inference_kind_bonus SessionSummary = 0.05"
| "inference_kind_bonus Conversational = 0.02"
| "inference_kind_bonus SyntheticQuery = 0.02"
| "inference_kind_bonus Lesson = 0.03"
| "inference_kind_bonus Decision = 0.03"
| "inference_kind_bonus Preference = 0.03"

definition kind_query_bonus ::
  "'f::plus f32_ops \<Rightarrow> MemoryKind \<Rightarrow> QueryPlan \<Rightarrow> 'f ScorableObservation \<Rightarrow> 'f" where
  "kind_query_bonus F kind plan obs =
     (let b0 = (if qp_prefer_distilled plan then f_lit F (distilled_kind_bonus kind)
                else if qp_prefer_episodic plan then f_lit F (episodic_kind_bonus kind) else f_lit F 0);
          b1 = (if qp_intent plan = Inference then b0 + f_lit F (inference_kind_bonus kind) else b0)
      in if list_ex (contains (sc_lower obs)) (qp_temporal_terms plan) then b1 + f_lit F 0.05 else b1)"

definition lexical_hit_count :: "'f ScorableObservation \<Rightarrow> QueryPlan \<Rightarrow> nat" where
  "lexical_hit_count obs plan = length (filter (\<lambda>term'. term' \<in> set (sc_tokens obs)) (qp_lexical_terms plan))"

definition lexical_overlap_bonus ::
  "'f::{times,inverse,linorder} f32_ops \<Rightarrow> 'f ScorableObservation \<Rightarrow> QueryPlan \<Rightarrow> 'f" where
  "lexical_overlap_bonus F obs plan =
     (if qp_lexical_terms plan = [] then f_lit F 0
      else (let coverage = f_usize F (lexical_hit_count obs plan) / f_usize F (length (qp_lexical_terms plan))
            in min coverage (f_lit F 1) * f_lit F 0.08))"

definition entity_hit_count :: "'f ScorableObservation \<Rightarrow> QueryPlan \<Rightarrow> nat" where
  "entity_hit_count obs plan =
     length (filter (\<lambda>entity. contains (sc_lower obs) (to_ascii_lowercase entity)) (qp_subject_entities plan))"

definition entity_coverage_bonus ::
  "'f::{plus,times,inverse,linorder} f32_ops \<Rightarrow> 'f ScorableObservation \<Rightarrow> QueryPlan \<Rightarrow> 'f" where
  "entity_coverage_bonus F obs plan =
     (if qp_subject_entities plan = [] then f_lit F 0
      else (let hits = entity_hit_count obs plan;
                coverage = min (f_usize F hits / f_usize F (length (qp_subject_entities plan))) (f_lit F 1)
            in if qp_cross_entity plan
               then (if 2 \<le> hits then f_lit F 0.10 + coverage * f_lit F 0.04
                     else if hits = 1 then f_lit F (- 0.02) else f_lit F (- 0.05))
               else if qp_intent plan = Inference \<or> qp_intent plan = PeripheralMention
               then coverage * f_lit F 0.06
               else coverage * f_lit F 0.03))"

definition temporal_hit_count :: "'f ScorableObservation \<Rightarrow> QueryPlan \<Rightarrow> nat" where
  "temporal_hit_count obs plan = length (filter (contains (sc_lower obs)) (qp_temporal_terms plan))"

definition ordinal_signal_bonus ::
  "'f::{plus,linorder} f32_ops \<Rightarrow> MemoryKind \<Rightarrow> 'f ScorableObservation \<Rightarrow> QueryPlan \<Rightarrow> 'f" where
  "ordinal_signal_bonus F kind obs plan =
     (case qp_ordinal_rank plan of
        None \<Rightarrow> f_lit F 0
      | Some rank \<Rightarrow>
          (let b0 = f_lit F 0;
               b1 = (case ordinal_word rank of
                       None \<Rightarrow> b0
                     | Some word \<Rightarrow> if contains (sc_lower obs) word then b0 + f_lit F 0.06 else b0);
               b2 = (if contains (sc_lower obs) (rank_token rank) then b1 + f_lit F 0.05 else b1);
               b3 = (if list_ex (\<lambda>v. f_round F v = rank) (sc_numeric_tokens obs) then b2 + f_lit F 0.02 else b2);
               b4 = (if kind = Fact then b3 + f_lit F 0.08 else b3)
           in if b4 = f_lit F 0 then f_lit F (- 0.01) else b4))"

text \<open>Which of the first 64 facets of the plan a memory matches, as a bit mask.\<close>

definition bit_mask :: "bool list \<Rightarrow> u64" where
  "bit_mask bs = foldl (\<lambda>mask (i, b). if b then or mask (push_bit i 1) else mask) 0 (enumerate 0 bs)"

definition enough_terms :: "(str \<Rightarrow> bool) \<Rightarrow> str list \<Rightarrow> bool" where
  "enough_terms p ts = (let hits = length (filter p ts) in if length ts \<le> 2 then 1 \<le> hits else 2 \<le> hits)"

definition facet_matches :: "'f ScorableObservation \<Rightarrow> CoverageFacet \<Rightarrow> bool" where
  "facet_matches obs facet =
     (enough_terms (\<lambda>t. t \<in> set (sc_tokens obs)) (cf_lexical_terms facet)
      \<and> (cf_entities facet = [] \<or> list_ex (\<lambda>e. contains (sc_lower obs) (to_ascii_lowercase e)) (cf_entities facet))
      \<and> (cf_temporal_terms facet = [] \<or> list_ex (contains (sc_lower obs)) (cf_temporal_terms facet)))"

definition facet_match_mask :: "'f ScorableObservation \<Rightarrow> QueryPlan \<Rightarrow> u64" where
  "facet_match_mask obs plan = bit_mask (map (facet_matches obs) (take 64 (qp_coverage_facets plan)))"

subsection \<open>Reciprocal rank fusion\<close>

record RankedItem =
  ri_memory_id :: str
  ri_timestamp :: u64

text \<open>The entries of the hash map in the order of insertion, which the final sort forgets.\<close>

definition fuse_entry ::
  "'f::plus f32_ops \<Rightarrow> (str \<times> u64 \<times> 'f) list \<Rightarrow> RankedItem \<times> 'f \<Rightarrow> (str \<times> u64 \<times> 'f) list" where
  "fuse_entry F scores = (\<lambda>(item, score).
     (let scores' = (if ri_memory_id item \<in> fst ` set scores then scores
                     else scores @ [(ri_memory_id item, ri_timestamp item, f_lit F 0)])
      in map (\<lambda>(id', ts, s). if id' = ri_memory_id item then (id', ts, s + score) else (id', ts, s)) scores'))"

definition rank_scores ::
  "'f::{plus,inverse,linorder} f32_ops \<Rightarrow> nat \<Rightarrow> 'f \<times> RankedItem list \<Rightarrow> (RankedItem \<times> 'f) list" where
  "rank_scores F k = (\<lambda>(weight, items).
     (let weight = max weight (f_lit F 0)
      in if weight = f_lit F 0 then []
         else map (\<lambda>(rank, item). (item, weight / f_usize F (k + rank + 1))) (enumerate 0 items)))"

definition weighted_reciprocal_rank_fusion ::
  "'f::{plus,inverse,linorder} f32_ops \<Rightarrow> ('f \<times> RankedItem list) list \<Rightarrow> nat \<Rightarrow> (str \<times> u64 \<times> 'f) list" where
  "weighted_reciprocal_rank_fusion F ranked_lists k =
     sort_desc (\<lambda>(_, _, s). s) (sort_key fst
       (foldl (fuse_entry F) [] (concat (map (rank_scores F k) ranked_lists))))"

subsection \<open>Confidence of the evidence\<close>

text \<open>The fields of a \<open>QueryResult\<close> that the confidence reads.\<close>

record 'f query_result =
  rs_memory_id :: str
  rs_similarity :: 'f
  rs_textual_content :: str

definition compute_evidence_confidence ::
  "'f::{plus,minus,times,inverse,linorder} f32_ops \<Rightarrow> (str list \<times> str list) list \<Rightarrow> (str \<Rightarrow> bool)
    \<Rightarrow> 'f query_result list \<Rightarrow> str \<Rightarrow> (str \<Rightarrow> QueryIntent option) option \<Rightarrow> (str \<rightharpoonup> 'f ScorableObservation) \<Rightarrow> 'f" where
  "compute_evidence_confidence F builtin alnum results query classifier scorables =
     (let lexical = build_query_plan builtin alnum query classifier
      in case results of
           [] \<Rightarrow> f_lit F 0
         | r # rs \<Rightarrow>
             (let top = max (rs_similarity r) (f_lit F 0);
                  second = (case rs of [] \<Rightarrow> f_lit F 0 | r' # _ \<Rightarrow> max (rs_similarity r') (f_lit F 0));
                  margin = max (top - second) (f_lit F 0);
                  scorable = (\<lambda>r. case scorables (rs_memory_id r) of
                      Some s \<Rightarrow> s | None \<Rightarrow> scorable_new F (rs_textual_content r));
                  support = f_usize F (length (filter (\<lambda>r. 2 \<le> lexical_hit_count (scorable r) lexical) (take 6 results))) / f_lit F 6
              in f_clamp (f_lit F 0) (f_lit F 1)
                   (f_lit F 0.55 * top + f_lit F 0.25 * margin + f_lit F 0.20 * support)))"

subsection \<open>The memory block of an answer\<close>

definition bullet_lines :: "str \<Rightarrow> str list \<Rightarrow> str" where
  "bullet_lines title xs = (if xs \<noteq> [] then title @ concat (map (\<lambda>x. ''- '' @ x @ [CHR 0x0A]) xs) else [])"

definition build_observation_block :: "str option \<Rightarrow> str list \<Rightarrow> str list \<Rightarrow> str" where
  "build_observation_block profile_json mem_scenes top_chunks =
     ''## [TELLODB MEMORY CONTEXT]'' @ [CHR 0x0A]
     @ (case profile_json of None \<Rightarrow> [] | Some profile \<Rightarrow> ''### Core State'' @ [CHR 0x0A] @ profile @ [CHR 0x0A])
     @ bullet_lines (''### Knowledge Graph Scenes'' @ [CHR 0x0A]) mem_scenes
     @ bullet_lines (''### Relevant Memories'' @ [CHR 0x0A]) top_chunks"


subsection \<open>What fusion promises\<close>

definition fused :: "'f::plus f32_ops \<Rightarrow> (RankedItem \<times> 'f) list \<Rightarrow> str \<Rightarrow> 'f" where
  "fused F es id' = foldl (+) (f_lit F 0) (map snd (filter (\<lambda>e. ri_memory_id (fst e) = id') es))"

lemma fused_snoc:
  "fused F (es @ [e]) id' = (if ri_memory_id (fst e) = id' then fused F es id' + snd e else fused F es id')"
  by (simp add: fused_def)

lemma fused_absent:
  assumes "id' \<notin> (\<lambda>e. ri_memory_id (fst e)) ` set es"
  shows "fused F es id' = f_lit F 0"
proof -
  have "filter (\<lambda>e. ri_memory_id (fst e) = id') es = []" using assms by (force simp: filter_empty_conv)
  then show ?thesis by (simp add: fused_def)
qed

lemma fuse_entry_fst:
  "map fst (fuse_entry F scores e) =
     (if ri_memory_id (fst e) \<in> fst ` set scores then map fst scores else map fst scores @ [ri_memory_id (fst e)])"
  by (cases e) (auto simp: fuse_entry_def Let_def)

lemma fuse_entry_score:
  assumes "(i, t, s) \<in> set (fuse_entry F R e)"
  shows "(if i = ri_memory_id (fst e)
          then (\<exists>s0. s = s0 + snd e \<and> ((i, t, s0) \<in> set R \<or> i \<notin> fst ` set R \<and> s0 = f_lit F 0))
          else (i, t, s) \<in> set R)"
proof -
  obtain item x where e: "e = (item, x)" by force
  define R' where "R' = (if ri_memory_id item \<in> fst ` set R then R else R @ [(ri_memory_id item, ri_timestamp item, f_lit F 0)])"
  obtain s0 where s0: "(i, t, s0) \<in> set R'" "s = (if i = ri_memory_id item then s0 + x else s0)"
    using assms by (auto simp: fuse_entry_def e Let_def R'_def [symmetric] split: if_splits)
  have "(i, t, s0) \<in> set R \<or> (i \<notin> fst ` set R \<and> i = ri_memory_id item \<and> s0 = f_lit F 0)"
    using s0(1) by (cases "ri_memory_id item \<in> fst ` set R") (auto simp: R'_def)
  then show ?thesis using s0(2) e by auto
qed

lemma fuse_entries:
  "distinct (map fst (foldl (fuse_entry F) [] es))
   \<and> fst ` set (foldl (fuse_entry F) [] es) = (\<lambda>e. ri_memory_id (fst e)) ` set es
   \<and> (\<forall>i t s. (i, t, s) \<in> set (foldl (fuse_entry F) [] es) \<longrightarrow> s = fused F es i)"
proof (induction es rule: rev_induct)
  case (snoc e es)
  define R where "R = foldl (fuse_entry F) [] es"
  have IH1: "distinct (map fst R)" and IH2: "fst ` set R = (\<lambda>e. ri_memory_id (fst e)) ` set es"
    and IH3: "\<And>i t s. (i, t, s) \<in> set R \<Longrightarrow> s = fused F es i"
    using snoc unfolding R_def by blast+
  have step: "foldl (fuse_entry F) [] (es @ [e]) = fuse_entry F R e" by (simp add: R_def)
  have "set (map fst (fuse_entry F R e)) = insert (ri_memory_id (fst e)) (fst ` set R)"
    unfolding fuse_entry_fst by auto
  then have ids: "fst ` set (fuse_entry F R e) = (\<lambda>e. ri_memory_id (fst e)) ` set (es @ [e])"
    using IH2 by simp
  have dist: "distinct (map fst (fuse_entry F R e))" unfolding fuse_entry_fst using IH1 by simp
  have "s = fused F (es @ [e]) i" if m: "(i, t, s) \<in> set (fuse_entry F R e)" for i t s
  proof (cases "i = ri_memory_id (fst e)")
    case True
    then obtain s0 where s0: "s = s0 + snd e" "(i, t, s0) \<in> set R \<or> i \<notin> fst ` set R \<and> s0 = f_lit F 0"
      using fuse_entry_score [OF m] by auto
    have "s0 = fused F es i" using s0(2) IH3 IH2 fused_absent by metis
    then show ?thesis using s0(1) True by (simp add: fused_snoc)
  next
    case False
    then have "(i, t, s) \<in> set R" using fuse_entry_score [OF m] by simp
    then show ?thesis using IH3 False by (simp add: fused_snoc)
  qed
  then show ?case unfolding step using ids dist by blast
qed simp

lemma rank_scores_items:
  "(\<lambda>e. ri_memory_id (fst e)) ` set (rank_scores F k wl) =
     (if f_lit F 0 < fst wl then ri_memory_id ` set (snd wl) else {})"
proof -
  obtain w l where wl: "wl = (w, l)" by force
  have "(\<lambda>x. ri_memory_id (snd x)) ` set (enumerate 0 l) = ri_memory_id ` snd ` set (enumerate 0 l)"
    by (simp add: image_image)
  also have "snd ` set (enumerate 0 l) = set l" by (metis list.set_map map_snd_enumerate)
  finally have *: "(\<lambda>x. ri_memory_id (snd x)) ` set (enumerate 0 l) = ri_memory_id ` set l" .
  show ?thesis
  proof (cases "f_lit F 0 < w")
    case True
    then have "max w (f_lit F 0) = w" "w \<noteq> f_lit F 0" by auto
    then show ?thesis using * True by (simp add: wl rank_scores_def image_image split_beta)
  next
    case False
    then have "max w (f_lit F 0) = f_lit F 0" by auto
    then show ?thesis using False by (simp add: wl rank_scores_def)
  qed
qed

text \<open>A stable sort keeps the order the list had among rows of equal key.\<close>

lemma insort_key_stable:
  assumes "sorted_wrt (\<lambda>a b. g a < g b \<or> g a = g b \<and> R a b) ys" "\<And>y. y \<in> set ys \<Longrightarrow> R x y"
  shows "sorted_wrt (\<lambda>a b. g a < g b \<or> g a = g b \<and> R a b) (insort_key (g :: _ \<Rightarrow> _::linorder) x ys)"
  using assms
proof (induction ys)
  case (Cons y ys)
  show ?case
  proof (cases "g x \<le> g y")
    case True
    have "g x < g z \<or> g x = g z \<and> R x z" if "z \<in> set (y # ys)" for z
      using that Cons.prems True by (auto simp: le_less)
    then show ?thesis using True Cons.prems(1) by simp
  next
    case False
    then show ?thesis using Cons by (auto simp: set_insort_key)
  qed
qed simp

lemma sort_key_stable_wrt:
  "sorted_wrt R xs \<Longrightarrow> sorted_wrt (\<lambda>a b. g a < g b \<or> g a = g b \<and> R a b) (sort_key (g :: _ \<Rightarrow> _::linorder) xs)"
proof (induction xs)
  case (Cons x xs)
  then show ?case using insort_key_stable [of g R "sort_key g xs" x] by simp
qed simp

lemma sort_desc_stable_wrt:
  assumes "sorted_wrt R xs"
  shows "sorted_wrt (\<lambda>a b. g b < g a \<or> g a = g b \<and> R a b) (sort_desc (g :: _ \<Rightarrow> _::linorder) xs)"
proof -
  have "sorted_wrt (\<lambda>a b. R b a) (rev xs)" using assms by (simp add: sorted_wrt_rev)
  from sort_key_stable_wrt [OF this, of g] show ?thesis
    unfolding sort_desc_def sorted_wrt_rev by (rule sorted_wrt_mono_rel [rotated]) auto
qed

lemma sorted_key_less:
  assumes "distinct (map f xs)"
  shows "sorted_wrt (\<lambda>a b. f a < f b) (sort_key (f :: _ \<Rightarrow> _::linorder) xs)"
proof -
  have "distinct (map f (sort_key f xs))" using assms by (simp add: distinct_map)
  then have "sorted_wrt (<) (map f (sort_key f xs))" by (simp add: strict_sorted_iff)
  then show ?thesis by (simp add: sorted_wrt_map)
qed

text \<open>
  C13. Fusing ranked lists gives every memory of a list of positive weight exactly once, best score
  first and equal scores by memory id, each with the sum of its contributions
  \<open>weight / (k + rank + 1)\<close> taken in the order of the lists.
\<close>

theorem fusion_correct:
  fixes F :: "'f::{plus,inverse,linorder} f32_ops"
  shows "distinct (map fst (weighted_reciprocal_rank_fusion F lanes k))
    \<and> fst ` set (weighted_reciprocal_rank_fusion F lanes k) =
        (\<Union>wl \<in> set lanes. if f_lit F 0 < fst wl then ri_memory_id ` set (snd wl) else {})
    \<and> sorted_wrt (\<lambda>(i, _, s) (j, _, t). t < s \<or> s = t \<and> i < j) (weighted_reciprocal_rank_fusion F lanes k)
    \<and> map (\<lambda>(_, _, s). s) (weighted_reciprocal_rank_fusion F lanes k) =
        map (\<lambda>(i, _, _). fused F (concat (map (rank_scores F k) lanes)) i) (weighted_reciprocal_rank_fusion F lanes k)"
proof -
  define es where "es = concat (map (rank_scores F k) lanes)"
  define R where "R = foldl (fuse_entry F) [] es"
  define out where "out = weighted_reciprocal_rank_fusion F lanes k"
  have out: "out = sort_desc (\<lambda>(_, _, s). s) (sort_key fst R)"
    by (simp add: out_def R_def es_def weighted_reciprocal_rank_fusion_def)
  have R: "distinct (map fst R)" "fst ` set R = (\<lambda>e. ri_memory_id (fst e)) ` set es"
    "\<And>i t s. (i, t, s) \<in> set R \<Longrightarrow> s = fused F es i"
    using fuse_entries [of F es] unfolding R_def by blast+
  have m: "mset out = mset R" "set out = set R" by (simp_all add: out)
  have "mset (map fst out) = mset (map fst R)" by (simp add: m)
  then have d: "distinct (map fst out)" using R(1) mset_eq_imp_distinct_iff by blast
  have ids: "fst ` set out = (\<Union>wl \<in> set lanes. if f_lit F 0 < fst wl then ri_memory_id ` set (snd wl) else {})"
    by (simp add: m R(2) es_def image_UN rank_scores_items)
  have srt: "sorted_wrt (\<lambda>(i, _, s) (j, _, t). t < s \<or> s = t \<and> i < j) out"
    using sort_desc_stable_wrt [OF sorted_key_less [OF R(1)], of "\<lambda>(_, _, s). s"]
    unfolding out by (rule sorted_wrt_mono_rel [rotated]) (simp add: split_beta)
  have sums: "map (\<lambda>(_, _, s). s) out = map (\<lambda>(i, _, _). fused F es i) out"
    using R(3) m(2) by (auto intro!: map_cong)
  show ?thesis using d ids srt sums unfolding out_def es_def by blast
qed

end
