(* ===== verification/Session_Selection.thy ===== *)
theory Session_Selection
  imports Session_Scoring
begin

section \<open>Selection of the answers\<close>

text \<open>
  Models \<open>session_coverage_bonus\<close>, \<open>session_requirement_mask\<close>,
  \<open>reorder_session_items_for_requirements\<close> and \<open>select_candidates_with_session_head\<close> of
  \<open>src/api/plan/scoring.rs\<close>, the last stage of a query: the scored memories are grouped by session,
  the sessions ordered, the answers taken from them in rounds and sorted by score.
\<close>

subsection \<open>Evidence\<close>

record 'f EvidenceCard =
  ec_claim_text :: str
  ec_source_memory_id :: str
  ec_source_session_id :: str
  ec_card_id :: "str option"
  ec_semantic_rank :: "nat option"
  ec_semantic_score :: 'f
  ec_bm25_rank :: "nat option"
  ec_bm25_score :: 'f
  ec_session_router_rank :: "nat option"
  ec_session_router_score :: 'f
  ec_card_score :: 'f
  ec_reranker_score :: 'f
  ec_entity_hits :: nat
  ec_lexical_hits :: nat
  ec_temporal_hits :: nat
  ec_facet_mask :: u64
  ec_graph_score :: 'f
  ec_child_score :: 'f
  ec_is_latest :: bool
  ec_card_type :: str
  ec_final_score :: 'f
  ec_inference_notes :: "str list option"
  ec_internal_kind :: MemoryKind
  ec_created_at_ms :: u64
  ec_entity_id :: str
  ec_source_turn_index :: nat

record 'f SessionBucket =
  sb_score :: 'f
  sb_items :: "'f EvidenceCard list"
  sb_requirement_mask :: u64
  sb_facet_mask :: u64
  sb_max_entity_hits :: nat
  sb_max_lexical_hits :: nat
  sb_max_temporal_hits :: nat

fun kind_priority :: "MemoryKind \<Rightarrow> bool \<Rightarrow> nat" where
  "kind_priority Fact prefer_distilled = (if prefer_distilled then 4 else 3)"
| "kind_priority SessionSummary prefer_distilled = (if prefer_distilled then 3 else 2)"
| "kind_priority Lesson prefer_distilled = (if prefer_distilled then 2 else 1)"
| "kind_priority Conversational prefer_distilled = (if prefer_distilled then 1 else 4)"
| "kind_priority SyntheticQuery prefer_distilled = (if prefer_distilled then 1 else 4)"
| "kind_priority Decision prefer_distilled = 0"
| "kind_priority Preference prefer_distilled = 0"

definition distilled_kind :: "MemoryKind \<Rightarrow> bool" where
  "distilled_kind kind \<longleftrightarrow> kind \<in> {Fact, SessionSummary, Lesson}"

definition max_of :: "nat list \<Rightarrow> nat" where
  "max_of ns = foldr max ns 0"

definition mask_union :: "'f EvidenceCard list \<Rightarrow> u64" where
  "mask_union items = foldl (\<lambda>mask item. or mask (ec_facet_mask item)) 0 items"

subsection \<open>Coverage of a session\<close>

definition inspected :: "QueryPlan \<Rightarrow> 'f EvidenceCard list \<Rightarrow> 'f EvidenceCard list" where
  "inspected plan items = take (if qp_needs_decomposition plan then 6 else 4) items"

definition claim_tokens :: "(str \<Rightarrow> bool) \<Rightarrow> 'f EvidenceCard \<Rightarrow> str list" where
  "claim_tokens alnum item = map singularize_token (tokenize_for_similarity alnum (ec_claim_text item))"

definition claim_lower :: "'f EvidenceCard \<Rightarrow> str" where
  "claim_lower item = to_ascii_lowercase (ec_claim_text item)"

text \<open>The terms of the plan that some inspected item has, each once: the unions of the loop.\<close>

definition hit_terms :: "('f EvidenceCard \<Rightarrow> str \<Rightarrow> bool) \<Rightarrow> 'f EvidenceCard list \<Rightarrow> str list \<Rightarrow> str list" where
  "hit_terms has items ts = remdups (filter (\<lambda>t. list_ex (\<lambda>item. has item t) items) ts)"

definition coverage :: "'f::inverse f32_ops \<Rightarrow> nat \<Rightarrow> nat \<Rightarrow> 'f" where
  "coverage F hits terms = (if terms = 0 then f_lit F 0 else f_usize F hits / f_usize F terms)"

definition session_coverage_bonus ::
  "'f::{plus,minus,times,inverse,linorder} f32_ops \<Rightarrow> (str \<Rightarrow> bool) \<Rightarrow> 'f EvidenceCard list \<Rightarrow> QueryPlan \<Rightarrow> 'f" where
  "session_coverage_bonus F alnum items plan =
     (if items = [] then f_lit F 0
      else
        let seen = inspected plan items;
            decomposed = qp_needs_decomposition plan;
            entities = qp_subject_entities plan;
            lexical_union = hit_terms (\<lambda>item t. t \<in> set (claim_tokens alnum item)) seen (qp_lexical_terms plan);
            temporal_union = hit_terms (\<lambda>item t. contains (claim_lower item) t) seen (qp_temporal_terms plan);
            entity_union = hit_terms (\<lambda>item e. contains (claim_lower item) (to_ascii_lowercase e)) seen entities;
            support_items = length (filter (\<lambda>item. 0 < ec_lexical_hits item \<or> 0 < ec_temporal_hits item \<or> 0 < ec_entity_hits item) seen);
            max_entity_hits = max_of (map ec_entity_hits seen);
            facet_union_mask = mask_union seen;
            max_facet_hits = max_of (map (\<lambda>item. count_ones (ec_facet_mask item)) seen);
            has_distilled = list_ex (\<lambda>item. distilled_kind (ec_internal_kind item)) seen;
            has_episodic = list_ex (\<lambda>item. ec_internal_kind item = Conversational) seen;
            kinds = length (remdups (map ec_internal_kind seen));
            lexical_coverage = coverage F (length lexical_union) (length (qp_lexical_terms plan));
            temporal_coverage = coverage F (length temporal_union) (length (qp_temporal_terms plan));
            entity_coverage = coverage F (length entity_union) (length entities);
            facet_coverage = coverage F (count_ones facet_union_mask) (min (length (qp_coverage_facets plan)) 64);
            b0 = f_lit F 0 + min lexical_coverage (f_lit F 1) * f_lit F (if decomposed then 0.05 else 0.02);
            b1 = b0 + min temporal_coverage (f_lit F 1) * f_lit F (if qp_intent plan = TemporalAggregation then 0.05 else 0.02);
            b2 = b1 + min entity_coverage (f_lit F 1)
                   * f_lit F (if qp_cross_entity plan then 0.10 else if entities \<noteq> [] then 0.03 else 0);
            b3 = (if decomposed \<and> 2 \<le> support_items
                  then b2 + (f_lit F 0.03 + f_usize F (min (support_items - 2) 2) * f_lit F 0.01) else b2);
            b4 = (if f_lit F 0 < facet_coverage
                  then b3 + min facet_coverage (f_lit F 1) * f_lit F (if decomposed then 0.10 else 0.03) else b3);
            b5 = (if decomposed \<and> 2 \<le> count_ones facet_union_mask \<and> max_facet_hits < count_ones facet_union_mask
                  then b4 + f_lit F 0.05 else b4);
            b6 = (if decomposed \<and> has_distilled \<and> has_episodic then b5 + f_lit F 0.04 else b5);
            b7 = (if 2 \<le> kinds then b6 + f_usize F (min (kinds - 1) 2) * f_lit F 0.015 else b6);
            b8 = (if qp_cross_entity plan \<and> length entity_union = length entities \<and> max_entity_hits < length entities
                  then b7 + f_lit F 0.08
                  else if qp_cross_entity plan \<and> entity_coverage < f_lit F 1 then b7 - f_lit F 0.03 else b7)
        in if qp_ordinal_rank plan \<noteq> None \<and> has_distilled \<and> f_lit F 0 < temporal_coverage
           then b8 + f_lit F 0.03 else b8)"

definition requirement_met :: "str list \<Rightarrow> str list \<Rightarrow> str list \<Rightarrow> QueryRequirement \<Rightarrow> bool" where
  "requirement_met lexical_union temporal_union entity_union requirement =
     (enough_terms (\<lambda>t. t \<in> set lexical_union) (qr_lexical_terms requirement)
      \<and> (qr_temporal_terms requirement = [] \<or> list_ex (\<lambda>t. t \<in> set temporal_union) (qr_temporal_terms requirement))
      \<and> (qr_entities requirement = []
          \<or> (if qr_require_all_entities requirement then list_all (\<lambda>e. e \<in> set entity_union) (qr_entities requirement)
             else list_ex (\<lambda>e. e \<in> set entity_union) (qr_entities requirement))))"

definition session_requirement_mask :: "(str \<Rightarrow> bool) \<Rightarrow> 'f EvidenceCard list \<Rightarrow> QueryPlan \<Rightarrow> u64" where
  "session_requirement_mask alnum items plan =
     (let seen = inspected plan items;
          lexical_union = concat (map (claim_tokens alnum) seen);
          temporal_union = concat (map (\<lambda>item. extract_temporal_terms (claim_lower item)) seen);
          entity_union = hit_terms (\<lambda>item e. contains (claim_lower item) (to_ascii_lowercase e)) seen (qp_subject_entities plan)
      in bit_mask (map (requirement_met lexical_union temporal_union entity_union) (take 64 (qp_requirements plan))))"

subsection \<open>Order of the items of a session\<close>

text \<open>The best remaining item: most facets not covered yet, then the higher score, then the earlier one.\<close>

definition best_item :: "'f::linorder f32_ops \<Rightarrow> u64 \<Rightarrow> 'f EvidenceCard list \<Rightarrow> nat" where
  "best_item F covered_mask remaining =
     fst (foldl (\<lambda>(best_idx, best_gain, best_score) (idx, item).
            (let gain = count_ones (and (ec_facet_mask item) (not covered_mask))
             in if best_gain < gain \<or> (gain = best_gain \<and> best_score < ec_final_score item)
                then (idx, gain, ec_final_score item) else (best_idx, best_gain, best_score)))
          (0, 0, f_lowest F) (enumerate 0 remaining))"

definition remove_at :: "nat \<Rightarrow> 'a list \<Rightarrow> 'a list" where
  "remove_at i xs = take i xs @ drop (Suc i) xs"

lemma length_remove_at: "i < length xs \<Longrightarrow> length (remove_at i xs) < length xs"
  by (simp add: remove_at_def)

lemma foldl_index_bound:
  assumes "\<And>acc i x. fst (f acc (i, x)) \<in> {fst acc, i}" "fst a < n + length xs" "n \<le> m"
  shows "fst (foldl f a (enumerate n xs)) < n + length xs"
  using assms(2)
proof (induction xs arbitrary: a n)
  case (Cons x xs)
  then show ?case using assms(1) [of a n x] Cons.IH [of "f a (n, x)" "Suc n"] by auto
qed simp

lemma best_item_bound:
  assumes "remaining \<noteq> []"
  shows "best_item F covered_mask remaining < length remaining"
  unfolding best_item_def
  using assms by (intro order.strict_trans2 [OF foldl_index_bound [where n = 0 and m = 0]]) (auto simp: Let_def split_beta)

function reorder_loop :: "'f::linorder f32_ops \<Rightarrow> u64 \<Rightarrow> 'f EvidenceCard list \<Rightarrow> 'f EvidenceCard list" where
  "reorder_loop F covered_mask remaining =
     (if remaining = [] then []
      else (let best_idx = best_item F covered_mask remaining; item = remaining ! best_idx
            in item # reorder_loop F (or covered_mask (ec_facet_mask item)) (remove_at best_idx remaining)))"
  by pat_completeness auto
termination
  by (relation "measure (\<lambda>(_, _, remaining). length remaining)") (auto intro: length_remove_at best_item_bound)

declare reorder_loop.simps [simp del]

definition reorder_session_items_for_requirements ::
  "'f::linorder f32_ops \<Rightarrow> 'f EvidenceCard list \<Rightarrow> QueryPlan \<Rightarrow> 'f EvidenceCard list" where
  "reorder_session_items_for_requirements F items plan =
     (if qp_requirements plan = [] then items else reorder_loop F 0 items)"

subsection \<open>Sessions\<close>

definition session_key :: "'f EvidenceCard \<Rightarrow> str" where
  "session_key candidate =
     (if ec_source_session_id candidate = []
      then (case routed_session_from_memory_id (ec_source_memory_id candidate) of
              Some s \<Rightarrow> s | None \<Rightarrow> ec_source_memory_id candidate)
      else ec_source_session_id candidate)"

text \<open>The groups of the \<open>BTreeMap\<close>, by session key in byte order.\<close>

definition grouped :: "'f EvidenceCard list \<Rightarrow> 'f EvidenceCard list list" where
  "grouped candidates =
     map (\<lambda>k. filter (\<lambda>c. session_key c = k) candidates) (sort (remdups (map session_key candidates)))"

definition sort_session :: "bool \<Rightarrow> 'f::linorder EvidenceCard list \<Rightarrow> 'f EvidenceCard list" where
  "sort_session prefer_distilled items =
     sort_desc ec_final_score (sort_desc (\<lambda>item. kind_priority (ec_internal_kind item) prefer_distilled)
       (sort_key ec_source_memory_id items))"

definition nth_score :: "'f f32_ops \<Rightarrow> 'f EvidenceCard list \<Rightarrow> nat \<Rightarrow> 'f" where
  "nth_score F items i = (if i < length items then ec_final_score (items ! i) else f_lit F 0)"

definition session_score ::
  "'f::{plus,minus,times,inverse,linorder} f32_ops \<Rightarrow> (str \<Rightarrow> bool) \<Rightarrow> QueryPlan \<Rightarrow> bool \<Rightarrow> bool \<Rightarrow> 'f EvidenceCard list \<Rightarrow> 'f" where
  "session_score F alnum plan prefer_distilled prefer_episodic items =
     (let max_lexical_hits = max_of (map ec_lexical_hits items);
          max_temporal_hits = max_of (map ec_temporal_hits items);
          max_entity_hits = max_of (map ec_entity_hits items);
          conversational = list_ex (\<lambda>item. ec_internal_kind item = Conversational) items;
          distilled = list_ex (\<lambda>item. distilled_kind (ec_internal_kind item)) items;
          multi_hit_bonus = f_usize F (min (length items - 1) 3) * f_lit F 0.02;
          lexical_bonus = min (f_usize F max_lexical_hits) (f_lit F 4) * f_lit F 0.012;
          temporal_bonus = min (f_usize F max_temporal_hits) (f_lit F 2) * f_lit F 0.018;
          entity_bonus = min (f_usize F max_entity_hits) (f_lit F 3) * f_lit F 0.02;
          distilled_bonus = f_lit F (if prefer_distilled \<and> distilled then 0.03 else 0);
          episodic_bonus = f_lit F (if prefer_episodic then (if conversational then 0.04 else - 0.03) else 0);
          coverage_bonus = session_coverage_bonus F alnum items plan;
          facet_count = f_usize F (count_ones (mask_union items));
          coverage_mode_bonus =
            (if qp_coverage_mode plan
             then min facet_count (f_lit F 5) * f_lit F 0.038 + min (f_usize F max_lexical_hits) (f_lit F 5) * f_lit F 0.014
               + f_usize F (min (length items) 4) * f_lit F 0.014
             else f_lit F 0);
          (w1, w2, w3) = (if qp_coverage_mode plan then (0.46, 0.31, 0.23) else (0.68, 0.22, 0.10))
      in nth_score F items 0 * f_lit F w1 + nth_score F items 1 * f_lit F w2 + nth_score F items 2 * f_lit F w3
         + multi_hit_bonus + lexical_bonus + temporal_bonus + entity_bonus + distilled_bonus + episodic_bonus
         + coverage_bonus + coverage_mode_bonus)"

definition session_bucket ::
  "'f::{plus,minus,times,inverse,linorder} f32_ops \<Rightarrow> (str \<Rightarrow> bool) \<Rightarrow> QueryPlan \<Rightarrow> bool \<Rightarrow> bool \<Rightarrow> 'f EvidenceCard list \<Rightarrow> 'f SessionBucket" where
  "session_bucket F alnum plan prefer_distilled prefer_episodic members =
     (let items = sort_session prefer_distilled members
      in \<lparr>sb_score = session_score F alnum plan prefer_distilled prefer_episodic items,
          sb_items = reorder_session_items_for_requirements F items plan,
          sb_requirement_mask = session_requirement_mask alnum items plan,
          sb_facet_mask = mask_union items,
          sb_max_entity_hits = max_of (map ec_entity_hits items),
          sb_max_lexical_hits = max_of (map ec_lexical_hits items),
          sb_max_temporal_hits = max_of (map ec_temporal_hits items)\<rparr>)"

subsection \<open>Order of the sessions\<close>

text \<open>What the selected sessions have covered.\<close>

record cover =
  cv_uncovered_mask :: u64
  cv_uncovered_facet_mask :: u64
  cv_entity_hits :: nat
  cv_temporal_hit :: bool

definition full_mask :: "nat \<Rightarrow> u64" where
  "full_mask n = (if n = 0 then 0 else if 64 \<le> n then - 1 else push_bit n 1 - 1)"

definition cover_start :: "QueryPlan \<Rightarrow> cover" where
  "cover_start plan =
     \<lparr>cv_uncovered_mask = full_mask (min (length (qp_requirements plan)) 64),
      cv_uncovered_facet_mask = full_mask (min (length (qp_coverage_facets plan)) 64),
      cv_entity_hits = 0, cv_temporal_hit = False\<rparr>"

definition cover_add :: "'f SessionBucket \<Rightarrow> cover \<Rightarrow> cover" where
  "cover_add s c =
     \<lparr>cv_uncovered_mask = and (cv_uncovered_mask c) (not (sb_requirement_mask s)),
      cv_uncovered_facet_mask = and (cv_uncovered_facet_mask c) (not (sb_facet_mask s)),
      cv_entity_hits = max (cv_entity_hits c) (sb_max_entity_hits s),
      cv_temporal_hit = (cv_temporal_hit c \<or> 0 < sb_max_temporal_hits s)\<rparr>"

definition selection_score ::
  "'f::{plus,minus,times,linorder} f32_ops \<Rightarrow> QueryPlan \<Rightarrow> cover \<Rightarrow> 'f SessionBucket \<Rightarrow> 'f" where
  "selection_score F plan c s =
     (let marginal_mask = and (sb_requirement_mask s) (cv_uncovered_mask c);
          marginal_gain = count_ones marginal_mask;
          marginal_facet_gain = count_ones (and (sb_facet_mask s) (cv_uncovered_facet_mask c));
          entity_gain = min (sb_max_entity_hits s - cv_entity_hits c) 2;
          temporal_gain = (\<not> cv_temporal_hit c \<and> 0 < sb_max_temporal_hits s);
          uncovered = (cv_uncovered_mask c \<noteq> 0 \<or> cv_uncovered_facet_mask c \<noteq> 0);
          full_requirement_hit = f_lit F (if sb_requirement_mask s \<noteq> 0 \<and> marginal_mask = sb_requirement_mask s then 0.04 else 0);
          redundancy_penalty = f_lit F (if uncovered \<and> marginal_gain = 0 \<and> marginal_facet_gain = 0 \<and> entity_gain = 0
            \<and> \<not> temporal_gain then 0.08 else 0);
          lexical_support = min (f_usize F (sb_max_lexical_hits s)) (f_lit F 5) * f_lit F 0.014;
          hard = (qp_needs_decomposition plan \<or> qp_cross_entity plan \<or> qp_coverage_mode plan);
          no_coverage_penalty = f_lit F
            (if hard \<and> sb_requirement_mask s = 0 \<and> sb_facet_mask s = 0 \<and> sb_max_lexical_hits s = 0 then 0.14
             else if hard \<and> uncovered \<and> marginal_gain = 0 \<and> marginal_facet_gain = 0 then 0.06 else 0);
          missing_subject_penalty = f_lit F
            (if qp_subject_entities plan \<noteq> [] \<and> sb_max_entity_hits s = 0 \<and> hard then 0.05 else 0)
      in sb_score s * f_lit F (if hard then 0.62 else 1)
         + f_usize F marginal_gain * f_lit F (if hard then 0.36 else 0.20)
         + f_usize F marginal_facet_gain * f_lit F (if hard then 0.18 else 0.09)
         + f_usize F entity_gain * f_lit F (if hard then 0.08 else 0.05)
         + f_lit F (if temporal_gain then 1 else 0) * f_lit F (if hard then 0.060 else 0.035)
         + lexical_support + full_requirement_hit
         - redundancy_penalty - no_coverage_penalty - missing_subject_penalty)"

definition best_session ::
  "'f::{plus,minus,times,linorder} f32_ops \<Rightarrow> QueryPlan \<Rightarrow> cover \<Rightarrow> bool list \<Rightarrow> 'f SessionBucket list \<Rightarrow> nat option" where
  "best_session F plan c chosen sessions =
     fst (foldl (\<lambda>(best_idx, best_score) (idx, s).
            if chosen ! idx then (best_idx, best_score)
            else if best_score < selection_score F plan c s then (Some idx, selection_score F plan c s)
            else (best_idx, best_score))
          (None, f_lowest F) (enumerate 0 sessions))"

text \<open>The loop; it also ends when no session scores above the least float.\<close>

function set_selection ::
  "'f::{plus,minus,times,linorder} f32_ops \<Rightarrow> QueryPlan \<Rightarrow> 'f SessionBucket list \<Rightarrow> cover \<Rightarrow> bool list \<Rightarrow> nat list \<Rightarrow> nat list" where
  "set_selection F plan sessions c chosen ordered =
     (if length ordered < length sessions
      then (case best_session F plan c chosen sessions of
              None \<Rightarrow> ordered
            | Some i \<Rightarrow> set_selection F plan sessions (cover_add (sessions ! i) c) (chosen[i := True]) (ordered @ [i]))
      else ordered)"
  by pat_completeness auto
termination
  by (relation "measure (\<lambda>(_, _, sessions, _, _, ordered). length sessions - length ordered)") auto

declare set_selection.simps [simp del]

definition use_requirement_set_selection :: "QueryPlan \<Rightarrow> bool" where
  "use_requirement_set_selection plan =
     ((qp_coverage_mode plan \<or> qp_requirements plan \<noteq> [])
      \<and> (qp_needs_decomposition plan \<or> qp_cross_entity plan \<or> qp_ordinal_rank plan \<noteq> None
          \<or> qp_coverage_mode plan \<or> qp_intent plan = Inference))"

definition order_sessions ::
  "'f::{plus,minus,times,linorder} f32_ops \<Rightarrow> QueryPlan \<Rightarrow> 'f SessionBucket list \<Rightarrow> 'f SessionBucket list" where
  "order_sessions F plan sessions =
     (if use_requirement_set_selection plan
      then map (\<lambda>i. sessions ! i)
             (filter (\<lambda>i. i < length sessions)
               (set_selection F plan sessions (cover_start plan) (replicate (length sessions) False) []))
      else sort_desc sb_score sessions)"

subsection \<open>Rounds\<close>

text \<open>The answers selected, the ids seen and whether the round made progress.\<close>

type_synonym 'f picks = "'f EvidenceCard list \<times> str set"

fun round_pass :: "nat \<Rightarrow> nat \<Rightarrow> 'f SessionBucket list \<Rightarrow> 'f picks \<Rightarrow> bool \<Rightarrow> 'f picks \<times> bool" where
  "round_pass limit depth [] p progressed = (p, progressed)"
| "round_pass limit depth (s # ss) (selected, seen) progressed =
     (if depth < length (sb_items s) \<and> ec_source_memory_id (sb_items s ! depth) \<notin> seen
      then (let candidate = sb_items s ! depth;
                p = (selected @ [candidate], insert (ec_source_memory_id candidate) seen)
            in if limit \<le> length (fst p) then (p, True) else round_pass limit depth ss p True)
      else round_pass limit depth ss (selected, seen) progressed)"

lemma round_pass_skip:
  "\<not> (depth < length (sb_items s) \<and> ec_source_memory_id (sb_items s ! depth) \<notin> snd p)
   \<Longrightarrow> round_pass limit depth (s # ss) p b = round_pass limit depth ss p b"
  by (cases p) auto

lemma round_pass_take:
  "depth < length (sb_items s) \<Longrightarrow> ec_source_memory_id (sb_items s ! depth) \<notin> snd p
   \<Longrightarrow> round_pass limit depth (s # ss) p b =
     (let p' = (fst p @ [sb_items s ! depth], insert (ec_source_memory_id (sb_items s ! depth)) (snd p))
      in if limit \<le> Suc (length (fst p)) then (p', True) else round_pass limit depth ss p' True)"
  by (cases p) (simp add: Let_def)

declare round_pass.simps(2) [simp del]

lemma round_pass_progress:
  "length (fst p) \<le> length (fst (fst (round_pass limit depth ss p b)))
   \<and> (snd (round_pass limit depth ss p b) \<longrightarrow> b \<or> length (fst p) < length (fst (fst (round_pass limit depth ss p b))))"
proof (induction ss arbitrary: p b)
  case (Cons s ss)
  show ?case
  proof (cases "depth < length (sb_items s) \<and> ec_source_memory_id (sb_items s ! depth) \<notin> snd p")
    case True
    define p' where "p' = (fst p @ [sb_items s ! depth], insert (ec_source_memory_id (sb_items s ! depth)) (snd p))"
    have "round_pass limit depth (s # ss) p b = (if limit \<le> Suc (length (fst p)) then (p', True) else round_pass limit depth ss p' True)"
      using round_pass_take [of depth s p limit ss b] True by (simp add: p'_def Let_def)
    then show ?thesis using Cons.IH [of p' True] by (auto simp: p'_def)
  next
    case False
    then show ?thesis using Cons.IH [of p b] round_pass_skip [of depth s p limit ss b] by metis
  qed
qed simp

function rounds :: "nat \<Rightarrow> 'f SessionBucket list \<Rightarrow> nat \<Rightarrow> 'f picks \<Rightarrow> 'f picks" where
  "rounds limit sessions depth p =
     (if length (fst p) < limit
      then (let (p', progressed) = round_pass limit depth sessions p False
            in if progressed then rounds limit sessions (depth + 1) p' else p')
      else p)"
  by pat_completeness auto
termination
proof (relation "measure (\<lambda>(limit, _, _, p). limit - length (fst p))")
  fix limit depth sessions and p p' :: "'f picks" and x progressed
  assume "length (fst p) < limit" "x = round_pass limit depth sessions p False" "(p', progressed) = x" progressed
  then have "length (fst p) < length (fst p')"
    using round_pass_progress [of p limit depth sessions False] by (metis fst_conv snd_conv)
  then show "((limit, sessions, depth + 1, p'), limit, sessions, depth, p) \<in> measure (\<lambda>(limit, _, _, p). limit - length (fst p))"
    using \<open>length (fst p) < limit\<close> by simp
qed simp

declare rounds.simps [simp del]

fun fill :: "nat \<Rightarrow> 'f EvidenceCard list \<Rightarrow> 'f picks \<Rightarrow> 'f picks" where
  "fill limit [] p = p"
| "fill limit (c # cs) (selected, seen) =
     (if limit \<le> length selected then (selected, seen)
      else if ec_source_memory_id c \<notin> seen
      then fill limit cs (selected @ [c], insert (ec_source_memory_id c) seen)
      else fill limit cs (selected, seen))"

definition by_score :: "'f::linorder EvidenceCard list \<Rightarrow> 'f EvidenceCard list" where
  "by_score items = sort_desc ec_final_score (sort_key ec_source_memory_id items)"

definition select_candidates_with_session_head ::
  "'f::{plus,minus,times,inverse,linorder} f32_ops \<Rightarrow> (str \<Rightarrow> bool) \<Rightarrow> 'f EvidenceCard list \<Rightarrow> nat \<Rightarrow> QueryPlan
    \<Rightarrow> bool \<Rightarrow> bool \<Rightarrow> 'f EvidenceCard list" where
  "select_candidates_with_session_head F alnum candidates limit plan prefer_distilled prefer_episodic =
     (if limit = 0 \<or> candidates = [] then []
      else
        let buckets = map (session_bucket F alnum plan prefer_distilled prefer_episodic) (grouped candidates);
            sessions = order_sessions F plan buckets;
            (selected, seen) = rounds limit sessions 0 ([], {});
            (selected', _) =
              (if length selected < limit
               then fill limit (by_score (concat (map sb_items sessions))) (selected, seen)
               else (selected, seen))
        in by_score selected')"

subsection \<open>What selection promises\<close>

lemma mset_remove_at: "i < length xs \<Longrightarrow> add_mset (xs ! i) (mset (remove_at i xs)) = mset xs"
  by (simp add: remove_at_def) (metis id_take_nth_drop mset.simps(2) mset_append union_mset_add_mset_right)

lemma mset_reorder_loop: "mset (reorder_loop F m items) = mset items"
proof (induction F m items rule: reorder_loop.induct)
  case (1 F covered_mask remaining)
  show ?case
  proof (cases "remaining = []")
    case False
    then have "best_item F covered_mask remaining < length remaining" by (rule best_item_bound)
    then show ?thesis using 1 [OF False refl refl] False
      by (subst reorder_loop.simps) (simp add: Let_def mset_remove_at)
  qed (simp add: reorder_loop.simps)
qed

lemma set_bucket_items:
  "set (sb_items (session_bucket F alnum plan pd pe members)) = set members"
proof -
  have "mset (sb_items (session_bucket F alnum plan pd pe members)) = mset members"
    by (simp add: session_bucket_def Let_def reorder_session_items_for_requirements_def mset_reorder_loop sort_session_def)
  then show ?thesis by (rule mset_eq_setD)
qed

lemma set_grouped: "\<Union> (set ` set (grouped candidates)) = set candidates"
  by (auto simp: grouped_def)

lemma best_session_go:
  assumes step_def: "step = (\<lambda>(best_idx, best_score) (idx, s).
    if chosen ! idx then (best_idx, best_score)
    else if best_score < selection_score F plan c s then (Some idx, selection_score F plan c s) else (best_idx, best_score))"
  shows "(fst (foldl step b (enumerate n ss)) = fst b
       \<or> (\<exists>i. fst (foldl step b (enumerate n ss)) = Some i \<and> n \<le> i \<and> i < n + length ss \<and> \<not> chosen ! i))
    \<and> (fst (foldl step b (enumerate n ss)) = None \<longrightarrow> fst b = None
       \<and> (\<forall>i < length ss. \<not> chosen ! (n + i) \<longrightarrow> \<not> snd b < selection_score F plan c (ss ! i)))"
proof (induction ss arbitrary: b n)
  case (Cons s ss)
  obtain bi bs where b: "b = (bi, bs)" by force
  define b' where "b' = step b (n, s)"
  have b': "b' = b \<and> (chosen ! n \<or> \<not> snd b < selection_score F plan c s) \<or> fst b' = Some n \<and> \<not> chosen ! n"
    by (auto simp: b'_def step_def b)
  have fold: "foldl step b (enumerate n (s # ss)) = foldl step b' (enumerate (Suc n) ss)" by (simp add: b'_def)
  define r where "r = foldl step b' (enumerate (Suc n) ss)"
  have IH: "fst r = fst b' \<or> (\<exists>i. fst r = Some i \<and> Suc n \<le> i \<and> i < Suc n + length ss \<and> \<not> chosen ! i)"
    "fst r = None \<Longrightarrow> fst b' = None"
    "\<And>i. fst r = None \<Longrightarrow> i < length ss \<Longrightarrow> \<not> chosen ! (Suc n + i) \<Longrightarrow> \<not> snd b' < selection_score F plan c (ss ! i)"
    using Cons.IH [of b' "Suc n"] unfolding r_def by blast+
  have "fst r = fst b \<or> (\<exists>i. fst r = Some i \<and> n \<le> i \<and> i < n + length (s # ss) \<and> \<not> chosen ! i)"
    using IH(1) b' by auto
  moreover have "fst b = None \<and> (\<forall>i < length (s # ss). \<not> chosen ! (n + i) \<longrightarrow> \<not> snd b < selection_score F plan c ((s # ss) ! i))"
    if none: "fst r = None"
  proof -
    have same: "b' = b" "chosen ! n \<or> \<not> snd b < selection_score F plan c s" using IH(2) [OF none] b' by auto
    have "\<not> snd b < selection_score F plan c ((s # ss) ! i)" if "i < length (s # ss)" "\<not> chosen ! (n + i)" for i
      using that same IH(3) [OF none, of "i - 1"] by (cases i) auto
    then show ?thesis using IH(2) [OF none] same by simp
  qed
  ultimately show ?case unfolding fold r_def by blast
qed simp

lemma best_session_Some:
  "best_session F plan c chosen sessions = Some i \<Longrightarrow> i < length sessions \<and> \<not> chosen ! i"
  using best_session_go [OF refl, where b = "(None, f_lowest F)" and n = 0 and ss = sessions and chosen = chosen and F = F and plan = plan and c = c] by (auto simp: best_session_def)

lemma best_session_None:
  "best_session F plan c chosen sessions = None \<Longrightarrow> i < length sessions \<Longrightarrow> \<not> chosen ! i
   \<Longrightarrow> \<not> f_lowest F < selection_score F plan c (sessions ! i)"
  using best_session_go [OF refl, where b = "(None, f_lowest F)" and n = 0 and ss = sessions and chosen = chosen and F = F and plan = plan and c = c] by (auto simp: best_session_def)

lemma set_selection_all:
  assumes "\<And>c s. s \<in> set sessions \<Longrightarrow> f_lowest F < selection_score F plan c s"
    and "distinct ordered" "set ordered \<subseteq> {..<length sessions}" "length chosen = length sessions"
    and "\<And>i. i < length sessions \<Longrightarrow> chosen ! i \<longleftrightarrow> i \<in> set ordered"
  shows "set (set_selection F plan sessions c chosen ordered) = {..<length sessions}"
  using assms
proof (induction F plan sessions c chosen ordered rule: set_selection.induct)
  case (1 F plan sessions c chosen ordered)
  show ?case
  proof (cases "length ordered < length sessions")
    case True
    have "card (set ordered) < card {..<length sessions}" using True 1(3) by (simp add: distinct_card)
    then obtain j where j: "j < length sessions" "j \<notin> set ordered"
      using 1(4) by (metis card_mono finite_set lessThan_iff linorder_not_le subsetI)
    have "best_session F plan c chosen sessions \<noteq> None"
      using best_session_None [of F plan c chosen sessions j] j 1(2,6) by (metis nth_mem)
    then obtain i where i: "best_session F plan c chosen sessions = Some i" by blast
    have i': "i < length sessions" "i \<notin> set ordered" using best_session_Some [OF i] 1(6) by auto
    have "set (set_selection F plan sessions (cover_add (sessions ! i) c) (chosen[i := True]) (ordered @ [i])) = {..<length sessions}"
      using 1(1) [OF True i] 1(2-) i' by (auto simp: nth_list_update)
    then show ?thesis using True i by (simp add: set_selection.simps)
  next
    case False
    then have "set ordered = {..<length sessions}"
      using 1(3,4) by (metis card_lessThan card_subset_eq distinct_card finite_lessThan card_mono le_antisym linorder_not_less)
    then show ?thesis using False by (simp add: set_selection.simps)
  qed
qed

lemma set_order_sessions:
  "set (order_sessions F plan sessions) \<subseteq> set sessions"
  "(\<And>c s. use_requirement_set_selection plan \<Longrightarrow> s \<in> set sessions \<Longrightarrow> f_lowest F < selection_score F plan c s)
   \<Longrightarrow> set (order_sessions F plan sessions) = set sessions"
proof -
  show "set (order_sessions F plan sessions) \<subseteq> set sessions"
    by (auto simp: order_sessions_def)
  assume fin: "\<And>c s. use_requirement_set_selection plan \<Longrightarrow> s \<in> set sessions \<Longrightarrow> f_lowest F < selection_score F plan c s"
  show "set (order_sessions F plan sessions) = set sessions"
  proof (cases "use_requirement_set_selection plan")
    case True
    have "set (set_selection F plan sessions (cover_start plan) (replicate (length sessions) False) []) = {..<length sessions}"
      by (rule set_selection_all) (auto intro: fin [OF True])
    then have "set (order_sessions F plan sessions) = (!) sessions ` {..<length sessions}"
      using True by (auto simp: order_sessions_def)
    then show ?thesis by (simp add: set_conv_nth image_Collect lessThan_def) blast?
  qed (simp add: order_sessions_def)
qed

definition picks_ok :: "nat \<Rightarrow> 'f EvidenceCard set \<Rightarrow> 'f picks \<Rightarrow> bool" where
  "picks_ok limit pool p \<longleftrightarrow>
     snd p = ec_source_memory_id ` set (fst p) \<and> distinct (map ec_source_memory_id (fst p))
     \<and> set (fst p) \<subseteq> pool \<and> length (fst p) \<le> limit"

lemma picks_ok_add:
  "picks_ok limit pool p \<Longrightarrow> length (fst p) < limit \<Longrightarrow> c \<in> pool \<Longrightarrow> ec_source_memory_id c \<notin> snd p
   \<Longrightarrow> picks_ok limit pool (fst p @ [c], insert (ec_source_memory_id c) (snd p))"
  by (auto simp: picks_ok_def)

lemma round_pass_ok:
  assumes "picks_ok limit pool p" "length (fst p) < limit" "\<Union> (set ` sb_items ` set ss) \<subseteq> pool"
  shows "picks_ok limit pool (fst (round_pass limit depth ss p b))"
  using assms
proof (induction ss arbitrary: p b)
  case (Cons s ss)
  show ?case
  proof (cases "depth < length (sb_items s) \<and> ec_source_memory_id (sb_items s ! depth) \<notin> snd p")
    case True
    define p' where "p' = (fst p @ [sb_items s ! depth], insert (ec_source_memory_id (sb_items s ! depth)) (snd p))"
    have step: "round_pass limit depth (s # ss) p b = (if limit \<le> Suc (length (fst p)) then (p', True) else round_pass limit depth ss p' True)"
      using round_pass_take [of depth s p limit ss b] True by (simp add: p'_def Let_def)
    have "sb_items s ! depth \<in> pool" using True Cons.prems(3) nth_mem by fastforce
    then have ok: "picks_ok limit pool p'" unfolding p'_def using Cons.prems True by (intro picks_ok_add) auto
    show ?thesis using ok Cons.IH [OF ok, of True] Cons.prems(3) by (auto simp: step p'_def)
  next
    case False
    have "picks_ok limit pool (fst (round_pass limit depth ss p b))"
      using Cons.IH [OF Cons.prems(1,2)] Cons.prems(3) by auto
    then show ?thesis using round_pass_skip [OF False, of limit ss b] by metis
  qed
qed simp

lemma rounds_ok:
  assumes "picks_ok limit pool p" "\<Union> (set ` sb_items ` set ss) \<subseteq> pool"
  shows "picks_ok limit pool (rounds limit ss depth p)"
  using assms
proof (induction limit ss depth p rule: rounds.induct)
  case (1 limit ss depth p)
  show ?case
  proof (cases "length (fst p) < limit")
    case True
    have ok: "picks_ok limit pool (fst (round_pass limit depth ss p False))"
      using 1(2) True 1(3) by (rule round_pass_ok)
    show ?thesis
      using 1(1) [OF True refl surjective_pairing [symmetric]] 1(3) ok True
      by (subst rounds.simps) (simp add: split_beta)
  next
    case False
    then show ?thesis using 1(2) by (subst rounds.simps) simp
  qed
qed

lemma fill_ok:
  assumes "picks_ok limit pool p" "set cs \<subseteq> pool"
  shows "picks_ok limit pool (fill limit cs p)
    \<and> (length (fst (fill limit cs p)) = limit \<or> ec_source_memory_id ` set cs \<subseteq> snd (fill limit cs p))
    \<and> snd p \<subseteq> snd (fill limit cs p)"
  using assms
proof (induction cs arbitrary: p)
  case (Cons c cs)
  obtain selected seen where p: "p = (selected, seen)" by force
  consider "limit \<le> length selected" | "length selected < limit" "ec_source_memory_id c \<notin> seen"
    | "length selected < limit" "ec_source_memory_id c \<in> seen" by linarith
  then show ?case
  proof cases
    case 1
    then show ?thesis using Cons.prems by (auto simp: p picks_ok_def)
  next
    case 2
    have ok: "picks_ok limit pool (selected @ [c], insert (ec_source_memory_id c) seen)"
      using picks_ok_add [OF Cons.prems(1), of c] 2 Cons.prems(2) by (simp add: p)
    show ?thesis using Cons.IH [OF ok] Cons.prems(2) 2 by (auto simp: p)
  next
    case 3
    have "fill limit (c # cs) p = fill limit cs p" using 3 by (simp add: p)
    then show ?thesis using Cons.IH [of p] Cons.prems 3 by (auto simp: p)
  qed
qed auto

lemma set_by_score [simp]: "set (by_score xs) = set xs"
  by (simp add: by_score_def)

lemma length_by_score [simp]: "length (by_score xs) = length xs"
  by (simp add: by_score_def)

lemma distinct_ids_by_score: "distinct (map ec_source_memory_id (by_score xs)) = distinct (map ec_source_memory_id xs)"
proof -
  have "mset (map ec_source_memory_id (by_score xs)) = mset (map ec_source_memory_id xs)" by (simp add: by_score_def)
  then show ?thesis by (rule mset_eq_imp_distinct_iff)
qed

text \<open>
  C7. The answers are memories of the candidates, none twice, best score first and equal scores by
  memory id, and as many as there are: the limit, or every memory when there are fewer.  That all
  sessions are ordered asks every session to score above \<open>f32::MIN\<close> where the requirement set decides
  their order.
\<close>

theorem selection_correct:
  fixes F :: "'f::{plus,minus,times,inverse,linorder} f32_ops"
  assumes out: "out = select_candidates_with_session_head F alnum candidates limit plan prefer_distilled prefer_episodic"
    and scored: "\<And>c members. use_requirement_set_selection plan \<Longrightarrow> members \<in> set (grouped candidates)
      \<Longrightarrow> f_lowest F < selection_score F plan c (session_bucket F alnum plan prefer_distilled prefer_episodic members)"
  shows "set out \<subseteq> set candidates \<and> distinct (map ec_source_memory_id out)
    \<and> length out = min limit (card (ec_source_memory_id ` set candidates))
    \<and> sorted_wrt (\<lambda>a b. ec_final_score b < ec_final_score a
         \<or> ec_final_score a = ec_final_score b \<and> ec_source_memory_id a < ec_source_memory_id b) out"
proof (cases "limit = 0 \<or> candidates = []")
  case True
  then show ?thesis by (auto simp: out select_candidates_with_session_head_def)
next
  case False
  define buckets where "buckets = map (session_bucket F alnum plan prefer_distilled prefer_episodic) (grouped candidates)"
  define sessions where "sessions = order_sessions F plan buckets"
  define p where "p = rounds limit sessions 0 ([], {})"
  define cs where "cs = by_score (concat (map sb_items sessions))"
  define p' where "p' = (if length (fst p) < limit then fill limit cs p else p)"
  have out': "out = by_score (fst p')"
    using False by (simp add: out select_candidates_with_session_head_def Let_def split_beta p'_def cs_def p_def
        sessions_def buckets_def)
  have "set sessions = set buckets"
    unfolding sessions_def by (rule set_order_sessions(2)) (auto simp: buckets_def intro: scored)
  then have pool: "\<Union> (set ` sb_items ` set sessions) = set candidates"
    using set_grouped [of candidates] by (simp add: buckets_def image_image set_bucket_items)
  have ok: "picks_ok limit (set candidates) p"
    unfolding p_def using pool by (intro rounds_ok) (simp_all add: picks_ok_def)
  have cs: "set cs = set candidates" using pool by (auto simp: cs_def)
  have filled: "picks_ok limit (set candidates) p' \<and> (length (fst p') = limit \<or> ec_source_memory_id ` set candidates \<subseteq> snd p')"
    using fill_ok [OF ok, of cs] ok cs by (auto simp: p'_def picks_ok_def)
  have parts: "snd p' = ec_source_memory_id ` set (fst p')" "distinct (map ec_source_memory_id (fst p'))"
    "set (fst p') \<subseteq> set candidates" "length (fst p') \<le> limit"
    using filled by (auto simp: picks_ok_def)
  have len: "length (fst p') = card (ec_source_memory_id ` set (fst p'))"
    using distinct_card [OF parts(2)] by simp
  have le: "length (fst p') \<le> card (ec_source_memory_id ` set candidates)"
    unfolding len using parts(3) by (intro card_mono) auto
  have "length (fst p') = min limit (card (ec_source_memory_id ` set candidates))"
  proof (cases "length (fst p') = limit")
    case False
    then have "ec_source_memory_id ` set candidates \<subseteq> ec_source_memory_id ` set (fst p')" using filled parts(1) by blast
    then have "card (ec_source_memory_id ` set candidates) \<le> length (fst p')" unfolding len by (intro card_mono) auto
    then show ?thesis using le parts(4) by simp
  qed (use le in simp)
  moreover have "sorted_wrt (\<lambda>a b. ec_final_score b < ec_final_score a
       \<or> ec_final_score a = ec_final_score b \<and> ec_source_memory_id a < ec_source_memory_id b) out"
    unfolding out' by_score_def by (rule sort_desc_stable_wrt [OF sorted_key_less [OF parts(2)]])
  ultimately show ?thesis using parts(2,3) by (simp add: out' distinct_ids_by_score)
qed

definition rat_f32 :: "rat f32_ops" where
  "rat_f32 = \<lparr>f_lit = \<lambda>r. r, f_usize = of_nat, f_lowest = - 1000, f_parse = \<lambda>_. None, f_round = \<lambda>_. 0\<rparr>"

definition sample_card :: "str \<Rightarrow> str \<Rightarrow> rat \<Rightarrow> rat EvidenceCard" where
  "sample_card memory session score =
     \<lparr>ec_claim_text = [], ec_source_memory_id = memory, ec_source_session_id = session, ec_card_id = None,
      ec_semantic_rank = None, ec_semantic_score = 0, ec_bm25_rank = None, ec_bm25_score = 0,
      ec_session_router_rank = None, ec_session_router_score = 0, ec_card_score = 0, ec_reranker_score = 0,
      ec_entity_hits = 1, ec_lexical_hits = 1, ec_temporal_hits = 0, ec_facet_mask = 0, ec_graph_score = 0,
      ec_child_score = 0, ec_is_latest = True, ec_card_type = [], ec_final_score = score, ec_inference_notes = None,
      ec_internal_kind = Fact, ec_created_at_ms = 0, ec_entity_id = [], ec_source_turn_index = 0\<rparr>"

definition sample_plan :: QueryPlan where
  "sample_plan =
     \<lparr>qp_semantic_queries = [], qp_fts_queries = [], qp_coverage_facets = [], qp_requirements = [],
      qp_prefer_distilled = False, qp_prefer_episodic = False, qp_temporal_terms = [], qp_lexical_terms = [],
      qp_intent = General, qp_subject_entities = [], qp_cross_entity = False, qp_needs_decomposition = False,
      qp_coverage_mode = True, qp_ordinal_rank = None, qp_fact_key = None, qp_prefers_latest = False\<rparr>"

lemma count_ones_0 [simp]: "count_ones 0 = 0"
  by (simp add: count_ones_def)

lemma sample_grouped:
  "grouped [sample_card ''m1'' ''s1'' 1, sample_card ''m2'' ''s2'' 2, sample_card ''m2'' ''s2'' 2] =
     [[sample_card ''m1'' ''s1'' 1], [sample_card ''m2'' ''s2'' 2, sample_card ''m2'' ''s2'' 2]]"
  by (simp add: grouped_def session_key_def sample_card_def)

lemma sample_session_score:
  "0 \<le> score \<Longrightarrow> 0 \<le> session_score rat_f32 alnum sample_plan False False [sample_card m s score]"
  "0 \<le> score \<Longrightarrow> 0 \<le> session_score rat_f32 alnum sample_plan False False [sample_card m s score, sample_card m s score]"
  by (simp_all add: session_score_def session_coverage_bonus_def nth_score_def rat_f32_def sample_plan_def sample_card_def
      inspected_def hit_terms_def coverage_def mask_union_def max_of_def distilled_kind_def Let_def)

lemma sample_selection_score:
  assumes "0 \<le> sb_score b"
  shows "f_lowest rat_f32 < selection_score rat_f32 sample_plan c b"
proof -
  define gains where "gains = of_nat (count_ones (and (sb_requirement_mask b) (cv_uncovered_mask c))) * 0.36
    + of_nat (count_ones (and (sb_facet_mask b) (cv_uncovered_facet_mask c))) * 0.18
    + of_nat (min (sb_max_entity_hits b - cv_entity_hits c) 2) * (0.08 :: rat)
    + min (of_nat (sb_max_lexical_hits b)) 5 * 0.014"
  have "0 \<le> gains" by (simp add: gains_def)
  moreover have "gains + sb_score b * 0.62 - 0.28 \<le> selection_score rat_f32 sample_plan c b"
    by (simp add: selection_score_def rat_f32_def sample_plan_def gains_def Let_def)
  moreover have "0 \<le> sb_score b * 0.62" using assms by simp
  ultimately show ?thesis by (simp add: rat_f32_def)
qed

theorem selection_correct_witness:
  "length (select_candidates_with_session_head rat_f32 (list_all is_alnum)
     [sample_card ''m1'' ''s1'' 1, sample_card ''m2'' ''s2'' 2, sample_card ''m2'' ''s2'' 2] 3 sample_plan False False) = 2"
proof -
  let ?cs = "[sample_card ''m1'' ''s1'' 1, sample_card ''m2'' ''s2'' 2, sample_card ''m2'' ''s2'' 2]"
  have "f_lowest rat_f32 < selection_score rat_f32 sample_plan c (session_bucket rat_f32 (list_all is_alnum) sample_plan False False members)"
    if "members \<in> set (grouped ?cs)" for c members
    using that unfolding sample_grouped
    by (intro sample_selection_score)
      (auto simp: session_bucket_def sort_session_def sort_desc_def Let_def sample_session_score)
  from selection_correct [OF refl this, where limit = 3] show ?thesis
    by (simp add: sample_card_def)
qed

end
