(* ===== verification/Spec2Isabelle.thy ===== *)
theory Spec2Isabelle
  imports Features Lookups Deletion_Laws Calendar_Laws Account_Laws Permits Tenant_Laws Fact_Reads Retention_Laws Graph_Store Embed_Text Session_Selection
begin

text \<open>
  tellodb is a memory server for language-model agents.  A client sends observations (texts of a
  conversation, documents, facts) for an entity; the server cuts them into chunks, derives
  companion records, embeds them, writes everything in one SQLite transaction of the user's own
  database, and later answers questions by combining full-text search, vector search, the memory
  graph and the versions of facts.  This library models the core of the crate \<open>src/src\<close> and proves
  what makes it correct.  Every definition is a translation of Rust code; the file
  \<open>PROJECT.json\<close> maps each one to its lines.

  \<^bold>\<open>How the parts interact.\<close>  A request is authenticated and rate limited (\<open>Auth\<close>), mapped to the
  database of its principal (\<open>Tenants\<close>) and handed to an endpoint.  Ingest expands the payloads
  (\<open>Chunking\<close>, \<open>Dialogue\<close>, \<open>Claims\<close>, \<open>Companions\<close>), builds the texts to embed (\<open>Embed_Text\<close>),
  classifies each memory (\<open>Lifecycle\<close>) and commits the batch (\<open>Ingest\<close>, over the tables of \<open>Store\<close>,
  the routers of \<open>Router\<close> and the fact chains of \<open>Fact_Registry\<close>).  The vector index follows the
  tables (\<open>Vector_Index\<close>).  A query is analysed (\<open>Query_Intent\<close>, \<open>Expansions\<close>, \<open>Query_Plan\<close>,
  \<open>Calendar\<close>), its candidates are read (\<open>Lookups\<close>, \<open>Fact_Reads\<close>, \<open>Graph_Store\<close>,
  \<open>Vector_Search\<close>), fused and scored (\<open>Session_Scoring\<close>) and selected (\<open>Session_Selection\<close>).
  Deletion and retention (\<open>Deletion\<close>, \<open>Retention\<close>) undo an ingest in all tables and in the index.

  \<^bold>\<open>Foundations.\<close>
  \<^item> \<open>Prelude\<close>: machine integers with saturating and checked operations, bytes, hexadecimal and
    little-endian blobs, tables as lists of rows with their \<open>UPDATE\<close>, \<open>DELETE\<close> and
    \<open>INSERT ... ON CONFLICT\<close>, ordered reads, the interface \<open>keyed_table\<close> of a table with a key.
  \<^item> \<open>Rust_String\<close>: strings as lists of characters with the functions of \<open>str\<close> the crate calls.

  \<^bold>\<open>Storage.\<close>
  \<^item> \<open>Store\<close> (\<open>storage/repo/schema.rs\<close>, \<open>storage/tenant.rs\<close>): one record type per table and the
    database \<open>tenant_db\<close>.  A transaction is a function from a database to an error or a new one;
    a failing statement rolls back because the caller keeps the old value.
  \<^item> \<open>Fact_Store\<close>, \<open>Fact_Chain\<close>, \<open>Fact_Registry\<close> (\<open>storage/repo/facts.rs\<close>): registration of fact
    versions as SQL statements on the rows.  The abstract view of a chain is the list of its
    versions in the order of validity; \<open>chain_ok\<close> says that the pointers, the intervals and the
    statuses of the rows are those of that list.  Registration refines insertion into it.
  \<^item> \<open>Ingest\<close>, \<open>Ingest_Laws\<close> (\<open>storage/repo/ingest.rs\<close>): the write transaction with its cards,
    sources, links, edges, full-text documents, queues and metrics; the invariant \<open>db_ok\<close>.
  \<^item> \<open>Deletion\<close>, \<open>Deletion_Laws\<close> (\<open>storage/repo/memories.rs\<close>): \<open>delete_observation\<close> with the rebuild
    of the chains it cuts, the routers and profiles it cleans and the tombstone it leaves.
  \<^item> \<open>Retention\<close>, \<open>Retention_Laws\<close> (\<open>storage/repo/admin.rs\<close>, \<open>handlers/system.rs\<close>): the purge of expired
    memories from tables and index together, the work queues, the administration endpoints.
  \<^item> \<open>Lookups\<close>, \<open>Fact_Reads\<close>, \<open>Graph_Store\<close> (\<open>memories.rs\<close>, \<open>facts.rs\<close>, \<open>graph.rs\<close>): the reads, single and
    in padded batches.
  \<^item> \<open>Memory_Id\<close>, \<open>Router\<close>, \<open>Fts_Keys\<close>, \<open>Names\<close>, \<open>Features\<close>: identifiers, session routers, full-text
    quoting and embedding blobs, the enumerations stored as text, the feature switches.
  \<^item> \<open>Vector_Index\<close>, \<open>Vector_Index_Laws\<close>, \<open>Vector_Search\<close> (\<open>vector_index.rs\<close>): flat segments in every
    precision with their byte buffers, removal by swapping, search with rescoring; a flat segment
    is refined to a map from ids to encoded rows.  The HNSW graph is the usearch crate: its calls
    are modelled, what it answers is a parameter.

  \<^bold>\<open>Accounts and requests.\<close>
  \<^item> \<open>Platform\<close>, \<open>Platform_Laws\<close>, \<open>Account_Laws\<close> (\<open>platform.rs\<close>): users, sessions, keys, usage, profiles,
    random tokens.  Hashes are a parameter; where a proof needs that two secrets have two hashes it
    says so.
  \<^item> \<open>Auth\<close>, \<open>Auth_Laws\<close> (\<open>api/auth.rs\<close>): principals, the comparison of keys, token buckets over exact
    rational numbers.
  \<^item> \<open>Platform_Api\<close>, \<open>Platform_Api_Laws\<close> (\<open>handlers/platform.rs\<close>), \<open>Tenants\<close>, \<open>Tenant_Laws\<close>
    (\<open>storage/manager.rs\<close>, \<open>runtime_paths.rs\<close>): the account endpoints; which database file a request
    reaches.
  \<^item> \<open>Permits\<close> (\<open>semantic.rs\<close>): the semaphore around the models as a step relation whose states hold
    the threads that wait, were notified or hold a permit; invariants by rule induction.

  \<^bold>\<open>Texts.\<close>
  \<^item> \<open>Calendar\<close>, \<open>Datetime\<close>, \<open>Calendar_Laws\<close> (\<open>core/calendar.rs\<close>, \<open>ingest/datetime.rs\<close>): days, months, the
    window of a query, the dates of an ingested text.
  \<^item> \<open>Texts\<close>, \<open>Chunking\<close>, \<open>Dialogue\<close>, \<open>Claims\<close>, \<open>Companions\<close>, \<open>Embed_Text\<close> (\<open>core/text.rs\<close>, \<open>api/ingest/*\<close>):
    normalisation, chunks, dialogue turns, facts found by rules, companion records, turn windows.
  \<^item> \<open>Lifecycle\<close> (\<open>lifecycle.rs\<close>): retention class, expiry, promotion and scores of a memory.
  \<^item> \<open>Query_Intent\<close>, \<open>Expansions\<close>, \<open>Query_Plan\<close> (\<open>api/plan/{intent,expansions,rewrite,builder}.rs\<close>): what a
    query asks for and the texts searched for it.
  \<^item> \<open>Session_Scoring\<close>, \<open>Session_Selection\<close> (\<open>api/plan/scoring.rs\<close>): fusion of ranked lists, bonuses, and
    the choice of the answers under the limits per session.

  \<^bold>\<open>What the properties show.\<close>  Refinement of fact registration and of the flat index; invariants of
  every transaction, of all reachable account states and of the permits; safety of deletion,
  purge, tenant isolation and key revocation; agreement of batched with single reads; bounds of
  scores, windows and rate limits; round trips of identifiers, dates and blobs; the errors of the
  endpoints, and some behaviours the code has although its comments say otherwise.

  \<^bold>\<open>Parameters.\<close>  Code that is not in the repository is an argument of the definitions that use it:
  the JSON printer and parser, the hash functions, the random source and the clock, the Unicode
  tables, the embedding model and the classifiers, the HNSW graph.  Floating-point numbers are a type
  with operations (\<open>plus\<close>, \<open>times\<close>, order) whose laws a property names when it needs them; \<open>NaN\<close> is
  left out where an order is needed, and rate limits are computed over exact rationals.  Interfaces
  between components are locales with an interpretation on the definitions of the component that
  provides them.

  \<^bold>\<open>Loops and bounds.\<close>  Loops are structural recursion on the list they traverse, or \<open>function\<close> with a
  measure (the rest of a text, the answers still missing, a list cut into chunks).  No definition
  uses fuel.  The loop that draws a random token may run forever in the code; it is recursion on the
  random bytes, and \<open>random_token_correct\<close> shows that it returns as soon as the source has delivered
  enough accepted ones.  Integers keep the width of the code where it can
  wrap or saturate (\<open>u8\<close>, \<open>u32\<close>, \<open>u64\<close>, \<open>i64\<close> as words); positions in lists and counters that only
  grow with a list are natural numbers.

  \<^bold>\<open>Not modelled.\<close>  The learnt parts (ONNX encoders, the classifier heads, reranking), the HTTP and
  MCP front ends, start-up, configuration and migration, profiling and statistics, SQL queries whose
  meaning is SQLite's (the BM25 ranking of full-text search), the entity resolver.  The manifest
  lists each such part with its reason.
\<close>

end
